(* ===== verification/Prelude.thy ===== *)
theory Prelude
  imports Main "HOL-Library.Word"
begin

text \<open>
  The shared ground of the development. It fixes how the machine types of the
  Rust sources are read in HOL (a \<open>u8\<close> is an 8-bit word, a byte of protocol
  text is a HOL \<open>char\<close>, which has exactly the 256 values of a byte), models the
  few functions of the Rust standard library that the sources call on bytes and
  strings (ASCII classification, case folding, decimal parsing, UTF-8 validation), collects
  the rewrite rules on bits of words, and states the interfaces (locales)
  that several components implement.
\<close>

unbundle bit_operations_syntax

type_synonym u8 = "8 word"
type_synonym u16 = "16 word"
type_synonym u32 = "32 word"
type_synonym u64 = "64 word"
type_synonym i64 = "64 word"
type_synonym bytes = "char list"

named_theorems word_bits "membership of a bit in the result of a word operation"

declare bit_and_iff [word_bits] bit_or_iff [word_bits] bit_xor_iff [word_bits]
  bit_push_bit_iff [word_bits] bit_drop_bit_eq [word_bits]
  bit_take_bit_iff [word_bits] bit_unsigned_iff [word_bits]
  bit_mask_iff [word_bits]

section \<open>Bits of words\<close>

lemma bit_128_iff [word_bits]: "bit (0x80 :: 'a::len word) n \<longleftrightarrow> n = 7 \<and> 7 < LENGTH('a)"
proof -
  have "(0x80 :: 'a word) = 2 ^ 7" by simp
  then show ?thesis by (metis bit_exp_iff possible_bit_word)
qed

lemma bit_127_iff [word_bits]: "bit (0x7F :: 'a::len word) n \<longleftrightarrow> n < 7 \<and> n < LENGTH('a)"
proof -
  have "(0x7F :: 'a word) = mask 7" by (simp add: mask_eq_exp_minus_1)
  then show ?thesis by (metis bit_mask_iff possible_bit_word)
qed

text \<open>
  The simplifier may turn a bit of a numeral word into a bit of the integer; the
  two masks have the same reading there.
\<close>

lemma bit_127_int_iff [word_bits]: "bit (127 :: int) n \<longleftrightarrow> n < 7"
proof -
  have "(127 :: int) = mask 7" by (simp add: mask_eq_exp_minus_1)
  then show ?thesis by (metis bit_mask_iff possible_bit_int)
qed

lemma bit_128_int_iff [word_bits]: "bit (128 :: int) n \<longleftrightarrow> n = 7"
proof -
  have "(128 :: int) = 2 ^ 7" by simp
  then show ?thesis by (metis bit_exp_iff possible_bit_int)
qed

lemma bit_times_2_iff [word_bits]:
  "bit (a * 2 :: 'a::len word) n \<longleftrightarrow> n < LENGTH('a) \<and> n \<noteq> 0 \<and> bit a (n - 1)"
  using bit_double_iff [of a n] by (simp add: mult.commute)

lemma bit_beyond_length [word_bits]: "LENGTH('a) \<le> n \<Longrightarrow> \<not> bit (a :: 'a::len word) n"
  by (auto dest: bit_imp_le_length)

lemma take_bit_self_iff_unat: "take_bit n v = v \<longleftrightarrow> unat (v :: 'a::len word) < 2 ^ n"
  by (simp flip: take_bit_nat_eq_self_iff) (metis unsigned_take_bit_eq unsigned_word_eqI)

lemma bit_bound_of_unat: "unat (v :: 'a::len word) < 2 ^ n \<Longrightarrow> bit v i \<Longrightarrow> i < n"
  using take_bit_self_iff_unat [of n v] bit_take_bit_iff [of n v i] by simp

lemma unat_bound_of_bit:
  assumes "\<And>i. bit (v :: 'a::len word) i \<Longrightarrow> i < n"
  shows "unat v < 2 ^ n"
  using assms by (auto simp flip: take_bit_self_iff_unat intro!: bit_word_eqI simp: word_bits)

lemma word_split_low_high:
  "take_bit s v OR push_bit s (drop_bit s v) = (v :: 'a::len word)"
proof (rule bit_word_eqI)
  fix n assume "n < LENGTH('a)"
  then show "bit (take_bit s v OR push_bit s (drop_bit s v)) n = bit v n"
    by (cases "s \<le> n") (auto simp: word_bits)
qed

lemma word_extend_low:
  "take_bit s v OR push_bit s (take_bit k (drop_bit s v)) = take_bit (s + k) (v :: 'a::len word)"
  by (rule bit_word_eqI) (auto simp: word_bits)

section \<open>ASCII and UTF-8\<close>

definition to_ascii_lowercase :: "char \<Rightarrow> char" where
  "to_ascii_lowercase c =
     (if 65 \<le> (of_char c :: nat) \<and> (of_char c :: nat) \<le> 90 then char_of ((of_char c :: nat) + 32) else c)"

text \<open>
  The first \<open>n\<close> characters of valid UTF-8 text: a byte \<open>10xxxxxx\<close> continues the character
  before it, every other byte starts one.
\<close>

definition is_utf8_cont :: "char \<Rightarrow> bool" where
  "is_utf8_cont c \<longleftrightarrow> 128 \<le> (of_char c :: nat) \<and> (of_char c :: nat) < 192"

fun take_chars :: "nat \<Rightarrow> bytes \<Rightarrow> bytes" where
  "take_chars n [] = []"
| "take_chars n (c # cs) =
     (if is_utf8_cont c then c # take_chars n cs
      else (case n of 0 \<Rightarrow> [] | Suc m \<Rightarrow> c # take_chars m cs))"

text \<open>
  The length of the well-formed UTF-8 sequence a byte string starts with, by the table of
  well-formed sequences of the Unicode standard, and the validity test of \<open>from_utf8\<close>.
\<close>

definition byte_in :: "nat \<Rightarrow> nat \<Rightarrow> char \<Rightarrow> bool" where
  "byte_in lo hi c \<longleftrightarrow> lo \<le> of_char c \<and> of_char c \<le> hi"

fun utf8_seq :: "bytes \<Rightarrow> nat option" where
  "utf8_seq [] = None"
| "utf8_seq (c # cs) =
     (if byte_in 0 0x7F c then Some 1
      else if byte_in 0xC2 0xDF c \<and> length cs \<ge> 1 \<and> is_utf8_cont (cs ! 0) then Some 2
      else if length cs \<ge> 2 \<and> is_utf8_cont (cs ! 1) \<and>
        (byte_in 0xE0 0xE0 c \<and> byte_in 0xA0 0xBF (cs ! 0)
         \<or> byte_in 0xE1 0xEC c \<and> is_utf8_cont (cs ! 0)
         \<or> byte_in 0xED 0xED c \<and> byte_in 0x80 0x9F (cs ! 0)
         \<or> byte_in 0xEE 0xEF c \<and> is_utf8_cont (cs ! 0)) then Some 3
      else if length cs \<ge> 3 \<and> is_utf8_cont (cs ! 1) \<and> is_utf8_cont (cs ! 2) \<and>
        (byte_in 0xF0 0xF0 c \<and> byte_in 0x90 0xBF (cs ! 0)
         \<or> byte_in 0xF1 0xF3 c \<and> is_utf8_cont (cs ! 0)
         \<or> byte_in 0xF4 0xF4 c \<and> byte_in 0x80 0x8F (cs ! 0)) then Some 4
      else None)"

lemma utf8_seq_pos: "utf8_seq cs = Some n \<Longrightarrow> 0 < n \<and> cs \<noteq> []"
  by (cases cs) (auto split: if_splits)

function utf8_valid :: "bytes \<Rightarrow> bool" where
  "utf8_valid cs =
     (if cs = [] then True
      else (case utf8_seq cs of None \<Rightarrow> False | Some n \<Rightarrow> utf8_valid (drop n cs)))"
  by pat_completeness auto
termination
  by (relation "measure length") (auto dest: utf8_seq_pos)

declare utf8_valid.simps [simp del]

definition is_ascii_digit :: "char \<Rightarrow> bool" where
  "is_ascii_digit c \<longleftrightarrow> byte_in 48 57 c"

definition is_ascii_lower :: "char \<Rightarrow> bool" where
  "is_ascii_lower c \<longleftrightarrow> byte_in 97 122 c"

definition is_ascii_upper :: "char \<Rightarrow> bool" where
  "is_ascii_upper c \<longleftrightarrow> byte_in 65 90 c"

definition eq_ignore_ascii_case :: "bytes \<Rightarrow> bytes \<Rightarrow> bool" where
  "eq_ignore_ascii_case a b \<longleftrightarrow> map to_ascii_lowercase a = map to_ascii_lowercase b"

lemma utf8_valid_Nil [simp]: "utf8_valid []"
  by (simp add: utf8_valid.simps)

lemma utf8_valid_ascii: "list_all (byte_in 0 0x7F) cs \<Longrightarrow> utf8_valid cs"
proof (induction cs)
  case (Cons c cs)
  then show ?case by (subst utf8_valid.simps) simp
qed simp

text \<open>The decimal text of a number.\<close>

definition digit_char :: "nat \<Rightarrow> char" where
  "digit_char d = char_of (48 + d)"

fun decimal :: "nat \<Rightarrow> bytes" where
  "decimal n = (if n < 10 then [digit_char n] else decimal (n div 10) @ [digit_char (n mod 10)])"

declare decimal.simps [simp del]

lemma of_char_digit_char: "d < 10 \<Longrightarrow> (of_char (digit_char d) :: nat) = 48 + d"
  by (simp add: digit_char_def of_char_of)

lemma is_ascii_digit_char: "d < 10 \<Longrightarrow> is_ascii_digit (digit_char d)"
  by (simp add: is_ascii_digit_def byte_in_def of_char_digit_char)

definition digits_value :: "bytes \<Rightarrow> nat" where
  "digits_value ds = foldl (\<lambda>n d. n * 10 + (of_char d - 48)) 0 ds"

lemma digits_value_snoc [simp]: "digits_value (ds @ [d]) = digits_value ds * 10 + (of_char d - 48)"
  and digits_value_Nil [simp]: "digits_value [] = 0"
  by (simp_all add: digits_value_def)

lemma digits_value_prefix: "digits_value ds \<le> digits_value (ds @ es)"
proof (induction es rule: rev_induct)
  case (snoc e es)
  then show ?case by (simp flip: append_assoc)
qed simp

lemma digits_value_decimal: "digits_value (decimal n) = n"
proof (induction n rule: decimal.induct)
  case (1 n)
  have "digits_value (decimal n) = (if n < 10 then n else digits_value (decimal (n div 10)) * 10 + n mod 10)"
    by (subst decimal.simps) (simp add: of_char_digit_char digits_value_def)
  with 1 show ?case by simp
qed

lemma decimal_digits: "list_all is_ascii_digit (decimal n)" "decimal n \<noteq> []"
proof (induction n rule: decimal.induct)
  case (1 n)
  {
    case 1
    show ?case by (subst decimal.simps) (use "1.IH" in \<open>simp add: is_ascii_digit_char\<close>)
  next
    case 2
    show ?case by (subst decimal.simps) simp
  }
qed

lemma length_decimal: "0 < k \<Longrightarrow> n < 10 ^ k \<Longrightarrow> length (decimal n) \<le> k"
proof (induction n arbitrary: k rule: decimal.induct)
  case (1 n)
  show ?case
  proof (cases "n < 10")
    case True
    with 1 show ?thesis by (subst decimal.simps) simp
  next
    case False
    with 1(3) obtain j where j: "k = Suc j" "0 < j" by (cases k; cases "k = 1") auto
    with 1(3) have "n div 10 < 10 ^ j" by (simp add: less_mult_imp_div_less mult.commute)
    with 1(1) [OF False j(2)] False j(1) show ?thesis by (subst decimal.simps) simp
  qed
qed

text \<open>The numeric argument of \<open>str::parse::<u32>()\<close>: an optional plus sign and digits, within range.\<close>

definition parse_u32 :: "bytes \<Rightarrow> u32 option" where
  "parse_u32 s =
     (let ds = (case s of [] \<Rightarrow> [] | c # cs \<Rightarrow> if c = CHR ''+'' then cs else s)
      in if ds \<noteq> [] \<and> list_all is_ascii_digit ds \<and> digits_value ds < 2 ^ 32
         then Some (of_nat (digits_value ds)) else None)"

lemma parse_u32_decimal: "parse_u32 (decimal (unat n)) = Some n"
proof -
  obtain c cs where d: "decimal (unat n) = c # cs" using decimal_digits(2) by (cases "decimal (unat n)") auto
  with decimal_digits(1) [of "unat n"] have "c \<noteq> CHR ''+''" by (auto simp: is_ascii_digit_def byte_in_def)
  with d have "(case decimal (unat n) of [] \<Rightarrow> [] | c # cs \<Rightarrow> if c = CHR ''+'' then cs else decimal (unat n)) =
      decimal (unat n)" by simp
  moreover have "unat n < 2 ^ LENGTH(32)" by (rule unsigned_less)
  ultimately show ?thesis using decimal_digits [of "unat n"]
    by (simp add: parse_u32_def digits_value_decimal)
qed

definition is_ascii_whitespace :: "char \<Rightarrow> bool" where
  "is_ascii_whitespace c \<longleftrightarrow> c = CHR '' '' \<or> c = CHR 0x09 \<or> c = CHR 0x0A \<or> c = CHR 0x0C \<or> c = CHR 0x0D"

definition is_ascii_alphanumeric :: "char \<Rightarrow> bool" where
  "is_ascii_alphanumeric c \<longleftrightarrow> is_ascii_digit c \<or> is_ascii_lower c \<or> is_ascii_upper c"

definition to_ascii_uppercase :: "char \<Rightarrow> char" where
  "to_ascii_uppercase c = (if is_ascii_lower c then char_of ((of_char c :: nat) - 32) else c)"

text \<open>
  The lookup macro \<open>hashify::tiny_map\<close> is third-party code: it is an argument of the functions that use it, and
  \<open>tiny_map_spec\<close> is what its documentation promises for a table of distinct keys.
\<close>

definition tiny_map_spec :: "((bytes \<times> 'v) list \<Rightarrow> bytes \<Rightarrow> 'v option) \<Rightarrow> bool" where
  "tiny_map_spec tiny_map \<longleftrightarrow>
     (\<forall>table key. distinct (map fst table) \<longrightarrow> tiny_map table key = map_of table key)"

lemma tiny_map_specD:
  "tiny_map_spec tiny_map \<Longrightarrow> distinct (map fst table) \<Longrightarrow> tiny_map table key = map_of table key"
  by (simp add: tiny_map_spec_def)

section \<open>Interfaces\<close>

text \<open>
  A self-delimiting code: decoding the code of a value followed by anything gives
  the value back and leaves what follows untouched.
\<close>

locale prefix_code =
  fixes valid :: "'v \<Rightarrow> bool"
    and encode :: "'v \<Rightarrow> 'b list"
    and decode :: "'b list \<Rightarrow> ('v \<times> 'b list) option"
  assumes decode_encode: "valid v \<Longrightarrow> decode (encode v @ rest) = Some (v, rest)"
begin

lemma prefix_free:
  assumes "valid v" and "valid w" and "encode v @ r = encode w @ s"
  shows "v = w \<and> r = s"
proof -
  have "Some (v, r) = Some (w, s)"
    using assms by (metis decode_encode)
  then show ?thesis by simp
qed

lemma concat_injective:
  assumes "list_all valid vs" and "list_all valid ws"
    and "length vs = length ws" and "concat (map encode vs) @ r = concat (map encode ws) @ s"
  shows "vs = ws \<and> r = s"
  using assms(3,1,2,4)
proof (induction vs ws rule: list_induct2)
  case Nil
  then show ?case by simp
next
  case (Cons v vs w ws)
  from Cons.prems have vw: "valid v" "valid w" by simp_all
  from Cons.prems(3) have
    "encode v @ (concat (map encode vs) @ r) = encode w @ (concat (map encode ws) @ s)"
    by simp
  from prefix_free [OF vw this] Cons show ?case by simp
qed

end

text \<open>
  A table of codes: every value has a code that decodes to it. The values a table
  does not cover are ruled out by \<open>valid\<close>.
\<close>

locale code_table =
  fixes valid :: "'a \<Rightarrow> bool"
    and encode :: "'a \<Rightarrow> 'b"
    and decode :: "'b \<Rightarrow> 'a"
  assumes decode_encode: "valid a \<Longrightarrow> decode (encode a) = a"
begin

lemma encode_eq_iff: "valid a \<Longrightarrow> valid b \<Longrightarrow> encode a = encode b \<longleftrightarrow> a = b"
  by (metis decode_encode)

lemma encode_inj: "inj_on encode {a. valid a}"
  by (auto simp: inj_on_def encode_eq_iff)

end

text \<open>
  A parser that is fed bytes as they arrive. One step takes a byte and may complete a result; a call
  runs the steps over a buffer up to the first result, and returns the value \<open>pending\<close> when
  the buffer ends before one. \<open>feed\<close> is the run of the steps itself.
\<close>

fun feed :: "('s \<Rightarrow> 'c \<Rightarrow> 's \<times> 'r option) \<Rightarrow> 's \<Rightarrow> 'c list \<Rightarrow> 's \<times> ('r \<times> 'c list) option" where
  "feed step s [] = (s, None)"
| "feed step s (c # cs) =
     (case step s c of
        (s', Some r) \<Rightarrow> (s', Some (r, cs))
      | (s', None) \<Rightarrow> feed step s' cs)"

lemma feed_append:
  "feed step s (xs @ ys) =
     (case feed step s xs of
        (s', None) \<Rightarrow> feed step s' ys
      | (s', Some (r, rest)) \<Rightarrow> (s', Some (r, rest @ ys)))"
  by (induction xs arbitrary: s) (auto split: prod.splits option.splits)

lemma feed_invariant:
  assumes "\<And>s c s' r. P s \<Longrightarrow> step s c = (s', r) \<Longrightarrow> P s'"
  shows "P s \<Longrightarrow> feed step s cs = (s', r) \<Longrightarrow> P s'"
  by (induction cs arbitrary: s) (auto split: prod.splits option.splits dest: assms)

locale incremental_parser =
  fixes step :: "'s \<Rightarrow> 'c \<Rightarrow> 's \<times> 'r option"
    and parse :: "'s \<Rightarrow> 'c list \<Rightarrow> 'r \<times> 's \<times> 'c list"
    and pending :: 'r
  assumes parse_Nil: "parse s [] = (pending, s, [])"
    and parse_Cons: "parse s (c # cs) =
      (case step s c of (s', Some r) \<Rightarrow> (r, s', cs) | (s', None) \<Rightarrow> parse s' cs)"
begin

lemma parse_feed:
  "parse s cs =
     (case feed step s cs of
        (s', None) \<Rightarrow> (pending, s', [])
      | (s', Some (r, rest)) \<Rightarrow> (r, s', rest))"
  by (induction cs arbitrary: s) (auto simp: parse_Nil parse_Cons split: prod.splits option.splits)

lemma parse_append:
  "parse s (xs @ ys) =
     (case feed step s xs of
        (s', None) \<Rightarrow> parse s' ys
      | (s', Some (r, rest)) \<Rightarrow> (r, s', rest @ ys))"
  by (auto simp: parse_feed feed_append split: prod.splits option.splits)

text \<open>
  Cutting the input anywhere before the end of a result changes nothing: the first call is
  pending, and the second one, from the state it left, gives the result of the whole input.
\<close>

lemma parse_chunks:
  assumes "feed step s xs = (s', None)"
  shows "parse s xs = (pending, s', [])" and "parse s (xs @ ys) = parse s' ys"
  using assms by (simp_all add: parse_feed feed_append)

lemma parse_rest_shorter:
  "parse s cs = (r, s', rest) \<Longrightarrow> r \<noteq> pending \<Longrightarrow> length rest < length cs"
  by (induction cs arbitrary: s) (force simp: parse_Nil parse_Cons split: prod.splits option.splits)+

end

text \<open>All the results of an input, in order, and the state it leaves.\<close>

fun run_all :: "('s \<Rightarrow> 'c \<Rightarrow> 's \<times> 'r option) \<Rightarrow> 's \<Rightarrow> 'c list \<Rightarrow> 'r list \<times> 's" where
  "run_all step s [] = ([], s)"
| "run_all step s (c # cs) =
     (case step s c of
        (s', Some r) \<Rightarrow> (case run_all step s' cs of (rs, t) \<Rightarrow> (r # rs, t))
      | (s', None) \<Rightarrow> run_all step s' cs)"

lemma run_all_append:
  "run_all step s (xs @ ys) =
     (case run_all step s xs of (rs, s') \<Rightarrow> (case run_all step s' ys of (rs', t) \<Rightarrow> (rs @ rs', t)))"
  by (induction xs arbitrary: s) (auto split: prod.splits option.splits)

lemma run_all_invariant:
  assumes "\<And>s c s' r. P s \<Longrightarrow> step s c = (s', r) \<Longrightarrow> P s' \<and> pred_option Q r"
  shows "P s \<Longrightarrow> run_all step s cs = (rs, s') \<Longrightarrow> P s' \<and> list_all Q rs"
proof (induction cs arbitrary: s rs)
  case (Cons c cs)
  obtain t r where st: "step s c = (t, r)" by fastforce
  with assms Cons.prems(1) have "P t" "pred_option Q r" by blast+
  with Cons st show ?case by (auto split: prod.splits option.splits)
qed simp

text \<open>A parser whose steps never produce the value \<open>pending\<close>: its calls produce the results of the input one by one.\<close>

locale complete_parser = incremental_parser +
  assumes step_not_pending: "step s c \<noteq> (s', Some pending)"
begin

lemma run_all_parse:
  "run_all step s cs =
     (case parse s cs of (r, s', rest) \<Rightarrow>
        if r = pending then ([], s') else (case run_all step s' rest of (rs, t) \<Rightarrow> (r # rs, t)))"
proof (induction cs arbitrary: s)
  case (Cons c cs)
  show ?case using step_not_pending [of s c]
    by (cases "step s c"; cases "snd (step s c)") (auto simp: parse_Cons Cons)
qed (simp add: parse_Nil)

end

end
