(* ===== verification/Leb128.thy ===== *)
theory Leb128
  imports Prelude
begin

text \<open>
  LEB128 variable-length integers (\<^verbatim>\<open>crates/utils/src/codec/leb128.rs\<close>). The macro
  \<^verbatim>\<open>impl_unsigned_leb128\<close> generates the same four functions for each integer
  type from its list of shifts; the model has them once, over a word of any
  length, with the list of shifts as an argument, and the instances of the
  macro below. The numbers are words, so the shifts drop what does not fit.
\<close>

section \<open>Writing\<close>

function to_leb128_bytes :: "'a::len word \<Rightarrow> u8 list" where
  "to_leb128_bytes v =
     (if unat v < 0x80 then [ucast v]
      else ucast ((v AND 0x7F) OR 0x80) # to_leb128_bytes (drop_bit 7 v))"
  by pat_completeness auto
termination
  by (relation "measure unat") (auto simp: unat_drop_bit_eq drop_bit_nat_def)

declare to_leb128_bytes.simps [simp del]

text \<open>
  The writer variant writes one byte at a time and adds up the counts that the
  underlying writer reports; \<open>Vec<u8>\<close> and the base-32 writer take every byte.
\<close>

function to_leb128_writer :: "('w \<Rightarrow> u8 \<Rightarrow> 'w) \<Rightarrow> 'w \<Rightarrow> 'a::len word \<Rightarrow> nat \<Rightarrow> 'w \<times> nat" where
  "to_leb128_writer write_byte out v bytes_written =
     (if unat v < 0x80 then (write_byte out (ucast v), bytes_written + 1)
      else to_leb128_writer write_byte (write_byte out (ucast ((v AND 0x7F) OR 0x80)))
             (drop_bit 7 v) (bytes_written + 1))"
  by pat_completeness auto
termination
  by (relation "measure (\<lambda>(_, _, v, _). unat v)") (auto simp: unat_drop_bit_eq drop_bit_nat_def)

declare to_leb128_writer.simps [simp del]

section \<open>Reading\<close>

fun leb128_pos_loop :: "nat list \<Rightarrow> u8 list \<Rightarrow> 'a::len word \<Rightarrow> nat \<Rightarrow> ('a word \<times> nat) option" where
  "leb128_pos_loop (s # ss) (b # bs) result pos =
     (if b AND 0x80 = 0 then Some (result OR push_bit s (ucast b), pos + 1)
      else leb128_pos_loop ss bs (result OR push_bit s (ucast (b AND 0x7F))) (pos + 1))"
| "leb128_pos_loop _ _ result pos = None"

definition from_leb128_bytes_pos :: "nat list \<Rightarrow> u8 list \<Rightarrow> ('a::len word \<times> nat) option" where
  "from_leb128_bytes_pos shifts bs = leb128_pos_loop shifts bs 0 0"

fun leb128_bytes_loop :: "nat list \<Rightarrow> u8 list \<Rightarrow> 'a::len word \<Rightarrow> 'a word option" where
  "leb128_bytes_loop (s # ss) (b # bs) result =
     (if b AND 0x80 = 0 then Some (result OR push_bit s (ucast b))
      else leb128_bytes_loop ss bs (result OR push_bit s (ucast (b AND 0x7F))))"
| "leb128_bytes_loop _ _ result = None"

definition from_leb128_bytes :: "nat list \<Rightarrow> u8 list \<Rightarrow> 'a::len word option" where
  "from_leb128_bytes shifts bs = leb128_bytes_loop shifts bs 0"

text \<open>
  The iterator variant also says what is left in the iterator: \<open>zip\<close> asks the list
  of shifts first, so a byte is taken from the iterator only when there is a shift for it.
\<close>

fun leb128_it_loop :: "nat list \<Rightarrow> u8 list \<Rightarrow> 'a::len word \<Rightarrow> 'a word option \<times> u8 list" where
  "leb128_it_loop (s # ss) (b # bs) result =
     (if b AND 0x80 = 0 then (Some (result OR push_bit s (ucast b)), bs)
      else leb128_it_loop ss bs (result OR push_bit s (ucast (b AND 0x7F))))"
| "leb128_it_loop _ bs result = (None, bs)"

definition from_leb128_it :: "nat list \<Rightarrow> u8 list \<Rightarrow> 'a::len word option \<times> u8 list" where
  "from_leb128_it shifts bs = leb128_it_loop shifts bs 0"

fun skip_leb128_it :: "u8 list \<Rightarrow> unit option \<times> u8 list" where
  "skip_leb128_it [] = (None, [])"
| "skip_leb128_it (b # bs) = (if b AND 0x80 = 0 then (Some (), bs) else skip_leb128_it bs)"

fun skip_leb128_loop :: "u8 list \<Rightarrow> nat \<Rightarrow> nat option" where
  "skip_leb128_loop [] pos = None"
| "skip_leb128_loop (b # bs) pos = (if b AND 0x80 = 0 then Some (pos + 1) else skip_leb128_loop bs (pos + 1))"

definition skip_leb128 :: "u8 list \<Rightarrow> nat option" where
  "skip_leb128 bs = skip_leb128_loop bs 0"

section \<open>The instances of the macro\<close>

definition shifts_u8 :: "nat list" where
  "shifts_u8 = [0]"

definition shifts_u16 :: "nat list" where
  "shifts_u16 = [0, 7, 14]"

definition shifts_u32 :: "nat list" where
  "shifts_u32 = [0, 7, 14, 21, 28]"

definition shifts_u64 :: "nat list" where
  "shifts_u64 = [0, 7, 14, 21, 28, 35, 42, 49, 56, 63]"

lemma shifts_u16_eq: "shifts_u16 = map (\<lambda>i. 7 * i) [0..<3]"
  and shifts_u32_eq: "shifts_u32 = map (\<lambda>i. 7 * i) [0..<5]"
  and shifts_u64_eq: "shifts_u64 = map (\<lambda>i. 7 * i) [0..<10]"
  by (simp_all add: shifts_u16_def shifts_u32_def shifts_u64_def upt_rec)

section \<open>Decoding what was encoded\<close>

lemma last_byte:
  fixes v :: "'a::len word"
  assumes "unat v < 128"
  shows "(ucast v :: u8) AND 0x80 = 0" and "(ucast (ucast v :: u8) :: 'a word) = v"
proof -
  have small: "bit v i \<Longrightarrow> i < 7" for i
    using assms bit_bound_of_unat [of v 7 i] by simp
  show "(ucast v :: u8) AND 0x80 = 0"
    by (rule bit_word_eqI) (use small in \<open>force simp: word_bits\<close>)
  show "(ucast (ucast v :: u8) :: 'a word) = v"
    by (rule bit_word_eqI) (use small in \<open>force simp: word_bits\<close>)
qed

lemma more_bytes_length:
  assumes "\<not> unat (v :: 'a::len word) < 128"
  shows "7 < LENGTH('a)"
proof (rule ccontr)
  assume "\<not> 7 < LENGTH('a)"
  then have "(2 :: nat) ^ LENGTH('a) \<le> 2 ^ 7" by (intro power_increasing) auto
  moreover have "unat v < 2 ^ LENGTH('a)" by (rule unsigned_less)
  ultimately show False using assms by simp
qed

lemma more_byte:
  fixes v :: "'a::len word"
  assumes "\<not> unat v < 128"
  shows "(ucast ((v AND 0x7F) OR 0x80) :: u8) AND 0x80 \<noteq> 0"
    and "(ucast ((ucast ((v AND 0x7F) OR 0x80) :: u8) AND 0x7F) :: 'a word) = take_bit 7 v"
proof -
  note len = more_bytes_length [OF assms]
  have "bit ((ucast ((v AND 0x7F) OR 0x80) :: u8) AND 0x80) 7"
    using len by (simp add: word_bits)
  then show "(ucast ((v AND 0x7F) OR 0x80) :: u8) AND 0x80 \<noteq> 0" by auto
  show "(ucast ((ucast ((v AND 0x7F) OR 0x80) :: u8) AND 0x7F) :: 'a word) = take_bit 7 v"
    by (rule bit_word_eqI) (auto simp: word_bits)
qed

lemma unat_drop_bit_7: "unat (drop_bit 7 v) = unat (v :: 'a::len word) div 128"
  by (simp add: unat_drop_bit_eq drop_bit_nat_def)

lemma leb128_it_loop_encode:
  fixes v :: "'a::len word"
  assumes "LENGTH('a) \<le> 7 * (i + n)"
  shows "unat (drop_bit (7 * i) v) < 2 ^ (7 * n) \<Longrightarrow> 0 < n \<Longrightarrow>
    leb128_it_loop (map (\<lambda>i. 7 * i) [i..<i + n]) (to_leb128_bytes (drop_bit (7 * i) v) @ rest)
      (take_bit (7 * i) v) = (Some v, rest)"
  using assms
proof (induction n arbitrary: i)
  case 0
  then show ?case by simp
next
  case (Suc n)
  let ?w = "drop_bit (7 * i) v"
  have upt: "[i..<Suc (i + n)] = i # [Suc i..<Suc (i + n)]" by (simp add: upt_conv_Cons)
  show ?case
  proof (cases "unat ?w < 128")
    case True
    then show ?thesis
      by (simp add: upt to_leb128_bytes.simps [of ?w] last_byte word_split_low_high del: upt_Suc)
  next
    case False
    have next_w: "drop_bit 7 ?w = drop_bit (7 * Suc i) v" by (simp add: drop_bit_drop_bit add.commute)
    have acc: "take_bit (7 * i) v OR push_bit (7 * i) (take_bit 7 ?w) = take_bit (7 * Suc i) v"
      by (simp add: word_extend_low add.commute)
    have n: "0 < n"
      using False Suc.prems(1) by (cases n) auto
    have "unat (drop_bit 7 ?w) = unat ?w div 128" by (rule unat_drop_bit_7)
    also have "\<dots> < 2 ^ (7 * n)"
      using Suc.prems(1) by (simp add: less_mult_imp_div_less power_add mult.commute)
    finally have "unat (drop_bit (7 * Suc i) v) < 2 ^ (7 * n)" by (simp add: next_w)
    from Suc.IH [OF this n] Suc.prems(3) show ?thesis
      by (simp add: upt to_leb128_bytes.simps [of ?w] False more_byte acc next_w del: upt_Suc)
  qed
qed

text \<open>
  The widths of the macro's instances: \<open>n\<close> shifts of seven bits are enough for a
  word of at most \<open>7 * n\<close> bits.
\<close>

lemma from_leb128_it_encode:
  fixes v :: "'a::len word"
  assumes "LENGTH('a) \<le> 7 * n"
  shows "from_leb128_it (map (\<lambda>i. 7 * i) [0..<n]) (to_leb128_bytes v @ rest) = (Some v, rest)"
proof -
  have n: "0 < n" using assms len_gt_0 [where 'a = 'a] by (cases n) auto
  have "unat v < 2 ^ LENGTH('a)" by (rule unsigned_less)
  also have "\<dots> \<le> 2 ^ (7 * n)" using assms by (intro power_increasing) auto
  finally have v: "unat (drop_bit (7 * 0) v) < 2 ^ (7 * n)" by simp
  from leb128_it_loop_encode [OF _ v n, of rest] assms show ?thesis
    by (simp add: from_leb128_it_def)
qed

lemma from_leb128_it_u16: "from_leb128_it shifts_u16 (to_leb128_bytes (v :: u16) @ rest) = (Some v, rest)"
  unfolding shifts_u16_eq by (rule from_leb128_it_encode) simp

lemma from_leb128_it_u32: "from_leb128_it shifts_u32 (to_leb128_bytes (v :: u32) @ rest) = (Some v, rest)"
  unfolding shifts_u32_eq by (rule from_leb128_it_encode) simp

lemma from_leb128_it_u64: "from_leb128_it shifts_u64 (to_leb128_bytes (v :: u64) @ rest) = (Some v, rest)"
  unfolding shifts_u64_eq by (rule from_leb128_it_encode) simp

section \<open>The four readers agree\<close>

lemma leb128_it_loop_rest: "leb128_it_loop ss bs r = (x, rest) \<Longrightarrow> length rest \<le> length bs"
  by (induction ss bs r rule: leb128_it_loop.induct) (auto split: if_splits)

lemma leb128_pos_loop_it:
  "leb128_pos_loop ss bs r pos =
     (case leb128_it_loop ss bs r of
        (Some v, rest) \<Rightarrow> Some (v, pos + (length bs - length rest))
      | (None, _) \<Rightarrow> None)"
proof (induction ss bs r pos rule: leb128_pos_loop.induct)
  case (1 s ss b bs r pos)
  then show ?case
    by (auto split: prod.splits option.splits simp: Suc_diff_le dest: leb128_it_loop_rest)
qed auto

lemma from_leb128_bytes_pos_it:
  "from_leb128_bytes_pos ss bs =
     (case from_leb128_it ss bs of
        (Some v, rest) \<Rightarrow> Some (v, length bs - length rest)
      | (None, _) \<Rightarrow> None)"
  by (simp add: from_leb128_bytes_pos_def from_leb128_it_def leb128_pos_loop_it split: prod.splits option.splits)

lemma leb128_bytes_loop_it: "leb128_bytes_loop ss bs r = fst (leb128_it_loop ss bs r)"
  by (induction ss bs r rule: leb128_bytes_loop.induct) auto

lemma from_leb128_bytes_it: "from_leb128_bytes ss bs = fst (from_leb128_it ss bs)"
  by (simp add: from_leb128_bytes_def from_leb128_it_def leb128_bytes_loop_it)

lemma skip_leb128_loop_encode:
  "skip_leb128_loop (to_leb128_bytes v @ rest) pos = Some (pos + length (to_leb128_bytes v))"
proof (induction v arbitrary: pos rule: to_leb128_bytes.induct)
  case (1 v)
  then show ?case
    by (cases "unat v < 128") (simp_all add: to_leb128_bytes.simps [of v] last_byte more_byte)
qed

lemma skip_leb128_it_encode: "skip_leb128_it (to_leb128_bytes v @ rest) = (Some (), rest)"
proof (induction v rule: to_leb128_bytes.induct)
  case (1 v)
  then show ?case
    by (cases "unat v < 128") (simp_all add: to_leb128_bytes.simps [of v] last_byte more_byte)
qed

lemma to_leb128_writer_bytes:
  "to_leb128_writer w out v n = (foldl w out (to_leb128_bytes v), n + length (to_leb128_bytes v))"
proof (induction w out v n rule: to_leb128_writer.induct)
  case (1 w out v n)
  then show ?case
    by (cases "unat v < 128")
      (simp_all add: to_leb128_bytes.simps [of v] to_leb128_writer.simps [of w out v n])
qed

lemma length_to_leb128_bytes:
  "unat (v :: 'a::len word) < 2 ^ (7 * n) \<Longrightarrow> 0 < n \<Longrightarrow> length (to_leb128_bytes v) \<le> n"
proof (induction n arbitrary: v)
  case 0
  then show ?case by simp
next
  case (Suc n)
  show ?case
  proof (cases "unat v < 128")
    case True
    then show ?thesis by (simp add: to_leb128_bytes.simps [of v])
  next
    case False
    have "unat (drop_bit 7 v) < 2 ^ (7 * n)"
      unfolding unat_drop_bit_7 using Suc.prems(1)
      by (simp add: less_mult_imp_div_less power_add mult.commute)
    moreover have "0 < n" using False Suc.prems(1) by (cases n) auto
    ultimately have "length (to_leb128_bytes (drop_bit 7 v)) \<le> n" by (rule Suc.IH)
    with False show ?thesis by (simp add: to_leb128_bytes.simps [of v])
  qed
qed

definition decode_u16 :: "u8 list \<Rightarrow> (u16 \<times> u8 list) option" where
  "decode_u16 bs = (case from_leb128_it shifts_u16 bs of (Some v, rest) \<Rightarrow> Some (v, rest) | (None, _) \<Rightarrow> None)"

definition decode_u32 :: "u8 list \<Rightarrow> (u32 \<times> u8 list) option" where
  "decode_u32 bs = (case from_leb128_it shifts_u32 bs of (Some v, rest) \<Rightarrow> Some (v, rest) | (None, _) \<Rightarrow> None)"

definition decode_u64 :: "u8 list \<Rightarrow> (u64 \<times> u8 list) option" where
  "decode_u64 bs = (case from_leb128_it shifts_u64 bs of (Some v, rest) \<Rightarrow> Some (v, rest) | (None, _) \<Rightarrow> None)"

interpretation leb_u16: prefix_code "\<lambda>_. True" to_leb128_bytes decode_u16
  by unfold_locales (simp add: decode_u16_def from_leb128_it_u16)

interpretation leb_u32: prefix_code "\<lambda>_. True" to_leb128_bytes decode_u32
  by unfold_locales (simp add: decode_u32_def from_leb128_it_u32)

interpretation leb_u64: prefix_code "\<lambda>_. True" to_leb128_bytes decode_u64
  by unfold_locales (simp add: decode_u64_def from_leb128_it_u64)

section \<open>Properties\<close>

text \<open>
  C32: every 64-bit number written in LEB128 is read back by each of the readers, with what follows it
  left for the next read: the iterator reader, the two slice readers (one of which reports how many bytes it used) and the two
  skip functions, which stop at the same place. The code of a number has at most ten bytes.
\<close>

theorem leb128_u64_readers:
  fixes v :: u64
  shows "from_leb128_it shifts_u64 (to_leb128_bytes v @ rest) = (Some v, rest) \<and>
     from_leb128_bytes_pos shifts_u64 (to_leb128_bytes v @ rest) = Some (v, length (to_leb128_bytes v)) \<and>
     from_leb128_bytes shifts_u64 (to_leb128_bytes v @ rest) = Some v \<and>
     skip_leb128_it (to_leb128_bytes v @ rest) = (Some (), rest) \<and>
     skip_leb128 (to_leb128_bytes v @ rest) = Some (length (to_leb128_bytes v)) \<and>
     length (to_leb128_bytes v) \<le> 10"
proof -
  have "unat v < 2 ^ LENGTH(64)" by (rule unsigned_less)
  then have "length (to_leb128_bytes v) \<le> 10" by (intro length_to_leb128_bytes) simp_all
  then show ?thesis
    by (simp add: from_leb128_bytes_pos_it from_leb128_bytes_it from_leb128_it_u64 skip_leb128_it_encode
        skip_leb128_def skip_leb128_loop_encode)
qed

text \<open>
  Two lists of the same number of 32-bit numbers, each written one after the other with something behind it,
  are equal as bytes only when they are equal as lists, with equal remainders: a key built from
  LEB128 numbers determines them.
\<close>

theorem leb128_keys_injective:
  assumes "length vs = length ws"
    and "concat (map to_leb128_bytes vs) @ r = concat (map to_leb128_bytes (ws :: u32 list)) @ s"
  shows "vs = ws \<and> r = s"
  using leb_u32.concat_injective [of vs ws r s] assms by (simp add: list_all_iff)

theorem leb128_keys_injective_witness:
  "to_leb128_bytes (300 :: u32) @ [7] = to_leb128_bytes (300 :: u32) @ [7] \<and> [300 :: u32] = [300] \<and> [7 :: u8] = [7]"
  using leb128_keys_injective [of "[300]" "[300]" "[7]" "[7]"] by simp

text \<open>
  The reader of the 8-bit instance accepts a single byte, so no number above 127, whose code has two, is read back.
\<close>

theorem leb128_u8_unreadable:
  assumes "128 \<le> unat (v :: u8)"
  shows "fst (from_leb128_it shifts_u8 (to_leb128_bytes v @ rest) :: u8 option \<times> u8 list) = None"
  using assms more_byte(1) [of v]
  by (subst to_leb128_bytes.simps) (simp add: from_leb128_it_def shifts_u8_def)

theorem leb128_u8_unreadable_witness:
  "fst (from_leb128_it shifts_u8 (to_leb128_bytes (200 :: u8) @ []) :: u8 option \<times> u8 list) = None"
  by (rule leb128_u8_unreadable) simp

end
