(* ===== verification/Base32.thy ===== *)
theory Base32
  imports Leb128
begin

text \<open>
  The base-32 text codec of \<^verbatim>\<open>crates/utils/src/codec/base32_custom.rs\<close>: a writer that
  turns bytes into the server's own 32-letter alphabet, five bits per letter, and a reader that is an
  iterator over the bytes. Both are state machines over the position modulo five
  and the last byte seen. The capacity hints of the writer have no
  observable effect and are left out.
\<close>

section \<open>Alphabet and inverse table\<close>

definition BASE32_ALPHABET :: bytes where
  "BASE32_ALPHABET = ''abcdefghijklmnopqrstuvwxyz792013''"

definition BASE32_INVERSE :: "u8 list" where
  "BASE32_INVERSE = [255, 255, 255, 255, 255, 255, 255, 255, 255, 255, 255, 255, 255, 255, 255, 255, 255, 255, 255,
    255, 255, 255, 255, 255, 255, 255, 255, 255, 255, 255, 255, 255, 255, 255, 255, 255, 255, 255,
    255, 255, 255, 255, 255, 255, 255, 255, 255, 255, 29, 30, 28, 31, 255, 255, 255, 26, 255,
    27, 255, 255, 255, 255, 255, 255, 255, 255, 255, 255, 255, 255, 255, 255, 255, 255, 255, 10,
    11, 12, 13, 14, 15, 16, 17, 18, 19, 20, 21, 22, 23, 24, 25, 255, 255, 255, 255,
    255, 255, 0, 1, 2, 3, 4, 5, 6, 7, 8, 9, 10, 11, 12, 13, 14, 15, 16,
    17, 18, 19, 20, 21, 22, 23, 24, 25, 255, 255, 255, 255, 255, 255, 255, 255, 255, 255,
    255, 255, 255, 255, 255, 255, 255, 255, 255, 255, 255, 255, 255, 255, 255, 255, 255, 255, 255,
    255, 255, 255, 255, 255, 255, 255, 255, 255, 255, 255, 255, 255, 255, 255, 255, 255, 255, 255,
    255, 255, 255, 255, 255, 255, 255, 255, 255, 255, 255, 255, 255, 255, 255, 255, 255, 255, 255,
    255, 255, 255, 255, 255, 255, 255, 255, 255, 255, 255, 255, 255, 255, 255, 255, 255, 255, 255,
    255, 255, 255, 255, 255, 255, 255, 255, 255, 255, 255, 255, 255, 255, 255, 255, 255, 255, 255,
    255, 255, 255, 255, 255, 255, 255, 255, 255, 255, 255, 255, 255, 255, 255, 255, 255, 255, 255,
    255, 255, 255, 255, 255, 255, 255, 255, 255]"

abbreviation inverse_of :: "char \<Rightarrow> u8" where
  "inverse_of c \<equiv> BASE32_INVERSE ! of_char c"

section \<open>The writer\<close>

record base32_writer =
  w_last_byte :: u8
  w_pos :: nat
  w_result :: bytes

definition base32_writer_new :: base32_writer where
  "base32_writer_new = \<lparr>w_last_byte = 0, w_pos = 0, w_result = []\<rparr>"

definition push_char :: "base32_writer \<Rightarrow> char \<Rightarrow> base32_writer" where
  "push_char w ch = w\<lparr>w_result := w_result w @ [ch]\<rparr>"

definition push_string :: "base32_writer \<Rightarrow> bytes \<Rightarrow> base32_writer" where
  "push_string w s = w\<lparr>w_result := w_result w @ s\<rparr>"

text \<open>The one or two letters a byte completes; \<open>255\<close> (\<open>u8::MAX\<close>) means no second letter.\<close>

definition byte_letters :: "nat \<Rightarrow> u8 \<Rightarrow> u8 \<Rightarrow> u8 \<times> u8" where
  "byte_letters pos last_byte byte =
     (if pos mod 5 = 0 then (drop_bit 3 (byte AND 0xF8), 255)
      else if pos mod 5 = 1 then
        (push_bit 2 (last_byte AND 0x07) OR drop_bit 6 (byte AND 0xC0), drop_bit 1 (byte AND 0x3E))
      else if pos mod 5 = 2 then
        (push_bit 4 (last_byte AND 0x01) OR drop_bit 4 (byte AND 0xF0), 255)
      else if pos mod 5 = 3 then
        (push_bit 1 (last_byte AND 0x0F) OR drop_bit 7 byte, drop_bit 2 (byte AND 0x7C))
      else
        (push_bit 3 (last_byte AND 0x03) OR drop_bit 5 (byte AND 0xE0), byte AND 0x1F))"

definition push_byte :: "base32_writer \<Rightarrow> u8 \<Rightarrow> bool \<Rightarrow> base32_writer" where
  "push_byte w byte is_remainder =
     (let (ch1, ch2) = byte_letters (w_pos w) (w_last_byte w) byte;
          w1 = w\<lparr>w_result := w_result w @ [BASE32_ALPHABET ! unat ch1]\<rparr>
      in if is_remainder then w1
         else
           (let w2 = (if ch2 \<noteq> 255 then w1\<lparr>w_result := w_result w1 @ [BASE32_ALPHABET ! unat ch2]\<rparr> else w1)
            in w2\<lparr>w_last_byte := byte, w_pos := w_pos w2 + 1\<rparr>))"

definition base32_finalize :: "base32_writer \<Rightarrow> bytes" where
  "base32_finalize w =
     (if w_pos w mod 5 \<noteq> 0 then w_result (push_byte w 0 True) else w_result w)"

fun write_bytes :: "base32_writer \<Rightarrow> u8 list \<Rightarrow> base32_writer" where
  "write_bytes w [] = w"
| "write_bytes w (byte # bs) = write_bytes (push_byte w byte False) bs"

text \<open>\<open>write\<close> of the \<open>std::io::Write\<close> instance also reports the bytes it took.\<close>

definition base32_write :: "base32_writer \<Rightarrow> u8 list \<Rightarrow> base32_writer \<times> nat" where
  "base32_write w bs = (let w' = write_bytes w bs in (w', w_pos w' - w_pos w))"

definition base32_writer_from_bytes :: "u8 list \<Rightarrow> base32_writer" where
  "base32_writer_from_bytes bs = write_bytes base32_writer_new bs"

section \<open>The reader\<close>

record base32_reader =
  r_bytes :: bytes
  r_last_byte :: u8
  r_pos :: nat

definition base32_reader_new :: "bytes \<Rightarrow> base32_reader" where
  "base32_reader_new bs = \<lparr>r_bytes = bs, r_last_byte = 0, r_pos = 0\<rparr>"

definition map_byte :: "base32_reader \<Rightarrow> u8 option \<times> base32_reader" where
  "map_byte r =
     (case r_bytes r of
        [] \<Rightarrow> (None, r)
      | c # cs \<Rightarrow>
          (let byte = inverse_of c
           in if byte \<noteq> 255 then (Some byte, r\<lparr>r_bytes := cs, r_last_byte := byte\<rparr>)
              else (None, r\<lparr>r_bytes := cs\<rparr>)))"

definition or_zero :: "u8 option \<Rightarrow> u8" where
  "or_zero x = (case x of None \<Rightarrow> 0 | Some b \<Rightarrow> b)"

definition base32_next :: "base32_reader \<Rightarrow> u8 option \<times> base32_reader" where
  "base32_next r =
     (let pos = r_pos r mod 5; last_byte = r_last_byte r
      in case map_byte r of
        (None, r1) \<Rightarrow> (None, r1)
      | (Some byte, r1) \<Rightarrow>
          (let r2 = r1\<lparr>r_pos := r_pos r1 + 1\<rparr>
           in if pos = 0 then
                (let (b, r3) = map_byte r2 in (Some (push_bit 3 byte OR drop_bit 2 (or_zero b)), r3))
              else if pos = 1 then
                (let (b, r3) = map_byte r2
                 in (Some (push_bit 6 last_byte OR push_bit 1 byte OR drop_bit 4 (or_zero b)), r3))
              else if pos = 2 then (Some (push_bit 4 last_byte OR drop_bit 1 byte), r2)
              else if pos = 3 then
                (let (b, r3) = map_byte r2
                 in (Some (push_bit 7 last_byte OR push_bit 2 byte OR drop_bit 3 (or_zero b)), r3))
              else (Some (push_bit 5 last_byte OR byte), r2)))"

text \<open>A \<open>for\<close> loop over the reader: it takes bytes until the iterator returns \<open>None\<close>.\<close>

lemma map_byte_shrinks: "map_byte r = (b, r') \<Longrightarrow> length (r_bytes r') \<le> length (r_bytes r)"
  by (auto simp: map_byte_def Let_def split: list.splits if_splits)

lemma map_byte_consumes:
  "map_byte r = (Some b, r') \<Longrightarrow> length (r_bytes r') < length (r_bytes r)"
  by (auto simp: map_byte_def Let_def split: list.splits if_splits)

lemma base32_next_shrinks:
  assumes "base32_next r = (Some b, r')"
  shows "length (r_bytes r') < length (r_bytes r)"
  using assms
  by (auto simp: base32_next_def Let_def split: prod.splits option.splits if_splits
      dest!: map_byte_shrinks map_byte_consumes)

function base32_read_all :: "base32_reader \<Rightarrow> u8 list" where
  "base32_read_all r =
     (case base32_next r of (None, _) \<Rightarrow> [] | (Some b, r') \<Rightarrow> b # base32_read_all r')"
  by pat_completeness auto
termination
  by (relation "measure (\<lambda>r. length (r_bytes r))") (auto dest: sym intro: base32_next_shrinks)

declare base32_read_all.simps [simp del]

section \<open>Every table access is in range\<close>

lemma byte8_eqI:
  fixes a b :: u8
  assumes "bit a 0 = bit b 0" "bit a 1 = bit b 1" "bit a 2 = bit b 2" "bit a 3 = bit b 3"
    "bit a 4 = bit b 4" "bit a 5 = bit b 5" "bit a 6 = bit b 6" "bit a 7 = bit b 7"
  shows "a = b"
proof (rule bit_word_eqI)
  fix n assume "n < LENGTH(8)"
  then have "n \<in> {0, 1, 2, 3, 4, 5, 6, 7}" by auto
  with assms show "bit a n = bit b n" by auto
qed

lemma byte8_lt_32I:
  assumes "\<not> bit (a :: u8) 5" "\<not> bit a 6" "\<not> bit a 7"
  shows "unat a < 32"
proof -
  have "i < 5" if "bit a i" for i
  proof (rule ccontr)
    assume "\<not> i < 5"
    moreover have "i < 8" using that by (auto dest: bit_imp_le_length)
    ultimately have "i \<in> {5, 6, 7}" by auto
    with that assms show False by auto
  qed
  from unat_bound_of_bit [of a 5, OF this] show ?thesis by simp
qed

lemma byte_letters_range:
  assumes "byte_letters pos l b = (ch1, ch2)"
  shows "unat ch1 < 32" and "ch2 \<noteq> 255 \<Longrightarrow> unat ch2 < 32"
  using assms by (auto simp: byte_letters_def word_bits split: if_splits intro!: byte8_lt_32I)

lemma BASE32_INVERSE_length: "length BASE32_INVERSE = 256"
  by (simp add: BASE32_INVERSE_def)

lemma inverse_alphabet:
  assumes "unat ch < 32"
  shows "inverse_of (BASE32_ALPHABET ! unat ch) = ch"
proof -
  have all: "\<forall>i \<in> set [0..<32]. BASE32_INVERSE ! of_char (BASE32_ALPHABET ! i) = (of_nat i :: u8)"
    by (simp add: BASE32_INVERSE_def BASE32_ALPHABET_def upt_rec)
  with assms have "inverse_of (BASE32_ALPHABET ! unat ch) = of_nat (unat ch)" by simp
  then show ?thesis by simp
qed

section \<open>The letters of a byte string\<close>

fun letters_from :: "nat \<Rightarrow> u8 \<Rightarrow> u8 list \<Rightarrow> u8 list" where
  "letters_from pos l [] = (if pos mod 5 \<noteq> 0 then [fst (byte_letters pos l 0)] else [])"
| "letters_from pos l (b # bs) =
     fst (byte_letters pos l b) #
       (if snd (byte_letters pos l b) \<noteq> 255 then [snd (byte_letters pos l b)] else []) @
       letters_from (Suc pos) b bs"

abbreviation letter_text :: "u8 list \<Rightarrow> bytes" where
  "letter_text ls \<equiv> map (\<lambda>c. BASE32_ALPHABET ! unat c) ls"

lemma finalize_write_bytes:
  "base32_finalize (write_bytes w bs) =
     w_result w @ letter_text (letters_from (w_pos w) (w_last_byte w) bs)"
proof (induction bs arbitrary: w)
  case Nil
  then show ?case by (simp add: base32_finalize_def push_byte_def Let_def split: prod.split)
next
  case (Cons b bs)
  then show ?case by (simp add: push_byte_def Let_def split: prod.split)
qed

lemma letters_from_range: "c \<in> set (letters_from pos l bs) \<Longrightarrow> unat c < 32"
proof (induction bs arbitrary: pos l)
  case Nil
  then show ?case
    using byte_letters_range(1) [of pos l 0 "fst (byte_letters pos l 0)" "snd (byte_letters pos l 0)"]
    by (auto split: if_splits)
next
  case (Cons b bs)
  then show ?case
    using byte_letters_range [of pos l b "fst (byte_letters pos l b)" "snd (byte_letters pos l b)"]
    by (auto split: if_splits)
qed

definition next_byte :: "u8 list \<Rightarrow> u8" where
  "next_byte bs = (case bs of [] \<Rightarrow> 0 | b # _ \<Rightarrow> b)"

lemma letters_from_Cons:
  assumes "pos mod 5 \<noteq> 0"
  shows "\<exists>t. letters_from pos l bs = fst (byte_letters pos l (next_byte bs)) # t"
  using assms by (cases bs) (auto simp: next_byte_def)

lemma map_byte_letter:
  assumes "unat c < 32"
  shows "map_byte \<lparr>r_bytes = (BASE32_ALPHABET ! unat c) # cs, r_last_byte = l, r_pos = p\<rparr> =
    (Some c, \<lparr>r_bytes = cs, r_last_byte = c, r_pos = p\<rparr>)"
proof -
  have "c \<noteq> 255" using assms by auto
  then show ?thesis by (simp add: map_byte_def inverse_alphabet assms)
qed

text \<open>The five ways a byte is put together again, one for each position.\<close>

lemma rejoin_0:
  assumes "pos mod 5 = 0"
  shows "push_bit 3 (fst (byte_letters pos l b)) OR drop_bit 2 (fst (byte_letters (Suc pos) b x)) = b"
  using assms by (intro byte8_eqI) (simp_all add: byte_letters_def mod_Suc word_bits)

lemma rejoin_1:
  assumes "pos mod 5 = 1"
  shows "push_bit 6 (fst (byte_letters pos l b)) OR push_bit 1 (snd (byte_letters pos l b))
     OR drop_bit 4 (fst (byte_letters (Suc pos) b x)) = b"
  using assms by (intro byte8_eqI) (simp_all add: byte_letters_def mod_Suc word_bits
      flip: numeral_2_eq_2 numeral_3_eq_3)

lemma rejoin_2:
  assumes "pos mod 5 = 2"
  shows "push_bit 4 (fst (byte_letters pos l b)) OR drop_bit 1 (fst (byte_letters (Suc pos) b x)) = b"
  using assms by (intro byte8_eqI) (simp_all add: byte_letters_def mod_Suc word_bits
      flip: numeral_2_eq_2 numeral_3_eq_3)

lemma rejoin_3:
  assumes "pos mod 5 = 3"
  shows "push_bit 7 (fst (byte_letters pos l b)) OR push_bit 2 (snd (byte_letters pos l b))
     OR drop_bit 3 (fst (byte_letters (Suc pos) b x)) = b"
  using assms by (intro byte8_eqI) (simp_all add: byte_letters_def mod_Suc word_bits)

lemma rejoin_4:
  assumes "pos mod 5 = 4"
  shows "push_bit 5 (fst (byte_letters pos l b)) OR snd (byte_letters pos l b) = b"
  using assms by (intro byte8_eqI) (simp_all add: byte_letters_def word_bits)

lemma letter_range: "unat (fst (byte_letters pos l b)) < 32"
  "snd (byte_letters pos l b) \<noteq> 255 \<Longrightarrow> unat (snd (byte_letters pos l b)) < 32"
  using byte_letters_range [of pos l b "fst (byte_letters pos l b)" "snd (byte_letters pos l b)"]
  by simp_all

lemma second_letter_absent: "pos mod 5 \<in> {0, 2} \<Longrightarrow> snd (byte_letters pos l b) = 255"
  by (auto simp: byte_letters_def)

lemma second_letter_present:
  assumes "pos mod 5 \<in> {1, 3, 4}"
  shows "snd (byte_letters pos l b) \<noteq> 255"
proof -
  have "\<not> bit (snd (byte_letters pos l b)) 7"
    using assms by (auto simp: byte_letters_def word_bits)
  moreover have "bit (255 :: u8) 7" by simp
  ultimately show ?thesis by metis
qed

text \<open>
  The reader looks one letter ahead: between two bytes, unless it stands at the
  start of a group of five, it has already taken the first letter of what is left,
  and keeps it as its last byte.
\<close>

definition reader_at :: "nat \<Rightarrow> u8 \<Rightarrow> u8 list \<Rightarrow> base32_reader" where
  "reader_at pos l ls =
     (if pos mod 5 = 0 then \<lparr>r_bytes = letter_text ls, r_last_byte = l, r_pos = pos\<rparr>
      else \<lparr>r_bytes = letter_text (tl ls), r_last_byte = hd ls, r_pos = pos\<rparr>)"

lemma base32_next_letters:
  "\<exists>l'. base32_next (reader_at pos rl (letters_from pos l (b # bs))) =
     (Some b, reader_at (Suc pos) l' (letters_from (Suc pos) b bs))"
proof -
  obtain t where t: "Suc pos mod 5 \<noteq> 0 \<Longrightarrow>
      letters_from (Suc pos) b bs = fst (byte_letters (Suc pos) b (next_byte bs)) # t"
    using letters_from_Cons by blast
  consider "pos mod 5 = 0" "Suc pos mod 5 = 1" | "pos mod 5 = 1" "Suc pos mod 5 = 2"
    | "pos mod 5 = 2" "Suc pos mod 5 = 3" | "pos mod 5 = 3" "Suc pos mod 5 = 4"
    | "pos mod 5 = 4" "Suc pos mod 5 = 0"
    by (simp add: mod_Suc split: if_splits) linarith
  then show ?thesis
  proof cases
    case 1
    with t second_letter_absent [of pos l b] rejoin_0 [of pos l b "next_byte bs"] show ?thesis
      by (simp add: reader_at_def base32_next_def map_byte_letter letter_range or_zero_def)
  next
    case 2
    with t second_letter_present [of pos l b] rejoin_1 [of pos l b "next_byte bs"] show ?thesis
      by (simp add: reader_at_def base32_next_def map_byte_letter letter_range or_zero_def)
  next
    case 3
    with t second_letter_absent [of pos l b] rejoin_2 [of pos l b "next_byte bs"] show ?thesis
      by (simp add: reader_at_def base32_next_def map_byte_letter letter_range or_zero_def)
  next
    case 4
    with t second_letter_present [of pos l b] rejoin_3 [of pos l b "next_byte bs"] show ?thesis
      by (simp add: reader_at_def base32_next_def map_byte_letter letter_range or_zero_def)
  next
    case 5
    with second_letter_present [of pos l b] rejoin_4 [of pos l b] show ?thesis
      by (simp add: reader_at_def base32_next_def map_byte_letter letter_range or_zero_def)
  qed
qed

lemma base32_next_end: "\<exists>r. base32_next (reader_at pos l (letters_from pos k [])) = (None, r)"
  by (auto simp: reader_at_def base32_next_def map_byte_def)

lemma base32_read_all_letters: "base32_read_all (reader_at pos rl (letters_from pos l bs)) = bs"
proof (induction bs arbitrary: pos rl l)
  case Nil
  obtain r where "base32_next (reader_at pos rl (letters_from pos l [])) = (None, r)"
    using base32_next_end by blast
  then show ?case by (subst base32_read_all.simps) (simp del: letters_from.simps)
next
  case (Cons b bs)
  obtain l' where "base32_next (reader_at pos rl (letters_from pos l (b # bs))) =
      (Some b, reader_at (Suc pos) l' (letters_from (Suc pos) b bs))"
    using base32_next_letters by blast
  with Cons.IH show ?case by (subst base32_read_all.simps) (simp del: letters_from.simps)
qed

lemma base32_write_count: "snd (base32_write w bs) = length bs"
proof -
  have "w_pos (write_bytes w bs) = w_pos w + length bs"
    by (induction bs arbitrary: w) (simp_all add: push_byte_def Let_def split: prod.split)
  then show ?thesis by (simp add: base32_write_def Let_def)
qed

lemma base32_read_finalize:
  "base32_read_all (base32_reader_new (base32_finalize (base32_writer_from_bytes bs))) = bs"
proof -
  have "base32_reader_new (base32_finalize (base32_writer_from_bytes bs)) = reader_at 0 0 (letters_from 0 0 bs)"
    by (simp add: base32_reader_new_def base32_writer_from_bytes_def finalize_write_bytes
        base32_writer_new_def reader_at_def)
  then show ?thesis by (simp add: base32_read_all_letters)
qed

section \<open>Properties\<close>

text \<open>
  Whatever bytes are written in base 32, reading the text gives exactly them back, for every length (the last
  letter carries the bits of an incomplete group), and the text consists of letters of the alphabet.
\<close>

theorem base32_roundtrip:
  "base32_read_all (base32_reader_new (base32_finalize (base32_writer_from_bytes bs))) = bs \<and>
   set (base32_finalize (base32_writer_from_bytes bs)) \<subseteq> set BASE32_ALPHABET"
proof -
  have "BASE32_ALPHABET ! unat c \<in> set BASE32_ALPHABET" if "c \<in> set (letters_from 0 0 bs)" for c
    using letters_from_range [OF that] by (intro nth_mem) (simp add: BASE32_ALPHABET_def)
  then have "set (base32_finalize (base32_writer_from_bytes bs)) \<subseteq> set BASE32_ALPHABET"
    by (auto simp: base32_writer_from_bytes_def finalize_write_bytes base32_writer_new_def)
  with base32_read_finalize show ?thesis by blast
qed

text \<open>
  The two table positions that \<open>push_byte\<close> computes from any position, previous byte and byte are inside the 32 letters of the alphabet (the second may be the
  mark 255 for no letter), so the writer never indexes out of range.
\<close>

theorem base32_index_in_range:
  "unat (fst (byte_letters pos l b)) < 32 \<and>
   (snd (byte_letters pos l b) = 255 \<or> unat (snd (byte_letters pos l b)) < 32)"
  using letter_range [of pos l b] by blast

end
