(* ===== verification/Bitmap.thy ===== *)
theory Bitmap
  imports Prelude
begin

text \<open>
  The 64-bit set of \<^verbatim>\<open>crates/utils/src/map/bitmap.rs\<close>. A \<open>Bitmap<T>\<close> is one \<open>u64\<close>; the
  item type \<open>T\<close> comes with its conversions to and from \<open>u64\<close> (the trait
  \<open>BitmapItem\<close>), which are arguments of the operations that use them. A shift
  \<open>1 << k\<close> of a \<open>u64\<close> takes \<open>k\<close> modulo 64, as the release build computes it.
\<close>

type_synonym bitmap = u64

definition shl1 :: "u64 \<Rightarrow> u64" where
  "shl1 k = push_bit (unat k mod 64) 1"

definition leading_zeros :: "'a::len word \<Rightarrow> nat" where
  "leading_zeros w = length (takeWhile (\<lambda>i. \<not> bit w i) (rev [0..<LENGTH('a)]))"

section \<open>Operations\<close>

definition bitmap_new :: bitmap where
  "bitmap_new = 0"

definition bitmap_all :: "u64 \<Rightarrow> bitmap" where
  "bitmap_all t_max = drop_bit (unat (64 - t_max) mod 64) (- 1)"

definition bitmap_union :: "bitmap \<Rightarrow> bitmap \<Rightarrow> bitmap" where
  "bitmap_union b items = b OR items"

definition bitmap_union_raw :: "bitmap \<Rightarrow> u64 \<Rightarrow> bitmap" where
  "bitmap_union_raw b items = b OR items"

definition bitmap_intersection :: "bitmap \<Rightarrow> bitmap \<Rightarrow> bitmap" where
  "bitmap_intersection b items = b AND items"

definition bitmap_insert :: "('t \<Rightarrow> u64) \<Rightarrow> bitmap \<Rightarrow> 't \<Rightarrow> bitmap" where
  "bitmap_insert into b item = b OR shl1 (into item)"

fun bitmap_insert_many :: "('t \<Rightarrow> u64) \<Rightarrow> bitmap \<Rightarrow> 't list \<Rightarrow> bitmap" where
  "bitmap_insert_many into b [] = b"
| "bitmap_insert_many into b (item # items) = bitmap_insert_many into (bitmap_insert into b item) items"

fun bitmap_remove_many :: "('t \<Rightarrow> u64) \<Rightarrow> bitmap \<Rightarrow> 't list \<Rightarrow> bitmap" where
  "bitmap_remove_many into b [] = b"
| "bitmap_remove_many into b (item # items) =
     bitmap_remove_many into (b AND NOT (shl1 (into item))) items"

definition bitmap_with_item :: "('t \<Rightarrow> u64) \<Rightarrow> bitmap \<Rightarrow> 't \<Rightarrow> bitmap" where
  "bitmap_with_item into b item = bitmap_insert into b item"

definition bitmap_remove :: "('t \<Rightarrow> u64) \<Rightarrow> bitmap \<Rightarrow> 't \<Rightarrow> bitmap" where
  "bitmap_remove into b item = b XOR shl1 (into item)"

definition bitmap_pop :: "(u64 \<Rightarrow> 't) \<Rightarrow> bitmap \<Rightarrow> 't option \<times> bitmap" where
  "bitmap_pop from b =
     (if b \<noteq> 0 then
        (let item = 63 - leading_zeros b
         in (Some (from (of_nat item)), b XOR push_bit item 1))
      else (None, b))"

text \<open>The \<open>BitPop\<close> instances for \<open>u32\<close> and \<open>u64\<close> are the same text at two widths.\<close>

definition bit_push :: "'a::len word \<Rightarrow> u8 \<Rightarrow> 'a word" where
  "bit_push w item = w OR push_bit (unat item mod LENGTH('a)) 1"

definition bit_pop :: "'a::len word \<Rightarrow> u8 option \<times> 'a word" where
  "bit_pop w =
     (if w \<noteq> 0 then
        (let item = LENGTH('a) - 1 - leading_zeros w
         in (Some (of_nat item), w XOR push_bit item 1))
      else (None, w))"

definition bitmap_contains :: "('t \<Rightarrow> u64) \<Rightarrow> bitmap \<Rightarrow> 't \<Rightarrow> bool" where
  "bitmap_contains into b item \<longleftrightarrow> b AND shl1 (into item) \<noteq> 0"

fun bitmap_contains_any :: "('t \<Rightarrow> u64) \<Rightarrow> bitmap \<Rightarrow> 't list \<Rightarrow> bool" where
  "bitmap_contains_any into b [] = False"
| "bitmap_contains_any into b (item # items) =
     (if b AND shl1 (into item) \<noteq> 0 then True else bitmap_contains_any into b items)"

definition bitmap_is_empty :: "bitmap \<Rightarrow> bool" where
  "bitmap_is_empty b \<longleftrightarrow> b = 0"

fun contains_all_loop :: "('t \<Rightarrow> u64) \<Rightarrow> bitmap \<Rightarrow> 't list \<Rightarrow> bool" where
  "contains_all_loop into b [] = True"
| "contains_all_loop into b (item # items) =
     (if b AND shl1 (into item) = 0 then False else contains_all_loop into b items)"

definition bitmap_contains_all :: "('t \<Rightarrow> u64) \<Rightarrow> bitmap \<Rightarrow> 't list \<Rightarrow> bool" where
  "bitmap_contains_all into b items =
     (if \<not> bitmap_is_empty b then contains_all_loop into b items else False)"

definition bitmap_clear :: "bitmap \<Rightarrow> bitmap \<times> bitmap" where
  "bitmap_clear b = (b, 0)"

text \<open>\<open>From<Vec<T>>\<close> (and \<open>FromIterator\<close>, \<open>From<&Vec<T>>\<close>) keeps the valid items only.\<close>

fun bitmap_from_list_loop :: "('t \<Rightarrow> u64) \<Rightarrow> ('t \<Rightarrow> bool) \<Rightarrow> bitmap \<Rightarrow> 't list \<Rightarrow> bitmap" where
  "bitmap_from_list_loop into is_valid b [] = b"
| "bitmap_from_list_loop into is_valid b (v # vs) =
     bitmap_from_list_loop into is_valid (if is_valid v then bitmap_insert into b v else b) vs"

definition bitmap_from_list :: "('t \<Rightarrow> u64) \<Rightarrow> ('t \<Rightarrow> bool) \<Rightarrow> 't list \<Rightarrow> bitmap" where
  "bitmap_from_list into is_valid vs = bitmap_from_list_loop into is_valid 0 vs"

definition bitmap_from_item :: "('t \<Rightarrow> u64) \<Rightarrow> 't \<Rightarrow> bitmap" where
  "bitmap_from_item into v = bitmap_insert into 0 v"

section \<open>The set of a bitmap\<close>

definition bitset :: "'a::len word \<Rightarrow> nat set" where
  "bitset b = {i. bit b i}"

lemma in_bitset [simp]: "i \<in> bitset b \<longleftrightarrow> bit b i"
  by (simp add: bitset_def)

lemma bitset_bound: "bitset (b :: 'a::len word) \<subseteq> {..<LENGTH('a)}"
  by (auto dest: bit_imp_le_length)

lemma finite_bitset [simp]: "finite (bitset b)"
  using bitset_bound finite_subset by blast

lemma bitset_eq_iff: "bitset a = bitset b \<longleftrightarrow> a = b"
  by (auto simp: set_eq_iff intro: bit_word_eqI)

lemma bitset_empty_iff: "bitset b = {} \<longleftrightarrow> b = 0"
  using bitset_eq_iff [of b 0] by (auto simp: bitset_def)

lemma bitset_or: "bitset (a OR b) = bitset a \<union> bitset b"
  and bitset_and: "bitset (a AND b) = bitset a \<inter> bitset b"
  by (auto simp: word_bits)

lemma bitset_push_bit_1:
  "i < LENGTH('a) \<Longrightarrow> bitset (2 ^ i :: 'a::len word) = {i}"
  by (auto simp: bit_exp_iff)

lemma bitset_shl1: "bitset (shl1 k) = {unat k mod 64}"
  by (simp add: shl1_def bitset_push_bit_1)

lemma and_shl1_iff: "b AND shl1 k = 0 \<longleftrightarrow> unat k mod 64 \<notin> bitset b"
  by (simp add: bitset_empty_iff [symmetric] bitset_and bitset_shl1)

lemma leading_zeros_max:
  fixes b :: "'a::len word"
  assumes "b \<noteq> 0"
  shows "LENGTH('a) - 1 - leading_zeros b = Max (bitset b)" and "leading_zeros b < LENGTH('a)"
proof -
  let ?m = "Max (bitset b)"
  have ne: "bitset b \<noteq> {}" using assms by (simp add: bitset_empty_iff)
  have m: "bit b ?m" using Max_in [OF finite_bitset ne] by simp
  have lt: "?m < LENGTH('a)" using m by (auto dest: bit_imp_le_length)
  have up: "\<not> bit b i" if "?m < i" for i
    using that Max_ge [OF finite_bitset, of i b] by (meson in_bitset leD)
  have "[0..<LENGTH('a)] = [0..<Suc ?m] @ [Suc ?m..<LENGTH('a)]"
    using lt upt_add_eq_append [of 0 "Suc ?m" "LENGTH('a) - Suc ?m"] by simp
  then have split: "rev [0..<LENGTH('a)] = rev [Suc ?m..<LENGTH('a)] @ ?m # rev [0..<?m]" by simp
  have "takeWhile (\<lambda>i. \<not> bit b i) (rev [0..<LENGTH('a)]) = rev [Suc ?m..<LENGTH('a)]"
    unfolding split by (subst takeWhile_append2) (auto simp: m up)
  then have "leading_zeros b = LENGTH('a) - Suc ?m" by (simp add: leading_zeros_def)
  then show "LENGTH('a) - 1 - leading_zeros b = ?m" and "leading_zeros b < LENGTH('a)"
    using lt by simp_all
qed

lemma pop_max_bitset:
  fixes b :: "'a::len word"
  assumes "b \<noteq> 0"
  defines "m \<equiv> LENGTH('a) - 1 - leading_zeros b"
  shows "bitset (b XOR push_bit m 1) = bitset b - {m}" and "m \<in> bitset b"
    and "\<forall>i \<in> bitset b. i \<le> m" and "m < LENGTH('a)"
proof -
  have m: "m = Max (bitset b)" unfolding m_def by (rule leading_zeros_max(1) [OF assms(1)])
  have ne: "bitset b \<noteq> {}" using assms by (simp add: bitset_empty_iff)
  show mem: "m \<in> bitset b" unfolding m by (rule Max_in [OF finite_bitset ne])
  show "\<forall>i \<in> bitset b. i \<le> m" by (simp add: m)
  show lt: "m < LENGTH('a)" using mem by (auto dest: bit_imp_le_length)
  show "bitset (b XOR push_bit m 1) = bitset b - {m}"
    using mem lt by (auto simp: word_bits bit_exp_iff)
qed

section \<open>Converting to a list\<close>

text \<open>
  \<open>From<Bitmap<T>> for Vec<T>\<close> runs the iterator, whose \<open>next\<close> is \<open>pop\<close>, until it returns \<open>None\<close>.
\<close>

lemma bitmap_pop_shrinks:
  assumes "bitmap_pop from b = (Some t, b')"
  shows "card (bitset b') < card (bitset b)"
proof -
  have b: "b \<noteq> 0" and b': "b' = b XOR push_bit (63 - leading_zeros b) 1"
    using assms by (auto simp: bitmap_pop_def Let_def split: if_splits)
  have "card (bitset b') = card (bitset b - {63 - leading_zeros b})"
    using pop_max_bitset(1) [OF b] by (simp add: b')
  also have "\<dots> < card (bitset b)"
    using pop_max_bitset(2) [OF b] by (intro card_Diff1_less) simp_all
  finally show ?thesis .
qed

function bitmap_to_list :: "(u64 \<Rightarrow> 't) \<Rightarrow> bitmap \<Rightarrow> 't list" where
  "bitmap_to_list from b =
     (case bitmap_pop from b of (None, _) \<Rightarrow> [] | (Some item, b') \<Rightarrow> item # bitmap_to_list from b')"
  by pat_completeness auto
termination
  by (relation "measure (\<lambda>(from, b). card (bitset b))") (auto dest: sym intro: bitmap_pop_shrinks)

declare bitmap_to_list.simps [simp del]

section \<open>The contract of an item type\<close>

definition bitmap_items :: "('t \<Rightarrow> u64) \<Rightarrow> ('t \<Rightarrow> bool) \<Rightarrow> bitmap \<Rightarrow> 't set" where
  "bitmap_items into is_valid b = {t. is_valid t \<and> bit b (unat (into t))}"

definition bitmap_wf :: "('t \<Rightarrow> u64) \<Rightarrow> ('t \<Rightarrow> bool) \<Rightarrow> bitmap \<Rightarrow> bool" where
  "bitmap_wf into is_valid b \<longleftrightarrow> bitset b \<subseteq> (\<lambda>t. unat (into t)) ` {t. is_valid t}"

locale bitmap_item =
  fixes into :: "'t \<Rightarrow> u64"
    and "from" :: "u64 \<Rightarrow> 't"
    and is_valid :: "'t \<Rightarrow> bool"
  assumes from_into: "is_valid t \<Longrightarrow> from (into t) = t"
    and into_bound: "is_valid t \<Longrightarrow> unat (into t) < 64"
begin

abbreviation items :: "bitmap \<Rightarrow> 't set" where
  "items \<equiv> bitmap_items into is_valid"

lemma into_eq_iff: "is_valid t \<Longrightarrow> is_valid u \<Longrightarrow> unat (into t) = unat (into u) \<longleftrightarrow> t = u"
  by (metis from_into unsigned_word_eqI)

lemma bit_shl1_into: "is_valid t \<Longrightarrow> bit (shl1 (into t)) i \<longleftrightarrow> i = unat (into t)"
  using bitset_shl1 [of "into t"] into_bound [of t] by (simp add: set_eq_iff)

lemma contains_iff: "is_valid t \<Longrightarrow> bitmap_contains into b t \<longleftrightarrow> t \<in> items b"
  by (simp add: bitmap_contains_def and_shl1_iff into_bound bitmap_items_def)

lemma items_new: "items bitmap_new = {}"
  by (simp add: bitmap_items_def bitmap_new_def)

lemma items_insert: "is_valid t \<Longrightarrow> items (bitmap_insert into b t) = insert t (items b)"
  by (auto simp: bitmap_items_def bitmap_insert_def word_bits bit_shl1_into into_eq_iff)

lemma items_union: "items (bitmap_union a b) = items a \<union> items b"
  by (auto simp: bitmap_items_def bitmap_union_def word_bits)

lemma items_intersection: "items (bitmap_intersection a b) = items a \<inter> items b"
  by (auto simp: bitmap_items_def bitmap_intersection_def word_bits)

lemma items_remove:
  "is_valid t \<Longrightarrow> items (bitmap_remove into b t) =
     (if t \<in> items b then items b - {t} else insert t (items b))"
  by (auto simp: bitmap_items_def bitmap_remove_def word_bits bit_shl1_into into_eq_iff)

lemma items_remove_many:
  "list_all is_valid ts \<Longrightarrow> items (bitmap_remove_many into b ts) = items b - set ts"
proof (induction ts arbitrary: b)
  case Nil
  then show ?case by simp
next
  case (Cons t ts)
  have "items (b AND NOT (shl1 (into t))) = items b - {t}"
    using Cons.prems
    by (auto simp: bitmap_items_def word_bits bit_not_iff bit_shl1_into into_eq_iff into_bound)
  with Cons show ?case by auto
qed

lemma items_from_list_loop:
  "items (bitmap_from_list_loop into is_valid b ts) = items b \<union> {t \<in> set ts. is_valid t}"
  by (induction ts arbitrary: b) (auto simp: items_insert)

lemma bitset_items: "bitmap_wf into is_valid b \<Longrightarrow> bitset b = (\<lambda>t. unat (into t)) ` items b"
  unfolding bitmap_wf_def bitmap_items_def bitset_def by blast

lemma items_inject:
  assumes "bitmap_wf into is_valid a" and "bitmap_wf into is_valid b"
  shows "items a = items b \<longleftrightarrow> a = b"
proof
  assume eq: "items a = items b"
  from bitset_items [OF assms(1)] bitset_items [OF assms(2)] eq show "a = b" by (simp flip: bitset_eq_iff)
qed simp

lemma pop_items:
  assumes wf: "bitmap_wf into is_valid b" and ne: "b \<noteq> 0"
  obtains t b' where "bitmap_pop from b = (Some t, b')" "t \<in> items b" "items b' = items b - {t}"
    "\<forall>u \<in> items b. unat (into u) \<le> unat (into t)" "bitmap_wf into is_valid b'"
proof -
  let ?m = "63 - leading_zeros b"
  let ?b' = "b XOR push_bit ?m 1"
  note max = pop_max_bitset [OF ne, simplified]
  from wf max(2) obtain t where t: "is_valid t" "unat (into t) = ?m"
    by (auto simp: bitmap_wf_def subset_iff image_iff)
  have "bitmap_pop from b = (Some t, ?b')"
    using ne t from_into [of t] by (simp add: bitmap_pop_def Let_def flip: t(2))
  moreover have "t \<in> items b" using t max(2) by (simp add: bitmap_items_def)
  moreover have "items ?b' = items b - {t}"
    using max(1) t(2) into_eq_iff [OF _ t(1)] by (auto simp: bitmap_items_def set_eq_iff)
  moreover have "\<forall>u \<in> items b. unat (into u) \<le> unat (into t)"
    using max(3) t by (auto simp: bitmap_items_def)
  moreover have "bitmap_wf into is_valid ?b'" using wf max(1) by (auto simp: bitmap_wf_def)
  ultimately show ?thesis using that by blast
qed

lemma to_list_items:
  "bitmap_wf into is_valid b \<Longrightarrow> set (bitmap_to_list from b) = items b \<and>
     distinct (bitmap_to_list from b) \<and>
     sorted_wrt (\<lambda>t u. unat (into u) < unat (into t)) (bitmap_to_list from b)"
proof (induction "card (bitset b)" arbitrary: b rule: less_induct)
  case less
  show ?case
  proof (cases "b = 0")
    case True
    then have "bitmap_to_list from b = []"
      by (subst bitmap_to_list.simps) (simp add: bitmap_pop_def)
    with True show ?thesis by (simp add: bitmap_items_def)
  next
    case False
    from pop_items [OF less.prems False] obtain t b' where
      pop: "bitmap_pop from b = (Some t, b')" "t \<in> items b" "items b' = items b - {t}"
        "\<forall>u \<in> items b. unat (into u) \<le> unat (into t)" "bitmap_wf into is_valid b'" by metis
    from less.hyps [OF bitmap_pop_shrinks [OF pop(1)] pop(5)]
    have IH: "set (bitmap_to_list from b') = items b'" "distinct (bitmap_to_list from b')"
      "sorted_wrt (\<lambda>t u. unat (into u) < unat (into t)) (bitmap_to_list from b')" by simp_all
    have "\<forall>u \<in> items b'. unat (into u) < unat (into t)"
    proof
      fix u assume u: "u \<in> items b'"
      then have "unat (into u) \<noteq> unat (into t)"
        using pop(2,3) into_eq_iff [of u t] by (auto simp: bitmap_items_def)
      with pop(3,4) u show "unat (into u) < unat (into t)" by force
    qed
    moreover have "bitmap_to_list from b = t # bitmap_to_list from b'"
      by (subst bitmap_to_list.simps) (simp add: pop(1))
    ultimately show ?thesis using IH pop(2,3) by auto
  qed
qed

lemma wf_insert:
  "bitmap_wf into is_valid b \<Longrightarrow> is_valid t \<Longrightarrow> bitmap_wf into is_valid (bitmap_insert into b t)"
  by (auto simp: bitmap_wf_def bitmap_insert_def bitset_or bit_shl1_into subset_iff word_bits image_iff)

lemma wf_from_list_loop:
  "bitmap_wf into is_valid b \<Longrightarrow> bitmap_wf into is_valid (bitmap_from_list_loop into is_valid b ts)"
proof (induction ts arbitrary: b)
  case Nil
  then show ?case by simp
next
  case (Cons t ts)
  have "bitmap_wf into is_valid (if is_valid t then bitmap_insert into b t else b)"
    using Cons.prems wf_insert by simp
  from Cons.IH [OF this] show ?case by simp
qed

lemma wf_from_list: "bitmap_wf into is_valid (bitmap_from_list into is_valid ts)"
  unfolding bitmap_from_list_def by (rule wf_from_list_loop) (simp add: bitmap_wf_def bitset_def)

lemma items_from_list: "items (bitmap_from_list into is_valid ts) = {t \<in> set ts. is_valid t}"
  by (simp add: bitmap_from_list_def items_from_list_loop) (simp add: bitmap_items_def)

lemma from_list_to_list:
  assumes "bitmap_wf into is_valid b"
  shows "bitmap_from_list into is_valid (bitmap_to_list from b) = b"
proof -
  have "set (bitmap_to_list from b) = items b" using to_list_items [OF assms] by (rule conjunct1)
  moreover have "{t \<in> items b. is_valid t} = items b" by (auto simp: bitmap_items_def)
  ultimately have "items (bitmap_from_list into is_valid (bitmap_to_list from b)) = items b"
    by (simp add: items_from_list)
  then show ?thesis by (simp add: items_inject assms wf_from_list)
qed

lemma contains_all_iff:
  "list_all is_valid ts \<Longrightarrow> bitmap_contains_all into b ts \<longleftrightarrow> b \<noteq> 0 \<and> set ts \<subseteq> items b"
proof -
  have "list_all is_valid ts \<Longrightarrow> contains_all_loop into b ts \<longleftrightarrow> set ts \<subseteq> items b"
    by (induction ts) (auto simp: and_shl1_iff into_bound bitmap_items_def)
  then show "list_all is_valid ts \<Longrightarrow> bitmap_contains_all into b ts \<longleftrightarrow> b \<noteq> 0 \<and> set ts \<subseteq> items b"
    by (simp add: bitmap_contains_all_def bitmap_is_empty_def)
qed

lemma contains_any_iff:
  "list_all is_valid ts \<Longrightarrow> bitmap_contains_any into b ts \<longleftrightarrow> set ts \<inter> items b \<noteq> {}"
  by (induction ts) (auto simp: and_shl1_iff into_bound bitmap_items_def)

end

end
