(* ===== verification/Collections.thy ===== *)
theory Collections
  imports Bitmap
begin

text \<open>
  The data types of the mail and groupware store
  (\<^verbatim>\<open>crates/types/src/collection.rs\<close> and \<^verbatim>\<open>type_state.rs\<close>): the collections a document
  lives in, the collections that have a change log (sync collections), the
  data types of the JMAP protocol, the conversions between them and their
  numeric and textual codes, which are stored in database keys and sent to
  clients, and the set of types that a state change notifies. The lookup
  macro \<open>hashify::tiny_map\<close> is third-party code: it is the argument
  \<open>tiny_map\<close> of the functions that use it, and \<open>tiny_map_spec\<close> is what its
  documentation promises for a table of distinct keys.
\<close>

datatype collection =
  Collection_Email
| Collection_Mailbox
| Collection_Thread
| Collection_Identity
| Collection_EmailSubmission
| Collection_SieveScript
| Collection_PushSubscription
| Collection_Principal
| Collection_Calendar
| Collection_CalendarEvent
| Collection_AddressBook
| Collection_ContactCard
| Collection_FileNode
| Collection_CalendarEventNotification
| Collection_None

datatype sync_collection =
  Sync_Email
| Sync_Thread
| Sync_Calendar
| Sync_AddressBook
| Sync_FileNode
| Sync_Identity
| Sync_EmailSubmission
| Sync_SieveScript
| Sync_CalendarEventNotification
| Sync_ShareNotification
| Sync_None

datatype vanished_collection =
  Vanished_Email
| Vanished_Calendar
| Vanished_AddressBook
| Vanished_FileNode

datatype data_type =
  DataType_Email
| DataType_EmailDelivery
| DataType_EmailSubmission
| DataType_Mailbox
| DataType_Thread
| DataType_Identity
| DataType_Core
| DataType_PushSubscription
| DataType_SearchSnippet
| DataType_VacationResponse
| DataType_Mdn
| DataType_Quota
| DataType_SieveScript
| DataType_Calendar
| DataType_CalendarEvent
| DataType_CalendarEventNotification
| DataType_AddressBook
| DataType_ContactCard
| DataType_FileNode
| DataType_Principal
| DataType_ShareNotification
| DataType_ParticipantIdentity
| DataType_CalendarAlert
| DataType_None

section \<open>Numeric codes\<close>

text \<open>The discriminants, as the casts \<open>as u8\<close> and \<open>as u64\<close> read them.\<close>

fun collection_disc :: "collection \<Rightarrow> 'a::len word" where
  "collection_disc Collection_Email = 0"
| "collection_disc Collection_Mailbox = 1"
| "collection_disc Collection_Thread = 2"
| "collection_disc Collection_Identity = 3"
| "collection_disc Collection_EmailSubmission = 4"
| "collection_disc Collection_SieveScript = 5"
| "collection_disc Collection_PushSubscription = 6"
| "collection_disc Collection_Principal = 7"
| "collection_disc Collection_Calendar = 8"
| "collection_disc Collection_CalendarEvent = 9"
| "collection_disc Collection_AddressBook = 10"
| "collection_disc Collection_ContactCard = 11"
| "collection_disc Collection_FileNode = 12"
| "collection_disc Collection_CalendarEventNotification = 13"
| "collection_disc Collection_None = 14"

fun sync_disc :: "sync_collection \<Rightarrow> 'a::len word" where
  "sync_disc Sync_Email = 0"
| "sync_disc Sync_Thread = 1"
| "sync_disc Sync_Calendar = 2"
| "sync_disc Sync_AddressBook = 3"
| "sync_disc Sync_FileNode = 4"
| "sync_disc Sync_Identity = 5"
| "sync_disc Sync_EmailSubmission = 6"
| "sync_disc Sync_SieveScript = 7"
| "sync_disc Sync_CalendarEventNotification = 8"
| "sync_disc Sync_ShareNotification = 9"
| "sync_disc Sync_None = 10"

fun vanished_disc :: "vanished_collection \<Rightarrow> 'a::len word" where
  "vanished_disc Vanished_Email = 251"
| "vanished_disc Vanished_Calendar = 252"
| "vanished_disc Vanished_AddressBook = 253"
| "vanished_disc Vanished_FileNode = 254"

fun data_type_disc :: "data_type \<Rightarrow> 'a::len word" where
  "data_type_disc DataType_Email = 0"
| "data_type_disc DataType_EmailDelivery = 1"
| "data_type_disc DataType_EmailSubmission = 2"
| "data_type_disc DataType_Mailbox = 3"
| "data_type_disc DataType_Thread = 4"
| "data_type_disc DataType_Identity = 5"
| "data_type_disc DataType_Core = 6"
| "data_type_disc DataType_PushSubscription = 7"
| "data_type_disc DataType_SearchSnippet = 8"
| "data_type_disc DataType_VacationResponse = 9"
| "data_type_disc DataType_Mdn = 10"
| "data_type_disc DataType_Quota = 11"
| "data_type_disc DataType_SieveScript = 12"
| "data_type_disc DataType_Calendar = 13"
| "data_type_disc DataType_CalendarEvent = 14"
| "data_type_disc DataType_CalendarEventNotification = 15"
| "data_type_disc DataType_AddressBook = 16"
| "data_type_disc DataType_ContactCard = 17"
| "data_type_disc DataType_FileNode = 18"
| "data_type_disc DataType_Principal = 19"
| "data_type_disc DataType_ShareNotification = 20"
| "data_type_disc DataType_ParticipantIdentity = 21"
| "data_type_disc DataType_CalendarAlert = 22"
| "data_type_disc DataType_None = 23"

definition u8_from_collection :: "collection \<Rightarrow> u8" where
  "u8_from_collection v = collection_disc v"

definition u64_from_collection :: "collection \<Rightarrow> u64" where
  "u64_from_collection v = collection_disc v"

definition u8_from_sync :: "sync_collection \<Rightarrow> u8" where
  "u8_from_sync v = sync_disc v"

definition u64_from_sync :: "sync_collection \<Rightarrow> u64" where
  "u64_from_sync v = sync_disc v"

definition u8_from_vanished :: "vanished_collection \<Rightarrow> u8" where
  "u8_from_vanished v = vanished_disc v"

definition u64_from_data_type :: "data_type \<Rightarrow> u64" where
  "u64_from_data_type v = data_type_disc v"

definition collection_from_u8 :: "u8 \<Rightarrow> collection" where
  "collection_from_u8 v =
     (if v = 0 then Collection_Email
      else if v = 1 then Collection_Mailbox
      else if v = 2 then Collection_Thread
      else if v = 3 then Collection_Identity
      else if v = 4 then Collection_EmailSubmission
      else if v = 5 then Collection_SieveScript
      else if v = 6 then Collection_PushSubscription
      else if v = 7 then Collection_Principal
      else if v = 8 then Collection_Calendar
      else if v = 9 then Collection_CalendarEvent
      else if v = 10 then Collection_AddressBook
      else if v = 11 then Collection_ContactCard
      else if v = 12 then Collection_FileNode
      else if v = 13 then Collection_CalendarEventNotification
      else Collection_None)"

definition collection_from_u64 :: "u64 \<Rightarrow> collection" where
  "collection_from_u64 v =
     (if v = 0 then Collection_Email
      else if v = 1 then Collection_Mailbox
      else if v = 2 then Collection_Thread
      else if v = 3 then Collection_Identity
      else if v = 4 then Collection_EmailSubmission
      else if v = 5 then Collection_SieveScript
      else if v = 6 then Collection_PushSubscription
      else if v = 7 then Collection_Principal
      else if v = 8 then Collection_Calendar
      else if v = 9 then Collection_CalendarEvent
      else if v = 10 then Collection_AddressBook
      else if v = 11 then Collection_ContactCard
      else if v = 12 then Collection_FileNode
      else if v = 13 then Collection_CalendarEventNotification
      else Collection_None)"

definition sync_from_u8 :: "u8 \<Rightarrow> sync_collection" where
  "sync_from_u8 v =
     (if v = 0 then Sync_Email
      else if v = 1 then Sync_Thread
      else if v = 2 then Sync_Calendar
      else if v = 3 then Sync_AddressBook
      else if v = 4 then Sync_FileNode
      else if v = 5 then Sync_Identity
      else if v = 6 then Sync_EmailSubmission
      else if v = 7 then Sync_SieveScript
      else if v = 8 then Sync_CalendarEventNotification
      else if v = 9 then Sync_ShareNotification
      else Sync_None)"

definition sync_from_u64 :: "u64 \<Rightarrow> sync_collection" where
  "sync_from_u64 v =
     (if v = 0 then Sync_Email
      else if v = 1 then Sync_Thread
      else if v = 2 then Sync_Calendar
      else if v = 3 then Sync_AddressBook
      else if v = 4 then Sync_FileNode
      else if v = 5 then Sync_Identity
      else if v = 6 then Sync_EmailSubmission
      else if v = 7 then Sync_SieveScript
      else if v = 8 then Sync_CalendarEventNotification
      else if v = 9 then Sync_ShareNotification
      else Sync_None)"

definition data_type_from_u64 :: "u64 \<Rightarrow> data_type" where
  "data_type_from_u64 v =
     (if v = 0 then DataType_Email
      else if v = 1 then DataType_EmailDelivery
      else if v = 2 then DataType_EmailSubmission
      else if v = 3 then DataType_Mailbox
      else if v = 4 then DataType_Thread
      else if v = 5 then DataType_Identity
      else if v = 6 then DataType_Core
      else if v = 7 then DataType_PushSubscription
      else if v = 8 then DataType_SearchSnippet
      else if v = 9 then DataType_VacationResponse
      else if v = 10 then DataType_Mdn
      else if v = 11 then DataType_Quota
      else if v = 12 then DataType_SieveScript
      else if v = 13 then DataType_Calendar
      else if v = 14 then DataType_CalendarEvent
      else if v = 15 then DataType_CalendarEventNotification
      else if v = 16 then DataType_AddressBook
      else if v = 17 then DataType_ContactCard
      else if v = 18 then DataType_FileNode
      else if v = 19 then DataType_Principal
      else if v = 20 then DataType_ShareNotification
      else if v = 21 then DataType_ParticipantIdentity
      else if v = 22 then DataType_CalendarAlert
      else DataType_None)"

section \<open>Relations between the collections\<close>

fun main_collection :: "collection \<Rightarrow> collection" where
  "main_collection Collection_Email = Collection_Mailbox"
| "main_collection Collection_CalendarEvent = Collection_Calendar"
| "main_collection Collection_ContactCard = Collection_AddressBook"
| "main_collection c = c"

fun parent_collection :: "collection \<Rightarrow> collection option" where
  "parent_collection Collection_Email = Some Collection_Mailbox"
| "parent_collection Collection_CalendarEvent = Some Collection_Calendar"
| "parent_collection Collection_ContactCard = Some Collection_AddressBook"
| "parent_collection Collection_FileNode = Some Collection_FileNode"
| "parent_collection Collection_CalendarEventNotification = Some Collection_CalendarEventNotification"
| "parent_collection _ = None"

fun child_collection :: "collection \<Rightarrow> collection option" where
  "child_collection Collection_Mailbox = Some Collection_Email"
| "child_collection Collection_Calendar = Some Collection_CalendarEvent"
| "child_collection Collection_AddressBook = Some Collection_ContactCard"
| "child_collection Collection_FileNode = Some Collection_FileNode"
| "child_collection Collection_CalendarEventNotification = Some Collection_CalendarEventNotification"
| "child_collection _ = None"

fun sync_to_collection :: "sync_collection \<Rightarrow> bool \<Rightarrow> collection" where
  "sync_to_collection Sync_Email is_container = (if is_container then Collection_Mailbox else Collection_Email)"
| "sync_to_collection Sync_Thread is_container = Collection_Thread"
| "sync_to_collection Sync_Calendar is_container = (if is_container then Collection_Calendar else Collection_CalendarEvent)"
| "sync_to_collection Sync_AddressBook is_container = (if is_container then Collection_AddressBook else Collection_ContactCard)"
| "sync_to_collection Sync_FileNode is_container = Collection_FileNode"
| "sync_to_collection Sync_Identity is_container = Collection_Identity"
| "sync_to_collection Sync_EmailSubmission is_container = Collection_EmailSubmission"
| "sync_to_collection Sync_SieveScript is_container = Collection_SieveScript"
| "sync_to_collection Sync_CalendarEventNotification is_container = Collection_CalendarEventNotification"
| "sync_to_collection Sync_ShareNotification is_container = Collection_None"
| "sync_to_collection Sync_None is_container = Collection_None"

fun vanished_collection_of :: "sync_collection \<Rightarrow> vanished_collection option" where
  "vanished_collection_of Sync_Email = Some Vanished_Email"
| "vanished_collection_of Sync_Calendar = Some Vanished_Calendar"
| "vanished_collection_of Sync_AddressBook = Some Vanished_AddressBook"
| "vanished_collection_of Sync_FileNode = Some Vanished_FileNode"
| "vanished_collection_of _ = None"

fun sync_from_collection :: "collection \<Rightarrow> sync_collection" where
  "sync_from_collection Collection_Email = Sync_Email"
| "sync_from_collection Collection_Mailbox = Sync_Email"
| "sync_from_collection Collection_Thread = Sync_Thread"
| "sync_from_collection Collection_Identity = Sync_Identity"
| "sync_from_collection Collection_EmailSubmission = Sync_EmailSubmission"
| "sync_from_collection Collection_SieveScript = Sync_SieveScript"
| "sync_from_collection Collection_PushSubscription = Sync_None"
| "sync_from_collection Collection_Principal = Sync_None"
| "sync_from_collection Collection_Calendar = Sync_Calendar"
| "sync_from_collection Collection_CalendarEvent = Sync_Calendar"
| "sync_from_collection Collection_CalendarEventNotification = Sync_CalendarEventNotification"
| "sync_from_collection Collection_AddressBook = Sync_AddressBook"
| "sync_from_collection Collection_ContactCard = Sync_AddressBook"
| "sync_from_collection Collection_FileNode = Sync_FileNode"
| "sync_from_collection _ = Sync_None"

fun data_type_try_from_collection :: "collection \<Rightarrow> unit + data_type" where
  "data_type_try_from_collection Collection_Email = Inr DataType_Email"
| "data_type_try_from_collection Collection_Mailbox = Inr DataType_Mailbox"
| "data_type_try_from_collection Collection_Thread = Inr DataType_Thread"
| "data_type_try_from_collection Collection_Identity = Inr DataType_Identity"
| "data_type_try_from_collection Collection_EmailSubmission = Inr DataType_EmailSubmission"
| "data_type_try_from_collection Collection_SieveScript = Inr DataType_SieveScript"
| "data_type_try_from_collection Collection_PushSubscription = Inr DataType_PushSubscription"
| "data_type_try_from_collection Collection_Principal = Inr DataType_Principal"
| "data_type_try_from_collection Collection_Calendar = Inr DataType_Calendar"
| "data_type_try_from_collection Collection_CalendarEvent = Inr DataType_CalendarEvent"
| "data_type_try_from_collection Collection_AddressBook = Inr DataType_AddressBook"
| "data_type_try_from_collection Collection_ContactCard = Inr DataType_ContactCard"
| "data_type_try_from_collection Collection_FileNode = Inr DataType_FileNode"
| "data_type_try_from_collection Collection_CalendarEventNotification = Inr DataType_CalendarEventNotification"
| "data_type_try_from_collection _ = Inl ()"

fun collection_try_from_data_type :: "data_type \<Rightarrow> unit + collection" where
  "collection_try_from_data_type DataType_Email = Inr Collection_Email"
| "collection_try_from_data_type DataType_Mailbox = Inr Collection_Mailbox"
| "collection_try_from_data_type DataType_Thread = Inr Collection_Thread"
| "collection_try_from_data_type DataType_Identity = Inr Collection_Identity"
| "collection_try_from_data_type DataType_EmailSubmission = Inr Collection_EmailSubmission"
| "collection_try_from_data_type DataType_SieveScript = Inr Collection_SieveScript"
| "collection_try_from_data_type DataType_PushSubscription = Inr Collection_PushSubscription"
| "collection_try_from_data_type DataType_Principal = Inr Collection_Principal"
| "collection_try_from_data_type DataType_Calendar = Inr Collection_Calendar"
| "collection_try_from_data_type DataType_CalendarEvent = Inr Collection_CalendarEvent"
| "collection_try_from_data_type DataType_AddressBook = Inr Collection_AddressBook"
| "collection_try_from_data_type DataType_ContactCard = Inr Collection_ContactCard"
| "collection_try_from_data_type DataType_FileNode = Inr Collection_FileNode"
| "collection_try_from_data_type DataType_CalendarEventNotification = Inr Collection_CalendarEventNotification"
| "collection_try_from_data_type _ = Inl ()"

fun data_type_try_from_sync :: "sync_collection \<Rightarrow> bool \<Rightarrow> data_type option" where
  "data_type_try_from_sync Sync_Email False = Some DataType_Email"
| "data_type_try_from_sync Sync_Email True = Some DataType_Mailbox"
| "data_type_try_from_sync Sync_Thread _ = Some DataType_Thread"
| "data_type_try_from_sync Sync_Calendar True = Some DataType_Calendar"
| "data_type_try_from_sync Sync_Calendar False = Some DataType_CalendarEvent"
| "data_type_try_from_sync Sync_AddressBook True = Some DataType_AddressBook"
| "data_type_try_from_sync Sync_AddressBook False = Some DataType_ContactCard"
| "data_type_try_from_sync Sync_FileNode _ = Some DataType_FileNode"
| "data_type_try_from_sync Sync_Identity _ = Some DataType_Identity"
| "data_type_try_from_sync Sync_EmailSubmission _ = Some DataType_EmailSubmission"
| "data_type_try_from_sync Sync_SieveScript _ = Some DataType_SieveScript"
| "data_type_try_from_sync _ _ = None"

section \<open>Textual codes\<close>

fun collection_as_str :: "collection \<Rightarrow> bytes" where
  "collection_as_str Collection_PushSubscription = ''pushSubscription''"
| "collection_as_str Collection_Email = ''email''"
| "collection_as_str Collection_Mailbox = ''mailbox''"
| "collection_as_str Collection_Thread = ''thread''"
| "collection_as_str Collection_Identity = ''identity''"
| "collection_as_str Collection_EmailSubmission = ''emailSubmission''"
| "collection_as_str Collection_SieveScript = ''sieveScript''"
| "collection_as_str Collection_Principal = ''principal''"
| "collection_as_str Collection_Calendar = ''calendar''"
| "collection_as_str Collection_CalendarEvent = ''calendarEvent''"
| "collection_as_str Collection_AddressBook = ''addressBook''"
| "collection_as_str Collection_ContactCard = ''contactCard''"
| "collection_as_str Collection_FileNode = ''fileNode''"
| "collection_as_str Collection_CalendarEventNotification = ''calendarEventNotification''"
| "collection_as_str Collection_None = []"

fun collection_as_config_case :: "collection \<Rightarrow> bytes" where
  "collection_as_config_case Collection_PushSubscription = ''push-subscription''"
| "collection_as_config_case Collection_Email = ''email''"
| "collection_as_config_case Collection_Mailbox = ''mailbox''"
| "collection_as_config_case Collection_Thread = ''thread''"
| "collection_as_config_case Collection_Identity = ''identity''"
| "collection_as_config_case Collection_EmailSubmission = ''email-submission''"
| "collection_as_config_case Collection_SieveScript = ''sieve-script''"
| "collection_as_config_case Collection_Principal = ''principal''"
| "collection_as_config_case Collection_Calendar = ''calendar''"
| "collection_as_config_case Collection_CalendarEvent = ''calendar-event''"
| "collection_as_config_case Collection_AddressBook = ''address-book''"
| "collection_as_config_case Collection_ContactCard = ''contact-card''"
| "collection_as_config_case Collection_FileNode = ''file-node''"
| "collection_as_config_case Collection_CalendarEventNotification = ''calendar-event-notification''"
| "collection_as_config_case Collection_None = []"

fun sync_as_str :: "sync_collection \<Rightarrow> bytes" where
  "sync_as_str Sync_Email = ''email''"
| "sync_as_str Sync_Thread = ''thread''"
| "sync_as_str Sync_Calendar = ''calendar''"
| "sync_as_str Sync_AddressBook = ''addressBook''"
| "sync_as_str Sync_FileNode = ''fileNode''"
| "sync_as_str Sync_Identity = ''identity''"
| "sync_as_str Sync_EmailSubmission = ''emailSubmission''"
| "sync_as_str Sync_SieveScript = ''sieveScript''"
| "sync_as_str Sync_CalendarEventNotification = ''calendarEventNotification''"
| "sync_as_str Sync_ShareNotification = ''shareNotification''"
| "sync_as_str Sync_None = []"

fun data_type_as_str :: "data_type \<Rightarrow> bytes" where
  "data_type_as_str DataType_Email = ''Email''"
| "data_type_as_str DataType_EmailDelivery = ''EmailDelivery''"
| "data_type_as_str DataType_EmailSubmission = ''EmailSubmission''"
| "data_type_as_str DataType_Mailbox = ''Mailbox''"
| "data_type_as_str DataType_Thread = ''Thread''"
| "data_type_as_str DataType_Identity = ''Identity''"
| "data_type_as_str DataType_Core = ''Core''"
| "data_type_as_str DataType_PushSubscription = ''PushSubscription''"
| "data_type_as_str DataType_SearchSnippet = ''SearchSnippet''"
| "data_type_as_str DataType_VacationResponse = ''VacationResponse''"
| "data_type_as_str DataType_Mdn = ''MDN''"
| "data_type_as_str DataType_Quota = ''Quota''"
| "data_type_as_str DataType_SieveScript = ''SieveScript''"
| "data_type_as_str DataType_Calendar = ''Calendar''"
| "data_type_as_str DataType_CalendarEvent = ''CalendarEvent''"
| "data_type_as_str DataType_CalendarEventNotification = ''CalendarEventNotification''"
| "data_type_as_str DataType_AddressBook = ''AddressBook''"
| "data_type_as_str DataType_ContactCard = ''ContactCard''"
| "data_type_as_str DataType_FileNode = ''FileNode''"
| "data_type_as_str DataType_Principal = ''Principal''"
| "data_type_as_str DataType_ShareNotification = ''ShareNotification''"
| "data_type_as_str DataType_ParticipantIdentity = ''ParticipantIdentity''"
| "data_type_as_str DataType_CalendarAlert = ''CalendarAlert''"
| "data_type_as_str DataType_None = []"

definition collection_names :: "(bytes \<times> collection) list" where
  "collection_names =
     [(''pushSubscription'', Collection_PushSubscription),
      (''email'', Collection_Email),
      (''mailbox'', Collection_Mailbox),
      (''thread'', Collection_Thread),
      (''identity'', Collection_Identity),
      (''emailSubmission'', Collection_EmailSubmission),
      (''sieveScript'', Collection_SieveScript),
      (''principal'', Collection_Principal),
      (''calendar'', Collection_Calendar),
      (''calendarEvent'', Collection_CalendarEvent),
      (''addressBook'', Collection_AddressBook),
      (''contactCard'', Collection_ContactCard),
      (''fileNode'', Collection_FileNode),
      (''calendarEventNotification'', Collection_CalendarEventNotification)]"

definition collection_from_str ::
  "((bytes \<times> collection) list \<Rightarrow> bytes \<Rightarrow> collection option) \<Rightarrow> bytes \<Rightarrow> unit + collection" where
  "collection_from_str tiny_map s =
     (case tiny_map collection_names s of None \<Rightarrow> Inl () | Some c \<Rightarrow> Inr c)"

definition data_type_names :: "(bytes \<times> data_type) list" where
  "data_type_names =
     [(''Email'', DataType_Email),
      (''EmailDelivery'', DataType_EmailDelivery),
      (''EmailSubmission'', DataType_EmailSubmission),
      (''Mailbox'', DataType_Mailbox),
      (''Thread'', DataType_Thread),
      (''Identity'', DataType_Identity),
      (''Core'', DataType_Core),
      (''PushSubscription'', DataType_PushSubscription),
      (''SearchSnippet'', DataType_SearchSnippet),
      (''VacationResponse'', DataType_VacationResponse),
      (''MDN'', DataType_Mdn),
      (''Quota'', DataType_Quota),
      (''SieveScript'', DataType_SieveScript),
      (''Calendar'', DataType_Calendar),
      (''CalendarEvent'', DataType_CalendarEvent),
      (''CalendarEventNotification'', DataType_CalendarEventNotification),
      (''AddressBook'', DataType_AddressBook),
      (''ContactCard'', DataType_ContactCard),
      (''FileNode'', DataType_FileNode),
      (''Principal'', DataType_Principal),
      (''ShareNotification'', DataType_ShareNotification),
      (''ParticipantIdentity'', DataType_ParticipantIdentity),
      (''CalendarAlert'', DataType_CalendarAlert)]"

definition data_type_parse ::
  "((bytes \<times> data_type) list \<Rightarrow> bytes \<Rightarrow> data_type option) \<Rightarrow> bytes \<Rightarrow> data_type option" where
  "data_type_parse tiny_map s = tiny_map data_type_names s"

definition data_type_from_str ::
  "((bytes \<times> data_type) list \<Rightarrow> bytes \<Rightarrow> data_type option) \<Rightarrow> bytes \<Rightarrow> unit + data_type" where
  "data_type_from_str tiny_map s =
     (case data_type_parse tiny_map s of None \<Rightarrow> Inl () | Some d \<Rightarrow> Inr d)"

section \<open>Items of bitmaps\<close>

definition collection_is_valid :: "collection \<Rightarrow> bool" where
  "collection_is_valid c \<longleftrightarrow> c \<noteq> Collection_None"

definition collection_max :: u64 where
  "collection_max = u64_from_collection Collection_None"

definition sync_is_valid :: "sync_collection \<Rightarrow> bool" where
  "sync_is_valid c \<longleftrightarrow> c \<noteq> Sync_None"

definition sync_max :: u64 where
  "sync_max = u64_from_sync Sync_None"

definition data_type_is_valid :: "data_type \<Rightarrow> bool" where
  "data_type_is_valid d \<longleftrightarrow> d \<noteq> DataType_None"

definition data_type_max :: u64 where
  "data_type_max = u64_from_data_type DataType_None"

section \<open>State changes\<close>

record state_change =
  sc_account_id :: u32
  sc_change_id :: u64
  sc_types :: bitmap

definition state_change_new :: "u32 \<Rightarrow> state_change" where
  "state_change_new account_id = \<lparr>sc_account_id = account_id, sc_change_id = 0, sc_types = bitmap_new\<rparr>"

definition set_change :: "state_change \<Rightarrow> data_type \<Rightarrow> state_change" where
  "set_change s type_state = s\<lparr>sc_types := bitmap_insert u64_from_data_type (sc_types s) type_state\<rparr>"

definition with_change :: "state_change \<Rightarrow> data_type \<Rightarrow> state_change" where
  "with_change s type_state = set_change s type_state"

definition with_change_id :: "state_change \<Rightarrow> u64 \<Rightarrow> state_change" where
  "with_change_id s change_id = s\<lparr>sc_change_id := change_id\<rparr>"

definition has_changes :: "state_change \<Rightarrow> bool" where
  "has_changes s \<longleftrightarrow> \<not> bitmap_is_empty (sc_types s)"

section \<open>Codes decode to what they encode\<close>

lemma collection_from_u8_disc: "collection_from_u8 (u8_from_collection c) = c"
  by (cases c) (simp_all add: collection_from_u8_def u8_from_collection_def)

lemma collection_from_u64_disc: "collection_from_u64 (u64_from_collection c) = c"
  by (cases c) (simp_all add: collection_from_u64_def u64_from_collection_def)

lemma sync_from_u8_disc: "sync_from_u8 (u8_from_sync c) = c"
  by (cases c) (simp_all add: sync_from_u8_def u8_from_sync_def)

lemma sync_from_u64_disc: "sync_from_u64 (u64_from_sync c) = c"
  by (cases c) (simp_all add: sync_from_u64_def u64_from_sync_def)

lemma data_type_from_u64_disc: "data_type_from_u64 (u64_from_data_type d) = d"
  by (cases d) (simp_all add: data_type_from_u64_def u64_from_data_type_def)

interpretation collection_u8: code_table "\<lambda>_. True" u8_from_collection collection_from_u8
  by unfold_locales (rule collection_from_u8_disc)

interpretation sync_u8: code_table "\<lambda>_. True" u8_from_sync sync_from_u8
  by unfold_locales (rule sync_from_u8_disc)

interpretation collection_items: bitmap_item u64_from_collection collection_from_u64 collection_is_valid
proof unfold_locales
  show "unat (u64_from_collection c) < 64" for c by (cases c) (simp_all add: u64_from_collection_def)
qed (rule collection_from_u64_disc)

interpretation sync_items: bitmap_item u64_from_sync sync_from_u64 sync_is_valid
proof unfold_locales
  show "unat (u64_from_sync c) < 64" for c by (cases c) (simp_all add: u64_from_sync_def)
qed (rule sync_from_u64_disc)

interpretation data_types: bitmap_item u64_from_data_type data_type_from_u64 data_type_is_valid
proof unfold_locales
  show "unat (u64_from_data_type d) < 64" for d by (cases d) (simp_all add: u64_from_data_type_def)
qed (rule data_type_from_u64_disc)

lemma distinct_names: "distinct (map fst collection_names)" "distinct (map fst data_type_names)"
  by (simp_all add: collection_names_def data_type_names_def)

lemma data_type_parse_as_str:
  assumes "tiny_map_spec tiny_map"
  shows "data_type_parse tiny_map (data_type_as_str d) = (if data_type_is_valid d then Some d else None)"
  unfolding data_type_parse_def tiny_map_specD [OF assms distinct_names(2)]
  by (cases d) (simp_all add: data_type_names_def data_type_is_valid_def)

lemma collection_from_str_as_str:
  assumes "tiny_map_spec tiny_map"
  shows "collection_from_str tiny_map (collection_as_str c) = (if collection_is_valid c then Inr c else Inl ())"
  unfolding collection_from_str_def tiny_map_specD [OF assms distinct_names(1)]
  by (cases c) (simp_all add: collection_names_def collection_is_valid_def)

section \<open>Properties\<close>

text \<open>
  The set of types in a state change behaves as a set: after any number of changes are recorded, exactly the types recorded are in it,
  listing it gives each once, in descending order of code, and building a set from the list gives the same word.
\<close>

theorem state_change_types:
  assumes "list_all data_type_is_valid ds"
    and b_def: "b = sc_types (foldl set_change (state_change_new account) ds)"
  shows "set (bitmap_to_list data_type_from_u64 b) = set ds \<and> distinct (bitmap_to_list data_type_from_u64 b) \<and>
     sorted_wrt (\<lambda>t u. unat (u64_from_data_type u) < unat (u64_from_data_type t)) (bitmap_to_list data_type_from_u64 b) \<and>
     bitmap_from_list u64_from_data_type data_type_is_valid (bitmap_to_list data_type_from_u64 b) = b"
proof -
  have "b = bitmap_from_list u64_from_data_type data_type_is_valid ds"
  proof -
    have "sc_types (foldl set_change s ds) = bitmap_from_list_loop u64_from_data_type data_type_is_valid (sc_types s) ds" for s
      using assms(1) by (induction ds arbitrary: s) (simp_all add: set_change_def)
    then show ?thesis by (simp add: b_def bitmap_from_list_def state_change_new_def bitmap_new_def)
  qed
  moreover have "{d \<in> set ds. data_type_is_valid d} = set ds" using assms(1) by (auto simp: list_all_iff)
  ultimately have "bitmap_items u64_from_data_type data_type_is_valid b = set ds"
    and wf: "bitmap_wf u64_from_data_type data_type_is_valid b"
    by (simp_all add: data_types.items_from_list data_types.wf_from_list)
  with data_types.to_list_items [OF wf] data_types.from_list_to_list [OF wf] show ?thesis by simp
qed

theorem state_change_types_witness:
  "set (bitmap_to_list data_type_from_u64 (sc_types (foldl set_change (state_change_new 1) [DataType_Thread, DataType_Email]))) =
     {DataType_Thread, DataType_Email}"
  using state_change_types [of "[DataType_Thread, DataType_Email]" _ 1, OF _ refl] by (simp add: data_type_is_valid_def)

text \<open>
  Removing an item from a bitmap toggles it: an item that was not in the set is in it afterwards.
\<close>

theorem bitmap_remove_inserts:
  assumes "collection_is_valid c" "\<not> bitmap_contains u64_from_collection b c"
  shows "bitmap_contains u64_from_collection (bitmap_remove u64_from_collection b c) c"
  using assms by (simp add: collection_items.contains_iff collection_items.items_remove)

theorem bitmap_remove_inserts_witness:
  "bitmap_contains u64_from_collection (bitmap_remove u64_from_collection bitmap_new Collection_Email) Collection_Email"
  by (rule bitmap_remove_inserts) (simp_all add: collection_is_valid_def bitmap_contains_def bitmap_new_def)

text \<open>
  The names of collections and data types that go to clients and configuration are parsed back to the same
  values, and the reserved value is never parsed, for every lookup function that keeps the promise of the macro.
\<close>

theorem names_roundtrip:
  assumes "tiny_map_spec tm1" "tiny_map_spec tm2"
  shows "data_type_parse tm1 (data_type_as_str d) = (if d \<noteq> DataType_None then Some d else None) \<and>
     collection_from_str tm2 (collection_as_str c) = (if c \<noteq> Collection_None then Inr c else Inl ())"
  using data_type_parse_as_str [OF assms(1), of d] collection_from_str_as_str [OF assms(2), of c]
  by (simp add: data_type_is_valid_def collection_is_valid_def)

theorem names_roundtrip_witness:
  "tiny_map_spec map_of \<and> data_type_parse map_of (data_type_as_str DataType_Thread) = Some DataType_Thread \<and>
     collection_from_str map_of (collection_as_str Collection_Mailbox) = Inr Collection_Mailbox"
  using names_roundtrip [of map_of map_of DataType_Thread Collection_Mailbox] by (simp add: tiny_map_spec_def)

text \<open>
  The numeric codes stored in database keys and change logs are read back, in both widths, and two
  collections never share a code.
\<close>

theorem collection_codes_roundtrip:
  "collection_from_u8 (u8_from_collection c) = c \<and> collection_from_u64 (u64_from_collection c) = c \<and>
   sync_from_u8 (u8_from_sync s) = s \<and> sync_from_u64 (u64_from_sync s) = s \<and>
   data_type_from_u64 (u64_from_data_type d) = d \<and>
   (u8_from_collection c = u8_from_collection c' \<longleftrightarrow> c = c') \<and> (u8_from_sync s = u8_from_sync s' \<longleftrightarrow> s = s')"
  using collection_u8.encode_eq_iff sync_u8.encode_eq_iff
  by (simp add: collection_from_u8_disc collection_from_u64_disc sync_from_u8_disc sync_from_u64_disc
      data_type_from_u64_disc)

end
