(* ===== verification/Keyword.thy ===== *)
theory Keyword
  imports Collections
begin

text \<open>
  Message keywords and mailbox roles (\<^verbatim>\<open>crates/types/src/keyword.rs\<close> and
  \<^verbatim>\<open>special_use.rs\<close>): the standard keywords with their database identifiers, the
  case-insensitive parser that accepts the JMAP form (\<open>$seen\<close>) and the IMAP
  form (\<open>\seen\<close>), the printer, and the archived (zero-copy) variants of
  the types. A Rust string is a list of bytes here; \<open>chars().take(n)\<close> counts
  Unicode scalar values, so it is modelled on the UTF-8 text of the string.
  The lookup macro \<open>hashify::tiny_map_ignore_case\<close> is an argument, as in
  \<open>Collections\<close>.
\<close>

section \<open>The case-insensitive lookup\<close>

definition tiny_map_ignore_case_spec :: "((bytes \<times> 'v) list \<Rightarrow> bytes \<Rightarrow> 'v option) \<Rightarrow> bool" where
  "tiny_map_ignore_case_spec tiny_map \<longleftrightarrow>
     (\<forall>table key. distinct (map fst table) \<and> (\<forall>k \<in> fst ` set table. map to_ascii_lowercase k = k) \<longrightarrow>
        tiny_map table key = map_of table (map to_ascii_lowercase key))"

section \<open>Keywords\<close>

text \<open>The database identifiers of the keywords, by the names of their constants.\<close>

definition KW_SEEN :: nat where "KW_SEEN = 0"
definition KW_DRAFT :: nat where "KW_DRAFT = 1"
definition KW_FLAGGED :: nat where "KW_FLAGGED = 2"
definition KW_ANSWERED :: nat where "KW_ANSWERED = 3"
definition KW_RECENT :: nat where "KW_RECENT = 4"
definition KW_IMPORTANT :: nat where "KW_IMPORTANT = 5"
definition KW_PHISHING :: nat where "KW_PHISHING = 6"
definition KW_JUNK :: nat where "KW_JUNK = 7"
definition KW_NOTJUNK :: nat where "KW_NOTJUNK = 8"
definition KW_DELETED :: nat where "KW_DELETED = 9"
definition KW_FORWARDED :: nat where "KW_FORWARDED = 10"
definition KW_MDN_SENT :: nat where "KW_MDN_SENT = 11"
definition KW_AUTOSENT :: nat where "KW_AUTOSENT = 12"
definition KW_CANUNSUBSCRIBE :: nat where "KW_CANUNSUBSCRIBE = 13"
definition KW_FOLLOWED :: nat where "KW_FOLLOWED = 14"
definition KW_HASATTACHMENT :: nat where "KW_HASATTACHMENT = 15"
definition KW_HASMEMO :: nat where "KW_HASMEMO = 16"
definition KW_HASNOATTACHMENT :: nat where "KW_HASNOATTACHMENT = 17"
definition KW_IMPORTED :: nat where "KW_IMPORTED = 18"
definition KW_ISTRUSTED :: nat where "KW_ISTRUSTED = 19"
definition KW_MAILFLAGBIT0 :: nat where "KW_MAILFLAGBIT0 = 20"
definition KW_MAILFLAGBIT1 :: nat where "KW_MAILFLAGBIT1 = 21"
definition KW_MAILFLAGBIT2 :: nat where "KW_MAILFLAGBIT2 = 22"
definition KW_MASKEDEMAIL :: nat where "KW_MASKEDEMAIL = 23"
definition KW_MEMO :: nat where "KW_MEMO = 24"
definition KW_MUTED :: nat where "KW_MUTED = 25"
definition KW_NEW :: nat where "KW_NEW = 26"
definition KW_NOTIFY :: nat where "KW_NOTIFY = 27"
definition KW_UNSUBSCRIBED :: nat where "KW_UNSUBSCRIBED = 28"
definition KW_OTHER :: nat where "KW_OTHER = 29"

lemmas keyword_consts =
  KW_SEEN_def KW_DRAFT_def KW_FLAGGED_def KW_ANSWERED_def KW_RECENT_def KW_IMPORTANT_def KW_PHISHING_def KW_JUNK_def KW_NOTJUNK_def KW_DELETED_def KW_FORWARDED_def KW_MDN_SENT_def KW_AUTOSENT_def KW_CANUNSUBSCRIBE_def KW_FOLLOWED_def KW_HASATTACHMENT_def KW_HASMEMO_def KW_HASNOATTACHMENT_def KW_IMPORTED_def KW_ISTRUSTED_def KW_MAILFLAGBIT0_def KW_MAILFLAGBIT1_def KW_MAILFLAGBIT2_def KW_MASKEDEMAIL_def KW_MEMO_def KW_MUTED_def KW_NEW_def KW_NOTIFY_def KW_UNSUBSCRIBED_def KW_OTHER_def

datatype keyword =
  Keyword_Other bytes
| Keyword_Seen
| Keyword_Draft
| Keyword_Flagged
| Keyword_Answered
| Keyword_Recent
| Keyword_Important
| Keyword_Phishing
| Keyword_Junk
| Keyword_NotJunk
| Keyword_Deleted
| Keyword_Forwarded
| Keyword_MdnSent
| Keyword_Autosent
| Keyword_CanUnsubscribe
| Keyword_Followed
| Keyword_HasAttachment
| Keyword_HasMemo
| Keyword_HasNoAttachment
| Keyword_Imported
| Keyword_IsTrusted
| Keyword_MailFlagBit0
| Keyword_MailFlagBit1
| Keyword_MailFlagBit2
| Keyword_MaskedEmail
| Keyword_Memo
| Keyword_Muted
| Keyword_New
| Keyword_Notify
| Keyword_Unsubscribed

datatype archived_keyword =
  ArchivedKeyword_Other bytes
| ArchivedKeyword_Seen
| ArchivedKeyword_Draft
| ArchivedKeyword_Flagged
| ArchivedKeyword_Answered
| ArchivedKeyword_Recent
| ArchivedKeyword_Important
| ArchivedKeyword_Phishing
| ArchivedKeyword_Junk
| ArchivedKeyword_NotJunk
| ArchivedKeyword_Deleted
| ArchivedKeyword_Forwarded
| ArchivedKeyword_MdnSent
| ArchivedKeyword_Autosent
| ArchivedKeyword_CanUnsubscribe
| ArchivedKeyword_Followed
| ArchivedKeyword_HasAttachment
| ArchivedKeyword_HasMemo
| ArchivedKeyword_HasNoAttachment
| ArchivedKeyword_Imported
| ArchivedKeyword_IsTrusted
| ArchivedKeyword_MailFlagBit0
| ArchivedKeyword_MailFlagBit1
| ArchivedKeyword_MailFlagBit2
| ArchivedKeyword_MaskedEmail
| ArchivedKeyword_Memo
| ArchivedKeyword_Muted
| ArchivedKeyword_New
| ArchivedKeyword_Notify
| ArchivedKeyword_Unsubscribed

definition keyword_names :: "(bytes \<times> keyword) list" where
  "keyword_names =
     [(''seen'', Keyword_Seen),
      (''draft'', Keyword_Draft),
      (''flagged'', Keyword_Flagged),
      (''answered'', Keyword_Answered),
      (''recent'', Keyword_Recent),
      (''important'', Keyword_Important),
      (''phishing'', Keyword_Phishing),
      (''junk'', Keyword_Junk),
      (''notjunk'', Keyword_NotJunk),
      (''deleted'', Keyword_Deleted),
      (''forwarded'', Keyword_Forwarded),
      (''mdnsent'', Keyword_MdnSent),
      (''autosent'', Keyword_Autosent),
      (''canunsubscribe'', Keyword_CanUnsubscribe),
      (''followed'', Keyword_Followed),
      (''hasattachment'', Keyword_HasAttachment),
      (''hasmemo'', Keyword_HasMemo),
      (''hasnoattachment'', Keyword_HasNoAttachment),
      (''imported'', Keyword_Imported),
      (''istrusted'', Keyword_IsTrusted),
      (''mailflagbit0'', Keyword_MailFlagBit0),
      (''mailflagbit1'', Keyword_MailFlagBit1),
      (''mailflagbit2'', Keyword_MailFlagBit2),
      (''maskedemail'', Keyword_MaskedEmail),
      (''memo'', Keyword_Memo),
      (''muted'', Keyword_Muted),
      (''new'', Keyword_New),
      (''notify'', Keyword_Notify),
      (''unsubscribed'', Keyword_Unsubscribed)]"

definition MAX_LENGTH :: nat where
  "MAX_LENGTH = 128"

text \<open>
  \<open>split_at_checked(1)\<close> fails on the empty string and where byte 1 is inside a character.
\<close>

definition keyword_try_parse ::
  "((bytes \<times> keyword) list \<Rightarrow> bytes \<Rightarrow> keyword option) \<Rightarrow> bytes \<Rightarrow> keyword option" where
  "keyword_try_parse tiny_map value =
     (case value of
        [] \<Rightarrow> None
      | prefix # rest \<Rightarrow>
          if (prefix = CHR ''$'' \<or> prefix = CHR 0x5C) \<and> (rest = [] \<or> \<not> is_utf8_cont (hd rest))
          then tiny_map keyword_names rest
          else None)"

definition keyword_parse ::
  "((bytes \<times> keyword) list \<Rightarrow> bytes \<Rightarrow> keyword option) \<Rightarrow> bytes \<Rightarrow> keyword" where
  "keyword_parse tiny_map value =
     (case keyword_try_parse tiny_map value of
        Some k \<Rightarrow> k
      | None \<Rightarrow> Keyword_Other (take_chars MAX_LENGTH value))"

definition keyword_from_other :: "bytes \<Rightarrow> keyword" where
  "keyword_from_other value =
     (if length value \<le> MAX_LENGTH then Keyword_Other value
      else Keyword_Other (take_chars MAX_LENGTH value))"

definition keyword_from_boxed_other :: "bytes \<Rightarrow> keyword" where
  "keyword_from_boxed_other value =
     (if length value \<le> MAX_LENGTH then Keyword_Other value
      else Keyword_Other (take_chars MAX_LENGTH value))"

definition keyword_from_string ::
  "((bytes \<times> keyword) list \<Rightarrow> bytes \<Rightarrow> keyword option) \<Rightarrow> bytes \<Rightarrow> keyword" where
  "keyword_from_string tiny_map value =
     (case keyword_try_parse tiny_map value of Some k \<Rightarrow> k | None \<Rightarrow> keyword_from_other value)"

fun keyword_id :: "keyword \<Rightarrow> bytes + nat" where
  "keyword_id Keyword_Seen = Inr KW_SEEN"
| "keyword_id Keyword_Draft = Inr KW_DRAFT"
| "keyword_id Keyword_Flagged = Inr KW_FLAGGED"
| "keyword_id Keyword_Answered = Inr KW_ANSWERED"
| "keyword_id Keyword_Recent = Inr KW_RECENT"
| "keyword_id Keyword_Important = Inr KW_IMPORTANT"
| "keyword_id Keyword_Phishing = Inr KW_PHISHING"
| "keyword_id Keyword_Junk = Inr KW_JUNK"
| "keyword_id Keyword_NotJunk = Inr KW_NOTJUNK"
| "keyword_id Keyword_Deleted = Inr KW_DELETED"
| "keyword_id Keyword_Forwarded = Inr KW_FORWARDED"
| "keyword_id Keyword_MdnSent = Inr KW_MDN_SENT"
| "keyword_id Keyword_Autosent = Inr KW_AUTOSENT"
| "keyword_id Keyword_CanUnsubscribe = Inr KW_CANUNSUBSCRIBE"
| "keyword_id Keyword_Followed = Inr KW_FOLLOWED"
| "keyword_id Keyword_HasAttachment = Inr KW_HASATTACHMENT"
| "keyword_id Keyword_HasMemo = Inr KW_HASMEMO"
| "keyword_id Keyword_HasNoAttachment = Inr KW_HASNOATTACHMENT"
| "keyword_id Keyword_Imported = Inr KW_IMPORTED"
| "keyword_id Keyword_IsTrusted = Inr KW_ISTRUSTED"
| "keyword_id Keyword_MailFlagBit0 = Inr KW_MAILFLAGBIT0"
| "keyword_id Keyword_MailFlagBit1 = Inr KW_MAILFLAGBIT1"
| "keyword_id Keyword_MailFlagBit2 = Inr KW_MAILFLAGBIT2"
| "keyword_id Keyword_MaskedEmail = Inr KW_MASKEDEMAIL"
| "keyword_id Keyword_Memo = Inr KW_MEMO"
| "keyword_id Keyword_Muted = Inr KW_MUTED"
| "keyword_id Keyword_New = Inr KW_NEW"
| "keyword_id Keyword_Notify = Inr KW_NOTIFY"
| "keyword_id Keyword_Unsubscribed = Inr KW_UNSUBSCRIBED"
| "keyword_id (Keyword_Other s) = Inl s"

fun keyword_into_id :: "keyword \<Rightarrow> bytes + nat" where
  "keyword_into_id Keyword_Seen = Inr KW_SEEN"
| "keyword_into_id Keyword_Draft = Inr KW_DRAFT"
| "keyword_into_id Keyword_Flagged = Inr KW_FLAGGED"
| "keyword_into_id Keyword_Answered = Inr KW_ANSWERED"
| "keyword_into_id Keyword_Recent = Inr KW_RECENT"
| "keyword_into_id Keyword_Important = Inr KW_IMPORTANT"
| "keyword_into_id Keyword_Phishing = Inr KW_PHISHING"
| "keyword_into_id Keyword_Junk = Inr KW_JUNK"
| "keyword_into_id Keyword_NotJunk = Inr KW_NOTJUNK"
| "keyword_into_id Keyword_Deleted = Inr KW_DELETED"
| "keyword_into_id Keyword_Forwarded = Inr KW_FORWARDED"
| "keyword_into_id Keyword_MdnSent = Inr KW_MDN_SENT"
| "keyword_into_id Keyword_Autosent = Inr KW_AUTOSENT"
| "keyword_into_id Keyword_CanUnsubscribe = Inr KW_CANUNSUBSCRIBE"
| "keyword_into_id Keyword_Followed = Inr KW_FOLLOWED"
| "keyword_into_id Keyword_HasAttachment = Inr KW_HASATTACHMENT"
| "keyword_into_id Keyword_HasMemo = Inr KW_HASMEMO"
| "keyword_into_id Keyword_HasNoAttachment = Inr KW_HASNOATTACHMENT"
| "keyword_into_id Keyword_Imported = Inr KW_IMPORTED"
| "keyword_into_id Keyword_IsTrusted = Inr KW_ISTRUSTED"
| "keyword_into_id Keyword_MailFlagBit0 = Inr KW_MAILFLAGBIT0"
| "keyword_into_id Keyword_MailFlagBit1 = Inr KW_MAILFLAGBIT1"
| "keyword_into_id Keyword_MailFlagBit2 = Inr KW_MAILFLAGBIT2"
| "keyword_into_id Keyword_MaskedEmail = Inr KW_MASKEDEMAIL"
| "keyword_into_id Keyword_Memo = Inr KW_MEMO"
| "keyword_into_id Keyword_Muted = Inr KW_MUTED"
| "keyword_into_id Keyword_New = Inr KW_NEW"
| "keyword_into_id Keyword_Notify = Inr KW_NOTIFY"
| "keyword_into_id Keyword_Unsubscribed = Inr KW_UNSUBSCRIBED"
| "keyword_into_id (Keyword_Other s) = Inl s"

definition keyword_try_from_id :: "nat \<Rightarrow> nat + keyword" where
  "keyword_try_from_id i =
     (if i = KW_SEEN then Inr Keyword_Seen
      else if i = KW_DRAFT then Inr Keyword_Draft
      else if i = KW_FLAGGED then Inr Keyword_Flagged
      else if i = KW_ANSWERED then Inr Keyword_Answered
      else if i = KW_RECENT then Inr Keyword_Recent
      else if i = KW_IMPORTANT then Inr Keyword_Important
      else if i = KW_PHISHING then Inr Keyword_Phishing
      else if i = KW_JUNK then Inr Keyword_Junk
      else if i = KW_NOTJUNK then Inr Keyword_NotJunk
      else if i = KW_DELETED then Inr Keyword_Deleted
      else if i = KW_FORWARDED then Inr Keyword_Forwarded
      else if i = KW_MDN_SENT then Inr Keyword_MdnSent
      else if i = KW_AUTOSENT then Inr Keyword_Autosent
      else if i = KW_CANUNSUBSCRIBE then Inr Keyword_CanUnsubscribe
      else if i = KW_FOLLOWED then Inr Keyword_Followed
      else if i = KW_HASATTACHMENT then Inr Keyword_HasAttachment
      else if i = KW_HASMEMO then Inr Keyword_HasMemo
      else if i = KW_HASNOATTACHMENT then Inr Keyword_HasNoAttachment
      else if i = KW_IMPORTED then Inr Keyword_Imported
      else if i = KW_ISTRUSTED then Inr Keyword_IsTrusted
      else if i = KW_MAILFLAGBIT0 then Inr Keyword_MailFlagBit0
      else if i = KW_MAILFLAGBIT1 then Inr Keyword_MailFlagBit1
      else if i = KW_MAILFLAGBIT2 then Inr Keyword_MailFlagBit2
      else if i = KW_MASKEDEMAIL then Inr Keyword_MaskedEmail
      else if i = KW_MEMO then Inr Keyword_Memo
      else if i = KW_MUTED then Inr Keyword_Muted
      else if i = KW_NEW then Inr Keyword_New
      else if i = KW_NOTIFY then Inr Keyword_Notify
      else if i = KW_UNSUBSCRIBED then Inr Keyword_Unsubscribed
      else Inl i)"

fun keyword_display :: "keyword \<Rightarrow> bytes" where
  "keyword_display Keyword_Seen = ''$seen''"
| "keyword_display Keyword_Draft = ''$draft''"
| "keyword_display Keyword_Flagged = ''$flagged''"
| "keyword_display Keyword_Answered = ''$answered''"
| "keyword_display Keyword_Recent = ''$recent''"
| "keyword_display Keyword_Important = ''$important''"
| "keyword_display Keyword_Phishing = ''$phishing''"
| "keyword_display Keyword_Junk = ''$junk''"
| "keyword_display Keyword_NotJunk = ''$notjunk''"
| "keyword_display Keyword_Deleted = ''$deleted''"
| "keyword_display Keyword_Forwarded = ''$forwarded''"
| "keyword_display Keyword_MdnSent = ''$mdnsent''"
| "keyword_display Keyword_Autosent = ''$autosent''"
| "keyword_display Keyword_CanUnsubscribe = ''$canunsubscribe''"
| "keyword_display Keyword_Followed = ''$followed''"
| "keyword_display Keyword_HasAttachment = ''$hasattachment''"
| "keyword_display Keyword_HasMemo = ''$hasmemo''"
| "keyword_display Keyword_HasNoAttachment = ''$hasnoattachment''"
| "keyword_display Keyword_Imported = ''$imported''"
| "keyword_display Keyword_IsTrusted = ''$istrusted''"
| "keyword_display Keyword_MailFlagBit0 = ''$MailFlagBit0''"
| "keyword_display Keyword_MailFlagBit1 = ''$MailFlagBit1''"
| "keyword_display Keyword_MailFlagBit2 = ''$MailFlagBit2''"
| "keyword_display Keyword_MaskedEmail = ''$maskedemail''"
| "keyword_display Keyword_Memo = ''$memo''"
| "keyword_display Keyword_Muted = ''$muted''"
| "keyword_display Keyword_New = ''$new''"
| "keyword_display Keyword_Notify = ''$notify''"
| "keyword_display Keyword_Unsubscribed = ''$unsubscribed''"
| "keyword_display (Keyword_Other s) = s"

fun archived_keyword_display :: "archived_keyword \<Rightarrow> bytes" where
  "archived_keyword_display ArchivedKeyword_Seen = ''$seen''"
| "archived_keyword_display ArchivedKeyword_Draft = ''$draft''"
| "archived_keyword_display ArchivedKeyword_Flagged = ''$flagged''"
| "archived_keyword_display ArchivedKeyword_Answered = ''$answered''"
| "archived_keyword_display ArchivedKeyword_Recent = ''$recent''"
| "archived_keyword_display ArchivedKeyword_Important = ''$important''"
| "archived_keyword_display ArchivedKeyword_Phishing = ''$phishing''"
| "archived_keyword_display ArchivedKeyword_Junk = ''$junk''"
| "archived_keyword_display ArchivedKeyword_NotJunk = ''$notjunk''"
| "archived_keyword_display ArchivedKeyword_Deleted = ''$deleted''"
| "archived_keyword_display ArchivedKeyword_Forwarded = ''$forwarded''"
| "archived_keyword_display ArchivedKeyword_MdnSent = ''$mdnsent''"
| "archived_keyword_display ArchivedKeyword_Autosent = ''$autosent''"
| "archived_keyword_display ArchivedKeyword_CanUnsubscribe = ''$canunsubscribe''"
| "archived_keyword_display ArchivedKeyword_Followed = ''$followed''"
| "archived_keyword_display ArchivedKeyword_HasAttachment = ''$hasattachment''"
| "archived_keyword_display ArchivedKeyword_HasMemo = ''$hasmemo''"
| "archived_keyword_display ArchivedKeyword_HasNoAttachment = ''$hasnoattachment''"
| "archived_keyword_display ArchivedKeyword_Imported = ''$imported''"
| "archived_keyword_display ArchivedKeyword_IsTrusted = ''$istrusted''"
| "archived_keyword_display ArchivedKeyword_MailFlagBit0 = ''$MailFlagBit0''"
| "archived_keyword_display ArchivedKeyword_MailFlagBit1 = ''$MailFlagBit1''"
| "archived_keyword_display ArchivedKeyword_MailFlagBit2 = ''$MailFlagBit2''"
| "archived_keyword_display ArchivedKeyword_MaskedEmail = ''$maskedemail''"
| "archived_keyword_display ArchivedKeyword_Memo = ''$memo''"
| "archived_keyword_display ArchivedKeyword_Muted = ''$muted''"
| "archived_keyword_display ArchivedKeyword_New = ''$new''"
| "archived_keyword_display ArchivedKeyword_Notify = ''$notify''"
| "archived_keyword_display ArchivedKeyword_Unsubscribed = ''$unsubscribed''"
| "archived_keyword_display (ArchivedKeyword_Other s) = s"

fun keyword_to_bytes :: "keyword \<Rightarrow> bytes" where
  "keyword_to_bytes Keyword_Seen = [char_of KW_SEEN]"
| "keyword_to_bytes Keyword_Draft = [char_of KW_DRAFT]"
| "keyword_to_bytes Keyword_Flagged = [char_of KW_FLAGGED]"
| "keyword_to_bytes Keyword_Answered = [char_of KW_ANSWERED]"
| "keyword_to_bytes Keyword_Recent = [char_of KW_RECENT]"
| "keyword_to_bytes Keyword_Important = [char_of KW_IMPORTANT]"
| "keyword_to_bytes Keyword_Phishing = [char_of KW_PHISHING]"
| "keyword_to_bytes Keyword_Junk = [char_of KW_JUNK]"
| "keyword_to_bytes Keyword_NotJunk = [char_of KW_NOTJUNK]"
| "keyword_to_bytes Keyword_Deleted = [char_of KW_DELETED]"
| "keyword_to_bytes Keyword_Forwarded = [char_of KW_FORWARDED]"
| "keyword_to_bytes Keyword_MdnSent = [char_of KW_MDN_SENT]"
| "keyword_to_bytes Keyword_Autosent = [char_of KW_AUTOSENT]"
| "keyword_to_bytes Keyword_CanUnsubscribe = [char_of KW_CANUNSUBSCRIBE]"
| "keyword_to_bytes Keyword_Followed = [char_of KW_FOLLOWED]"
| "keyword_to_bytes Keyword_HasAttachment = [char_of KW_HASATTACHMENT]"
| "keyword_to_bytes Keyword_HasMemo = [char_of KW_HASMEMO]"
| "keyword_to_bytes Keyword_HasNoAttachment = [char_of KW_HASNOATTACHMENT]"
| "keyword_to_bytes Keyword_Imported = [char_of KW_IMPORTED]"
| "keyword_to_bytes Keyword_IsTrusted = [char_of KW_ISTRUSTED]"
| "keyword_to_bytes Keyword_MailFlagBit0 = [char_of KW_MAILFLAGBIT0]"
| "keyword_to_bytes Keyword_MailFlagBit1 = [char_of KW_MAILFLAGBIT1]"
| "keyword_to_bytes Keyword_MailFlagBit2 = [char_of KW_MAILFLAGBIT2]"
| "keyword_to_bytes Keyword_MaskedEmail = [char_of KW_MASKEDEMAIL]"
| "keyword_to_bytes Keyword_Memo = [char_of KW_MEMO]"
| "keyword_to_bytes Keyword_Muted = [char_of KW_MUTED]"
| "keyword_to_bytes Keyword_New = [char_of KW_NEW]"
| "keyword_to_bytes Keyword_Notify = [char_of KW_NOTIFY]"
| "keyword_to_bytes Keyword_Unsubscribed = [char_of KW_UNSUBSCRIBED]"
| "keyword_to_bytes (Keyword_Other s) = s"

fun archived_keyword_id :: "archived_keyword \<Rightarrow> bytes + nat" where
  "archived_keyword_id ArchivedKeyword_Seen = Inr KW_SEEN"
| "archived_keyword_id ArchivedKeyword_Draft = Inr KW_DRAFT"
| "archived_keyword_id ArchivedKeyword_Flagged = Inr KW_FLAGGED"
| "archived_keyword_id ArchivedKeyword_Answered = Inr KW_ANSWERED"
| "archived_keyword_id ArchivedKeyword_Recent = Inr KW_RECENT"
| "archived_keyword_id ArchivedKeyword_Important = Inr KW_IMPORTANT"
| "archived_keyword_id ArchivedKeyword_Phishing = Inr KW_PHISHING"
| "archived_keyword_id ArchivedKeyword_Junk = Inr KW_JUNK"
| "archived_keyword_id ArchivedKeyword_NotJunk = Inr KW_NOTJUNK"
| "archived_keyword_id ArchivedKeyword_Deleted = Inr KW_DELETED"
| "archived_keyword_id ArchivedKeyword_Forwarded = Inr KW_FORWARDED"
| "archived_keyword_id ArchivedKeyword_MdnSent = Inr KW_MDN_SENT"
| "archived_keyword_id ArchivedKeyword_Autosent = Inr KW_AUTOSENT"
| "archived_keyword_id ArchivedKeyword_CanUnsubscribe = Inr KW_CANUNSUBSCRIBE"
| "archived_keyword_id ArchivedKeyword_Followed = Inr KW_FOLLOWED"
| "archived_keyword_id ArchivedKeyword_HasAttachment = Inr KW_HASATTACHMENT"
| "archived_keyword_id ArchivedKeyword_HasMemo = Inr KW_HASMEMO"
| "archived_keyword_id ArchivedKeyword_HasNoAttachment = Inr KW_HASNOATTACHMENT"
| "archived_keyword_id ArchivedKeyword_Imported = Inr KW_IMPORTED"
| "archived_keyword_id ArchivedKeyword_IsTrusted = Inr KW_ISTRUSTED"
| "archived_keyword_id ArchivedKeyword_MailFlagBit0 = Inr KW_MAILFLAGBIT0"
| "archived_keyword_id ArchivedKeyword_MailFlagBit1 = Inr KW_MAILFLAGBIT1"
| "archived_keyword_id ArchivedKeyword_MailFlagBit2 = Inr KW_MAILFLAGBIT2"
| "archived_keyword_id ArchivedKeyword_MaskedEmail = Inr KW_MASKEDEMAIL"
| "archived_keyword_id ArchivedKeyword_Memo = Inr KW_MEMO"
| "archived_keyword_id ArchivedKeyword_Muted = Inr KW_MUTED"
| "archived_keyword_id ArchivedKeyword_New = Inr KW_NEW"
| "archived_keyword_id ArchivedKeyword_Notify = Inr KW_NOTIFY"
| "archived_keyword_id ArchivedKeyword_Unsubscribed = Inr KW_UNSUBSCRIBED"
| "archived_keyword_id (ArchivedKeyword_Other s) = Inl s"

fun archived_keyword_to_native :: "archived_keyword \<Rightarrow> keyword" where
  "archived_keyword_to_native ArchivedKeyword_Seen = Keyword_Seen"
| "archived_keyword_to_native ArchivedKeyword_Draft = Keyword_Draft"
| "archived_keyword_to_native ArchivedKeyword_Flagged = Keyword_Flagged"
| "archived_keyword_to_native ArchivedKeyword_Answered = Keyword_Answered"
| "archived_keyword_to_native ArchivedKeyword_Recent = Keyword_Recent"
| "archived_keyword_to_native ArchivedKeyword_Important = Keyword_Important"
| "archived_keyword_to_native ArchivedKeyword_Phishing = Keyword_Phishing"
| "archived_keyword_to_native ArchivedKeyword_Junk = Keyword_Junk"
| "archived_keyword_to_native ArchivedKeyword_NotJunk = Keyword_NotJunk"
| "archived_keyword_to_native ArchivedKeyword_Deleted = Keyword_Deleted"
| "archived_keyword_to_native ArchivedKeyword_Forwarded = Keyword_Forwarded"
| "archived_keyword_to_native ArchivedKeyword_MdnSent = Keyword_MdnSent"
| "archived_keyword_to_native ArchivedKeyword_Autosent = Keyword_Autosent"
| "archived_keyword_to_native ArchivedKeyword_CanUnsubscribe = Keyword_CanUnsubscribe"
| "archived_keyword_to_native ArchivedKeyword_Followed = Keyword_Followed"
| "archived_keyword_to_native ArchivedKeyword_HasAttachment = Keyword_HasAttachment"
| "archived_keyword_to_native ArchivedKeyword_HasMemo = Keyword_HasMemo"
| "archived_keyword_to_native ArchivedKeyword_HasNoAttachment = Keyword_HasNoAttachment"
| "archived_keyword_to_native ArchivedKeyword_Imported = Keyword_Imported"
| "archived_keyword_to_native ArchivedKeyword_IsTrusted = Keyword_IsTrusted"
| "archived_keyword_to_native ArchivedKeyword_MailFlagBit0 = Keyword_MailFlagBit0"
| "archived_keyword_to_native ArchivedKeyword_MailFlagBit1 = Keyword_MailFlagBit1"
| "archived_keyword_to_native ArchivedKeyword_MailFlagBit2 = Keyword_MailFlagBit2"
| "archived_keyword_to_native ArchivedKeyword_MaskedEmail = Keyword_MaskedEmail"
| "archived_keyword_to_native ArchivedKeyword_Memo = Keyword_Memo"
| "archived_keyword_to_native ArchivedKeyword_Muted = Keyword_Muted"
| "archived_keyword_to_native ArchivedKeyword_New = Keyword_New"
| "archived_keyword_to_native ArchivedKeyword_Notify = Keyword_Notify"
| "archived_keyword_to_native ArchivedKeyword_Unsubscribed = Keyword_Unsubscribed"
| "archived_keyword_to_native (ArchivedKeyword_Other s) = Keyword_Other s"

fun keyword_from_archived :: "archived_keyword \<Rightarrow> keyword" where
  "keyword_from_archived ArchivedKeyword_Seen = Keyword_Seen"
| "keyword_from_archived ArchivedKeyword_Draft = Keyword_Draft"
| "keyword_from_archived ArchivedKeyword_Flagged = Keyword_Flagged"
| "keyword_from_archived ArchivedKeyword_Answered = Keyword_Answered"
| "keyword_from_archived ArchivedKeyword_Recent = Keyword_Recent"
| "keyword_from_archived ArchivedKeyword_Important = Keyword_Important"
| "keyword_from_archived ArchivedKeyword_Phishing = Keyword_Phishing"
| "keyword_from_archived ArchivedKeyword_Junk = Keyword_Junk"
| "keyword_from_archived ArchivedKeyword_NotJunk = Keyword_NotJunk"
| "keyword_from_archived ArchivedKeyword_Deleted = Keyword_Deleted"
| "keyword_from_archived ArchivedKeyword_Forwarded = Keyword_Forwarded"
| "keyword_from_archived ArchivedKeyword_MdnSent = Keyword_MdnSent"
| "keyword_from_archived ArchivedKeyword_Autosent = Keyword_Autosent"
| "keyword_from_archived ArchivedKeyword_CanUnsubscribe = Keyword_CanUnsubscribe"
| "keyword_from_archived ArchivedKeyword_Followed = Keyword_Followed"
| "keyword_from_archived ArchivedKeyword_HasAttachment = Keyword_HasAttachment"
| "keyword_from_archived ArchivedKeyword_HasMemo = Keyword_HasMemo"
| "keyword_from_archived ArchivedKeyword_HasNoAttachment = Keyword_HasNoAttachment"
| "keyword_from_archived ArchivedKeyword_Imported = Keyword_Imported"
| "keyword_from_archived ArchivedKeyword_IsTrusted = Keyword_IsTrusted"
| "keyword_from_archived ArchivedKeyword_MailFlagBit0 = Keyword_MailFlagBit0"
| "keyword_from_archived ArchivedKeyword_MailFlagBit1 = Keyword_MailFlagBit1"
| "keyword_from_archived ArchivedKeyword_MailFlagBit2 = Keyword_MailFlagBit2"
| "keyword_from_archived ArchivedKeyword_MaskedEmail = Keyword_MaskedEmail"
| "keyword_from_archived ArchivedKeyword_Memo = Keyword_Memo"
| "keyword_from_archived ArchivedKeyword_Muted = Keyword_Muted"
| "keyword_from_archived ArchivedKeyword_New = Keyword_New"
| "keyword_from_archived ArchivedKeyword_Notify = Keyword_Notify"
| "keyword_from_archived ArchivedKeyword_Unsubscribed = Keyword_Unsubscribed"
| "keyword_from_archived (ArchivedKeyword_Other s) = Keyword_Other s"

section \<open>Mailbox roles\<close>

datatype special_use =
  SpecialUse_Inbox
| SpecialUse_Trash
| SpecialUse_Junk
| SpecialUse_Drafts
| SpecialUse_Archive
| SpecialUse_Sent
| SpecialUse_Shared
| SpecialUse_Important
| SpecialUse_None
| SpecialUse_Memos
| SpecialUse_Scheduled
| SpecialUse_Snoozed

datatype archived_special_use =
  ArchivedSpecialUse_Inbox
| ArchivedSpecialUse_Trash
| ArchivedSpecialUse_Junk
| ArchivedSpecialUse_Drafts
| ArchivedSpecialUse_Archive
| ArchivedSpecialUse_Sent
| ArchivedSpecialUse_Shared
| ArchivedSpecialUse_Important
| ArchivedSpecialUse_None
| ArchivedSpecialUse_Memos
| ArchivedSpecialUse_Scheduled
| ArchivedSpecialUse_Snoozed

definition special_use_names :: "(bytes \<times> special_use) list" where
  "special_use_names =
     [(''inbox'', SpecialUse_Inbox),
      (''trash'', SpecialUse_Trash),
      (''junk'', SpecialUse_Junk),
      (''drafts'', SpecialUse_Drafts),
      (''archive'', SpecialUse_Archive),
      (''sent'', SpecialUse_Sent),
      (''shared'', SpecialUse_Shared),
      (''important'', SpecialUse_Important),
      (''memos'', SpecialUse_Memos),
      (''scheduled'', SpecialUse_Scheduled),
      (''snoozed'', SpecialUse_Snoozed)]"

definition special_use_parse ::
  "((bytes \<times> special_use) list \<Rightarrow> bytes \<Rightarrow> special_use option) \<Rightarrow> bytes \<Rightarrow> special_use option" where
  "special_use_parse tiny_map s = tiny_map special_use_names s"

fun special_use_as_str :: "special_use \<Rightarrow> bytes option" where
  "special_use_as_str SpecialUse_Inbox = Some ''inbox''"
| "special_use_as_str SpecialUse_Trash = Some ''trash''"
| "special_use_as_str SpecialUse_Junk = Some ''junk''"
| "special_use_as_str SpecialUse_Drafts = Some ''drafts''"
| "special_use_as_str SpecialUse_Archive = Some ''archive''"
| "special_use_as_str SpecialUse_Sent = Some ''sent''"
| "special_use_as_str SpecialUse_Shared = Some ''shared''"
| "special_use_as_str SpecialUse_Important = Some ''important''"
| "special_use_as_str SpecialUse_Memos = Some ''memos''"
| "special_use_as_str SpecialUse_Scheduled = Some ''scheduled''"
| "special_use_as_str SpecialUse_Snoozed = Some ''snoozed''"
| "special_use_as_str SpecialUse_None = None"

fun archived_special_use_as_str :: "archived_special_use \<Rightarrow> bytes option" where
  "archived_special_use_as_str ArchivedSpecialUse_Inbox = Some ''inbox''"
| "archived_special_use_as_str ArchivedSpecialUse_Trash = Some ''trash''"
| "archived_special_use_as_str ArchivedSpecialUse_Junk = Some ''junk''"
| "archived_special_use_as_str ArchivedSpecialUse_Drafts = Some ''drafts''"
| "archived_special_use_as_str ArchivedSpecialUse_Archive = Some ''archive''"
| "archived_special_use_as_str ArchivedSpecialUse_Sent = Some ''sent''"
| "archived_special_use_as_str ArchivedSpecialUse_Shared = Some ''shared''"
| "archived_special_use_as_str ArchivedSpecialUse_Important = Some ''important''"
| "archived_special_use_as_str ArchivedSpecialUse_Memos = Some ''memos''"
| "archived_special_use_as_str ArchivedSpecialUse_Scheduled = Some ''scheduled''"
| "archived_special_use_as_str ArchivedSpecialUse_Snoozed = Some ''snoozed''"
| "archived_special_use_as_str ArchivedSpecialUse_None = None"

fun special_use_from_archived :: "archived_special_use \<Rightarrow> special_use" where
  "special_use_from_archived ArchivedSpecialUse_Inbox = SpecialUse_Inbox"
| "special_use_from_archived ArchivedSpecialUse_Trash = SpecialUse_Trash"
| "special_use_from_archived ArchivedSpecialUse_Junk = SpecialUse_Junk"
| "special_use_from_archived ArchivedSpecialUse_Drafts = SpecialUse_Drafts"
| "special_use_from_archived ArchivedSpecialUse_Archive = SpecialUse_Archive"
| "special_use_from_archived ArchivedSpecialUse_Sent = SpecialUse_Sent"
| "special_use_from_archived ArchivedSpecialUse_Shared = SpecialUse_Shared"
| "special_use_from_archived ArchivedSpecialUse_Important = SpecialUse_Important"
| "special_use_from_archived ArchivedSpecialUse_Memos = SpecialUse_Memos"
| "special_use_from_archived ArchivedSpecialUse_Scheduled = SpecialUse_Scheduled"
| "special_use_from_archived ArchivedSpecialUse_Snoozed = SpecialUse_Snoozed"
| "special_use_from_archived ArchivedSpecialUse_None = SpecialUse_None"

section \<open>Parsing what was printed\<close>

definition is_standard :: "keyword \<Rightarrow> bool" where
  "is_standard k \<longleftrightarrow> (\<forall>s. k \<noteq> Keyword_Other s)"

lemma keyword_names_ok:
  "distinct (map fst keyword_names)" "\<forall>k \<in> fst ` set keyword_names. map to_ascii_lowercase k = k"
  by (simp_all add: keyword_names_def to_ascii_lowercase_def)

lemma special_use_names_ok:
  "distinct (map fst special_use_names)" "\<forall>k \<in> fst ` set special_use_names. map to_ascii_lowercase k = k"
  by (simp_all add: special_use_names_def to_ascii_lowercase_def)

lemma keyword_lookup:
  "tiny_map_ignore_case_spec tiny_map \<Longrightarrow>
     tiny_map keyword_names s = map_of keyword_names (map to_ascii_lowercase s)"
  using keyword_names_ok by (simp add: tiny_map_ignore_case_spec_def)

lemma special_use_lookup:
  "tiny_map_ignore_case_spec tiny_map \<Longrightarrow>
     tiny_map special_use_names s = map_of special_use_names (map to_ascii_lowercase s)"
  using special_use_names_ok by (simp add: tiny_map_ignore_case_spec_def)

lemma keyword_id_try_from: "is_standard k \<Longrightarrow> keyword_id k = Inr i \<Longrightarrow> keyword_try_from_id i = Inr k"
  by (cases k) (auto simp: keyword_try_from_id_def keyword_consts)

lemma try_parse_Cons:
  assumes "tiny_map_ignore_case_spec tiny_map"
  shows "keyword_try_parse tiny_map (c # rest) =
    (if (c = CHR ''$'' \<or> c = CHR 0x5C) \<and> (rest = [] \<or> \<not> is_utf8_cont (hd rest))
     then map_of keyword_names (map to_ascii_lowercase rest) else None)"
  by (simp add: keyword_try_parse_def keyword_lookup [OF assms])

lemma try_parse_display:
  assumes "tiny_map_ignore_case_spec tiny_map" and "is_standard k"
  shows "keyword_try_parse tiny_map (keyword_display k) = Some k"
  using assms(2)
  by (cases k) (simp_all add: try_parse_Cons [OF assms(1)] keyword_names_def
      to_ascii_lowercase_def is_standard_def is_utf8_cont_def char_of_def bit_0)

lemma take_chars_short: "length s \<le> n \<Longrightarrow> take_chars n s = s"
proof (induction n s rule: take_chars.induct)
  case (2 n c cs)
  then show ?case by (cases n) auto
qed simp

lemma try_parse_standard:
  assumes "tiny_map_ignore_case_spec tiny_map" and "keyword_try_parse tiny_map s = Some k"
  shows "is_standard k"
proof -
  obtain c rest where "s = c # rest" "map_of keyword_names (map to_ascii_lowercase rest) = Some k"
    using assms(2) by (cases s) (auto simp: try_parse_Cons [OF assms(1)] keyword_try_parse_def [of _ "[]"]
        split: if_splits)
  then have "(map to_ascii_lowercase rest, k) \<in> set keyword_names" by (auto dest: map_of_SomeD)
  moreover have "\<forall>(n, k) \<in> set keyword_names. is_standard k"
    by (simp add: keyword_names_def is_standard_def)
  ultimately show ?thesis by blast
qed

text \<open>The archived types carry the same codes as the native ones.\<close>

lemma archived_to_native_eq: "archived_keyword_to_native a = keyword_from_archived a"
  by (cases a) simp_all

lemma archived_id: "archived_keyword_id a = keyword_id (archived_keyword_to_native a)"
  by (cases a) simp_all

lemma archived_display: "archived_keyword_display a = keyword_display (archived_keyword_to_native a)"
  by (cases a) simp_all

lemma into_id_eq: "keyword_into_id k = keyword_id k"
  by (cases k) simp_all

lemma special_use_parse_as_str:
  assumes "tiny_map_ignore_case_spec tiny_map"
  shows "case special_use_as_str u of None \<Rightarrow> u = SpecialUse_None
    | Some s \<Rightarrow> special_use_parse tiny_map s = Some u"
  unfolding special_use_parse_def special_use_lookup [OF assms]
  by (cases u) (simp_all add: special_use_names_def to_ascii_lowercase_def)

lemma archived_special_use_as_str_eq:
  "archived_special_use_as_str a = special_use_as_str (special_use_from_archived a)"
  by (cases a) simp_all

interpretation keyword_ids: code_table is_standard keyword_id
    "\<lambda>x. case x of Inl s \<Rightarrow> Keyword_Other s | Inr i \<Rightarrow> (case keyword_try_from_id i of Inr k \<Rightarrow> k | Inl _ \<Rightarrow> Keyword_Recent)"
proof unfold_locales
  fix k assume "is_standard k"
  then obtain i where "keyword_id k = Inr i" by (cases k) (simp_all add: is_standard_def)
  with keyword_id_try_from [OF \<open>is_standard k\<close> this]
  show "(case keyword_id k of Inl s \<Rightarrow> Keyword_Other s
      | Inr i \<Rightarrow> (case keyword_try_from_id i of Inr k \<Rightarrow> k | Inl _ \<Rightarrow> Keyword_Recent)) = k"
    by simp
qed

section \<open>Properties\<close>

lemma take_chars_long: "take_chars n s \<noteq> s \<Longrightarrow> n \<le> length (take_chars n s)"
proof (induction n s rule: take_chars.induct)
  case (2 n c cs)
  then show ?case by (cases n) (auto split: if_splits)
qed simp

lemma try_parse_long:
  assumes "tiny_map_ignore_case_spec tiny_map" "MAX_LENGTH \<le> length s"
  shows "keyword_try_parse tiny_map s = None"
proof -
  have short: "\<forall>n \<in> fst ` set keyword_names. length n < MAX_LENGTH - 1"
    by (simp add: keyword_names_def MAX_LENGTH_def)
  have "map_of keyword_names (map to_ascii_lowercase rest) = None" if "MAX_LENGTH \<le> length rest + 1" for rest
    unfolding map_of_eq_None_iff using short that by fastforce
  with assms(2) show ?thesis
    by (cases s) (auto simp: try_parse_Cons [OF assms(1)] keyword_try_parse_def [of _ "[]"])
qed

text \<open>
  Parsing a keyword is stable: whatever text a client sends, the keyword stored for it prints to a text that is parsed to the
  same keyword (a standard one, or another text cut to 128 characters).
\<close>

theorem keyword_parse_stable:
  assumes "tiny_map_ignore_case_spec tm"
  shows "keyword_parse tm (keyword_display (keyword_parse tm s)) = keyword_parse tm s"
proof (cases "keyword_try_parse tm s")
  case (Some k)
  with try_parse_standard [OF assms Some] show ?thesis
    by (simp add: keyword_parse_def try_parse_display [OF assms])
next
  case None
  have "keyword_try_parse tm (take_chars MAX_LENGTH s) = None"
  proof (cases "take_chars MAX_LENGTH s = s")
    case False
    then show ?thesis using try_parse_long [OF assms] take_chars_long by blast
  qed (simp add: None)
  moreover have "take_chars n (take_chars n t) = take_chars n t" for n t
    by (induction n t rule: take_chars.induct) (auto split: nat.split)
  ultimately show ?thesis using None by (simp add: keyword_parse_def)
qed

theorem keyword_parse_stable_witness:
  "keyword_parse (\<lambda>t k. map_of t (map to_ascii_lowercase k))
     (keyword_display (keyword_parse (\<lambda>t k. map_of t (map to_ascii_lowercase k)) ''$Seen'')) =
   keyword_parse (\<lambda>t k. map_of t (map to_ascii_lowercase k)) ''$Seen''"
  by (rule keyword_parse_stable) (simp add: tiny_map_ignore_case_spec_def)

text \<open>
  Two standard keywords never share a database identifier, an identifier is read back to its keyword, and the archived form of
  every keyword has the identifier and the text of the native form.
\<close>

theorem keyword_ids_sound:
  assumes "is_standard k" "is_standard l"
  shows "(keyword_id k = keyword_id l \<longleftrightarrow> k = l) \<and> (\<exists>i. keyword_id k = Inr i \<and> keyword_try_from_id i = Inr k) \<and>
     archived_keyword_id a = keyword_id (archived_keyword_to_native a) \<and>
     archived_keyword_display a = keyword_display (archived_keyword_to_native a)"
proof -
  obtain i where "keyword_id k = Inr i" using assms(1) by (cases k) (simp_all add: is_standard_def)
  with keyword_id_try_from [OF assms(1) this] keyword_ids.encode_eq_iff [OF assms] show ?thesis
    by (simp add: archived_id archived_display)
qed

theorem keyword_ids_sound_witness:
  "keyword_id Keyword_Seen \<noteq> keyword_id Keyword_Draft"
  using keyword_ids_sound [of Keyword_Seen Keyword_Draft] by (simp add: is_standard_def)

end
