(* ===== verification/Pop3.thy ===== *)
theory Pop3
  imports Prelude
begin

text \<open>
  The POP3 command parser (\<^verbatim>\<open>crates/pop3/src/protocol/mod.rs\<close> and \<^verbatim>\<open>request.rs\<close>): an
  incremental state machine that is fed the bytes of a connection as they arrive, one
  call of \<open>parse\<close> per buffer, and keeps its state between the calls. A reason of an error
  is its text; the one reason that quotes the input keeps the quoted bytes as
  they are (the code prints them after a lossy UTF-8 conversion). A panic of the parser, of an index
  outside the buffer of the command name or of an \<open>unwrap\<close> of nothing, is a state of its own that
  it does not leave.
\<close>

section \<open>Commands\<close>

datatype ('t, 'm) command =
  User 't
| Pass 't
| Apop 't 't
| Quit
| Stat
| List "u32 option"
| Retr u32
| Dele u32
| DeleMany "u32 list"
| Noop
| Rset
| Top u32 u32
| Uidl "u32 option"
| Capa
| Stls
| Utf8
| Auth 'm "'t list"

datatype mechanism =
  Plain
| CramMd5
| DigestMd5
| ScramSha1
| ScramSha256
| Mech_Apop
| Ntlm
| Gssapi
| Anonymous
| External
| OAuthBearer
| XOauth2

datatype reason = Reason string | UnsupportedMechanism bytes

datatype error = NeedsMoreData | Parse reason

type_synonym raw_command = "(bytes, bytes) command"
type_synonym pop3_command = "(bytes, mechanism) command"

datatype state =
  Init
| Command bytes nat
| Argument raw_command nat bool
| Error reason
| Parser_Panic

definition MAX_ARG_LEN :: nat where
  "MAX_ARG_LEN = 256"

section \<open>Arguments\<close>

definition into_string :: "bytes \<Rightarrow> error + bytes" where
  "into_string bs = (if utf8_valid bs then Inr bs else Inl (Parse (Reason ''Invalid UTF-8'')))"

definition add_digit :: "u32 \<Rightarrow> char \<Rightarrow> reason + u32" where
  "add_digit num byte =
     (if is_ascii_digit byte then
        (if unat num * 10 < 2 ^ 32 \<and> unat num * 10 + (of_char byte - 48) < 2 ^ 32
         then Inr (num * 10 + of_nat (of_char byte - 48))
         else Inl (Reason ''Numeric argument out of range''))
      else Inl (Reason ''Invalid digit''))"

definition mechanism_parse :: "bytes \<Rightarrow> error + mechanism" where
  "mechanism_parse value =
     (if eq_ignore_ascii_case value ''PLAIN'' then Inr Plain
      else if eq_ignore_ascii_case value ''CRAM-MD5'' then Inr CramMd5
      else if eq_ignore_ascii_case value ''DIGEST-MD5'' then Inr DigestMd5
      else if eq_ignore_ascii_case value ''SCRAM-SHA-1'' then Inr ScramSha1
      else if eq_ignore_ascii_case value ''SCRAM-SHA-256'' then Inr ScramSha256
      else if eq_ignore_ascii_case value ''APOP'' then Inr Mech_Apop
      else if eq_ignore_ascii_case value ''NTLM'' then Inr Ntlm
      else if eq_ignore_ascii_case value ''GSSAPI'' then Inr Gssapi
      else if eq_ignore_ascii_case value ''ANONYMOUS'' then Inr Anonymous
      else if eq_ignore_ascii_case value ''EXTERNAL'' then Inr External
      else if eq_ignore_ascii_case value ''OAUTHBEARER'' then Inr OAuthBearer
      else if eq_ignore_ascii_case value ''XOAUTH2'' then Inr XOauth2
      else Inl (Parse (UnsupportedMechanism value)))"

text \<open>The four-byte buffer of a command name is padded with zero bytes.\<close>

definition command_parse :: "bytes \<Rightarrow> reason + raw_command" where
  "command_parse buf =
     (if buf = ''user'' then Inr (User [])
      else if buf = ''uidl'' then Inr (Uidl None)
      else if buf = ''utf8'' then Inr Utf8
      else if buf = ''pass'' then Inr (Pass [])
      else if buf = ''apop'' then Inr (Apop [] [])
      else if buf = ''auth'' then Inr (Auth [] [])
      else if buf = ''quit'' then Inr Quit
      else if buf = ''list'' then Inr (List None)
      else if buf = ''retr'' then Inr (Retr 0)
      else if buf = ''rset'' then Inr Rset
      else if buf = ''dele'' then Inr (Dele 0)
      else if buf = ''noop'' then Inr Noop
      else if buf = ''top'' @ [CHR 0x00] then Inr (Top 0 0)
      else if buf = ''capa'' then Inr Capa
      else if buf = ''stls'' then Inr Stls
      else if buf = ''stat'' then Inr Stat
      else Inl (Reason ''Invalid command''))"

definition get_or_insert_zero :: "u32 option \<Rightarrow> u32" where
  "get_or_insert_zero msg = (case msg of None \<Rightarrow> 0 | Some n \<Rightarrow> n)"

abbreviation too_many :: "(reason + raw_command) option" where
  "too_many \<equiv> Some (Inl (Reason ''Too many arguments''))"

text \<open>\<open>None\<close> is a panic: the subtraction overflows, or there is no parameter to extend.\<close>

definition push_param :: "bytes list \<Rightarrow> nat \<Rightarrow> char \<Rightarrow> bytes list option" where
  "push_param params arg_num byte =
     (if arg_num = 0 then None
      else
        let ps = (if length params < arg_num - 1 then params @ [[]] else params)
        in if ps = [] then None else Some (butlast ps @ [last ps @ [byte]]))"

fun update_argument :: "raw_command \<Rightarrow> nat \<Rightarrow> char \<Rightarrow> (reason + raw_command) option" where
  "update_argument (User name) arg_num byte =
     (if arg_num = 1 \<and> length name < MAX_ARG_LEN then Some (Inr (User (name @ [byte]))) else too_many)"
| "update_argument (Pass str) arg_num byte =
     (if arg_num = 1 \<and> length str < MAX_ARG_LEN then Some (Inr (Pass (str @ [byte]))) else too_many)"
| "update_argument (Apop name digest) arg_num byte =
     (if arg_num \<le> 2 \<and> length name < MAX_ARG_LEN \<and> length digest < MAX_ARG_LEN then
        (if arg_num = 1 then Some (Inr (Apop (name @ [byte]) digest)) else Some (Inr (Apop name (digest @ [byte]))))
      else too_many)"
| "update_argument (List msg) arg_num byte =
     (if arg_num = 1 then Some (map_sum id (\<lambda>n. List (Some n)) (add_digit (get_or_insert_zero msg) byte)) else too_many)"
| "update_argument (Retr msg) arg_num byte =
     (if arg_num = 1 then Some (map_sum id Retr (add_digit msg byte)) else too_many)"
| "update_argument (Dele msg) arg_num byte =
     (if arg_num = 1 then Some (map_sum id Dele (add_digit msg byte)) else too_many)"
| "update_argument (Top msg n) arg_num byte =
     (if arg_num \<le> 2 then
        (if arg_num = 1 then Some (map_sum id (\<lambda>m. Top m n) (add_digit msg byte))
         else Some (map_sum id (Top msg) (add_digit n byte)))
      else too_many)"
| "update_argument (Uidl msg) arg_num byte =
     (if arg_num = 1 then Some (map_sum id (\<lambda>n. Uidl (Some n)) (add_digit (get_or_insert_zero msg) byte)) else too_many)"
| "update_argument (Auth mech params) arg_num byte =
     (if arg_num \<le> 4 \<and> length mech < 64 \<and> sum_list (map length params) < MAX_ARG_LEN * 4 then
        (if arg_num = 1 then Some (Inr (Auth (mech @ [byte]) params))
         else map_option (\<lambda>ps. Inr (Auth mech ps)) (push_param params arg_num byte))
      else too_many)"
| "update_argument _ arg_num byte = too_many"

abbreviation missing :: "error + pop3_command" where
  "missing \<equiv> Inl (Parse (Reason ''Missing arguments''))"

fun collect_strings :: "bytes list \<Rightarrow> error + bytes list" where
  "collect_strings [] = Inr []"
| "collect_strings (p # ps) =
     (case into_string p of
        Inl e \<Rightarrow> Inl e
      | Inr s \<Rightarrow> (case collect_strings ps of Inl e \<Rightarrow> Inl e | Inr ss \<Rightarrow> Inr (s # ss)))"

fun finalize :: "raw_command \<Rightarrow> nat \<Rightarrow> error + pop3_command" where
  "finalize (User name) num_args = (if num_args = 1 then map_sum id User (into_string name) else missing)"
| "finalize (Pass str) num_args = (if num_args = 1 then map_sum id Pass (into_string str) else missing)"
| "finalize (Apop name digest) num_args =
     (if num_args = 2 then
        (case into_string name of
           Inl e \<Rightarrow> Inl e
         | Inr n \<Rightarrow> (case into_string digest of Inl e \<Rightarrow> Inl e | Inr d \<Rightarrow> Inr (Apop n d)))
      else missing)"
| "finalize Quit num_args = Inr Quit"
| "finalize Stat num_args = Inr Stat"
| "finalize (List msg) num_args = Inr (List msg)"
| "finalize (Retr msg) num_args = (if num_args = 1 then Inr (Retr msg) else missing)"
| "finalize (Dele msg) num_args = (if num_args = 1 then Inr (Dele msg) else missing)"
| "finalize Noop num_args = Inr Noop"
| "finalize Rset num_args = Inr Rset"
| "finalize (Top msg n) num_args = (if num_args = 2 then Inr (Top msg n) else missing)"
| "finalize (Uidl msg) num_args = Inr (Uidl msg)"
| "finalize Capa num_args = Inr Capa"
| "finalize Stls num_args = Inr Stls"
| "finalize Utf8 num_args = Inr Utf8"
| "finalize (Auth mech params) num_args =
     (if num_args \<ge> 1 then
        (case mechanism_parse mech of
           Inl e \<Rightarrow> Inl e
         | Inr m \<Rightarrow> (case collect_strings params of Inl e \<Rightarrow> Inl e | Inr ps \<Rightarrow> Inr (Auth m ps)))
      else missing)"
| "finalize (DeleMany msgs) num_args = missing"

section \<open>The parser\<close>

definition to_lower_bit :: "char \<Rightarrow> char" where
  "to_lower_bit c = char_of ((of_char c :: nat) OR 0x20)"

text \<open>The assignment to \<open>buf[*len]\<close> panics outside the buffer.\<close>

definition store_letter :: "bytes \<Rightarrow> nat \<Rightarrow> char \<Rightarrow> state \<times> (error + pop3_command) option" where
  "store_letter buf len byte = (if len < length buf then (Command (buf[len := byte]) (len + 1), None) else (Parser_Panic, None))"

text \<open>One iteration of the loop of \<open>parse\<close>: the new state and, where the iteration returns, the result.\<close>

fun pop3_step :: "state \<Rightarrow> char \<Rightarrow> state \<times> (error + pop3_command) option" where
  "pop3_step Init byte =
     (if byte \<in> {CHR '' '', CHR 0x09, CHR 0x0D, CHR 0x0A} then (Init, None)
      else if is_ascii_lower byte then (Command [byte, CHR 0x00, CHR 0x00, CHR 0x00] 1, None)
      else if is_ascii_upper byte then (Command [to_lower_bit byte, CHR 0x00, CHR 0x00, CHR 0x00] 1, None)
      else (Error (Reason ''Invalid command''), None))"
| "pop3_step (Command buf len) byte =
     (if (is_ascii_lower byte \<or> byte = CHR ''8'') \<and> len < 4 then store_letter buf len byte
      else if is_ascii_upper byte \<and> len < 4 then store_letter buf len (to_lower_bit byte)
      else if (byte = CHR '' '' \<or> byte = CHR 0x09) \<and> (len = 4 \<or> len = 3) then
        (case command_parse buf of
           Inr request \<Rightarrow> (Argument request 0 True, None)
         | Inl err \<Rightarrow> (Error err, None))
      else if byte = CHR 0x0D then (Command buf len, None)
      else if byte = CHR 0x0A \<and> (len = 4 \<or> len = 3) then
        (case command_parse buf of
           Inr request \<Rightarrow> (Init, Some (finalize request 0))
         | Inl err \<Rightarrow> (Init, Some (Inl (Parse err))))
      else (Error (Reason ''Invalid command''), None))"
| "pop3_step (Argument request num last_is_space) byte =
     (if byte = CHR '' '' \<or> byte = CHR 0x09 then (Argument request num True, None)
      else if byte = CHR 0x0D then (Argument request num last_is_space, None)
      else if byte = CHR 0x0A then (Init, Some (finalize request num))
      else
        (let num' = (if last_is_space then num + 1 else num)
         in case update_argument request num' byte of
              None \<Rightarrow> (Parser_Panic, None)
            | Some (Inr request') \<Rightarrow> (Argument request' num' False, None)
            | Some (Inl err) \<Rightarrow> (Error err, None)))"
| "pop3_step (Error err) byte =
     (if byte = CHR 0x0A then (Init, Some (Inl (Parse err))) else (Error err, None))"
| "pop3_step Parser_Panic byte = (Parser_Panic, None)"

text \<open>\<open>parse\<close> runs the loop and leaves the bytes after the one that completed a command in the iterator.\<close>

fun pop3_parse :: "state \<Rightarrow> bytes \<Rightarrow> (error + pop3_command) \<times> state \<times> bytes" where
  "pop3_parse s [] = (Inl NeedsMoreData, s, [])"
| "pop3_parse s (byte # bs) =
     (case pop3_step s byte of
        (s', Some r) \<Rightarrow> (r, s', bs)
      | (s', None) \<Rightarrow> pop3_parse s' bs)"

lemma into_string_done [simp]: "into_string bs \<noteq> Inl NeedsMoreData" "Inl NeedsMoreData \<noteq> into_string bs"
  by (auto simp: into_string_def)

lemma collect_strings_done: "collect_strings ps \<noteq> Inl NeedsMoreData"
  by (induction ps) (auto split: sum.splits simp: into_string_def)

lemma mechanism_parse_done: "mechanism_parse value \<noteq> Inl NeedsMoreData"
  by (simp add: mechanism_parse_def)

lemma finalize_done: "finalize request num \<noteq> Inl NeedsMoreData"
proof (cases request)
  case (Auth mech params)
  then show ?thesis by (auto simp: mechanism_parse_done collect_strings_done split: sum.splits)
qed (auto simp: into_string_def split: sum.splits)

interpretation pop3: complete_parser pop3_step pop3_parse "Inl NeedsMoreData"
proof
  fix s c s' show "pop3_step s c \<noteq> (s', Some (Inl NeedsMoreData))"
    by (cases s) (simp_all add: finalize_done store_letter_def Let_def split: sum.split option.split)
qed (auto split: prod.splits option.splits)

section \<open>Collecting the requests of a buffer\<close>

text \<open>
  The first loop of \<open>Session::ingest\<close> takes every command out of a buffer and groups consecutive deletions. An
  unauthenticated client that sends an invalid command is checked against the list of port scanners; \<open>banned n\<close> is
  the answer of the server to the check after \<open>n\<close> earlier errors in this buffer, and
  a positive answer closes the session (\<open>None\<close>).
\<close>

definition group_request :: "(reason + pop3_command) list \<Rightarrow> pop3_command \<Rightarrow> (reason + pop3_command) list" where
  "group_request requests request =
     (case request of
        Dele msg \<Rightarrow>
          (if requests = [] then requests @ [Inr request]
           else (case last requests of
                   Inr (DeleMany msgs) \<Rightarrow> butlast requests @ [Inr (DeleMany (msgs @ [msg]))]
                 | Inr (Dele other) \<Rightarrow> butlast requests @ [Inr (DeleMany [other, msg])]
                 | _ \<Rightarrow> requests @ [Inr request]))
      | _ \<Rightarrow> requests @ [Inr request])"

lemma parse_rest_lt:
  "(Inr request, s', rest) = pop3_parse s bs \<Longrightarrow> length rest < length bs"
  "(Inl (Parse err), s', rest) = pop3_parse s bs \<Longrightarrow> length rest < length bs"
  using pop3.parse_rest_shorter [of s bs _ s' rest] by (metis sum.simps(4), metis error.distinct(1) sum.inject(1))

function ingest_loop ::
  "bool \<Rightarrow> (nat \<Rightarrow> bool) \<Rightarrow> nat \<Rightarrow> state \<Rightarrow> bytes \<Rightarrow> (reason + pop3_command) list \<Rightarrow>
     ((reason + pop3_command) list \<times> state) option" where
  "ingest_loop not_auth banned n s bs requests =
     (case pop3_parse s bs of
        (Inr request, s', rest) \<Rightarrow> ingest_loop not_auth banned n s' rest (group_request requests request)
      | (Inl NeedsMoreData, s', rest) \<Rightarrow> Some (requests, s')
      | (Inl (Parse err), s', rest) \<Rightarrow>
          if not_auth \<and> banned n then None
          else ingest_loop not_auth banned (n + 1) s' rest (requests @ [Inl err]))"
  by pat_completeness auto
termination
  by (relation "measure (\<lambda>(_, _, _, _, bs, _). length bs)") (auto dest: parse_rest_lt)

declare ingest_loop.simps [simp del]

section \<open>The invariant of the parser\<close>

text \<open>
  What the arrays and vectors of a state hold. The name of a command has four bytes of which the first \<open>len\<close> are written; the
  parameters of \<open>AUTH\<close> are one less than the arguments seen, so that \<open>params.last_mut().unwrap()\<close> finds one.
\<close>

fun args_wf :: "raw_command \<Rightarrow> nat \<Rightarrow> bool" where
  "args_wf (User name) num \<longleftrightarrow> length name \<le> MAX_ARG_LEN"
| "args_wf (Pass str) num \<longleftrightarrow> length str \<le> MAX_ARG_LEN"
| "args_wf (Apop name digest) num \<longleftrightarrow> length name \<le> MAX_ARG_LEN \<and> length digest \<le> MAX_ARG_LEN"
| "args_wf (Auth mech params) num \<longleftrightarrow>
     num \<le> 4 \<and> length params = num - 1 \<and> length mech \<le> 64 \<and> sum_list (map length params) \<le> MAX_ARG_LEN * 4"
| "args_wf (DeleMany msgs) num \<longleftrightarrow> False"
| "args_wf _ num \<longleftrightarrow> True"

fun state_wf :: "state \<Rightarrow> bool" where
  "state_wf Init \<longleftrightarrow> True"
| "state_wf (Command buf len) \<longleftrightarrow> length buf = 4 \<and> 1 \<le> len \<and> len \<le> 4"
| "state_wf (Argument request num last_is_space) \<longleftrightarrow> args_wf request num \<and> (num = 0 \<longrightarrow> last_is_space)"
| "state_wf (Error reason) \<longleftrightarrow> True"
| "state_wf Parser_Panic \<longleftrightarrow> False"

fun command_wf :: "pop3_command \<Rightarrow> bool" where
  "command_wf (User name) \<longleftrightarrow> utf8_valid name \<and> length name \<le> MAX_ARG_LEN"
| "command_wf (Pass str) \<longleftrightarrow> utf8_valid str \<and> length str \<le> MAX_ARG_LEN"
| "command_wf (Apop name digest) \<longleftrightarrow>
     utf8_valid name \<and> length name \<le> MAX_ARG_LEN \<and> utf8_valid digest \<and> length digest \<le> MAX_ARG_LEN"
| "command_wf (Auth mech params) \<longleftrightarrow>
     length params \<le> 3 \<and> list_all utf8_valid params \<and> sum_list (map length params) \<le> MAX_ARG_LEN * 4"
| "command_wf (DeleMany msgs) \<longleftrightarrow> False"
| "command_wf _ \<longleftrightarrow> True"

lemma push_param_wf:
  assumes "length params = num - 1 \<or> length params + 1 = num - 1" "2 \<le> num"
  shows "\<exists>ps. push_param params num byte = Some ps \<and> length ps = num - 1 \<and>
    sum_list (map length ps) = sum_list (map length params) + 1"
proof (cases params rule: rev_cases)
  case (snoc ps p)
  with assms show ?thesis by (auto simp: push_param_def Let_def butlast_append)
qed (use assms in \<open>auto simp: push_param_def Let_def\<close>)

text \<open>An argument of a state within its bounds is extended without a panic.\<close>

lemma update_argument_wf:
  assumes "args_wf request num" "num = 0 \<longrightarrow> last_is_space" "num' = (if last_is_space then num + 1 else num)"
  shows "\<exists>x. update_argument request num' byte = Some x \<and> pred_sum (\<lambda>_. True) (\<lambda>request'. args_wf request' num') x"
proof (cases request)
  case (Auth mech params)
  show ?thesis
  proof (cases "num' = 1")
    case True
    with assms Auth show ?thesis by (cases last_is_space; cases num) (auto simp: MAX_ARG_LEN_def)
  next
    case False
    with assms Auth have n: "length params = num' - 1 \<or> length params + 1 = num' - 1" "2 \<le> num'"
      by (cases last_is_space; cases num; simp)+
    from push_param_wf [OF n, of byte] Auth False show ?thesis by auto
  qed
qed (use assms in \<open>auto simp: map_sum_def split: sum.split\<close>)

lemma collect_strings_wf: "collect_strings ps = Inr ss \<Longrightarrow> ss = ps \<and> list_all utf8_valid ps"
  by (induction ps arbitrary: ss) (auto simp: into_string_def split: if_splits sum.splits)

lemma finalize_wf: "args_wf request num \<Longrightarrow> finalize request num = Inr cmd \<Longrightarrow> command_wf cmd"
  by (cases request)
    (auto simp: into_string_def split: if_splits sum.splits dest: collect_strings_wf)

lemma command_parse_wf: "command_parse buf = Inr request \<Longrightarrow> args_wf request 0"
  by (auto simp: command_parse_def split: if_splits)

lemma finalize_pred: "args_wf request num \<Longrightarrow> pred_sum (\<lambda>_. True) command_wf (finalize request num)"
  using finalize_wf by (cases "finalize request num") auto

lemma step_wf_Argument:
  assumes "args_wf request num" "num = 0 \<longrightarrow> last_is_space" "pop3_step (Argument request num last_is_space) c = (s', r)"
  shows "state_wf s' \<and> pred_option (pred_sum (\<lambda>_. True) command_wf) r"
proof (cases "c = CHR '' '' \<or> c = CHR 0x09 \<or> c = CHR 0x0D \<or> c = CHR 0x0A")
  case True
  with assms show ?thesis by (auto simp: finalize_pred)
next
  case False
  define num' where "num' = (if last_is_space then num + 1 else num)"
  have "num' \<noteq> 0" using assms(2) by (auto simp: num'_def)
  with False assms(3) update_argument_wf [OF assms(1,2) num'_def, of c] show ?thesis
    by (auto simp flip: num'_def split: sum.split_asm)
qed

lemma step_wf:
  assumes "state_wf s" "pop3_step s c = (s', r)"
  shows "state_wf s' \<and> pred_option (pred_sum (\<lambda>_. True) command_wf) r"
proof (cases s)
  case (Argument request num last_is_space)
  from assms(1) Argument have "args_wf request num" "num = 0 \<longrightarrow> last_is_space" by simp_all
  from step_wf_Argument [OF this] assms(2) Argument show ?thesis by blast
next
  case (Command buf len)
  with assms show ?thesis
    by (simp add: store_letter_def split: if_split_asm sum.split_asm) (auto intro: command_parse_wf finalize_pred [OF command_parse_wf])
qed (use assms in \<open>auto split: if_split_asm\<close>)

section \<open>Grouping is transparent\<close>

text \<open>
  Every request stands for the deletions it groups; the requests collected from a buffer then stand for the results
  of the parser, one by one and in order.
\<close>

fun ungroup :: "reason + pop3_command \<Rightarrow> (reason + pop3_command) list" where
  "ungroup (Inr (DeleMany msgs)) = map (\<lambda>msg. Inr (Dele msg)) msgs"
| "ungroup r = [r]"

definition ungroup_all :: "(reason + pop3_command) list \<Rightarrow> (reason + pop3_command) list" where
  "ungroup_all rs = concat (map ungroup rs)"

fun result_of :: "error + pop3_command \<Rightarrow> reason + pop3_command" where
  "result_of (Inr c) = Inr c"
| "result_of (Inl (Parse e)) = Inl e"
| "result_of (Inl NeedsMoreData) = Inl (Reason [])"

lemma ungroup_all_append: "ungroup_all (xs @ ys) = ungroup_all xs @ ungroup_all ys"
  by (simp add: ungroup_all_def)

lemma ungroup_group_request:
  assumes "\<forall>ms. c \<noteq> DeleMany ms"
  shows "ungroup_all (group_request rs c) = ungroup_all rs @ [Inr c]"
proof -
  have other: "ungroup_all (rs @ [Inr c]) = ungroup_all rs @ [Inr c]"
    using assms by (cases c) (simp_all add: ungroup_all_def)
  show ?thesis
  proof (cases rs rule: rev_cases)
    case (snoc rs' r)
    with other show ?thesis
      by (auto simp: group_request_def ungroup_all_def split: command.splits sum.splits)
  qed (use other in \<open>cases c; simp add: group_request_def\<close>)
qed

lemma step_not_DeleMany: "pop3_step s b \<noteq> (s', Some (Inr (DeleMany ms)))"
proof -
  have "finalize request num \<noteq> Inr (DeleMany ms)" for request num
    by (cases request) (auto simp: map_sum_def split: sum.splits)
  then show ?thesis by (cases s) (simp_all add: store_letter_def Let_def split: sum.split option.split)
qed

lemma parse_not_DeleMany: "pop3_parse s bs \<noteq> (Inr (DeleMany ms), s', rest)"
  by (induction bs arbitrary: s) (auto simp: step_not_DeleMany split: prod.splits option.splits)

lemma ingest_loop_results:
  assumes "\<not> (not_auth \<and> (\<exists>k. banned k))"
  shows "\<exists>rs. ingest_loop not_auth banned n s bs requests = Some (rs, snd (run_all pop3_step s bs)) \<and>
     ungroup_all rs = ungroup_all requests @ map result_of (fst (run_all pop3_step s bs))"
  using assms
proof (induction not_auth banned n s bs requests rule: ingest_loop.induct)
  case (1 not_auth banned n s bs requests)
  obtain r s' rest where p: "pop3_parse s bs = (r, s', rest)" by (cases "pop3_parse s bs")
  show ?case
  proof (cases r)
    case (Inr c)
    with p have nd: "\<forall>ms. c \<noteq> DeleMany ms" using parse_not_DeleMany by metis
    from 1(2) [OF p [symmetric] Inr refl] 1(3) obtain rs where
      "ingest_loop not_auth banned n s' rest (group_request requests c) = Some (rs, snd (run_all pop3_step s' rest))"
      "ungroup_all rs = ungroup_all (group_request requests c) @ map result_of (fst (run_all pop3_step s' rest))"
      by auto
    with p Inr nd show ?thesis
      by (simp add: ingest_loop.simps [of _ _ _ s] pop3.run_all_parse [of s] ungroup_group_request
          split: prod.splits)
  next
    case (Inl e)
    show ?thesis
    proof (cases e)
      case NeedsMoreData
      with p Inl show ?thesis by (simp add: ingest_loop.simps pop3.run_all_parse [of s])
    next
      case (Parse err)
      from 1(1) [OF p [symmetric] Inl Parse refl] 1(3) obtain rs where
        "ingest_loop not_auth banned (n + 1) s' rest (requests @ [Inl err]) = Some (rs, snd (run_all pop3_step s' rest))"
        "ungroup_all rs = ungroup_all (requests @ [Inl err]) @ map result_of (fst (run_all pop3_step s' rest))"
        by auto
      with p Inl Parse 1(3) show ?thesis
        by (auto simp: ingest_loop.simps [of _ _ _ s] pop3.run_all_parse [of s] ungroup_all_append
            split: prod.splits) (simp_all add: ungroup_all_def)
    qed
  qed
qed

section \<open>Printing commands\<close>

text \<open>The line a client sends for a command, and the commands that have one.\<close>

abbreviation crlf :: bytes where
  "crlf \<equiv> [CHR 0x0D, CHR 0x0A]"

definition mechanism_name :: "mechanism \<Rightarrow> bytes" where
  "mechanism_name m = (case m of
     Plain \<Rightarrow> ''PLAIN'' | CramMd5 \<Rightarrow> ''CRAM-MD5'' | DigestMd5 \<Rightarrow> ''DIGEST-MD5'' | ScramSha1 \<Rightarrow> ''SCRAM-SHA-1''
   | ScramSha256 \<Rightarrow> ''SCRAM-SHA-256'' | Mech_Apop \<Rightarrow> ''APOP'' | Ntlm \<Rightarrow> ''NTLM'' | Gssapi \<Rightarrow> ''GSSAPI''
   | Anonymous \<Rightarrow> ''ANONYMOUS'' | External \<Rightarrow> ''EXTERNAL'' | OAuthBearer \<Rightarrow> ''OAUTHBEARER'' | XOauth2 \<Rightarrow> ''XOAUTH2'')"

fun pop3_print_args :: "bytes list \<Rightarrow> bytes" where
  "pop3_print_args [] = crlf"
| "pop3_print_args (a # as) = CHR '' '' # a @ pop3_print_args as"

fun pop3_print :: "pop3_command \<Rightarrow> bytes" where
  "pop3_print (User name) = ''USER'' @ pop3_print_args [name]"
| "pop3_print (Pass str) = ''PASS'' @ pop3_print_args [str]"
| "pop3_print (Apop name digest) = ''APOP'' @ pop3_print_args [name, digest]"
| "pop3_print Quit = ''QUIT'' @ pop3_print_args []"
| "pop3_print Stat = ''STAT'' @ pop3_print_args []"
| "pop3_print (List msg) = ''LIST'' @ pop3_print_args (case msg of None \<Rightarrow> [] | Some n \<Rightarrow> [decimal (unat n)])"
| "pop3_print (Retr msg) = ''RETR'' @ pop3_print_args [decimal (unat msg)]"
| "pop3_print (Dele msg) = ''DELE'' @ pop3_print_args [decimal (unat msg)]"
| "pop3_print (DeleMany msgs) = []"
| "pop3_print Noop = ''NOOP'' @ pop3_print_args []"
| "pop3_print Rset = ''RSET'' @ pop3_print_args []"
| "pop3_print (Top msg n) = ''TOP'' @ pop3_print_args [decimal (unat msg), decimal (unat n)]"
| "pop3_print (Uidl msg) = ''UIDL'' @ pop3_print_args (case msg of None \<Rightarrow> [] | Some n \<Rightarrow> [decimal (unat n)])"
| "pop3_print Capa = ''CAPA'' @ pop3_print_args []"
| "pop3_print Stls = ''STLS'' @ pop3_print_args []"
| "pop3_print Utf8 = ''UTF8'' @ pop3_print_args []"
| "pop3_print (Auth mech params) = ''AUTH'' @ pop3_print_args (mechanism_name mech # params)"

definition arg_char :: "char \<Rightarrow> bool" where
  "arg_char c \<longleftrightarrow> c \<noteq> CHR '' '' \<and> c \<noteq> CHR 0x09 \<and> c \<noteq> CHR 0x0D \<and> c \<noteq> CHR 0x0A"

definition printable_arg :: "bytes \<Rightarrow> bool" where
  "printable_arg a \<longleftrightarrow> a \<noteq> [] \<and> list_all arg_char a \<and> utf8_valid a"

fun printable :: "pop3_command \<Rightarrow> bool" where
  "printable (User name) \<longleftrightarrow> printable_arg name \<and> length name \<le> MAX_ARG_LEN"
| "printable (Pass str) \<longleftrightarrow> printable_arg str \<and> length str \<le> MAX_ARG_LEN"
| "printable (Apop name digest) \<longleftrightarrow>
     printable_arg name \<and> length name < MAX_ARG_LEN \<and> printable_arg digest \<and> length digest \<le> MAX_ARG_LEN"
| "printable (DeleMany msgs) \<longleftrightarrow> False"
| "printable (Auth mech params) \<longleftrightarrow>
     length params \<le> 3 \<and> list_all printable_arg params \<and> sum_list (map length params) \<le> MAX_ARG_LEN * 4"
| "printable _ \<longleftrightarrow> True"

lemma feed_arg:
  assumes "list_all arg_char a" "a \<noteq> []"
    and "\<And>pre c post. a = pre @ c # post \<Longrightarrow> update_argument (f pre) (num + 1) c = Some (Inr (f (pre @ [c])))"
  shows "feed pop3_step (Argument (f []) num True) a = (Argument (f a) (num + 1) False, None)"
proof -
  have "feed pop3_step (Argument (f []) num True) b = (if b = [] then Argument (f []) num True else Argument (f b) (num + 1) False, None)"
    if "a = b @ post" for b post
    using that
  proof (induction b arbitrary: post rule: rev_induct)
    case (snoc c b)
    then have "update_argument (f b) (Suc num) c = Some (Inr (f (b @ [c])))" "arg_char c"
      using assms(1,3) by auto
    with snoc.IH [of "c # post"] snoc.prems show ?case
      by (auto simp: feed_append arg_char_def)
  qed simp
  from this [of a "[]"] assms(2) show ?thesis by simp
qed

lemma parse_arg:
  assumes "list_all arg_char a" "a \<noteq> []"
    and "\<And>pre c post. a = pre @ c # post \<Longrightarrow> update_argument (f pre) (num + 1) c = Some (Inr (f (pre @ [c])))"
  shows "pop3_parse (Argument (f []) num sp) (CHR '' '' # a @ rest) = pop3_parse (Argument (f a) (num + 1) False) rest"
  using feed_arg [of a f num, OF assms] by (simp add: pop3.parse_append)

lemma parse_args_end [simp]:
  "pop3_parse (Argument request num sp) (CHR 0x0D # CHR 0x0A # rest) = (finalize request num, Init, rest)"
  by simp

section \<open>Numbers in commands\<close>

lemma digit_arg_char: "is_ascii_digit c \<Longrightarrow> arg_char c"
  by (auto simp: is_ascii_digit_def byte_in_def arg_char_def)

lemma decimal_arg_char: "list_all arg_char (decimal n)"
  using decimal_digits(1) [of n] by (auto simp: list_all_iff digit_arg_char)

lemma add_digit_value:
  assumes "is_ascii_digit c" "digits_value (ds @ [c]) < 2 ^ 32"
  shows "add_digit (of_nat (digits_value ds)) c = Inr (of_nat (digits_value (ds @ [c])))"
  using assms by (simp add: add_digit_def unat_of_nat take_bit_nat_eq_self_iff take_bit_nat_eq_self)

lemma add_digit_decimal:
  assumes "decimal (unat (n :: u32)) = pre @ c # post"
  shows "add_digit (of_nat (digits_value pre)) c = Inr (of_nat (digits_value (pre @ [c])))"
proof (rule add_digit_value)
  show "is_ascii_digit c" using decimal_digits(1) [of "unat n"] assms by simp
  have "digits_value (pre @ [c]) \<le> digits_value (decimal (unat n))"
    using digits_value_prefix [of "pre @ [c]" post] assms by simp
  moreover have "unat n < 2 ^ LENGTH(32)" by (rule unsigned_less)
  ultimately show "digits_value (pre @ [c]) < 2 ^ 32" by (simp add: digits_value_decimal)
qed

lemma of_nat_digits_decimal [simp]: "of_nat (digits_value (decimal (unat n))) = (n :: u32)"
  by (simp add: digits_value_decimal)

lemma parse_number:
  assumes "\<And>m c m'. add_digit m c = Inr m' \<Longrightarrow> update_argument (g m) (num + 1) c = Some (Inr (g m'))"
  shows "pop3_parse (Argument (g 0) num sp) (CHR '' '' # decimal (unat n) @ rest) =
     pop3_parse (Argument (g n) (num + 1) False) rest"
proof -
  have "update_argument (g (of_nat (digits_value pre))) (num + 1) c = Some (Inr (g (of_nat (digits_value (pre @ [c])))))"
    if "decimal (unat n) = pre @ c # post" for pre c post
    using assms add_digit_decimal that by blast
  from parse_arg [of "decimal (unat n)" "\<lambda>ds. g (of_nat (digits_value ds))" num, OF decimal_arg_char decimal_digits(2) this]
  show ?thesis by simp
qed

lemma parse_optional_number:
  assumes "\<And>m c m'. add_digit (get_or_insert_zero m) c = Inr m' \<Longrightarrow> update_argument (g m) 1 c = Some (Inr (g (Some m')))"
  shows "pop3_parse (Argument (g None) 0 sp) (CHR '' '' # decimal (unat n) @ rest) =
     pop3_parse (Argument (g (Some n)) 1 False) rest"
proof -
  define f where "f ds = g (if ds = [] then None else Some (of_nat (digits_value ds)))" for ds
  have "update_argument (f pre) (0 + 1) c = Some (Inr (f (pre @ [c])))" if "decimal (unat n) = pre @ c # post" for pre c post
  proof -
    let ?m = "if pre = [] then None else Some (of_nat (digits_value pre))"
    have "get_or_insert_zero ?m = of_nat (digits_value pre)" by (simp add: get_or_insert_zero_def)
    with assms [of ?m c] add_digit_decimal [OF that] show ?thesis by (simp add: f_def)
  qed
  from parse_arg [of "decimal (unat n)" f 0, OF decimal_arg_char decimal_digits(2) this]
  show ?thesis by (simp add: f_def decimal_digits(2))
qed

section \<open>Printed commands parse back\<close>

lemma parse_prefix:
  assumes "feed pop3_step Init pre = (s, None)"
  shows "pop3_parse Init (pre @ rest) = pop3_parse s rest"
  using pop3.parse_chunks(2) [OF assms] .

lemma command_letters:
  "feed pop3_step Init ''USER'' = (Command ''user'' 4, None)"
  "feed pop3_step Init ''PASS'' = (Command ''pass'' 4, None)"
  "feed pop3_step Init ''APOP'' = (Command ''apop'' 4, None)"
  "feed pop3_step Init ''QUIT'' = (Command ''quit'' 4, None)"
  "feed pop3_step Init ''STAT'' = (Command ''stat'' 4, None)"
  "feed pop3_step Init ''LIST'' = (Command ''list'' 4, None)"
  "feed pop3_step Init ''RETR'' = (Command ''retr'' 4, None)"
  "feed pop3_step Init ''DELE'' = (Command ''dele'' 4, None)"
  "feed pop3_step Init ''NOOP'' = (Command ''noop'' 4, None)"
  "feed pop3_step Init ''RSET'' = (Command ''rset'' 4, None)"
  "feed pop3_step Init ''TOP'' = (Command (''top'' @ [CHR 0x00]) 3, None)"
  "feed pop3_step Init ''UIDL'' = (Command ''uidl'' 4, None)"
  "feed pop3_step Init ''CAPA'' = (Command ''capa'' 4, None)"
  "feed pop3_step Init ''STLS'' = (Command ''stls'' 4, None)"
  "feed pop3_step Init ''UTF8'' = (Command ''utf8'' 4, None)"
  "feed pop3_step Init ''AUTH'' = (Command ''auth'' 4, None)"
  by code_simp+

lemma parse_no_args:
  "len = 3 \<or> len = 4 \<Longrightarrow> command_parse buf = Inr request \<Longrightarrow>
     pop3_parse (Command buf len) (CHR 0x0D # CHR 0x0A # rest) = (finalize request 0, Init, rest)"
  by (auto simp: is_ascii_lower_def is_ascii_upper_def byte_in_def)

lemma parse_with_args:
  "len = 3 \<or> len = 4 \<Longrightarrow> command_parse buf = Inr request \<Longrightarrow>
     pop3_parse (Command buf len) (CHR '' '' # rest) = pop3_parse (Argument request 0 True) (CHR '' '' # rest)"
  by (auto simp: is_ascii_lower_def is_ascii_upper_def byte_in_def)

lemma parse_bytes_arg:
  assumes "printable_arg a"
    and "\<And>pre c. length pre < length a \<Longrightarrow> update_argument (f pre) (num + 1) c = Some (Inr (f (pre @ [c])))"
  shows "pop3_parse (Argument (f []) num sp) (CHR '' '' # a @ rest) = pop3_parse (Argument (f a) (num + 1) False) rest"
  using assms by (intro parse_arg) (auto simp: printable_arg_def)

lemma push_param_new: "length ps = num \<Longrightarrow> push_param ps (num + 2) c = Some (ps @ [[c]])"
  by (simp add: push_param_def)

lemma push_param_last: "length ps = num \<Longrightarrow> push_param (ps @ [p]) (num + 2) c = Some (ps @ [p @ [c]])"
  by (simp add: push_param_def)

lemma parse_param:
  assumes "printable_arg p" "length ps \<le> 2" "length mech < 64" "sum_list (map length ps) + length p \<le> MAX_ARG_LEN * 4"
  shows "pop3_parse (Argument (Auth mech ps) (length ps + 1) sp) (CHR '' '' # p @ rest) =
     pop3_parse (Argument (Auth mech (ps @ [p])) (length ps + 2) False) rest"
proof -
  define f where "f q = (Auth mech (if q = [] then ps else ps @ [q]) :: raw_command)" for q
  have "update_argument (f pre) (length ps + 1 + 1) c = Some (Inr (f (pre @ [c])))" if "length pre < length p" for pre c
    using assms that push_param_new [of ps "length ps" c] push_param_last [of ps "length ps" pre c]
    by (simp add: f_def)
  from parse_bytes_arg [of p f "length ps + 1", OF assms(1) this] assms(1) show ?thesis
    by (simp add: f_def printable_arg_def)
qed

lemma parse_params:
  assumes "list_all printable_arg qs" "length ps + length qs \<le> 3" "length mech < 64"
    and "sum_list (map length (ps @ qs)) \<le> MAX_ARG_LEN * 4"
  shows "pop3_parse (Argument (Auth mech ps) (length ps + 1) sp) (pop3_print_args qs @ rest) =
     (finalize (Auth mech (ps @ qs)) (length ps + length qs + 1), Init, rest)"
  using assms
proof (induction qs arbitrary: ps sp)
  case (Cons q qs)
  have "pop3_parse (Argument (Auth mech ps) (length ps + 1) sp) (pop3_print_args (q # qs) @ rest) =
      pop3_parse (Argument (Auth mech (ps @ [q])) (length ps + 2) False) (pop3_print_args qs @ rest)"
    using Cons.prems parse_param [of q ps mech sp "pop3_print_args qs @ rest"] by simp
  also have "\<dots> = (finalize (Auth mech (ps @ q # qs)) (length ps + length (q # qs) + 1), Init, rest)"
    using Cons.IH [of "ps @ [q]" False] Cons.prems by simp
  finally show ?case .
qed simp

lemma collect_strings_valid: "list_all utf8_valid ps \<Longrightarrow> collect_strings ps = Inr ps"
  by (induction ps) (simp_all add: into_string_def)

lemma lowercase_names:
  "map to_ascii_lowercase ''PLAIN'' = ''plain''"
  "map to_ascii_lowercase ''CRAM-MD5'' = ''cram-md5''"
  "map to_ascii_lowercase ''DIGEST-MD5'' = ''digest-md5''"
  "map to_ascii_lowercase ''SCRAM-SHA-1'' = ''scram-sha-1''"
  "map to_ascii_lowercase ''SCRAM-SHA-256'' = ''scram-sha-256''"
  "map to_ascii_lowercase ''APOP'' = ''apop''"
  "map to_ascii_lowercase ''NTLM'' = ''ntlm''"
  "map to_ascii_lowercase ''GSSAPI'' = ''gssapi''"
  "map to_ascii_lowercase ''ANONYMOUS'' = ''anonymous''"
  "map to_ascii_lowercase ''EXTERNAL'' = ''external''"
  "map to_ascii_lowercase ''OAUTHBEARER'' = ''oauthbearer''"
  "map to_ascii_lowercase ''XOAUTH2'' = ''xoauth2''"
  by code_simp+

lemma mechanism_name_parse [simp]: "mechanism_parse (mechanism_name m) = Inr m"
  by (cases m; simp only: mechanism_name_def mechanism.case mechanism_parse_def eq_ignore_ascii_case_def lowercase_names; simp)

lemma mechanism_name_printable: "printable_arg (mechanism_name m) \<and> length (mechanism_name m) < 64"
proof -
  have "list_all (byte_in 0 0x7F) (mechanism_name m) \<and> mechanism_name m \<noteq> [] \<and>
      list_all arg_char (mechanism_name m) \<and> length (mechanism_name m) < 64"
    by (cases m; simp only: mechanism_name_def mechanism.case; code_simp)
  then show ?thesis by (simp add: printable_arg_def utf8_valid_ascii)
qed

lemma parse_auth:
  assumes "printable (Auth mech params)"
  shows "pop3_parse (Argument (Auth [] []) 0 True) (pop3_print_args (mechanism_name mech # params) @ rest) =
     (Inr (Auth mech params), Init, rest)"
proof -
  from mechanism_name_printable [of mech] have m: "printable_arg (mechanism_name mech)" "length (mechanism_name mech) < 64"
    by simp_all
  from parse_bytes_arg [of "mechanism_name mech" "\<lambda>m. Auth m []" 0, OF m(1)] m(2)
  have "pop3_parse (Argument (Auth [] []) 0 True) (pop3_print_args (mechanism_name mech # params) @ rest) =
      pop3_parse (Argument (Auth (mechanism_name mech) []) 1 False) (pop3_print_args params @ rest)"
    by (simp add: MAX_ARG_LEN_def)
  also have "\<dots> = (finalize (Auth (mechanism_name mech) params) (length params + 1), Init, rest)"
    using parse_params [of params "[]" "mechanism_name mech" False rest] assms m(2) by simp
  also have "finalize (Auth (mechanism_name mech) params) (length params + 1) = Inr (Auth mech params)"
    using assms by (simp add: collect_strings_valid list_all_iff printable_arg_def)
  finally show ?thesis .
qed

lemma parse_print:
  assumes "printable cmd"
  shows "pop3_parse Init (pop3_print cmd @ rest) = (Inr cmd, Init, rest)"
proof -
  note letters = command_letters [THEN parse_prefix, unfolded append.simps]
  have str: "into_string a = Inr a" if "printable_arg a" for a
    using that by (simp add: into_string_def printable_arg_def)
  note cmds = letters command_parse_def parse_no_args parse_with_args
  show ?thesis
  proof (cases cmd)
    case (User name)
    with assms parse_bytes_arg [of name User 0] show ?thesis
      by (simp add: cmds str del: pop3_parse.simps)
  next
    case (Pass name)
    with assms parse_bytes_arg [of name Pass 0] show ?thesis
      by (simp add: cmds str del: pop3_parse.simps)
  next
    case (Apop name digest)
    with assms parse_bytes_arg [of name "\<lambda>n. Apop n []" 0] parse_bytes_arg [of digest "Apop name" 1] show ?thesis
      by (simp add: cmds str MAX_ARG_LEN_def del: pop3_parse.simps)
  next
    case (Auth mech params)
    with assms parse_auth show ?thesis
      by (simp add: cmds del: pop3_parse.simps)
  next
    case (Retr n)
    with parse_number [of Retr 0] show ?thesis by (simp add: cmds del: pop3_parse.simps)
  next
    case (Dele n)
    with parse_number [of Dele 0] show ?thesis by (simp add: cmds del: pop3_parse.simps)
  next
    case (Top m n)
    with parse_number [of "\<lambda>m. Top m 0" 0] parse_number [of "Top m" 1] show ?thesis
      by (simp add: cmds del: pop3_parse.simps)
  next
    case (List n)
    with parse_optional_number [of List] show ?thesis
      by (cases n) (simp_all add: cmds del: pop3_parse.simps)
  next
    case (Uidl n)
    with parse_optional_number [of Uidl] show ?thesis
      by (cases n) (simp_all add: cmds del: pop3_parse.simps)
  qed (use assms in \<open>simp_all add: cmds del: pop3_parse.simps\<close>)
qed

section \<open>Properties\<close>

text \<open>
  C22: the line a client writes for a command, whatever follows it in the buffer, is parsed to that command, leaves the
  parser in its initial state and leaves what follows unread. It covers all 32-bit message numbers, user names and secrets of up to 256 bytes of UTF-8, and
  authentication with up to three parameters; for \<open>APOP\<close> the name is limited to 255 bytes, as its length is tested
  again for every byte of the digest.
\<close>

theorem pop3_print_parse:
  assumes "printable cmd"
  shows "pop3_parse Init (pop3_print cmd @ rest) = (Inr cmd, Init, rest)"
  using assms by (rule parse_print)

theorem pop3_print_parse_witness:
  "pop3_parse Init (pop3_print (Top 4294967295 7) @ ''NOOP'') = (Inr (Top 4294967295 7), Init, ''NOOP'')"
  by (rule pop3_print_parse) simp

text \<open>
  The requests that one call of \<open>ingest\<close> collects, with every group of deletions taken apart, are the results of
  the parser on the buffer, one by one and in order, errors included; nothing is lost or reordered by grouping, and the loop ends
  with the parser in the state the bytes lead to. (The session is not
  closed for scanning: it is authenticated or the server bans none of the errors.)
\<close>

theorem ingest_requests:
  assumes "\<not> (not_auth \<and> (\<exists>k. banned k))"
  shows "\<exists>rs. ingest_loop not_auth banned n s bs [] = Some (rs, snd (run_all pop3_step s bs)) \<and>
     ungroup_all rs = map result_of (fst (run_all pop3_step s bs))"
  using ingest_loop_results [OF assms, of n s bs "[]"] by (simp add: ungroup_all_def)

theorem ingest_requests_witness:
  "\<exists>rs. ingest_loop True (\<lambda>_. False) 0 Init ''DELE 1'' [] = Some (rs, snd (run_all pop3_step Init ''DELE 1'')) \<and>
     ungroup_all rs = map result_of (fst (run_all pop3_step Init ''DELE 1''))"
  by (rule ingest_requests) simp

text \<open>
  The commands a session executes do not depend on how the network cuts the stream: two buffers handled one after the
  other give the same commands in the same order, and the same final state, as one buffer with both.
\<close>

theorem ingest_chunks:
  "\<exists>rs1 s1 rs2 s2 rs. ingest_loop not_auth (\<lambda>_. False) 0 s xs [] = Some (rs1, s1) \<and>
     ingest_loop not_auth (\<lambda>_. False) 0 s1 ys [] = Some (rs2, s2) \<and>
     ingest_loop not_auth (\<lambda>_. False) 0 s (xs @ ys) [] = Some (rs, s2) \<and>
     ungroup_all rs = ungroup_all rs1 @ ungroup_all rs2"
proof -
  define s1 where "s1 = snd (run_all pop3_step s xs)"
  have nb: "\<not> (not_auth \<and> (\<exists>k. False))" by simp
  have runs: "run_all pop3_step s (xs @ ys) =
      (fst (run_all pop3_step s xs) @ fst (run_all pop3_step s1 ys), snd (run_all pop3_step s1 ys))"
    by (simp add: run_all_append s1_def split: prod.splits)
  from ingest_loop_results [OF nb, of 0 s xs "[]"] ingest_loop_results [OF nb, of 0 s1 ys "[]"]
    ingest_loop_results [OF nb, of 0 s "xs @ ys" "[]"]
  show ?thesis by (auto simp: runs s1_def ungroup_all_def)
qed

text \<open>
  Whatever bytes a client sends, the state of the parser stays within its bounds: the index of the command
  buffer is inside it, arguments have at most 256 bytes (64 for a mechanism, 1024 for all the parameters of
  \<open>AUTH\<close>), a parameter exists when \<open>last_mut().unwrap()\<close> takes it; and every command it
  produces has valid UTF-8 arguments within the same bounds.
\<close>

theorem pop3_state_bounds:
  assumes "state_wf s" "run_all pop3_step s bs = (rs, s')"
  shows "state_wf s' \<and> list_all (pred_sum (\<lambda>_. True) command_wf) rs"
  using run_all_invariant [of state_wf pop3_step "pred_sum (\<lambda>_. True) command_wf", OF step_wf assms] .

theorem pop3_state_bounds_witness:
  "state_wf (snd (run_all pop3_step Init ''AUTH PLAIN abc''))"
  using pop3_state_bounds [of Init "''AUTH PLAIN abc''"] by (metis prod.collapse state_wf.simps(1))

text \<open>
  C33: a line of a single letter is not answered at its end: the line feed itself puts the parser into the error state, and the error is
  reported only at the end of the next line, which is swallowed whole.
\<close>

theorem short_command_swallows_next_line:
  assumes "is_ascii_lower a \<or> is_ascii_upper a" "CHR 0x0A \<notin> set line"
  shows "pop3_parse Init (a # CHR 0x0A # line @ CHR 0x0A # rest) = (Inl (Parse (Reason ''Invalid command'')), Init, rest)"
proof -
  have err: "pop3_parse (Error e) (line @ CHR 0x0A # rest) = (Inl (Parse e), Init, rest)" for e
    using assms(2) by (induction line) auto
  have "\<exists>b. pop3_step Init a = (Command [b, CHR 0x00, CHR 0x00, CHR 0x00] 1, None)"
    using assms(1) by (auto simp: is_ascii_lower_def is_ascii_upper_def byte_in_def)
  then show ?thesis by (auto simp: err is_ascii_lower_def is_ascii_upper_def byte_in_def simp del: pop3_step.simps(1))
qed

theorem short_command_swallows_next_line_witness:
  "pop3_parse Init (CHR ''A'' # CHR 0x0A # ''QUIT'' @ CHR 0x0A # ''NOOP'') =
     (Inl (Parse (Reason ''Invalid command'')), Init, ''NOOP'')"
  by (rule short_command_swallows_next_line) (simp_all add: is_ascii_upper_def byte_in_def)

end
