(* ===== verification/ImapReceiver.thy ===== *)
theory ImapReceiver
  imports Prelude
begin

text \<open>
  The request receiver that the IMAP and ManageSieve servers share (\<^verbatim>\<open>crates/imap-proto/src/receiver.rs\<close>): a state machine
  that takes the bytes of a connection one by one, splits them into a tag, a command and tokens (atoms, quoted strings,
  literals, parentheses) and limits the size of a request. The command type is
  the type parameter of the code, with the two functions of its \<open>CommandParser\<close> trait and its default value in a record; the instances
  of IMAP (\<^verbatim>\<open>crates/imap-proto/src/parser/mod.rs\<close>) and ManageSieve (\<^verbatim>\<open>crates/managesieve/src/core/mod.rs\<close>) follow. Capacities of vectors are left out, and
  a message that quotes input keeps the bytes as they are (the code prints them after a lossy conversion).
\<close>

section \<open>Data\<close>

datatype message =
  Message string
| RequestTooLarge nat
| MissingCommand bytes
| UnrecognizedCommand bytes
| InvalidCommandChar char
| LiteralTooLarge nat
| InvalidLiteralChar char

datatype imap_error =
  NeedsMoreInput
| NeedsLiteral u32
| ErrorResponse "bytes option" message

datatype token =
  Tok_Argument bytes
| ParenthesisOpen
| ParenthesisClose
| BracketOpen
| BracketClose
| Lt
| Gt
| Dot
| Nil_Token

record 'c request =
  tag :: bytes
  command :: 'c
  tokens :: "token list"

record 'c command_parser =
  parse_command :: "bytes \<Rightarrow> bool \<Rightarrow> 'c option"
  tokenize_brackets :: "'c \<Rightarrow> bool"
  default_command :: 'c

datatype imap_state =
  Start
| Tag
| In_Command (is_uid: bool)
| In_Argument (last_ch: char)
| ArgumentQuoted (escaped: bool)
| Literal (non_sync: bool)
| LiteralSeek u32 bool
| LiteralData u32
| LiteralDiscard u32

record 'c receiver =
  buf :: bytes
  request :: "'c request"
  state :: imap_state
  max_request_size :: nat
  current_request_size :: nat
  start_state :: imap_state

definition ARG_MAX_LEN :: nat where
  "ARG_MAX_LEN = 8000"

definition default_request :: "'c command_parser \<Rightarrow> 'c request" where
  "default_request cp = \<lparr> tag = [], command = default_command cp, tokens = [] \<rparr>"

definition receiver_default :: "'c command_parser \<Rightarrow> 'c receiver" where
  "receiver_default cp =
     \<lparr> buf = [], request = default_request cp, state = Start, max_request_size = 25 * 1024 * 1024,
       current_request_size = 0, start_state = Start \<rparr>"

definition receiver_new :: "'c command_parser \<Rightarrow> 'c receiver" where
  "receiver_new cp = (receiver_default cp) \<lparr> max_request_size := 25 * 1024 * 1024 \<rparr>"

definition with_start_state :: "imap_state \<Rightarrow> 'c receiver \<Rightarrow> 'c receiver" where
  "with_start_state s r = r \<lparr> state := s, start_state := s \<rparr>"

definition with_max_request_size :: "'c command_parser \<Rightarrow> nat \<Rightarrow> 'c receiver" where
  "with_max_request_size cp n = (receiver_default cp) \<lparr> max_request_size := n \<rparr>"

section \<open>Helpers of the receiver\<close>

text \<open>A failed operation leaves the receiver reset and carries the error that \<open>parse\<close> returns.\<close>

definition as_str :: "bytes \<Rightarrow> bytes" where
  "as_str bs = (if utf8_valid bs then bs else [])"

definition reset :: "'c command_parser \<Rightarrow> 'c receiver \<Rightarrow> 'c receiver" where
  "reset cp r = r \<lparr> buf := [], request := default_request cp, state := start_state r, current_request_size := 0 \<rparr>"

definition error_tag :: "'c receiver \<Rightarrow> bytes option" where
  "error_tag r = (if tag (request r) \<noteq> [] then Some (tag (request r)) else None)"

definition error_reset :: "'c command_parser \<Rightarrow> message \<Rightarrow> 'c receiver \<Rightarrow> imap_error \<times> 'c receiver" where
  "error_reset cp msg r = (ErrorResponse (error_tag r) msg, reset cp r)"

definition add_token :: "token \<Rightarrow> 'c receiver \<Rightarrow> 'c receiver" where
  "add_token t r = r \<lparr> request := (request r) \<lparr> tokens := tokens (request r) @ [t] \<rparr> \<rparr>"

definition push_argument :: "'c command_parser \<Rightarrow> bool \<Rightarrow> 'c receiver \<Rightarrow> imap_error option \<times> 'c receiver" where
  "push_argument cp in_quote r =
     (if buf r \<noteq> [] then
        (let r' = r \<lparr> current_request_size := current_request_size r + length (buf r) \<rparr>
         in if current_request_size r' > max_request_size r'
            then map_prod Some id (error_reset cp (RequestTooLarge (max_request_size r')) r')
            else (None, (add_token (Tok_Argument (buf r')) r') \<lparr> buf := [] \<rparr>))
      else if in_quote then (None, add_token Nil_Token r)
      else (None, r))"

definition push_token :: "'c command_parser \<Rightarrow> token \<Rightarrow> 'c receiver \<Rightarrow> imap_error option \<times> 'c receiver" where
  "push_token cp t r =
     (let r' = r \<lparr> current_request_size := current_request_size r + 1 \<rparr>
      in if current_request_size r' > max_request_size r'
         then map_prod Some id (error_reset cp (RequestTooLarge (max_request_size r')) r')
         else (None, add_token t r'))"

definition push_checked :: "char \<Rightarrow> nat \<Rightarrow> 'c receiver \<Rightarrow> 'c receiver option" where
  "push_checked c limit r = (if length (buf r) < limit then Some (r \<lparr> buf := buf r @ [c] \<rparr>) else None)"

definition push_unchecked :: "char \<Rightarrow> 'c receiver \<Rightarrow> 'c receiver" where
  "push_unchecked c r = r \<lparr> buf := buf r @ [c] \<rparr>"

text \<open>The step of the machine on a byte: the new receiver and, where \<open>parse\<close> returns, its result.\<close>

type_synonym 'c step_result = "'c receiver \<times> (imap_error + 'c request) option"

definition fail :: "'c command_parser \<Rightarrow> message \<Rightarrow> 'c receiver \<Rightarrow> 'c step_result" where
  "fail cp msg r = (case error_reset cp msg r of (e, r') \<Rightarrow> (r', Some (Inl e)))"

text \<open>The operator \<open>?\<close> of the code: an error is returned, otherwise the handler goes on.\<close>

definition and_then :: "imap_error option \<times> 'c receiver \<Rightarrow> ('c receiver \<Rightarrow> 'c step_result) \<Rightarrow> 'c step_result" where
  "and_then x f = (case x of (Some e, r) \<Rightarrow> (r, Some (Inl e)) | (None, r) \<Rightarrow> f r)"

definition checked ::
  "'c command_parser \<Rightarrow> char \<Rightarrow> nat \<Rightarrow> message \<Rightarrow> 'c receiver \<Rightarrow> ('c receiver \<Rightarrow> 'c step_result) \<Rightarrow> 'c step_result" where
  "checked cp c limit msg r f = (case push_checked c limit r of None \<Rightarrow> fail cp msg r | Some r' \<Rightarrow> f r')"

abbreviation goto :: "imap_state \<Rightarrow> 'c receiver \<Rightarrow> 'c step_result" where
  "goto s r \<equiv> (r \<lparr> state := s \<rparr>, None)"

definition complete :: "'c command_parser \<Rightarrow> 'c receiver \<Rightarrow> 'c step_result" where
  "complete cp r =
     (r \<lparr> state := start_state r, current_request_size := 0, request := default_request cp \<rparr>, Some (Inr (request r)))"

section \<open>The states\<close>

definition step_start :: "char \<Rightarrow> 'c receiver \<Rightarrow> 'c step_result" where
  "step_start ch r = (if \<not> is_ascii_whitespace ch then goto Tag (push_unchecked ch r) else (r, None))"

definition step_tag :: "'c command_parser \<Rightarrow> char \<Rightarrow> 'c receiver \<Rightarrow> 'c step_result" where
  "step_tag cp ch r =
     (if ch = CHR '' '' then
        (if buf r \<noteq> [] then
           (let r' = r \<lparr> buf := [] \<rparr>
            in if utf8_valid (buf r)
               then goto (In_Command False) (r' \<lparr> request := (request r') \<lparr> tag := buf r \<rparr> \<rparr>)
               else fail cp (Message ''Tag is not a valid UTF-8 string.'') r')
         else (r, None))
      else if ch = CHR 0x09 \<or> ch = CHR 0x0D then (r, None)
      else if ch = CHR 0x0A then fail cp (MissingCommand (as_str (buf r))) r
      else checked cp ch 128 (Message ''Tag exceeds maximum length of 128 characters.'') r (\<lambda>r'. (r', None)))"

definition step_command :: "'c command_parser \<Rightarrow> bool \<Rightarrow> char \<Rightarrow> 'c receiver \<Rightarrow> 'c step_result" where
  "step_command cp uid ch r =
     (if is_ascii_alphanumeric ch then
        checked cp (to_ascii_uppercase ch) 15 (Message ''Command exceeds maximum length of 15 characters.'') r (\<lambda>r'. (r', None))
      else if is_ascii_whitespace ch then
        (if buf r \<noteq> [] then
           (if \<not> eq_ignore_ascii_case (buf r) ''UID'' then
              (case parse_command cp (buf r) uid of
                 None \<Rightarrow> fail cp (UnrecognizedCommand (buf r)) r
               | Some c \<Rightarrow>
                   (let r' = r \<lparr> request := (request r) \<lparr> command := c \<rparr>, buf := [] \<rparr>
                    in if ch \<noteq> CHR 0x0A then goto (In_Argument (CHR '' '')) r' else complete cp r'))
            else goto (In_Command True) (r \<lparr> buf := [] \<rparr>))
         else (r, None))
      else fail cp (InvalidCommandChar ch) r)"

text \<open>The token of a special character: brackets and dots only for commands that ask for it.\<close>

definition special_token :: "bool \<Rightarrow> char \<Rightarrow> token option" where
  "special_token brackets ch =
     (if ch = CHR ''('' then Some ParenthesisOpen
      else if ch = CHR '')'' then Some ParenthesisClose
      else if ch = CHR ''['' \<and> brackets then Some BracketOpen
      else if ch = CHR '']'' \<and> brackets then Some BracketClose
      else if ch = CHR ''<'' \<and> brackets then Some Lt
      else if ch = CHR ''>'' \<and> brackets then Some Gt
      else if ch = CHR ''.'' \<and> brackets then Some Dot
      else None)"

definition step_argument :: "'c command_parser \<Rightarrow> char \<Rightarrow> char \<Rightarrow> 'c receiver \<Rightarrow> 'c step_result" where
  "step_argument cp lst ch r =
     (if ch = CHR 0x22 \<and> is_ascii_whitespace lst then
        and_then (push_argument cp False r) (goto (ArgumentQuoted False))
      else if ch = CHR ''{'' \<and> (is_ascii_whitespace lst \<or> (lst = CHR ''~'' \<and> length (buf r) = 1)) then
        (if lst \<noteq> CHR ''~'' then and_then (push_argument cp False r) (goto (Literal False))
         else goto (Literal False) (r \<lparr> buf := [] \<rparr>))
      else (case special_token (tokenize_brackets cp (command (request r))) ch of
              Some t \<Rightarrow>
                and_then (push_argument cp False r) (\<lambda>r'. and_then (push_token cp t r') (\<lambda>r''. (r'', None)))
            | None \<Rightarrow>
                if ch = CHR 0x0A then and_then (push_argument cp False r) (complete cp)
                else if is_ascii_whitespace ch then and_then (push_argument cp False r) (goto (In_Argument ch))
                else checked cp ch ARG_MAX_LEN (Message ''Argument exceeds maximum length of 8000 bytes.'') r
                       (goto (In_Argument ch))))"

definition step_quoted :: "'c command_parser \<Rightarrow> bool \<Rightarrow> char \<Rightarrow> 'c receiver \<Rightarrow> 'c step_result" where
  "step_quoted cp esc ch r =
     (let too_long = Message ''Quoted argument too long.''
      in if ch = CHR 0x22 then
           (if \<not> esc then and_then (push_argument cp True r) (goto (In_Argument (CHR '' '')))
            else checked cp ch ARG_MAX_LEN too_long r (goto (ArgumentQuoted False)))
         else if ch = CHR 0x5C then
           (if esc then checked cp ch ARG_MAX_LEN too_long r (goto (ArgumentQuoted False))
            else goto (ArgumentQuoted True) r)
         else if ch = CHR 0x0A then fail cp (Message ''Unterminated quoted argument.'') r
         else checked cp ch ARG_MAX_LEN too_long (if esc then push_unchecked (CHR 0x5C) r else r)
                (goto (ArgumentQuoted False)))"

definition step_literal :: "'c command_parser \<Rightarrow> bool \<Rightarrow> char \<Rightarrow> 'c receiver \<Rightarrow> 'c step_result" where
  "step_literal cp nsync ch r =
     (if ch = CHR ''}'' then
        (if buf r \<noteq> [] then
           (case parse_u32 (as_str (buf r)) of
              None \<Rightarrow> fail cp (Message ''Literal size is not a valid number.'') r
            | Some sz \<Rightarrow>
                if current_request_size r + unat sz > max_request_size r \<and> \<not> nsync
                then fail cp (LiteralTooLarge (max_request_size r)) r
                else goto (LiteralSeek sz nsync) (r \<lparr> buf := [] \<rparr>))
         else fail cp (Message ''Invalid empty literal.'') r)
      else if ch = CHR ''+'' then
        (if buf r \<noteq> [] then goto (Literal True) r else fail cp (Message ''Invalid non-sync literal.'') r)
      else if is_ascii_digit ch then
        (if \<not> nsync then
           checked cp ch 15 (Message ''Literal size exceeds maximum of 15 digits.'') r (\<lambda>r'. (r', None))
         else fail cp (Message ''Invalid literal.'') r)
      else fail cp (InvalidLiteralChar ch) r)"

definition step_literal_seek :: "'c command_parser \<Rightarrow> u32 \<Rightarrow> bool \<Rightarrow> char \<Rightarrow> 'c receiver \<Rightarrow> 'c step_result" where
  "step_literal_seek cp sz nsync ch r =
     (let needs = (if \<not> nsync then Some (Inl (NeedsLiteral sz)) else None)
      in if ch = CHR 0x0A then
           (if nsync \<and> current_request_size r + unat sz > max_request_size r
            then goto (LiteralDiscard sz) r
            else if sz > 0 then (r \<lparr> state := LiteralData sz \<rparr>, needs)
            else and_then (push_token cp Nil_Token (r \<lparr> state := In_Argument (CHR '' '') \<rparr>)) (\<lambda>r'. (r', needs)))
         else if \<not> is_ascii_whitespace ch
         then fail cp (Message ''Expected CRLF after literal, found an invalid char.'') r
         else (r, None))"

definition step_discard :: "'c command_parser \<Rightarrow> u32 \<Rightarrow> 'c receiver \<Rightarrow> 'c step_result" where
  "step_discard cp remaining r =
     (if remaining > 1 then goto (LiteralDiscard (remaining - 1)) r
      else fail cp (LiteralTooLarge (max_request_size r)) r)"

definition step_data :: "'c command_parser \<Rightarrow> u32 \<Rightarrow> char \<Rightarrow> 'c receiver \<Rightarrow> 'c step_result" where
  "step_data cp remaining ch r =
     (let r' = push_unchecked ch r
      in if remaining > 1 then goto (LiteralData (remaining - 1)) r'
         else and_then (push_argument cp False r') (goto (In_Argument (CHR '' ''))))"

definition imap_step :: "'c command_parser \<Rightarrow> 'c receiver \<Rightarrow> char \<Rightarrow> 'c step_result" where
  "imap_step cp r ch =
     (case state r of
        Start \<Rightarrow> step_start ch r
      | Tag \<Rightarrow> step_tag cp ch r
      | In_Command uid \<Rightarrow> step_command cp uid ch r
      | In_Argument lst \<Rightarrow> step_argument cp lst ch r
      | ArgumentQuoted esc \<Rightarrow> step_quoted cp esc ch r
      | Literal nsync \<Rightarrow> step_literal cp nsync ch r
      | LiteralSeek sz nsync \<Rightarrow> step_literal_seek cp sz nsync ch r
      | LiteralDiscard remaining \<Rightarrow> step_discard cp remaining r
      | LiteralData remaining \<Rightarrow> step_data cp remaining ch r)"

fun imap_parse :: "'c command_parser \<Rightarrow> 'c receiver \<Rightarrow> bytes \<Rightarrow> (imap_error + 'c request) \<times> 'c receiver \<times> bytes" where
  "imap_parse cp r [] = (Inl NeedsMoreInput, r, [])"
| "imap_parse cp r (ch # bs) =
     (case imap_step cp r ch of
        (r', Some res) \<Rightarrow> (res, r', bs)
      | (r', None) \<Rightarrow> imap_parse cp r' bs)"

section \<open>Tokens\<close>

definition token_as_bytes :: "token \<Rightarrow> bytes" where
  "token_as_bytes t = (case t of
     Tok_Argument v \<Rightarrow> v | ParenthesisOpen \<Rightarrow> ''('' | ParenthesisClose \<Rightarrow> '')'' | BracketOpen \<Rightarrow> ''['' | BracketClose \<Rightarrow> '']''
   | Gt \<Rightarrow> ''>'' | Lt \<Rightarrow> ''<'' | Dot \<Rightarrow> ''.'' | Nil_Token \<Rightarrow> [])"

definition unwrap_string :: "token \<Rightarrow> string + bytes" where
  "unwrap_string t = (case t of
     Tok_Argument v \<Rightarrow> if utf8_valid v then Inr v else Inl ''Invalid UTF-8 in argument.''
   | other \<Rightarrow> Inr (token_as_bytes other))"

definition unwrap_bytes :: "token \<Rightarrow> bytes" where
  "unwrap_bytes t = (case t of Tok_Argument v \<Rightarrow> v | other \<Rightarrow> token_as_bytes other)"

definition token_eq_ignore_ascii_case :: "token \<Rightarrow> bytes \<Rightarrow> bool" where
  "token_eq_ignore_ascii_case t bs = (case t of
     Tok_Argument v \<Rightarrow> eq_ignore_ascii_case v bs | ParenthesisOpen \<Rightarrow> bs = ''('' | ParenthesisClose \<Rightarrow> bs = '')''
   | BracketOpen \<Rightarrow> bs = ''['' | BracketClose \<Rightarrow> bs = '']'' | Gt \<Rightarrow> bs = ''>'' | Lt \<Rightarrow> bs = ''<'' | Dot \<Rightarrow> bs = ''.''
   | Nil_Token \<Rightarrow> bs = [])"

section \<open>The commands of the two protocols\<close>

datatype imap_command =
  IMAP_Capability
| IMAP_Noop
| IMAP_Logout
| IMAP_StartTls
| IMAP_Authenticate
| IMAP_Login
| IMAP_Enable
| IMAP_Select
| IMAP_Examine
| IMAP_Create
| IMAP_Delete
| IMAP_Rename
| IMAP_Subscribe
| IMAP_Unsubscribe
| IMAP_List
| IMAP_Namespace
| IMAP_Status
| IMAP_Append
| IMAP_Idle
| IMAP_Close
| IMAP_Unselect
| IMAP_Expunge bool
| IMAP_Search bool
| IMAP_Fetch bool
| IMAP_Store bool
| IMAP_Copy bool
| IMAP_Move bool
| IMAP_Lsub
| IMAP_Check
| IMAP_Sort bool
| IMAP_Thread bool
| IMAP_SetAcl
| IMAP_DeleteAcl
| IMAP_GetAcl
| IMAP_ListRights
| IMAP_MyRights
| IMAP_Unauthenticate
| IMAP_Id
| IMAP_GetQuota
| IMAP_GetQuotaRoot
| IMAP_GetJmapAccess

definition imap_command_names :: "bool \<Rightarrow> (bytes \<times> imap_command) list" where
  "imap_command_names uid =
    [ (''CAPABILITY'', IMAP_Capability),
      (''NOOP'', IMAP_Noop),
      (''LOGOUT'', IMAP_Logout),
      (''STARTTLS'', IMAP_StartTls),
      (''AUTHENTICATE'', IMAP_Authenticate),
      (''LOGIN'', IMAP_Login),
      (''ENABLE'', IMAP_Enable),
      (''SELECT'', IMAP_Select),
      (''EXAMINE'', IMAP_Examine),
      (''CREATE'', IMAP_Create),
      (''DELETE'', IMAP_Delete),
      (''RENAME'', IMAP_Rename),
      (''SUBSCRIBE'', IMAP_Subscribe),
      (''UNSUBSCRIBE'', IMAP_Unsubscribe),
      (''LIST'', IMAP_List),
      (''NAMESPACE'', IMAP_Namespace),
      (''STATUS'', IMAP_Status),
      (''APPEND'', IMAP_Append),
      (''IDLE'', IMAP_Idle),
      (''CLOSE'', IMAP_Close),
      (''UNSELECT'', IMAP_Unselect),
      (''EXPUNGE'', IMAP_Expunge uid),
      (''SEARCH'', IMAP_Search uid),
      (''FETCH'', IMAP_Fetch uid),
      (''STORE'', IMAP_Store uid),
      (''COPY'', IMAP_Copy uid),
      (''MOVE'', IMAP_Move uid),
      (''SORT'', IMAP_Sort uid),
      (''THREAD'', IMAP_Thread uid),
      (''LSUB'', IMAP_Lsub),
      (''CHECK'', IMAP_Check),
      (''SETACL'', IMAP_SetAcl),
      (''DELETEACL'', IMAP_DeleteAcl),
      (''GETACL'', IMAP_GetAcl),
      (''LISTRIGHTS'', IMAP_ListRights),
      (''MYRIGHTS'', IMAP_MyRights),
      (''UNAUTHENTICATE'', IMAP_Unauthenticate),
      (''ID'', IMAP_Id),
      (''GETQUOTA'', IMAP_GetQuota),
      (''GETQUOTAROOT'', IMAP_GetQuotaRoot),
      (''GETJMAPACCESS'', IMAP_GetJmapAccess) ]"

definition imap_command_parse ::
  "((bytes \<times> imap_command) list \<Rightarrow> bytes \<Rightarrow> imap_command option) \<Rightarrow> bytes \<Rightarrow> bool \<Rightarrow> imap_command option" where
  "imap_command_parse tiny_map value uid = tiny_map (imap_command_names uid) value"

definition imap_tokenize_brackets :: "imap_command \<Rightarrow> bool" where
  "imap_tokenize_brackets c = (case c of IMAP_Fetch _ \<Rightarrow> True | _ \<Rightarrow> False)"

definition imap_commands ::
  "((bytes \<times> imap_command) list \<Rightarrow> bytes \<Rightarrow> imap_command option) \<Rightarrow> imap_command command_parser" where
  "imap_commands tiny_map = \<lparr> parse_command = imap_command_parse tiny_map,
     tokenize_brackets = imap_tokenize_brackets, default_command = IMAP_Noop \<rparr>"

datatype sieve_command =
  Sieve_Authenticate
| Sieve_StartTls
| Sieve_Logout
| Sieve_Capability
| Sieve_HaveSpace
| Sieve_PutScript
| Sieve_ListScripts
| Sieve_SetActive
| Sieve_GetScript
| Sieve_DeleteScript
| Sieve_RenameScript
| Sieve_CheckScript
| Sieve_Noop
| Sieve_Unauthenticate

definition sieve_command_parse :: "bytes \<Rightarrow> bool \<Rightarrow> sieve_command option" where
  "sieve_command_parse value uid =
     (if value = ''AUTHENTICATE'' then Some Sieve_Authenticate
      else if value = ''STARTTLS'' then Some Sieve_StartTls
      else if value = ''LOGOUT'' then Some Sieve_Logout
      else if value = ''CAPABILITY'' then Some Sieve_Capability
      else if value = ''HAVESPACE'' then Some Sieve_HaveSpace
      else if value = ''PUTSCRIPT'' then Some Sieve_PutScript
      else if value = ''LISTSCRIPTS'' then Some Sieve_ListScripts
      else if value = ''SETACTIVE'' then Some Sieve_SetActive
      else if value = ''GETSCRIPT'' then Some Sieve_GetScript
      else if value = ''DELETESCRIPT'' then Some Sieve_DeleteScript
      else if value = ''RENAMESCRIPT'' then Some Sieve_RenameScript
      else if value = ''CHECKSCRIPT'' then Some Sieve_CheckScript
      else if value = ''NOOP'' then Some Sieve_Noop
      else if value = ''UNAUTHENTICATE'' then Some Sieve_Unauthenticate
      else None)"

definition sieve_commands :: "sieve_command command_parser" where
  "sieve_commands = \<lparr> parse_command = sieve_command_parse, tokenize_brackets = (\<lambda>_. False), default_command = Sieve_Noop \<rparr>"

text \<open>Every name of the table is found, with the flag of the \<open>UID\<close> prefix.\<close>

lemma imap_names_distinct: "distinct (map fst (imap_command_names uid))"
  by (simp add: imap_command_names_def)

lemma imap_command_parse_eq:
  "tiny_map_spec tiny_map \<Longrightarrow> imap_command_parse tiny_map value uid = map_of (imap_command_names uid) value"
  by (simp add: imap_command_parse_def tiny_map_specD imap_names_distinct)

section \<open>The receiver as an incremental parser\<close>

lemmas step_defs = step_start_def step_tag_def step_command_def step_argument_def step_quoted_def step_literal_def
  step_literal_seek_def step_discard_def step_data_def

lemma fail_eq: "fail cp msg r = (reset cp r, Some (Inl (ErrorResponse (error_tag r) msg)))"
  by (simp add: fail_def error_reset_def)

text \<open>What a step can return: an error that resets the receiver, a complete request that resets it too, a request for a literal, or nothing.\<close>

definition good_result :: "'c command_parser \<Rightarrow> 'c receiver \<Rightarrow> 'c step_result \<Rightarrow> bool" where
  "good_result cp r x = (case x of
     (r', None) \<Rightarrow> True
   | (r', Some (Inr q)) \<Rightarrow> r' = reset cp r
   | (r', Some (Inl (ErrorResponse t m))) \<Rightarrow> r' = reset cp r
   | (r', Some (Inl (NeedsLiteral n))) \<Rightarrow> True
   | (r', Some (Inl NeedsMoreInput)) \<Rightarrow> False)"

lemma good_fail: "reset cp r' = reset cp r \<Longrightarrow> good_result cp r (fail cp msg r')"
  by (simp add: good_result_def fail_eq)

lemma good_checked:
  "(\<And>r'. push_checked c limit r = Some r' \<Longrightarrow> good_result cp q (f r')) \<Longrightarrow> reset cp r = reset cp q \<Longrightarrow>
     good_result cp q (checked cp c limit msg r f)"
  by (simp add: checked_def good_fail split: option.split)

lemma push_argument_cases:
  obtains (err) e where "push_argument cp b r = (Some (ErrorResponse e (RequestTooLarge (max_request_size r))), reset cp r)"
      "buf r \<noteq> []" "current_request_size r + length (buf r) > max_request_size r"
  | (arg) "push_argument cp b r = (None, (add_token (Tok_Argument (buf r)) r)
        \<lparr> buf := [], current_request_size := current_request_size r + length (buf r) \<rparr>)"
      "buf r \<noteq> []" "current_request_size r + length (buf r) \<le> max_request_size r"
  | (nil) "push_argument cp b r = (None, add_token Nil_Token r)" "buf r = []" "b"
  | (none) "push_argument cp b r = (None, r)" "buf r = []" "\<not> b"
proof -
  show thesis
    by (cases "buf r = []"; cases b; cases "current_request_size r + length (buf r) > max_request_size r")
      (auto simp: push_argument_def error_reset_def reset_def add_token_def intro: that)
qed

lemma push_token_cases:
  obtains (err) e where "push_token cp t r = (Some (ErrorResponse e (RequestTooLarge (max_request_size r))), reset cp r)"
      "current_request_size r + 1 > max_request_size r"
  | (tok) "push_token cp t r = (None, (add_token t r) \<lparr> current_request_size := current_request_size r + 1 \<rparr>)"
      "current_request_size r + 1 \<le> max_request_size r"
  by (cases "current_request_size r + 1 > max_request_size r")
    (auto simp: push_token_def error_reset_def reset_def add_token_def Let_def intro: that)

lemma reset_add_token [simp]: "reset cp (add_token t r) = reset cp r"
  by (simp add: reset_def add_token_def)

lemma reset_updates [simp]:
  "reset cp (r \<lparr> buf := b \<rparr>) = reset cp r"
  "reset cp (r \<lparr> request := q \<rparr>) = reset cp r"
  "reset cp (r \<lparr> state := s \<rparr>) = reset cp r"
  "reset cp (r \<lparr> current_request_size := n \<rparr>) = reset cp r"
  "reset cp (reset cp r) = reset cp r"
  by (simp_all add: reset_def)

lemma good_None [simp]: "good_result cp r (r', None)"
  by (simp add: good_result_def)

lemma good_complete: "buf r' = [] \<Longrightarrow> reset cp r' = reset cp r \<Longrightarrow> good_result cp r (complete cp r')"
  by (cases r; cases r') (simp add: good_result_def complete_def reset_def)

lemma good_push_argument:
  assumes "\<And>r'. push_argument cp b r = (None, r') \<Longrightarrow> buf r' = [] \<Longrightarrow> reset cp r' = reset cp q \<Longrightarrow> good_result cp q (f r')"
    and "reset cp r = reset cp q"
  shows "good_result cp q (and_then (push_argument cp b r) f)"
  using assms by (cases rule: push_argument_cases [of cp b r]) (simp_all add: and_then_def good_result_def add_token_def)

lemma good_push_token:
  assumes "\<And>r'. push_token cp t r = (None, r') \<Longrightarrow> reset cp r' = reset cp q \<Longrightarrow> good_result cp q (f r')"
    and "reset cp r = reset cp q"
  shows "good_result cp q (and_then (push_token cp t r) f)"
  using assms by (cases rule: push_token_cases [of cp t r]) (simp_all add: and_then_def good_result_def add_token_def)

lemmas good_intros = good_fail good_checked good_complete good_push_argument good_push_token

lemma good_step: "good_result cp r (imap_step cp r ch)"
proof -
  have "good_result cp r (step_start ch r)" by (simp add: step_start_def)
  moreover have "good_result cp r (step_tag cp ch r)"
    by (simp add: step_tag_def Let_def good_intros)
  moreover have "good_result cp r (step_command cp u ch r)" for u
    by (simp add: step_command_def Let_def good_intros split: option.split)
  moreover have "good_result cp r (step_argument cp l ch r)" for l
    by (simp add: step_argument_def good_intros split: option.split)
  moreover have "good_result cp r (step_quoted cp e ch r)" for e
    by (simp add: step_quoted_def Let_def push_unchecked_def good_intros)
  moreover have "good_result cp r (step_literal cp n ch r)" for n
    by (simp add: step_literal_def good_intros split: option.split)
  moreover have "good_result cp r (step_literal_seek cp sz n ch r)" for sz n
    by (auto simp: step_literal_seek_def Let_def good_intros intro!: good_push_token) (simp_all add: good_result_def)
  moreover have "good_result cp r (step_discard cp m r)" for m
    by (simp add: step_discard_def good_intros)
  moreover have "good_result cp r (step_data cp m ch r)" for m
    by (simp add: step_data_def Let_def push_unchecked_def good_intros)
  ultimately show ?thesis by (simp add: imap_step_def split: imap_state.split)
qed

interpretation imap: complete_parser "imap_step cp" "imap_parse cp" "Inl NeedsMoreInput" for cp
proof
  fix r ch r' show "imap_step cp r ch \<noteq> (r', Some (Inl NeedsMoreInput))"
    using good_step [of cp r ch] by (auto simp: good_result_def)
qed (auto split: prod.splits option.splits)

section \<open>The size of a request\<close>

text \<open>
  The bytes a token holds, and the invariant of the receiver: what the tokens hold is counted in the current
  size, which stays within the limit; the buffer is bounded by the state it is filled in, and a literal in progress fits in what the limit leaves.
\<close>

fun token_size :: "token \<Rightarrow> nat" where
  "token_size (Tok_Argument v) = length v"
| "token_size Nil_Token = 0"
| "token_size _ = 1"

definition tokens_size :: "token list \<Rightarrow> nat" where
  "tokens_size ts = sum_list (map token_size ts)"

definition buffer_wf :: "imap_state \<Rightarrow> 'c receiver \<Rightarrow> bool" where
  "buffer_wf s r = (case s of
     Start \<Rightarrow> buf r = []
   | Tag \<Rightarrow> length (buf r) \<le> 128
   | In_Command uid \<Rightarrow> length (buf r) \<le> 15
   | In_Argument lst \<Rightarrow> length (buf r) \<le> ARG_MAX_LEN
   | ArgumentQuoted esc \<Rightarrow> length (buf r) \<le> ARG_MAX_LEN
   | Literal nsync \<Rightarrow> length (buf r) \<le> 15
   | LiteralSeek sz nsync \<Rightarrow> buf r = [] \<and> (\<not> nsync \<longrightarrow> current_request_size r + unat sz \<le> max_request_size r)
   | LiteralData remaining \<Rightarrow>
       0 < remaining \<and> current_request_size r + length (buf r) + unat remaining \<le> max_request_size r
   | LiteralDiscard remaining \<Rightarrow> 0 < remaining \<and> buf r = [])"

definition core_wf :: "'c receiver \<Rightarrow> bool" where
  "core_wf r \<longleftrightarrow>
     start_state r \<in> {Start, In_Command False} \<and> length (tag (request r)) \<le> 128 \<and>
     tokens_size (tokens (request r)) \<le> current_request_size r \<and> current_request_size r \<le> max_request_size r"

definition receiver_wf :: "'c receiver \<Rightarrow> bool" where
  "receiver_wf r \<longleftrightarrow> core_wf r \<and> buffer_wf (state r) r"

lemma tokens_size_simps [simp]:
  "tokens_size [] = 0" "tokens_size (ts @ us) = tokens_size ts + tokens_size us" "tokens_size (t # ts) = token_size t + tokens_size ts"
  by (simp_all add: tokens_size_def)

lemma token_size_special: "\<forall>v. t \<noteq> Tok_Argument v \<Longrightarrow> token_size t \<le> 1"
  by (cases t) simp_all

lemma core_wf_updates [simp]:
  "core_wf (r \<lparr> buf := b \<rparr>) = core_wf r"
  "core_wf (r \<lparr> state := s \<rparr>) = core_wf r"
  by (simp_all add: core_wf_def)

lemma wf_reset: "core_wf r \<Longrightarrow> receiver_wf (reset cp r)"
  by (auto simp: core_wf_def receiver_wf_def buffer_wf_def reset_def default_request_def)

lemma wf_fail: "core_wf r \<Longrightarrow> receiver_wf (fst (fail cp msg r))"
  by (simp add: fail_eq wf_reset)

lemma wf_checked:
  "core_wf r \<Longrightarrow> (length (buf r) < limit \<Longrightarrow> receiver_wf (fst (f (r \<lparr> buf := buf r @ [c] \<rparr>)))) \<Longrightarrow>
     receiver_wf (fst (checked cp c limit msg r f))"
  by (simp add: checked_def push_checked_def wf_fail)

lemma wf_push_argument:
  assumes "core_wf r"
    and "\<And>r'. core_wf r' \<Longrightarrow> buf r' = [] \<Longrightarrow> state r' = state r \<Longrightarrow> receiver_wf (fst (f r'))"
  shows "receiver_wf (fst (and_then (push_argument cp b r) f))"
proof (cases rule: push_argument_cases [of cp b r])
  case err
  with assms(1) show ?thesis by (simp add: and_then_def wf_reset)
qed (use assms in \<open>auto simp: and_then_def core_wf_def add_token_def\<close>)

lemma wf_push_token:
  assumes "core_wf r" "\<forall>v. t \<noteq> Tok_Argument v"
    and "\<And>r'. core_wf r' \<Longrightarrow> buf r' = buf r \<Longrightarrow> state r' = state r \<Longrightarrow> receiver_wf (fst (f r'))"
  shows "receiver_wf (fst (and_then (push_token cp t r) f))"
proof (cases rule: push_token_cases [of cp t r])
  case err
  with assms(1) show ?thesis by (simp add: and_then_def wf_reset)
next
  case tok
  with assms token_size_special [OF assms(2)] show ?thesis
    by (auto simp: and_then_def core_wf_def add_token_def)
qed

lemma wf_complete: "core_wf r \<Longrightarrow> buf r = [] \<Longrightarrow> receiver_wf (fst (complete cp r))"
  by (auto simp: complete_def core_wf_def receiver_wf_def buffer_wf_def default_request_def)

lemmas wf_intros = wf_fail wf_checked wf_push_argument wf_push_token wf_complete

lemma special_token_size: "special_token b ch = Some t \<Longrightarrow> \<forall>v. t \<noteq> Tok_Argument v"
  by (auto simp: special_token_def split: if_splits)

lemma unat_pred:
  assumes "1 < (m :: u32)"
  shows "unat (m - 1) = unat m - 1" "0 < m - 1"
proof -
  from assms show "unat (m - 1) = unat m - 1" using unat_sub [of 1 m] by simp
  with assms show "0 < m - 1" by (simp add: word_less_nat_alt)
qed

text \<open>Every state keeps the invariant.\<close>

lemma wf_step_start: "core_wf r \<Longrightarrow> state r = Start \<Longrightarrow> buf r = [] \<Longrightarrow> receiver_wf (fst (step_start ch r))"
  by (simp add: step_start_def push_unchecked_def receiver_wf_def buffer_wf_def)

lemma wf_goto: "receiver_wf (r \<lparr> state := s \<rparr>) \<longleftrightarrow> core_wf r \<and> buffer_wf s (r \<lparr> state := s \<rparr>)"
  by (simp add: receiver_wf_def)

lemma wf_checked_stay:
  "core_wf r \<Longrightarrow> (length (buf r) < limit \<Longrightarrow> buffer_wf (state r) (r \<lparr> buf := buf r @ [c] \<rparr>)) \<Longrightarrow>
     receiver_wf (fst (checked cp c limit msg r (\<lambda>r'. (r', None))))"
  by (rule wf_checked) (simp_all add: receiver_wf_def)

lemma core_wf_tag: "core_wf r \<Longrightarrow> length t \<le> 128 \<Longrightarrow> core_wf (r \<lparr> request := request r \<lparr> tag := t \<rparr> \<rparr>)"
  by (simp add: core_wf_def)

lemma wf_step_tag:
  "core_wf r \<Longrightarrow> state r = Tag \<Longrightarrow> length (buf r) \<le> 128 \<Longrightarrow> receiver_wf (fst (step_tag cp ch r))"
  using core_wf_tag [of "r \<lparr> buf := [] \<rparr>" "buf r"]
  by (simp add: step_tag_def Let_def wf_fail wf_checked_stay wf_goto buffer_wf_def)
    (simp add: receiver_wf_def buffer_wf_def)

lemma wf_step_command:
  "core_wf r \<Longrightarrow> state r = In_Command u \<Longrightarrow> length (buf r) \<le> 15 \<Longrightarrow> receiver_wf (fst (step_command cp u ch r))"
  by (auto simp: step_command_def Let_def split: option.split intro!: wf_intros)
    (auto simp: receiver_wf_def buffer_wf_def core_wf_def)

lemma wf_special:
  assumes "core_wf r" "state r = In_Argument l" "\<forall>v. t \<noteq> Tok_Argument v"
  shows "receiver_wf (fst (and_then (push_argument cp False r) (\<lambda>r'. and_then (push_token cp t r') (\<lambda>r''. (r'', None)))))"
  using assms by (auto intro!: wf_push_argument wf_push_token) (simp add: receiver_wf_def buffer_wf_def)

lemma wf_step_argument:
  "core_wf r \<Longrightarrow> state r = In_Argument l \<Longrightarrow> length (buf r) \<le> ARG_MAX_LEN \<Longrightarrow> receiver_wf (fst (step_argument cp l ch r))"
  by (simp add: step_argument_def wf_intros wf_special special_token_size wf_goto buffer_wf_def split: option.split)

lemma wf_step_quoted:
  "core_wf r \<Longrightarrow> state r = ArgumentQuoted e \<Longrightarrow> length (buf r) \<le> ARG_MAX_LEN \<Longrightarrow> receiver_wf (fst (step_quoted cp e ch r))"
  by (auto simp: step_quoted_def Let_def push_unchecked_def intro!: wf_intros)
    (auto simp: receiver_wf_def buffer_wf_def)

lemma wf_step_literal:
  "core_wf r \<Longrightarrow> state r = Literal n \<Longrightarrow> length (buf r) \<le> 15 \<Longrightarrow> receiver_wf (fst (step_literal cp n ch r))"
  by (auto simp: step_literal_def split: option.split intro!: wf_intros)
    (auto simp: receiver_wf_def buffer_wf_def)

lemma wf_step_literal_seek:
  "core_wf r \<Longrightarrow> state r = LiteralSeek sz n \<Longrightarrow> buffer_wf (LiteralSeek sz n) r \<Longrightarrow>
     receiver_wf (fst (step_literal_seek cp sz n ch r))"
  by (auto simp: step_literal_seek_def Let_def intro!: wf_intros)
    (auto simp: receiver_wf_def buffer_wf_def core_wf_def word_less_nat_alt)

lemma wf_step_discard:
  "core_wf r \<Longrightarrow> state r = LiteralDiscard m \<Longrightarrow> buf r = [] \<Longrightarrow> receiver_wf (fst (step_discard cp m r))"
  by (auto simp: step_discard_def intro!: wf_intros) (auto simp: receiver_wf_def buffer_wf_def unat_pred)

lemma wf_step_data:
  "core_wf r \<Longrightarrow> state r = LiteralData m \<Longrightarrow> buffer_wf (LiteralData m) r \<Longrightarrow> receiver_wf (fst (step_data cp m ch r))"
  using unat_pred [of m]
  by (auto simp: step_data_def Let_def push_unchecked_def intro!: wf_intros)
    (auto simp: receiver_wf_def buffer_wf_def word_less_nat_alt)

lemma wf_step:
  assumes "receiver_wf r"
  shows "receiver_wf (fst (imap_step cp r ch))"
proof -
  from assms have "core_wf r" "buffer_wf (state r) r" by (simp_all add: receiver_wf_def)
  then show ?thesis
    by (cases "state r")
      (simp_all add: imap_step_def wf_step_start wf_step_tag wf_step_command wf_step_argument wf_step_quoted wf_step_literal
        wf_step_literal_seek wf_step_discard wf_step_data, simp_all add: buffer_wf_def wf_step_start wf_step_tag
        wf_step_command wf_step_argument wf_step_quoted wf_step_literal wf_step_discard)
qed

section \<open>Printing requests\<close>

text \<open>The forms in which a client writes an argument, and the line of a request.\<close>

datatype imap_arg = Atom bytes | Quoted bytes | LiteralPlus bytes | Open | Close

fun escape :: "bytes \<Rightarrow> bytes" where
  "escape [] = []"
| "escape (c # cs) = (if c = CHR 0x22 \<or> c = CHR 0x5C then CHR 0x5C # c # escape cs else c # escape cs)"

fun print_arg :: "imap_arg \<Rightarrow> bytes" where
  "print_arg (Atom a) = a"
| "print_arg (Quoted a) = CHR 0x22 # escape a @ [CHR 0x22]"
| "print_arg (LiteralPlus a) = CHR ''{'' # decimal (length a) @ [CHR ''+'', CHR ''}'', CHR 0x0D, CHR 0x0A] @ a"
| "print_arg Open = ''(''"
| "print_arg Close = '')''"

fun print_args :: "imap_arg list \<Rightarrow> bytes" where
  "print_args [] = [CHR 0x0A]"
| "print_args (a # as) = print_arg a @ (if as = [] then CHR 0x0D else CHR '' '') # print_args as"

definition print_request :: "bytes \<Rightarrow> bool \<Rightarrow> bytes \<Rightarrow> imap_arg list \<Rightarrow> bytes" where
  "print_request t uid name as =
     t @ CHR '' '' # (if uid then ''UID '' else []) @ name @ (if as = [] then CHR 0x0D else CHR '' '') # print_args as"

definition bytes_token :: "bytes \<Rightarrow> token" where
  "bytes_token a = (if a = [] then Nil_Token else Tok_Argument a)"

fun arg_token :: "imap_arg \<Rightarrow> token" where
  "arg_token (Atom a) = Tok_Argument a"
| "arg_token (Quoted a) = bytes_token a"
| "arg_token (LiteralPlus a) = bytes_token a"
| "arg_token Open = ParenthesisOpen"
| "arg_token Close = ParenthesisClose"

fun arg_cost :: "imap_arg \<Rightarrow> nat" where
  "arg_cost (Atom a) = length a"
| "arg_cost (Quoted a) = length a"
| "arg_cost (LiteralPlus a) = max 1 (length a)"
| "arg_cost _ = 1"

definition atom_char :: "char \<Rightarrow> bool" where
  "atom_char c \<longleftrightarrow> \<not> is_ascii_whitespace c \<and> special_token True c = None \<and> c \<noteq> CHR 0x22 \<and> c \<noteq> CHR ''{''"

fun arg_ok :: "imap_arg \<Rightarrow> bool" where
  "arg_ok (Atom a) \<longleftrightarrow> a \<noteq> [] \<and> list_all atom_char a \<and> length a \<le> ARG_MAX_LEN"
| "arg_ok (Quoted a) \<longleftrightarrow> CHR 0x0A \<notin> set a \<and> length a \<le> ARG_MAX_LEN"
| "arg_ok (LiteralPlus a) \<longleftrightarrow> length a < 2 ^ 32"
| "arg_ok _ \<longleftrightarrow> True"

definition request_ok :: "bytes \<Rightarrow> bytes \<Rightarrow> imap_arg list \<Rightarrow> bool" where
  "request_ok t name as \<longleftrightarrow>
     t \<noteq> [] \<and> list_all (\<lambda>c. \<not> is_ascii_whitespace c) t \<and> length t \<le> 128 \<and> utf8_valid t \<and>
     name \<noteq> [] \<and> list_all is_ascii_alphanumeric name \<and> length name \<le> 15 \<and>
     \<not> eq_ignore_ascii_case (map to_ascii_uppercase name) ''UID'' \<and> list_all arg_ok as"

lemma special_token_mono: "special_token True c = None \<Longrightarrow> special_token b c = None"
  by (auto simp: special_token_def split: if_splits)

lemma feed_step_None: "step s c = (s', None) \<Longrightarrow> feed step s (c # cs) = feed step s' cs"
  by simp

lemma feed_snoc: "feed step s xs = (s', None) \<Longrightarrow> step s' c = (s'', None) \<Longrightarrow> feed step s (xs @ [c]) = (s'', None)"
  by (simp add: feed_append)

lemma atom_step:
  assumes "state r = In_Argument l" "atom_char c" "length (buf r) < ARG_MAX_LEN"
  shows "imap_step cp r c = (r \<lparr> buf := buf r @ [c], state := In_Argument c \<rparr>, None)"
  using assms special_token_mono [of c "tokenize_brackets cp (command (request r))"]
  by (simp add: imap_step_def step_argument_def atom_char_def checked_def push_checked_def)
    (auto simp: is_ascii_whitespace_def)

lemma feed_atom:
  assumes "state r = In_Argument l" "buf r = []" "list_all atom_char a" "a \<noteq> []" "length a \<le> ARG_MAX_LEN"
  shows "feed (imap_step cp) r a = (r \<lparr> buf := a, state := In_Argument (last a) \<rparr>, None)"
  using assms(3-5)
proof (induction a rule: rev_induct)
  case (snoc c a)
  show ?case
  proof (cases "a = []")
    case True
    with snoc.prems assms(1,2) show ?thesis using atom_step [of r l c cp] by simp
  next
    case False
    with snoc show ?thesis
      using atom_step [of "r \<lparr> buf := a, state := In_Argument (last a) \<rparr>" "last a" c cp] by (simp add: feed_append)
  qed
qed simp

lemma quoted_step:
  assumes "state r = ArgumentQuoted False" "c \<noteq> CHR 0x0A" "length (buf r) < ARG_MAX_LEN"
  shows "feed (imap_step cp) r (escape [c]) = (r \<lparr> buf := buf r @ [c] \<rparr>, None)"
  using assms by (cases r) (auto simp: imap_step_def step_quoted_def checked_def push_checked_def)

lemma escape_append: "escape (a @ b) = escape a @ escape b"
  by (induction a) simp_all

lemma feed_quoted:
  assumes "state r = ArgumentQuoted False" "buf r = []" "CHR 0x0A \<notin> set a" "length a \<le> ARG_MAX_LEN"
  shows "feed (imap_step cp) r (escape a) = (r \<lparr> buf := a \<rparr>, None)"
  using assms(3-4)
proof (induction a rule: rev_induct)
  case Nil
  with assms show ?case by (cases r) simp
next
  case (snoc c a)
  with assms quoted_step [of "r \<lparr> buf := a \<rparr>" c cp] show ?case
    by (auto simp: escape_append feed_append simp del: escape.simps(2))
qed

lemma feed_digits:
  assumes "state r = Literal False" "buf r = []" "list_all is_ascii_digit ds" "length ds \<le> 15"
  shows "feed (imap_step cp) r ds = (r \<lparr> buf := ds \<rparr>, None)"
  using assms(3,4)
proof (induction ds rule: rev_induct)
  case Nil
  with assms show ?case by (cases r) simp
next
  case (snoc d ds)
  have "d \<noteq> CHR ''}''" "d \<noteq> CHR ''+''" using snoc.prems by (auto simp: is_ascii_digit_def byte_in_def)
  with snoc assms show ?case
    by (simp add: feed_append imap_step_def step_literal_def checked_def push_checked_def)
qed

lemma feed_data:
  assumes "state r = LiteralData m" "0 < length a" "unat m = length a"
    and "current_request_size r + length (buf r) + length a \<le> max_request_size r"
  shows "feed (imap_step cp) r a =
     ((add_token (Tok_Argument (buf r @ a)) r) \<lparr> buf := [], state := In_Argument (CHR '' ''),
        current_request_size := current_request_size r + length (buf r) + length a \<rparr>, None)"
  using assms
proof (induction a arbitrary: r m)
  case (Cons c a)
  show ?case
  proof (cases "a = []")
    case True
    with Cons.prems have "\<not> 1 < m" by (simp add: word_less_nat_alt)
    with True Cons.prems show ?thesis
      by (simp add: imap_step_def step_data_def push_unchecked_def and_then_def push_argument_def add_token_def Let_def)
  next
    case False
    with Cons.prems have m: "1 < m" by (simp add: word_less_nat_alt)
    with Cons.prems unat_pred [OF m] False
      Cons.IH [of "r \<lparr> buf := buf r @ [c], state := LiteralData (m - 1) \<rparr>" "m - 1"]
    show ?thesis
      by (simp add: imap_step_def step_data_def push_unchecked_def add_token_def Let_def)
  qed
qed simp

text \<open>The receiver after an argument and the white space that ends it.\<close>

definition after_arg :: "imap_arg \<Rightarrow> char \<Rightarrow> 'c receiver \<Rightarrow> 'c receiver" where
  "after_arg a w r = (add_token (arg_token a) r)
     \<lparr> state := In_Argument w,
       current_request_size := current_request_size r + arg_cost a \<rparr>"

lemma space_step:
  assumes "state r = In_Argument l" "w = CHR '' '' \<or> w = CHR 0x0D"
  shows "imap_step cp r w = and_then (push_argument cp False r) (goto (In_Argument w))"
  using assms by (auto simp: imap_step_def step_argument_def special_token_def is_ascii_whitespace_def)

lemma parse_atom:
  assumes "state r = In_Argument l" "buf r = []" "arg_ok (Atom a)" "w = CHR '' '' \<or> w = CHR 0x0D"
    and "current_request_size r + length a \<le> max_request_size r"
  shows "imap_parse cp r (a @ w # rest) = imap_parse cp (after_arg (Atom a) w r) rest"
proof -
  have "feed (imap_step cp) r a = (r \<lparr> buf := a, state := In_Argument (last a) \<rparr>, None)"
    using feed_atom [of r l a cp] assms(1-3) by simp
  moreover have "imap_step cp (r \<lparr> buf := a, state := In_Argument (last a) \<rparr>) w = (after_arg (Atom a) w r, None)"
    using space_step [of "r \<lparr> buf := a, state := In_Argument (last a) \<rparr>" "last a" w cp] assms
    by (cases r) (simp add: and_then_def push_argument_def after_arg_def add_token_def Let_def)
  ultimately show ?thesis by (simp add: imap.parse_append)
qed

lemma parse_paren:
  assumes "state r = In_Argument l" "buf r = []" "w = CHR '' '' \<or> w = CHR 0x0D" "a = Open \<or> a = Close"
    and "current_request_size r + 1 \<le> max_request_size r"
  shows "imap_parse cp r (print_arg a @ w # rest) = imap_parse cp (after_arg a w r) rest"
proof -
  let ?r = "(add_token (arg_token a) r) \<lparr> current_request_size := current_request_size r + 1 \<rparr>"
  have "feed (imap_step cp) r (print_arg a) = (?r, None)"
    using assms
    by (auto simp: imap_step_def step_argument_def special_token_def and_then_def push_argument_def push_token_def add_token_def Let_def)
  moreover have "imap_step cp ?r w = (after_arg a w r, None)"
    using space_step [of ?r l w cp] assms
    by (auto simp: and_then_def push_argument_def after_arg_def add_token_def)
  ultimately show ?thesis by (simp add: imap.parse_append)
qed

lemma parse_quoted:
  assumes "state r = In_Argument l" "is_ascii_whitespace l" "buf r = []" "arg_ok (Quoted a)" "w = CHR '' '' \<or> w = CHR 0x0D"
    and "current_request_size r + length a \<le> max_request_size r"
  shows "imap_parse cp r (print_arg (Quoted a) @ w # rest) = imap_parse cp (after_arg (Quoted a) w r) rest"
proof -
  let ?q = "r \<lparr> state := ArgumentQuoted False \<rparr>"
  let ?r = "(after_arg (Quoted a) w r) \<lparr> state := In_Argument (CHR '' '') \<rparr>"
  have "imap_step cp r (CHR 0x22) = (?q, None)"
    using assms by (simp add: imap_step_def step_argument_def and_then_def push_argument_def)
  moreover have "feed (imap_step cp) ?q (escape a) = (?q \<lparr> buf := a \<rparr>, None)"
    using feed_quoted [of ?q a cp] assms by simp
  moreover have "imap_step cp (?q \<lparr> buf := a \<rparr>) (CHR 0x22) = (?r, None)"
    using assms by (cases r) (simp add: imap_step_def step_quoted_def and_then_def push_argument_def after_arg_def
        add_token_def bytes_token_def Let_def)
  moreover have "imap_step cp ?r w = (after_arg (Quoted a) w r, None)"
    using space_step [of ?r "CHR '' ''" w cp] assms
    by (cases r) (simp add: and_then_def push_argument_def after_arg_def add_token_def)
  ultimately show ?thesis by (simp add: imap.parse_append)
qed

lemma feed_literal_head:
  assumes "state r = In_Argument l" "is_ascii_whitespace l" "buf r = []" "n < 2 ^ 32"
  shows "feed (imap_step cp) r (CHR ''{'' # decimal n @ [CHR ''+'', CHR ''}'', CHR 0x0D]) =
     (r \<lparr> state := LiteralSeek (of_nat n) True \<rparr>, None)"
proof -
  have l: "l \<noteq> CHR ''~''" using assms(2) by (auto simp: is_ascii_whitespace_def)
  have ds: "list_all is_ascii_digit (decimal n)" "decimal n \<noteq> []" "length (decimal n) \<le> 15"
    using decimal_digits length_decimal [of 15 n] assms(4) by auto
  have n: "n = unat (of_nat n :: u32)" using assms(4) by (simp add: unat_of_nat take_bit_nat_eq_self)
  have "list_all (byte_in 0 0x7F) (decimal n)"
    using ds(1) by (auto simp: list_all_iff is_ascii_digit_def byte_in_def)
  then have "parse_u32 (as_str (decimal n)) = Some (of_nat n)"
    using parse_u32_decimal [of "of_nat n"] n by (simp add: as_str_def utf8_valid_ascii)
  with feed_digits [of "r \<lparr> state := Literal False \<rparr>" "decimal n" cp] ds assms(1-3) l show ?thesis
    by (cases r) (simp add: feed_append imap_step_def step_argument_def step_literal_def step_literal_seek_def
        and_then_def push_argument_def Let_def is_ascii_whitespace_def)
qed

lemma parse_literal:
  assumes "state r = In_Argument l" "is_ascii_whitespace l" "buf r = []" "arg_ok (LiteralPlus a)" "w = CHR '' '' \<or> w = CHR 0x0D"
    and "current_request_size r + arg_cost (LiteralPlus a) \<le> max_request_size r"
  shows "imap_parse cp r (print_arg (LiteralPlus a) @ w # rest) = imap_parse cp (after_arg (LiteralPlus a) w r) rest"
proof -
  let ?s = "r \<lparr> state := LiteralSeek (of_nat (length a)) True \<rparr>"
  let ?r = "(after_arg (LiteralPlus a) w r) \<lparr> state := In_Argument (CHR '' '') \<rparr>"
  have n: "unat (of_nat (length a) :: u32) = length a"
    using assms(4) by (simp add: unat_of_nat take_bit_nat_eq_self)
  have head: "feed (imap_step cp) r (CHR ''{'' # decimal (length a) @ [CHR ''+'', CHR ''}'', CHR 0x0D]) = (?s, None)"
    using feed_literal_head [of r l "length a" cp] assms by simp
  have "feed (imap_step cp) ?s (CHR 0x0A # a) = (?r, None)"
  proof (cases "a = []")
    case True
    with assms show ?thesis
      by (simp add: imap_step_def step_literal_seek_def and_then_def push_token_def after_arg_def add_token_def
          bytes_token_def Let_def)
  next
    case False
    then have a: "0 < length a" "max 1 (length a) = length a" by (simp_all add: Suc_le_eq max_def)
    then have "(0 :: u32) < of_nat (length a)" by (simp add: word_less_nat_alt n)
    with False assms n a feed_data [of "?s \<lparr> state := LiteralData (of_nat (length a)) \<rparr>" "of_nat (length a)" a cp]
    show ?thesis
      by (cases r) (simp add: imap_step_def step_literal_seek_def after_arg_def add_token_def bytes_token_def Let_def)
  qed
  moreover have "imap_step cp ?r w = (after_arg (LiteralPlus a) w r, None)"
    using space_step [of ?r "CHR '' ''" w cp] assms
    by (cases r) (simp add: and_then_def push_argument_def after_arg_def add_token_def)
  ultimately have "imap_parse cp ?s (CHR 0x0A # a @ w # rest) = imap_parse cp (after_arg (LiteralPlus a) w r) rest"
    using imap.parse_append [of cp ?s "CHR 0x0A # a" "w # rest"] by simp
  moreover have "imap_parse cp r (print_arg (LiteralPlus a) @ w # rest) = imap_parse cp ?s (CHR 0x0A # a @ w # rest)"
    using imap.parse_chunks(2) [OF head, of "CHR 0x0A # a @ w # rest"] by simp
  ultimately show ?thesis by simp
qed

lemma parse_one_arg:
  assumes "state r = In_Argument l" "is_ascii_whitespace l" "buf r = []" "arg_ok a" "w = CHR '' '' \<or> w = CHR 0x0D"
    and "current_request_size r + arg_cost a \<le> max_request_size r"
  shows "imap_parse cp r (print_arg a @ w # rest) = imap_parse cp (after_arg a w r) rest"
  using assms parse_atom [of r l _ w cp rest] parse_paren [of r l w a cp rest] parse_quoted [of r l _ w cp rest]
    parse_literal [of r l _ w cp rest]
  by (cases a) simp_all

lemma parse_all_args:
  assumes "state r = In_Argument l" "is_ascii_whitespace l" "buf r = []" "list_all arg_ok as"
    and "current_request_size r + sum_list (map arg_cost as) \<le> max_request_size r"
  shows "imap_parse cp r (print_args as @ rest) =
     (Inr (request r \<lparr> tokens := tokens (request r) @ map arg_token as \<rparr>), reset cp r, rest)"
  using assms
proof (induction as arbitrary: r l)
  case Nil
  then show ?case
    by (cases r) (simp add: imap_step_def step_argument_def special_token_def and_then_def push_argument_def complete_def reset_def)
next
  case (Cons a as)
  define w where "w = (if as = [] then CHR 0x0D else CHR '' '')"
  have "imap_parse cp r (print_args (a # as) @ rest) = imap_parse cp (after_arg a w r) (print_args as @ rest)"
    using parse_one_arg [of r l a w cp "print_args as @ rest"] Cons.prems by (simp add: w_def)
  also have "\<dots> = (Inr (request r \<lparr> tokens := tokens (request r) @ map arg_token (a # as) \<rparr>), reset cp r, rest)"
    using Cons.IH [of "after_arg a w r" w] Cons.prems
    by (simp add: after_arg_def add_token_def w_def is_ascii_whitespace_def)
  finally show ?case .
qed

lemma feed_tag:
  assumes "state r = Start" "buf r = []" "t \<noteq> []" "list_all (\<lambda>c. \<not> is_ascii_whitespace c) t" "length t \<le> 128"
  shows "feed (imap_step cp) r t = (r \<lparr> buf := t, state := Tag \<rparr>, None)"
  using assms(3-5)
proof (induction t rule: rev_induct)
  case (snoc c t)
  show ?case
  proof (cases "t = []")
    case True
    with snoc.prems assms(1,2) show ?thesis by (simp add: imap_step_def step_start_def push_unchecked_def)
  next
    case False
    with snoc assms(1) show ?thesis
      by (simp add: feed_append imap_step_def step_tag_def checked_def push_checked_def is_ascii_whitespace_def)
  qed
qed simp

lemma feed_name:
  assumes "state r = In_Command u" "buf r = []" "list_all is_ascii_alphanumeric name" "length name \<le> 15"
  shows "feed (imap_step cp) r name = (r \<lparr> buf := map to_ascii_uppercase name \<rparr>, None)"
  using assms(3,4)
proof (induction name rule: rev_induct)
  case Nil
  with assms show ?case by (cases r) simp
next
  case (snoc c name)
  with assms show ?case by (simp add: feed_append imap_step_def step_command_def checked_def push_checked_def)
qed

lemma white_not_alnum: "is_ascii_whitespace c \<Longrightarrow> \<not> is_ascii_alphanumeric c"
  by (auto simp: is_ascii_whitespace_def is_ascii_alphanumeric_def is_ascii_digit_def is_ascii_lower_def is_ascii_upper_def byte_in_def)

lemma parse_name:
  assumes "state r = In_Command u" "buf r = []" "name \<noteq> []" "list_all is_ascii_alphanumeric name" "length name \<le> 15"
    and "\<not> eq_ignore_ascii_case (map to_ascii_uppercase name) ''UID''"
    and "parse_command cp (map to_ascii_uppercase name) u = Some c" "w = CHR '' '' \<or> w = CHR 0x0D"
  shows "imap_parse cp r (name @ w # rest) =
     imap_parse cp (r \<lparr> request := (request r) \<lparr> command := c \<rparr>, state := In_Argument (CHR '' '') \<rparr>) rest"
proof -
  have w: "is_ascii_whitespace w" "w \<noteq> CHR 0x0A" using assms(8) by (auto simp: is_ascii_whitespace_def)
  show ?thesis
    using feed_name [of r u name cp] assms(1-7) w white_not_alnum [OF w(1)]
    by (cases r) (simp add: imap.parse_append imap_step_def step_command_def Let_def)
qed

lemma feed_uid:
  assumes "state r = In_Command False" "buf r = []"
  shows "feed (imap_step cp) r ''UID '' = (r \<lparr> state := In_Command True \<rparr>, None)"
proof -
  have "list_all is_ascii_alphanumeric ''UID''" "map to_ascii_uppercase ''UID'' = ''UID''"
    "eq_ignore_ascii_case ''UID'' ''UID''" "is_ascii_whitespace (CHR '' '')" by code_simp+
  moreover have "feed (imap_step cp) r (''UID'' @ [CHR '' '']) =
      (case feed (imap_step cp) r ''UID'' of
         (r', None) \<Rightarrow> feed (imap_step cp) r' [CHR '' ''] | (r', Some (x, rest)) \<Rightarrow> (r', Some (x, rest @ [CHR '' ''])))"
    by (rule feed_append)
  ultimately show ?thesis
    using feed_name [of r False "''UID''" cp] assms white_not_alnum [of "CHR '' ''"]
    by (cases r) (simp add: imap_step_def step_command_def del: feed.simps(2) add: feed.simps(2) [of _ _ "CHR '' ''"])
qed

lemma parse_request:
  assumes "reset cp r = r" "start_state r = Start" "request_ok t name as"
    and "parse_command cp (map to_ascii_uppercase name) uid = Some c"
    and "sum_list (map arg_cost as) \<le> max_request_size r"
  shows "imap_parse cp r (print_request t uid name as @ rest) =
     (Inr \<lparr> tag = t, command = c, tokens = map arg_token as \<rparr>, r, rest)"
proof -
  let ?w = "if as = [] then CHR 0x0D else CHR '' ''"
  let ?r1 = "r \<lparr> request := request r \<lparr> tag := t \<rparr>, state := In_Command False \<rparr>"
  let ?r2 = "?r1 \<lparr> state := In_Command uid \<rparr>"
  let ?r3 = "?r2 \<lparr> request := (request ?r2) \<lparr> command := c \<rparr>, state := In_Argument (CHR '' '') \<rparr>"
  have r: "state r = Start" "buf r = []" "request r = default_request cp" "current_request_size r = 0"
    using assms(1,2) by (metis reset_def receiver.simps receiver.select_convs receiver.surjective receiver.update_convs)+
  have "feed (imap_step cp) r (t @ [CHR '' '']) = (?r1, None)"
    using feed_tag [of r t cp] r assms(3) by (cases r) (simp add: feed_append request_ok_def imap_step_def step_tag_def Let_def)
  then have "imap_parse cp r (print_request t uid name as @ rest) =
      imap_parse cp ?r1 ((if uid then ''UID '' else []) @ name @ ?w # print_args as @ rest)"
    using imap.parse_chunks(2) [of cp r "t @ [CHR '' '']" ?r1] by (simp add: print_request_def)
  also have "\<dots> = imap_parse cp ?r2 (name @ ?w # print_args as @ rest)"
    using imap.parse_chunks(2) [OF feed_uid [of ?r1 cp]] r by (simp del: imap_parse.simps)
  also have "\<dots> = imap_parse cp ?r3 (print_args as @ rest)"
    using parse_name [of ?r2 uid name cp c ?w "print_args as @ rest"] r assms(3,4) by (simp add: request_ok_def)
  also have "\<dots> = (Inr \<lparr> tag = t, command = c, tokens = map arg_token as \<rparr>, r, rest)"
    using parse_all_args [of ?r3 "CHR '' ''" as cp rest] r assms
    by (simp add: request_ok_def default_request_def is_ascii_whitespace_def)
  finally show ?thesis .
qed

section \<open>Oversized literals\<close>

lemma error_tag_state [simp]: "error_tag (r \<lparr> state := s \<rparr>) = error_tag r"
  by (simp add: error_tag_def)

lemma discard_data:
  assumes "state r = LiteralDiscard m" "0 < length a" "unat m = length a"
  shows "imap_parse cp r (a @ rest) =
     (Inl (ErrorResponse (error_tag r) (LiteralTooLarge (max_request_size r))), reset cp r, rest)"
  using assms
proof (induction a arbitrary: r m)
  case (Cons c a)
  show ?case
  proof (cases "a = []")
    case True
    with Cons.prems have "\<not> 1 < m" by (simp add: word_less_nat_alt)
    with True Cons.prems show ?thesis by (simp add: imap_step_def step_discard_def fail_eq)
  next
    case False
    with Cons.prems have m: "1 < m" by (simp add: word_less_nat_alt)
    with Cons.prems unat_pred [OF m] False Cons.IH [of "r \<lparr> state := LiteralDiscard (m - 1) \<rparr>" "m - 1"]
    show ?thesis by (simp add: imap_step_def step_discard_def)
  qed
qed simp

text \<open>
  A declared size that does not fit in 32 bits is refused at the latest at the closing brace, and the receiver
  starts again there: the end of the line and the bytes of the literal are left to be read as commands.
\<close>

lemma parse_u32_too_large: "2 ^ 32 \<le> n \<Longrightarrow> parse_u32 (decimal n) = None"
proof -
  assume n: "2 ^ 32 \<le> n"
  obtain c cs where d: "decimal n = c # cs" using decimal_digits(2) by (cases "decimal n") auto
  with decimal_digits(1) [of n] have "c \<noteq> CHR ''+''" by (auto simp: is_ascii_digit_def byte_in_def)
  with d n digits_value_decimal [of n] show ?thesis by (simp add: parse_u32_def)
qed

lemma literal_too_large_for_u32:
  assumes "state r = In_Argument l" "is_ascii_whitespace l" "buf r = []" "2 ^ 32 \<le> n"
  shows "\<exists>msg junk. imap_parse cp r (CHR ''{'' # decimal n @ CHR ''+'' # CHR ''}'' # rest) =
     (Inl (ErrorResponse (error_tag r) msg), reset cp r, junk @ rest)"
proof -
  let ?r = "r \<lparr> state := Literal False \<rparr>"
  have l: "l \<noteq> CHR ''~''" using assms(2) by (auto simp: is_ascii_whitespace_def)
  have ds: "list_all is_ascii_digit (decimal n)" "decimal n \<noteq> []" using decimal_digits by auto
  have brace: "imap_parse cp r (CHR ''{'' # xs) = imap_parse cp ?r xs" for xs
    using assms(1-3) l by (cases r) (simp add: imap_step_def step_argument_def and_then_def push_argument_def is_ascii_whitespace_def)
  show ?thesis
  proof (cases "length (decimal n) \<le> 15")
    case True
    have "list_all (byte_in 0 0x7F) (decimal n)"
      using ds(1) by (auto simp: list_all_iff is_ascii_digit_def byte_in_def)
    then have "parse_u32 (as_str (decimal n)) = None"
      using parse_u32_too_large [OF assms(4)] by (simp add: as_str_def utf8_valid_ascii)
    then have "imap_parse cp (?r \<lparr> buf := decimal n \<rparr>) (CHR ''+'' # CHR ''}'' # rest) =
        (Inl (ErrorResponse (error_tag r) (Message ''Literal size is not a valid number.'')), reset cp r, rest)"
      using ds(2) by (simp add: imap_step_def step_literal_def fail_eq error_tag_def reset_def)
    with imap.parse_chunks(2) [OF feed_digits [of ?r "decimal n" cp], of "CHR ''+'' # CHR ''}'' # rest"] ds(1) True assms(3) brace
    show ?thesis by (intro exI [of _ "Message ''Literal size is not a valid number.''"] exI [of _ "[]"]) simp
  next
    case False
    then obtain d tl_ds where split: "decimal n = take 15 (decimal n) @ d # tl_ds"
      by (metis append_take_drop_id drop_eq_Nil list.exhaust)
    have all: "list_all is_ascii_digit (take 15 (decimal n))" "is_ascii_digit d"
      using ds(1) arg_cong [OF split, of "list_all is_ascii_digit"] by simp_all
    have d: "d \<noteq> CHR ''}''" "d \<noteq> CHR ''+''" using all(2) by (auto simp: is_ascii_digit_def byte_in_def)
    have len: "length (take 15 (decimal n)) = 15" using False by simp
    have "imap_parse cp (?r \<lparr> buf := take 15 (decimal n) \<rparr>) (d # tl_ds @ CHR ''+'' # CHR ''}'' # rest) =
        (Inl (ErrorResponse (error_tag r) (Message ''Literal size exceeds maximum of 15 digits.'')), reset cp r,
          tl_ds @ CHR ''+'' # CHR ''}'' # rest)"
      using all(2) d len by (simp add: imap_step_def step_literal_def checked_def push_checked_def fail_eq error_tag_def reset_def)
    moreover have "imap_parse cp r (CHR ''{'' # decimal n @ CHR ''+'' # CHR ''}'' # rest) =
        imap_parse cp (?r \<lparr> buf := take 15 (decimal n) \<rparr>) (d # tl_ds @ CHR ''+'' # CHR ''}'' # rest)"
      using imap.parse_chunks(2) [OF feed_digits [of ?r "take 15 (decimal n)" cp], of "d # tl_ds @ CHR ''+'' # CHR ''}'' # rest"]
        all(1) len assms(3) unfolding brace by (subst split) simp
    ultimately show ?thesis
      by (intro exI [of _ "Message ''Literal size exceeds maximum of 15 digits.''"] exI [of _ "tl_ds @ ''+}''"]) simp
  qed
qed

section \<open>Properties\<close>

text \<open>
  C16: a request written by a client, with its arguments as atoms, quoted strings, non-synchronising literals or
  parentheses, is received exactly: its tag, the command the parser of commands finds for its name, and one token per
  argument, the bytes of literals and quoted strings unchanged whatever they are. The
  receiver is then as it was before, and what follows in the buffer is left unread. This holds as long as
  the arguments fit in the limit on the size of a request.
\<close>

theorem imap_request_roundtrip:
  assumes "reset cp r = r" "start_state r = Start" "request_ok t name as"
    and "parse_command cp (map to_ascii_uppercase name) uid = Some c"
    and "sum_list (map arg_cost as) \<le> max_request_size r"
  shows "imap_parse cp r (print_request t uid name as @ rest) =
     (Inr \<lparr> tag = t, command = c, tokens = map arg_token as \<rparr>, r, rest)"
  using assms by (rule parse_request)

theorem imap_request_roundtrip_witness:
  "imap_parse (imap_commands map_of) (receiver_new (imap_commands map_of)) (print_request ''a1'' True ''fetch'' [LiteralPlus ''x'', Open] @ ''a2'') =
     (Inr \<lparr> tag = ''a1'', command = IMAP_Fetch True, tokens = [Tok_Argument ''x'', ParenthesisOpen] \<rparr>, receiver_new (imap_commands map_of), ''a2'')"
proof -
  have name: "to_ascii_uppercase (CHR ''f'') = CHR ''F''" "to_ascii_uppercase (CHR ''e'') = CHR ''E''"
    "to_ascii_uppercase (CHR ''t'') = CHR ''T''" "to_ascii_uppercase (CHR ''c'') = CHR ''C''"
    "to_ascii_uppercase (CHR ''h'') = CHR ''H''" by code_simp+
  have "utf8_valid ''a1''" by (rule utf8_valid_ascii) code_simp
  moreover have "list_all (\<lambda>c. \<not> is_ascii_whitespace c) ''a1''" "list_all is_ascii_alphanumeric ''fetch''"
    "\<not> eq_ignore_ascii_case ''FETCH'' ''UID''" by code_simp+
  ultimately have "request_ok ''a1'' ''fetch'' [LiteralPlus ''x'', Open]" by (simp add: request_ok_def name)
  then show ?thesis
    using imap_request_roundtrip [of "imap_commands map_of" "receiver_new (imap_commands map_of)" "''a1''" "''fetch''" "[LiteralPlus ''x'', Open]" True "IMAP_Fetch True" "''a2''"]
    by (simp add: name reset_def receiver_new_def receiver_default_def default_request_def imap_commands_def imap_command_parse_def imap_command_names_def bytes_token_def
        del: imap_parse.simps)
qed

text \<open>
  However the stream is cut into buffers, the receiver returns the same requests and errors in the same order and
  ends in the same state.
\<close>

theorem imap_chunks:
  "run_all (imap_step cp) r (xs @ ys) =
     (fst (run_all (imap_step cp) r xs) @ fst (run_all (imap_step cp) (snd (run_all (imap_step cp) r xs)) ys),
      snd (run_all (imap_step cp) (snd (run_all (imap_step cp) r xs)) ys))
   \<and> run_all (imap_step cp) r xs =
     (case imap_parse cp r xs of (x, r', rest) \<Rightarrow>
        if x = Inl NeedsMoreInput then ([], r') else (case run_all (imap_step cp) r' rest of (xs, t) \<Rightarrow> (x # xs, t)))"
  by (simp add: run_all_append imap.run_all_parse [symmetric] split: prod.split)

text \<open>
  C17: for every input the receiver stays within its limits: the bytes held by the tokens of the request are at most its counted size, the counted size is at most the
  maximum, the argument buffer is bounded by 8000 bytes outside literals, the tag by 128 and the command by 15, and a literal that is being read fits in what is left.
\<close>

theorem imap_receiver_bounds:
  assumes "receiver_wf r"
  shows "receiver_wf (snd (run_all (imap_step cp) r bs))"
proof -
  have "receiver_wf s' \<and> pred_option (\<lambda>_. True) x" if "receiver_wf s" "imap_step cp s c = (s', x)" for s c s' x
    using wf_step [OF that(1), of cp c] that(2) by (simp add: option.pred_True)
  from run_all_invariant [of receiver_wf "imap_step cp" "\<lambda>_. True", OF this assms] show ?thesis
    by (cases "run_all (imap_step cp) r bs") auto
qed

theorem imap_receiver_bounds_witness:
  "receiver_wf (snd (run_all (imap_step (imap_commands map_of)) (receiver_new (imap_commands map_of)) ''a FETCH {3}''))"
  by (rule imap_receiver_bounds)
    (simp add: receiver_wf_def core_wf_def buffer_wf_def receiver_new_def receiver_default_def default_request_def)

text \<open>
  Nothing of a request survives it: when the receiver returns a complete request or an error, its buffer is empty, its request is the
  default one, its counted size is zero and it is in its start state; its only other result is the request for a literal.
\<close>

theorem imap_result_resets:
  assumes "imap_step cp r ch = (r', Some res)"
  shows "r' = reset cp r \<or> (\<exists>n. res = Inl (NeedsLiteral n))"
  using good_step [of cp r ch] assms by (auto simp: good_result_def split: sum.splits imap_error.splits)

theorem imap_result_resets_witness:
  "\<exists>r' res. imap_step (imap_commands map_of) (receiver_new (imap_commands map_of) \<lparr> state := Tag, buf := ''x'' \<rparr>) (CHR 0x0A) = (r', Some res) \<and>
     (r' = reset (imap_commands map_of) (receiver_new (imap_commands map_of) \<lparr> state := Tag, buf := ''x'' \<rparr>) \<or> (\<exists>n. res = Inl (NeedsLiteral n)))"
proof -
  let ?r = "receiver_new (imap_commands map_of) \<lparr> state := Tag, buf := ''x'' \<rparr>"
  obtain r' res where s: "imap_step (imap_commands map_of) ?r (CHR 0x0A) = (r', Some res)"
    by (simp add: imap_step_def step_tag_def fail_eq)
  with imap_result_resets [OF s] show ?thesis by blast
qed

text \<open>
  C30: a non-synchronising literal of fewer than \<open>2 ^ 32\<close> bytes that exceeds the maximum size of a request is skipped exactly: the client has already sent its bytes, and
  the receiver drops all of them, none interpreted as commands, before it reports the error and starts again with what follows. A literal of
  \<open>2 ^ 32\<close> bytes or more is not skipped: the receiver refuses the number and starts again before the end of its line, so that the bytes of
  the literal are read as commands.
\<close>

theorem oversized_literal_skipped:
  assumes "state r = In_Argument l" "is_ascii_whitespace l" "buf r = []"
    and "max_request_size r < current_request_size r + length a" "current_request_size r \<le> max_request_size r"
  shows "if length a < 2 ^ 32
     then imap_parse cp r (print_arg (LiteralPlus a) @ rest) =
       (Inl (ErrorResponse (error_tag r) (LiteralTooLarge (max_request_size r))), reset cp r, rest)
     else \<exists>msg junk. imap_parse cp r (print_arg (LiteralPlus a) @ rest) =
       (Inl (ErrorResponse (error_tag r) msg), reset cp r, junk @ [CHR 0x0D, CHR 0x0A] @ a @ rest)"
proof (cases "length a < 2 ^ 32")
  case True
  let ?s = "r \<lparr> state := LiteralSeek (of_nat (length a)) True \<rparr>"
  have n: "unat (of_nat (length a) :: u32) = length a"
    using True by (simp add: unat_of_nat take_bit_nat_eq_self)
  have "imap_parse cp r (print_arg (LiteralPlus a) @ rest) = imap_parse cp ?s (CHR 0x0A # a @ rest)"
    using imap.parse_chunks(2) [OF feed_literal_head [of r l "length a" cp], of "CHR 0x0A # a @ rest"] assms True by simp
  also have "\<dots> = imap_parse cp (r \<lparr> state := LiteralDiscard (of_nat (length a)) \<rparr>) (a @ rest)"
    using assms n by (simp add: imap_step_def step_literal_seek_def Let_def)
  also have "\<dots> = (Inl (ErrorResponse (error_tag r) (LiteralTooLarge (max_request_size r))), reset cp r, rest)"
    using discard_data [of "r \<lparr> state := LiteralDiscard (of_nat (length a)) \<rparr>" "of_nat (length a)" a cp rest] assms(4,5) n
    by (cases "a = []") simp_all
  finally show ?thesis using True by simp
next
  case False
  with literal_too_large_for_u32 [OF assms(1-3), of "length a" cp "[CHR 0x0D, CHR 0x0A] @ a @ rest"] show ?thesis by simp
qed

theorem oversized_literal_skipped_witness:
  "imap_parse (imap_commands map_of) (with_max_request_size (imap_commands map_of) 2 \<lparr> state := In_Argument (CHR '' '') \<rparr>)
     (print_arg (LiteralPlus ''a LOGOUT'') @ ''b'') =
     (Inl (ErrorResponse None (LiteralTooLarge 2)), with_max_request_size (imap_commands map_of) 2, ''b'')"
  using oversized_literal_skipped [of "with_max_request_size (imap_commands map_of) 2 \<lparr> state := In_Argument (CHR '' '') \<rparr>" "CHR '' ''"
      "''a LOGOUT''" "imap_commands map_of" "''b''"]
  by (simp add: with_max_request_size_def receiver_default_def default_request_def reset_def is_ascii_whitespace_def
      error_tag_def del: imap_parse.simps print_arg.simps)

text \<open>
  Empty quoted strings are not counted in the size of a request, so the limit does not bound the tokens it can have: for every number of
  arguments, the receiver takes them all and its counted size is unchanged.
\<close>

theorem empty_strings_uncounted:
  assumes "state r = In_Argument (CHR '' '')" "buf r = []"
  shows "feed (imap_step cp) r (concat (replicate n [CHR 0x22, CHR 0x22, CHR '' ''])) =
     (r \<lparr> request := (request r) \<lparr> tokens := tokens (request r) @ replicate n Nil_Token \<rparr> \<rparr>, None)"
  using assms
proof (induction n arbitrary: r)
  case 0
  then show ?case by (cases r) simp
next
  case (Suc n)
  let ?r = "add_token Nil_Token r"
  have "feed (imap_step cp) r [CHR 0x22, CHR 0x22, CHR '' ''] = (?r, None)"
    using Suc.prems by (cases r) (simp add: imap_step_def step_argument_def step_quoted_def and_then_def push_argument_def
        add_token_def is_ascii_whitespace_def special_token_def)
  with Suc.IH [of ?r] Suc.prems show ?case
    using feed_append [of "imap_step cp" r "[CHR 0x22, CHR 0x22, CHR '' '']"]
    by (simp add: add_token_def replicate_append_same del: feed.simps(2))
qed

theorem empty_strings_uncounted_witness:
  "snd (feed (imap_step (imap_commands map_of)) (with_max_request_size (imap_commands map_of) 1 \<lparr> state := In_Argument (CHR '' '') \<rparr>)
     (concat (replicate 1000000 [CHR 0x22, CHR 0x22, CHR '' '']))) = None"
  using empty_strings_uncounted [of "with_max_request_size (imap_commands map_of) 1 \<lparr> state := In_Argument (CHR '' '') \<rparr>" "imap_commands map_of" 1000000]
  by (simp add: with_max_request_size_def receiver_default_def del: feed.simps)

end
