(* ===== verification/Limiter.thy ===== *)
theory Limiter
  imports Prelude
begin

text \<open>
  The concurrency limiter of requests and connections (\<^verbatim>\<open>crates/common/src/network/limiter.rs\<close>): an atomic counter shared by all clones of a
  limiter, raised by \<open>is_allowed\<close> and lowered when the guard \<open>InFlight\<close> is dropped. The functions are first
  given for one thread; the step relation then has the atomic accesses of many threads as single steps.
\<close>

section \<open>The operations\<close>

record limiter =
  max_concurrent :: u64
  concurrent :: u64

definition limiter_new :: "u64 \<Rightarrow> limiter" where
  "limiter_new n = \<lparr> max_concurrent = n, concurrent = 0 \<rparr>"

datatype limiter_result = Allowed | Forbidden | Disabled

definition is_allowed :: "limiter \<Rightarrow> limiter_result \<times> limiter" where
  "is_allowed l =
     (if concurrent l < max_concurrent l
      then (Allowed, l \<lparr> concurrent := concurrent l + 1 \<rparr>)
      else (Forbidden, l))"

definition drop_in_flight :: "limiter \<Rightarrow> limiter" where
  "drop_in_flight l = l \<lparr> concurrent := concurrent l - 1 \<rparr>"

definition check_is_allowed :: "limiter \<Rightarrow> bool" where
  "check_is_allowed l \<longleftrightarrow> concurrent l < max_concurrent l"

definition is_active :: "limiter \<Rightarrow> bool" where
  "is_active l \<longleftrightarrow> concurrent l > 0"

definition num_concurrent :: "limiter \<Rightarrow> u64" where
  "num_concurrent l = concurrent l"

text \<open>The guard a request goes on with; a disabled limiter gives a guard of its own.\<close>

definition into_in_flight :: "limiter_result \<Rightarrow> limiter_result option" where
  "into_in_flight r = (case r of Allowed \<Rightarrow> Some Allowed | Forbidden \<Rightarrow> None | Disabled \<Rightarrow> Some Disabled)"

section \<open>Threads\<close>

text \<open>
  A thread is idle, has read the counter and found room (\<open>Checked\<close>), or holds a guard. The load
  and the addition of \<open>is_allowed\<close> are two atomic accesses, so other threads may run between them.
\<close>

datatype thread = Idle | Checked | Holding

record system =
  lim :: limiter
  threads :: "thread list"

abbreviation holders :: "system \<Rightarrow> nat" where
  "holders s \<equiv> length (filter (\<lambda>t. t = Holding) (threads s))"

inductive access :: "system \<Rightarrow> system \<Rightarrow> bool" where
  load_room: "i < length (threads s) \<Longrightarrow> threads s ! i = Idle \<Longrightarrow> concurrent (lim s) < max_concurrent (lim s) \<Longrightarrow>
    access s (s \<lparr> threads := (threads s)[i := Checked] \<rparr>)"
| load_full: "i < length (threads s) \<Longrightarrow> threads s ! i = Idle \<Longrightarrow> \<not> concurrent (lim s) < max_concurrent (lim s) \<Longrightarrow>
    access s s"
| fetch_add: "i < length (threads s) \<Longrightarrow> threads s ! i = Checked \<Longrightarrow>
    access s (s \<lparr> lim := (lim s) \<lparr> concurrent := concurrent (lim s) + 1 \<rparr>, threads := (threads s)[i := Holding] \<rparr>)"
| fetch_sub: "i < length (threads s) \<Longrightarrow> threads s ! i = Holding \<Longrightarrow>
    access s (s \<lparr> lim := drop_in_flight (lim s), threads := (threads s)[i := Idle] \<rparr>)"

inductive_cases accessE: "access s t"

text \<open>The same calls without interference: \<open>is_allowed\<close> runs as one step.\<close>

inductive serial :: "system \<Rightarrow> system \<Rightarrow> bool" where
  call: "i < length (threads s) \<Longrightarrow> threads s ! i = Idle \<Longrightarrow> is_allowed (lim s) = (r, l) \<Longrightarrow>
    serial s (s \<lparr> lim := l, threads := (threads s)[i := (if r = Allowed then Holding else Idle)] \<rparr>)"
| release: "i < length (threads s) \<Longrightarrow> threads s ! i = Holding \<Longrightarrow>
    serial s (s \<lparr> lim := drop_in_flight (lim s), threads := (threads s)[i := Idle] \<rparr>)"

definition start :: "u64 \<Rightarrow> nat \<Rightarrow> system" where
  "start m n = \<lparr> lim = limiter_new m, threads = replicate n Idle \<rparr>"

section \<open>Counting the holders\<close>

lemma count_update:
  assumes "i < length ts"
  shows "length (filter P (ts[i := t])) + (if P (ts ! i) then 1 else 0) = length (filter P ts) + (if P t then 1 else 0)"
  using assms
proof (induction ts arbitrary: i)
  case (Cons a ts)
  then show ?case by (cases i) auto
qed simp

lemma holders_positive: "i < length ts \<Longrightarrow> ts ! i = Holding \<Longrightarrow> 0 < length (filter (\<lambda>t. t = Holding) ts)"
  by (metis (mono_tags, lifting) filter_empty_conv length_greater_0_conv nth_mem)

lemma unat_succ: "unat (w :: u64) < 2 ^ 64 - 1 \<Longrightarrow> unat (w + 1) = unat w + 1"
  by (simp add: unat_word_ariths)

lemma unat_less_1: "0 < unat (w :: u64) \<Longrightarrow> unat (w - 1) = unat w - 1"
  by (metis One_nat_def Suc_pred' diff_Suc_1 unat_minus_one unat_eq_zero less_numeral_extra(3))

text \<open>The counter is the number of guards, whatever the interleaving, as long as there are fewer threads than counter values.\<close>

definition counted :: "nat \<Rightarrow> u64 \<Rightarrow> system \<Rightarrow> bool" where
  "counted n m s \<longleftrightarrow> length (threads s) = n \<and> max_concurrent (lim s) = m \<and> unat (concurrent (lim s)) = holders s"

lemma counted_add:
  assumes "counted n m s" "n < 2 ^ 64" "i < length (threads s)" "threads s ! i \<noteq> Holding"
  shows "counted n m (s \<lparr> lim := (lim s) \<lparr> concurrent := concurrent (lim s) + 1 \<rparr>, threads := (threads s)[i := Holding] \<rparr>)"
proof -
  have c: "length (filter (\<lambda>t. t = Holding) ((threads s)[i := Holding])) = holders s + 1"
    using count_update [OF assms(3), of "\<lambda>t. t = Holding" Holding] assms(4) by simp
  have "holders s + 1 \<le> n"
    using c length_filter_le [of "\<lambda>t. t = Holding" "(threads s)[i := Holding]"] assms(1) by (simp add: counted_def)
  with assms(1,2) have "unat (concurrent (lim s)) < 2 ^ 64 - 1" by (simp add: counted_def)
  from unat_succ [OF this] assms(1) c show ?thesis by (simp add: counted_def)
qed

lemma counted_drop:
  assumes "counted n m s" "i < length (threads s)" "threads s ! i = Holding"
  shows "counted n m (s \<lparr> lim := drop_in_flight (lim s), threads := (threads s)[i := Idle] \<rparr>)"
  using assms count_update [OF assms(2), of "\<lambda>t. t = Holding" Idle] holders_positive [OF assms(2,3)]
    unat_less_1 [of "concurrent (lim s)"]
  by (simp add: counted_def drop_in_flight_def)

lemma counted_access:
  assumes "access s t" "counted n m s" "n < 2 ^ 64"
  shows "counted n m t"
  using assms
proof cases
  case (load_room i)
  with assms(2) count_update [of i "threads s" "\<lambda>t. t = Holding" Checked] show ?thesis by (simp add: counted_def)
qed (use assms counted_add [of n m s] counted_drop [of n m s] in auto)

lemma counted_serial:
  assumes "serial s t" "counted n m s" "n < 2 ^ 64" "holders s \<le> unat m"
  shows "counted n m t \<and> holders t \<le> unat m"
  using assms
proof cases
  case (call i r l)
  show ?thesis
  proof (cases "concurrent (lim s) < max_concurrent (lim s)")
    case True
    then have room: "holders s < unat m" using assms(2) by (simp add: counted_def word_less_nat_alt)
    from True call have r: "r = Allowed" "l = (lim s) \<lparr> concurrent := concurrent (lim s) + 1 \<rparr>"
      by (simp_all add: is_allowed_def)
    with call counted_add [OF assms(2,3), of i] count_update [of i "threads s" "\<lambda>t. t = Holding" Holding] room
    show ?thesis by simp
  next
    case False
    with call have "r = Forbidden" "l = lim s" by (simp_all add: is_allowed_def)
    with call assms(2,4) list_update_id [of "threads s" i] show ?thesis by (simp add: counted_def)
  qed
next
  case (release i)
  with counted_drop [OF assms(2), of i] count_update [of i "threads s" "\<lambda>t. t = Holding" Idle] assms(4)
  show ?thesis by simp
qed

lemma counted_start: "counted n m (start m n) \<and> holders (start m n) = 0"
  by (simp add: counted_def start_def limiter_new_def)

section \<open>Racing threads\<close>

text \<open>All threads read the counter while it is zero; then all of them add.\<close>

lemma replicate_update:
  assumes "k < n"
  shows "(replicate k a @ replicate (n - k) b)[k := a] = replicate (Suc k) a @ replicate (n - Suc k) b"
proof -
  obtain j where "n - k = Suc j" "n - Suc k = j" using assms by (metis Suc_diff_Suc)
  then show ?thesis by (simp add: list_update_append replicate_app_Cons_same)
qed

lemma race_load:
  assumes "0 < m" "k \<le> n"
  shows "access\<^sup>*\<^sup>* (start m n) \<lparr> lim = limiter_new m, threads = replicate k Checked @ replicate (n - k) Idle \<rparr>"
  using assms(2)
proof (induction k)
  case (Suc k)
  let ?s = "\<lparr> lim = limiter_new m, threads = replicate k Checked @ replicate (n - k) Idle \<rparr>"
  have "access ?s (?s \<lparr> threads := (threads ?s)[k := Checked] \<rparr>)"
    using Suc.prems assms(1) by (intro load_room) (simp_all add: nth_append limiter_new_def)
  with Suc show ?case by (auto simp: replicate_update intro: rtranclp.rtrancl_into_rtrancl)
qed (simp add: start_def)

lemma race_add:
  assumes "0 < m" "k \<le> n"
  shows "access\<^sup>*\<^sup>* (start m n)
     \<lparr> lim = (limiter_new m) \<lparr> concurrent := of_nat k \<rparr>, threads = replicate k Holding @ replicate (n - k) Checked \<rparr>"
  using assms(2)
proof (induction k)
  case 0
  from race_load [OF assms(1), of n n] show ?case by (simp add: limiter_new_def)
next
  case (Suc k)
  let ?s = "\<lparr> lim = (limiter_new m) \<lparr> concurrent := of_nat k \<rparr>, threads = replicate k Holding @ replicate (n - k) Checked \<rparr>"
  have "access ?s (?s \<lparr> lim := (lim ?s) \<lparr> concurrent := concurrent (lim ?s) + 1 \<rparr>, threads := (threads ?s)[k := Holding] \<rparr>)"
    using Suc.prems by (intro fetch_add) (simp_all add: nth_append)
  with Suc show ?case by (auto simp: replicate_update add.commute intro: rtranclp.rtrancl_into_rtrancl)
qed

section \<open>Properties\<close>

text \<open>
  When the calls of \<open>is_allowed\<close> do not overlap, the number of guards never exceeds the limit and the counter is
  their number, in every order of calls and releases.
\<close>

theorem limiter_serial_bound:
  assumes "serial\<^sup>*\<^sup>* (start m n) s" "n < 2 ^ 64"
  shows "holders s \<le> unat m \<and> unat (concurrent (lim s)) = holders s"
proof -
  from assms(1) have "counted n m s \<and> holders s \<le> unat m"
  proof (induction rule: rtranclp_induct)
    case base
    show ?case using counted_start [of n m] by auto
  next
    case (step s t)
    with counted_serial [OF step.hyps(2) _ assms(2)] show ?case by blast
  qed
  then show ?thesis by (simp add: counted_def)
qed

theorem limiter_serial_bound_witness:
  "holders (start 3 5) \<le> unat (3 :: u64) \<and> unat (concurrent (lim (start 3 5))) = holders (start 3 5)"
  by (rule limiter_serial_bound [of 3 5]) simp_all

text \<open>
  When threads interleave, the counter is still the number of guards, so no guard is lost or counted twice, but the limit is
  not kept: for every number of threads, if the limit is not zero, all of them can hold a guard at the same
  time, because each reads the counter before any of them adds to it.
\<close>

theorem limiter_race:
  assumes "0 < m" "n < 2 ^ 64"
  shows "(\<forall>s. access\<^sup>*\<^sup>* (start m n) s \<longrightarrow> unat (concurrent (lim s)) = holders s) \<and>
     (\<exists>s. access\<^sup>*\<^sup>* (start m n) s \<and> holders s = n)"
proof -
  have "counted n m s" if "access\<^sup>*\<^sup>* (start m n) s" for s
    using that by (induction rule: rtranclp_induct) (use counted_start [of n m] counted_access [OF _ _ assms(2)] in auto)
  then have "unat (concurrent (lim s)) = holders s" if "access\<^sup>*\<^sup>* (start m n) s" for s
    using that by (simp add: counted_def)
  moreover from race_add [OF assms(1), of n n]
  have "access\<^sup>*\<^sup>* (start m n) \<lparr> lim = (limiter_new m) \<lparr> concurrent := of_nat n \<rparr>, threads = replicate n Holding \<rparr>" by simp
  then have "\<exists>s. access\<^sup>*\<^sup>* (start m n) s \<and> holders s = n" by force
  ultimately show ?thesis by blast
qed

theorem limiter_race_witness:
  "\<exists>s. access\<^sup>*\<^sup>* (start 1 1000) s \<and> holders s = 1000"
  using limiter_race [of 1 1000] by simp

end
