(* ===== verification/Bitset.thy ===== *)
theory Bitset
  imports Bitmap
begin

text \<open>
  The fixed-size bit array (\<^verbatim>\<open>crates/trc/src/ipc/bitset.rs\<close>) that holds the permissions of an account. A \<open>Bitset<N>\<close>
  is a list of \<open>N\<close> words of 64 bits; an access outside the array panics in the code and
  is \<open>None\<close> here. The locale \<open>fixed_set\<close> is what the components above it use of it: a set of indices below a
  capacity.
\<close>

type_synonym bitset = "u64 list"

definition bitset_new :: "nat \<Rightarrow> bitset" where
  "bitset_new n = replicate n 0"

definition bitset_all :: "nat \<Rightarrow> bitset" where
  "bitset_all n = replicate n (- 1)"

definition bitset_set :: "bitset \<Rightarrow> nat \<Rightarrow> bitset option" where
  "bitset_set s index =
     (if index div 64 < length s
      then Some (s[index div 64 := s ! (index div 64) OR push_bit (index AND 63) 1])
      else None)"

definition bitset_clear :: "bitset \<Rightarrow> nat \<Rightarrow> bitset option" where
  "bitset_clear s index =
     (if index div 64 < length s
      then Some (s[index div 64 := s ! (index div 64) AND NOT (push_bit (index AND 63) 1)])
      else None)"

definition bitset_get :: "bitset \<Rightarrow> nat \<Rightarrow> bool option" where
  "bitset_get s index =
     (if index div 64 < length s
      then Some (s ! (index div 64) AND push_bit (index AND 63) 1 \<noteq> 0)
      else None)"

definition bitset_union :: "bitset \<Rightarrow> bitset \<Rightarrow> bitset" where
  "bitset_union s t = map2 (OR) s t"

definition bitset_intersection :: "bitset \<Rightarrow> bitset \<Rightarrow> bitset" where
  "bitset_intersection s t = map2 (AND) s t"

definition bitset_difference :: "bitset \<Rightarrow> bitset \<Rightarrow> bitset" where
  "bitset_difference s t = map2 (\<lambda>a b. a AND NOT b) s t"

definition bitset_clear_many :: "bitset \<Rightarrow> bitset \<Rightarrow> bitset" where
  "bitset_clear_many s t = map2 (\<lambda>a b. a AND NOT b) s t"

definition bitset_clear_all :: "bitset \<Rightarrow> bitset" where
  "bitset_clear_all s = map (\<lambda>_. 0) s"

fun bitset_is_empty :: "bitset \<Rightarrow> bool" where
  "bitset_is_empty [] = True"
| "bitset_is_empty (w # ws) = (if w \<noteq> 0 then False else bitset_is_empty ws)"

section \<open>Bit arrays as sets\<close>

definition bits_of :: "bitset \<Rightarrow> nat set" where
  "bits_of s = {i. i div 64 < length s \<and> bit (s ! (i div 64)) (i mod 64)}"

lemma and_63: "(i :: nat) AND 63 = i mod 64"
proof -
  have "i AND 63 = take_bit 6 i" by (simp add: take_bit_eq_mask mask_eq_exp_minus_1)
  then show ?thesis by (simp add: take_bit_eq_mod)
qed

lemma bit_single: "m < 64 \<Longrightarrow> bit (push_bit m 1 :: u64) k \<longleftrightarrow> k = m"
  by (auto simp: bit_exp_iff)

lemma and_single: "m < 64 \<Longrightarrow> (w :: u64) AND push_bit m 1 \<noteq> 0 \<longleftrightarrow> bit w m"
proof
  assume "m < 64" "bit w m"
  then have "bit (w AND push_bit m 1) m" by (simp add: bit_and_iff bit_single del: push_bit_of_1)
  then show "w AND push_bit m 1 \<noteq> 0" by (metis bit_0_eq bot_apply bot_bool_def)
next
  assume m: "m < 64" and "w AND push_bit m 1 \<noteq> 0"
  then obtain k where "bit (w AND push_bit m 1) k" by (metis bit_eqI bit_0_eq bot_apply bot_bool_def)
  with m show "bit w m" by (auto simp: bit_and_iff bit_single simp del: push_bit_of_1)
qed

lemma index_split: "i = j \<longleftrightarrow> i div 64 = j div 64 \<and> i mod 64 = j mod (64 :: nat)"
  by (metis div_mult_mod_eq)

lemma bits_new [simp]: "bits_of (bitset_new n) = {}"
  by (simp add: bits_of_def bitset_new_def)

lemma length_ops [simp]:
  "length (bitset_new n) = n" "length (bitset_all n) = n"
  "length (bitset_union s t) = min (length s) (length t)"
  "length (bitset_intersection s t) = min (length s) (length t)"
  "length (bitset_difference s t) = min (length s) (length t)"
  "length (bitset_clear_many s t) = min (length s) (length t)"
  by (simp_all add: bitset_new_def bitset_all_def bitset_union_def bitset_intersection_def bitset_difference_def
      bitset_clear_many_def)

lemma bits_all: "bits_of (bitset_all n) = {..<64 * n}"
  by (auto simp: bits_of_def bitset_all_def less_mult_imp_div_less mult.commute div_less_iff_less_mult)

lemma bitset_set_Some:
  assumes "i div 64 < length s"
  obtains s' where "bitset_set s i = Some s'" "bits_of s' = insert i (bits_of s)" "length s' = length s"
proof -
  let ?s = "s[i div 64 := s ! (i div 64) OR push_bit (i mod 64) 1]"
  have "j \<in> bits_of ?s \<longleftrightarrow> j \<in> insert i (bits_of s)" for j
    using assms by (cases "j div 64 = i div 64")
      (auto simp: bits_of_def bit_or_iff bit_single index_split [of j i] simp del: push_bit_of_1)
  then have "bits_of ?s = insert i (bits_of s)" by blast
  with assms that show thesis by (simp add: bitset_set_def and_63)
qed

lemma bitset_clear_Some:
  assumes "i div 64 < length s"
  obtains s' where "bitset_clear s i = Some s'" "bits_of s' = bits_of s - {i}" "length s' = length s"
proof -
  let ?s = "s[i div 64 := s ! (i div 64) AND NOT (push_bit (i mod 64) 1)]"
  have "j \<in> bits_of ?s \<longleftrightarrow> j \<in> bits_of s - {i}" for j
    using assms by (cases "j div 64 = i div 64")
      (auto simp: bits_of_def bit_and_iff bit_not_iff bit_single index_split [of j i] simp del: push_bit_of_1)
  then have "bits_of ?s = bits_of s - {i}" by blast
  with assms that show thesis by (simp add: bitset_clear_def and_63)
qed

lemma bitset_get_iff: "i div 64 < length s \<Longrightarrow> bitset_get s i = Some (i \<in> bits_of s)"
  by (simp add: bitset_get_def and_63 and_single bits_of_def del: push_bit_of_1)

lemma bits_union: "length s = length t \<Longrightarrow> bits_of (bitset_union s t) = bits_of s \<union> bits_of t"
  by (auto simp: bits_of_def bitset_union_def bit_or_iff)

lemma bits_intersection: "length s = length t \<Longrightarrow> bits_of (bitset_intersection s t) = bits_of s \<inter> bits_of t"
  by (auto simp: bits_of_def bitset_intersection_def bit_and_iff)

lemma bits_difference: "length s = length t \<Longrightarrow> bits_of (bitset_difference s t) = bits_of s - bits_of t"
  by (auto simp: bits_of_def bitset_difference_def bit_and_iff bit_not_iff)

lemma bits_clear_many: "length s = length t \<Longrightarrow> bits_of (bitset_clear_many s t) = bits_of s - bits_of t"
  by (auto simp: bits_of_def bitset_clear_many_def bit_and_iff bit_not_iff)

lemma bits_clear_all: "bits_of (bitset_clear_all s) = {}"
  by (simp add: bits_of_def bitset_clear_all_def)

lemma bitset_is_empty_iff: "bitset_is_empty s \<longleftrightarrow> bits_of s = {}"
proof -
  have "bitset_is_empty s \<longleftrightarrow> (\<forall>k < length s. s ! k = 0)"
    by (induction s) (auto simp: less_Suc_eq_0_disj)
  also have "\<dots> \<longleftrightarrow> bits_of s = {}"
  proof
    assume empty: "bits_of s = {}"
    show "\<forall>k < length s. s ! k = 0"
    proof (intro allI impI bit_word_eqI)
      fix k m assume "k < length s" "m < LENGTH(64)"
      then have "64 * k + m \<in> bits_of s \<longleftrightarrow> bit (s ! k) m" by (simp add: bits_of_def)
      with empty show "bit (s ! k) m \<longleftrightarrow> bit 0 m" by simp
    qed
  qed (auto simp: bits_of_def)
  finally show ?thesis .
qed

section \<open>The interface of a set of fixed capacity\<close>

locale fixed_set =
  fixes capacity :: nat
    and wf :: "'s \<Rightarrow> bool"
    and members :: "'s \<Rightarrow> nat set"
    and empty :: 's
    and add :: "'s \<Rightarrow> nat \<Rightarrow> 's option"
    and test :: "'s \<Rightarrow> nat \<Rightarrow> bool option"
    and join :: "'s \<Rightarrow> 's \<Rightarrow> 's"
    and meet :: "'s \<Rightarrow> 's \<Rightarrow> 's"
    and minus :: "'s \<Rightarrow> 's \<Rightarrow> 's"
  assumes wf_empty: "wf empty" and members_empty: "members empty = {}"
    and add_ok: "wf s \<Longrightarrow> i < capacity \<Longrightarrow> \<exists>s'. add s i = Some s' \<and> wf s' \<and> members s' = insert i (members s)"
    and test_ok: "wf s \<Longrightarrow> i < capacity \<Longrightarrow> test s i = Some (i \<in> members s)"
    and join_ok: "wf s \<Longrightarrow> wf t \<Longrightarrow> wf (join s t) \<and> members (join s t) = members s \<union> members t"
    and meet_ok: "wf s \<Longrightarrow> wf t \<Longrightarrow> wf (meet s t) \<and> members (meet s t) = members s \<inter> members t"
    and minus_ok: "wf s \<Longrightarrow> wf t \<Longrightarrow> wf (minus s t) \<and> members (minus s t) = members s - members t"
begin

lemma minus_empty_iff: "wf s \<Longrightarrow> wf t \<Longrightarrow> members (minus s t) = {} \<longleftrightarrow> members s \<subseteq> members t"
  by (auto simp: minus_ok)

text \<open>Adding the elements of a list one after the other.\<close>

fun add_all :: "'s \<Rightarrow> nat list \<Rightarrow> 's option" where
  "add_all s [] = Some s"
| "add_all s (i # is) = (case add s i of None \<Rightarrow> None | Some s' \<Rightarrow> add_all s' is)"

lemma add_all_ok:
  assumes "wf s" "list_all (\<lambda>i. i < capacity) is"
  shows "\<exists>s'. add_all s is = Some s' \<and> wf s' \<and> members s' = set is \<union> members s"
  using assms
proof (induction "is" arbitrary: s)
  case (Cons i "is")
  from add_ok [OF Cons.prems(1), of i] Cons.prems(2) obtain s' where
    s': "add s i = Some s'" "wf s'" "members s' = insert i (members s)" by auto
  from Cons.IH [OF s'(2)] Cons.prems(2) s' show ?case by auto
qed auto

end

interpretation bitset: fixed_set "64 * n" "\<lambda>s. length s = n" bits_of "bitset_new n" bitset_set bitset_get
    bitset_union bitset_intersection bitset_difference for n
proof
  fix s :: bitset and i assume "length s = n" "i < 64 * n"
  then have i: "i div 64 < length s" by (simp add: less_mult_imp_div_less mult.commute)
  from bitset_set_Some [OF i] \<open>length s = n\<close>
  show "\<exists>s'. bitset_set s i = Some s' \<and> length s' = n \<and> bits_of s' = insert i (bits_of s)" by metis
  from bitset_get_iff [OF i] show "bitset_get s i = Some (i \<in> bits_of s)" .
qed (simp_all add: bits_union bits_intersection bits_difference)

end
