(* ===== verification/Permissions.thy ===== *)
theory Permissions
  imports Bitset
begin

text \<open>
  Permissions of accounts, roles and tenants (\<^verbatim>\<open>crates/common/src/auth/permissions.rs\<close> and the types of
  \<^verbatim>\<open>auth/mod.rs\<close>). A permission is its number in the enumeration of the registry crate, below \<open>PERMISSION_COUNT\<close>. Roles and tenants are
  fetched from a cache over the database: the lookups \<open>role\<close> and \<open>tenant\<close> are arguments and may fail with
  an error. A result \<open>Inl (Some e)\<close> is that error; \<open>Inl None\<close> stands for a panic, which a permission outside the array would
  cause.
\<close>

type_synonym permission = nat

definition PERMISSION_COUNT :: nat where
  "PERMISSION_COUNT = 660"

text \<open>\<open>Permission::COUNT.div_ceil(size_of::<usize>())\<close>\<close>

definition PERMISSIONS_BITSET_SIZE :: nat where
  "PERMISSIONS_BITSET_SIZE = (PERMISSION_COUNT + (8 - 1)) div 8"

type_synonym permissions = bitset

definition permissions_new :: permissions where
  "permissions_new = bitset_new PERMISSIONS_BITSET_SIZE"

record permissions_group =
  enabled :: permissions
  disabled :: permissions
  merge :: bool

datatype permissions_setting =
  Inherit
| Merge "permission list" "permission list"
| Replace "permission list" "permission list"

record role_cache =
  role_id_roles :: "u32 list"
  role_permissions :: permissions_group

record tenant_cache =
  tenant_id_roles :: "u32 list"
  tenant_permissions :: "permissions_group option"

section \<open>Groups of permissions\<close>

definition group_default :: permissions_group where
  "group_default = \<lparr> enabled = permissions_new, disabled = permissions_new, merge = False \<rparr>"

definition with_merge :: "permissions_group \<Rightarrow> bool \<Rightarrow> permissions_group" where
  "with_merge g b = g \<lparr> merge := b \<rparr>"

definition group_union :: "permissions_group \<Rightarrow> permissions_group \<Rightarrow> permissions_group" where
  "group_union g h = g \<lparr> enabled := bitset_union (enabled g) (enabled h),
     disabled := bitset_union (disabled g) (disabled h) \<rparr>"

definition group_restrict :: "permissions_group \<Rightarrow> permissions_group \<Rightarrow> permissions_group" where
  "group_restrict g h = g \<lparr> enabled := bitset_intersection (enabled g) (enabled h),
     disabled := bitset_union (disabled g) (disabled h) \<rparr>"

definition group_finalize :: "permissions_group \<Rightarrow> permissions" where
  "group_finalize g = bitset_difference (enabled g) (disabled g)"

definition finalize_as_ref :: "permissions_group \<Rightarrow> permissions" where
  "finalize_as_ref g = (let e = enabled g in bitset_difference e (disabled g))"

fun set_permissions :: "permissions \<Rightarrow> permission list \<Rightarrow> permissions option" where
  "set_permissions s [] = Some s"
| "set_permissions s (p # ps) = (case bitset_set s p of None \<Rightarrow> None | Some s' \<Rightarrow> set_permissions s' ps)"

definition from_permission :: "permission list \<Rightarrow> permissions option" where
  "from_permission ps = set_permissions permissions_new ps"

definition group_from_list :: "permission list \<Rightarrow> permission list \<Rightarrow> permissions_group option" where
  "group_from_list en dis =
     (case from_permission en of
        None \<Rightarrow> None
      | Some e \<Rightarrow> (case from_permission dis of
          None \<Rightarrow> None
        | Some d \<Rightarrow> Some \<lparr> enabled = e, disabled = d, merge = False \<rparr>))"

fun group_from_map :: "permissions_group \<Rightarrow> (permission \<times> bool) list \<Rightarrow> permissions_group option" where
  "group_from_map g [] = Some g"
| "group_from_map g ((p, is_set) # ps) =
     (if is_set
      then (case bitset_set (enabled g) p of None \<Rightarrow> None | Some s \<Rightarrow> group_from_map (g \<lparr> enabled := s \<rparr>) ps)
      else (case bitset_set (disabled g) p of None \<Rightarrow> None | Some s \<Rightarrow> group_from_map (g \<lparr> disabled := s \<rparr>) ps))"

text \<open>\<open>build_permissions_list\<close>: the highest bit of each word first; identifiers that are no permission are dropped.\<close>

definition permission_from_id :: "nat \<Rightarrow> permission option" where
  "permission_from_id i = (if i < PERMISSION_COUNT then Some i else None)"

function block_permissions :: "nat \<Rightarrow> u64 \<Rightarrow> permission list" where
  "block_permissions block_num w =
     (if w = 0 then []
      else
        (let item = 63 - leading_zeros w; w' = w XOR push_bit item 1
         in case permission_from_id (block_num * 64 + item) of
              Some p \<Rightarrow> p # block_permissions block_num w'
            | None \<Rightarrow> block_permissions block_num w'))"
  by pat_completeness auto
termination
proof (relation "measure (\<lambda>(_, w). card (bitset w))", goal_cases)
  case (2 block w item w')
  then have "bitset w' = bitset w - {item}" "item \<in> bitset w"
    using pop_max_bitset [of w] by simp_all
  then show ?case using card_Diff1_less [OF finite_bitset, of item w] by simp
next
  case (3 block w item w')
  then have "bitset w' = bitset w - {item}" "item \<in> bitset w"
    using pop_max_bitset [of w] by simp_all
  then show ?case using card_Diff1_less [OF finite_bitset, of item w] by simp
qed simp

declare block_permissions.simps [simp del]

fun blocks_permissions :: "nat \<Rightarrow> permissions \<Rightarrow> permission list" where
  "blocks_permissions n [] = []"
| "blocks_permissions n (w # ws) = block_permissions n w @ blocks_permissions (n + 1) ws"

definition build_permissions_list :: "permissions \<Rightarrow> permission list" where
  "build_permissions_list s = blocks_permissions 0 s"

section \<open>Roles\<close>

text \<open>
  The roles of a role are followed with a stack and the set of the roles already fetched, so that cycles end. The set grows inside the
  32-bit identifiers, which gives the measure.
\<close>

function add_role_loop ::
  "(u32 \<Rightarrow> 'e + role_cache) \<Rightarrow> permissions_group \<Rightarrow> u32 list \<Rightarrow> u32 set \<Rightarrow> 'e + permissions_group" where
  "add_role_loop role base role_ids fetched =
     (if role_ids = [] then Inr base
      else
        (let role_id = last role_ids; role_ids' = butlast role_ids
         in if role_id \<notin> fetched then
              (case role role_id of
                 Inl e \<Rightarrow> Inl e
               | Inr r \<Rightarrow> add_role_loop role (group_union base (role_permissions r)) (role_ids' @ role_id_roles r)
                   (insert role_id fetched))
            else add_role_loop role base role_ids' fetched))"
  by pat_completeness auto
termination
proof (relation "measures [\<lambda>(_, _, _, f). card (- f), \<lambda>(_, _, ids, _). length ids]", goal_cases)
  case (2 role base ids f rid ids' r)
  have "- insert rid f = - f - {rid}" by auto
  then have "card (- insert rid f) < card (- f)"
    using 2 card_Diff1_less [of "- f" rid] by simp
  then show ?case by simp
qed auto

declare add_role_loop.simps [simp del]

definition add_role_permissions ::
  "(u32 \<Rightarrow> 'e + role_cache) \<Rightarrow> permissions_group \<Rightarrow> u32 list \<Rightarrow> 'e + permissions_group" where
  "add_role_permissions role base roles = add_role_loop role base roles {}"

definition maybe_add_roles ::
  "(u32 \<Rightarrow> 'e + role_cache) \<Rightarrow> permissions_group \<Rightarrow> u32 list \<Rightarrow> 'e + permissions_group" where
  "maybe_add_roles role base roles = (if roles \<noteq> [] then add_role_permissions role base roles else Inr base)"

text \<open>
  The effective permissions of an account; \<open>user_permissions\<close> is the group \<open>PermissionsGroup::user()\<close>, computed
  below from the default permissions, and \<open>enterprise\<close> says whether a tenant is limited by its own permissions or by those of a user.
\<close>

definition tenant_group ::
  "(u32 \<Rightarrow> 'e + role_cache) \<Rightarrow> tenant_cache \<Rightarrow> 'e + permissions_group" where
  "tenant_group role t =
     (case tenant_permissions t of
        Some g \<Rightarrow> maybe_add_roles role g (if merge g then tenant_id_roles t else [])
      | None \<Rightarrow> maybe_add_roles role group_default (tenant_id_roles t))"

definition limit_to_tenant ::
  "(u32 \<Rightarrow> 'e + role_cache) \<Rightarrow> (u32 \<Rightarrow> 'e + tenant_cache) \<Rightarrow> bool \<Rightarrow> permissions_group \<Rightarrow>
     u32 option \<Rightarrow> permissions_group \<Rightarrow> 'e + permissions_group" where
  "limit_to_tenant role tenant enterprise user_permissions tenant_id g =
     (case tenant_id of
        None \<Rightarrow> Inr g
      | Some tid \<Rightarrow>
          if enterprise then
            (case tenant tid of
               Inl e \<Rightarrow> Inl e
             | Inr t \<Rightarrow> (case tenant_group role t of Inl e \<Rightarrow> Inl e | Inr tg \<Rightarrow> Inr (group_restrict g tg)))
          else Inr (group_restrict g user_permissions))"

definition base_permissions :: "permissions_setting \<Rightarrow> u32 list \<Rightarrow> (permissions_group \<times> u32 list) option" where
  "base_permissions setting role_ids =
     (case setting of
        Inherit \<Rightarrow> Some (group_default, role_ids)
      | Merge en dis \<Rightarrow> map_option (\<lambda>g. (g, role_ids)) (group_from_list en dis)
      | Replace en dis \<Rightarrow> map_option (\<lambda>g. (g, [])) (group_from_list en dis))"

definition effective_permissions ::
  "(u32 \<Rightarrow> 'e + role_cache) \<Rightarrow> (u32 \<Rightarrow> 'e + tenant_cache) \<Rightarrow> bool \<Rightarrow> permissions_group \<Rightarrow>
     permissions_setting \<Rightarrow> u32 list \<Rightarrow> u32 option \<Rightarrow> 'e option + permissions_group" where
  "effective_permissions role tenant enterprise user_permissions setting role_ids tenant_id =
     (case base_permissions setting role_ids of
        None \<Rightarrow> Inl None
      | Some (base, roles) \<Rightarrow>
          (case maybe_add_roles role base roles of
             Inl e \<Rightarrow> Inl (Some e)
           | Inr g \<Rightarrow> map_sum Some id (limit_to_tenant role tenant enterprise user_permissions tenant_id g)))"

text \<open>\<open>can_grant_permissions\<close> against the permissions of the granting token.\<close>

definition can_grant :: "permissions \<Rightarrow> permissions \<Rightarrow> permission list + unit" where
  "can_grant own requested =
     (let missing = bitset_difference requested own
      in if bitset_is_empty missing then Inr () else Inl (build_permissions_list missing))"

section \<open>Default permissions\<close>

text \<open>The names of permissions are a generated table of the registry crate, the argument \<open>name_of\<close>.\<close>

definition starts_with :: "string \<Rightarrow> string \<Rightarrow> bool" where
  "starts_with p s \<longleftrightarrow> take (length p) s = p"

fun contains_str :: "string \<Rightarrow> string \<Rightarrow> bool" where
  "contains_str p [] \<longleftrightarrow> p = []"
| "contains_str p (c # s) \<longleftrightarrow> starts_with p (c # s) \<or> contains_str p s"

record default_permissions =
  dp_user :: bool
  dp_group :: bool
  dp_tenant :: bool
  dp_superuser :: bool

abbreviation dp :: "bool \<Rightarrow> bool \<Rightarrow> bool \<Rightarrow> bool \<Rightarrow> default_permissions" where
  "dp u g t s \<equiv> \<lparr> dp_user = u, dp_group = g, dp_tenant = t, dp_superuser = s \<rparr>"

definition default_lists :: "(permission \<Rightarrow> string) \<Rightarrow> permission \<Rightarrow> default_permissions" where
  "default_lists name_of p =
     (if p \<in> {0, 1, 2} then dp True False True True
      else if p \<in> {3, 4, 5, 217, 216} then dp False False False True
      else if p \<in> {6, 218} then dp False False True True
      else
        (let n = name_of p
         in if starts_with ''jmap'' n \<or> starts_with ''imap'' n \<or> starts_with ''pop3'' n \<or> starts_with ''calendar'' n
              \<or> starts_with ''email'' n \<or> starts_with ''dav'' n \<or> starts_with ''sieve'' n
            then dp True True False False
            else if starts_with ''sysMaskedEmail'' n \<or> starts_with ''sysArchivedItem'' n \<or> starts_with ''sysAccountSettings'' n
              \<or> starts_with ''sysPublicKey'' n \<or> (starts_with ''sysSpamTrainingSample'' n \<and> \<not> contains_str ''Create'' n)
            then dp True True False True
            else if starts_with ''sysAccountPassword'' n \<or> starts_with ''sysApiKey'' n \<or> starts_with ''sysAppPassword'' n
            then dp True False False True
            else if starts_with ''sysDomain'' n \<or> starts_with ''sysDkimSignature'' n \<or> starts_with ''sysAcmeProvider'' n
              \<or> starts_with ''sysAccount'' n \<or> starts_with ''sysRole'' n \<or> starts_with ''sysOAuthClient'' n
              \<or> starts_with ''sysMailingList'' n \<or> starts_with ''sysExternalReport'' n \<or> starts_with ''sysDnsServer'' n
              \<or> starts_with ''sysQueuedMessage'' n
            then dp False False True True
            else dp False False False True))"

definition default_user :: "(permission \<Rightarrow> string) \<Rightarrow> permission list" where
  "default_user name_of = filter (\<lambda>p. dp_user (default_lists name_of p)) [0..<PERMISSION_COUNT]"

definition user_group :: "(permission \<Rightarrow> string) \<Rightarrow> permissions_group option" where
  "user_group name_of =
     map_option (\<lambda>e. group_default \<lparr> enabled := e \<rparr>) (set_permissions permissions_new (default_user name_of))"

section \<open>Groups as sets\<close>

definition group_wf :: "permissions_group \<Rightarrow> bool" where
  "group_wf g \<longleftrightarrow> length (enabled g) = PERMISSIONS_BITSET_SIZE \<and> length (disabled g) = PERMISSIONS_BITSET_SIZE"

definition granted :: "permissions_group \<Rightarrow> permission set" where
  "granted g = bits_of (group_finalize g)"

lemma group_wf_default [simp]: "group_wf group_default"
  by (simp add: group_wf_def group_default_def permissions_new_def)

lemma group_wf_union [simp]: "group_wf g \<Longrightarrow> group_wf h \<Longrightarrow> group_wf (group_union g h)"
  by (simp add: group_wf_def group_union_def)

lemma group_wf_restrict [simp]: "group_wf g \<Longrightarrow> group_wf h \<Longrightarrow> group_wf (group_restrict g h)"
  by (simp add: group_wf_def group_restrict_def)

lemma group_bits:
  assumes "group_wf g" "group_wf h"
  shows "bits_of (enabled (group_union g h)) = bits_of (enabled g) \<union> bits_of (enabled h)"
    and "bits_of (disabled (group_union g h)) = bits_of (disabled g) \<union> bits_of (disabled h)"
    and "bits_of (enabled (group_restrict g h)) = bits_of (enabled g) \<inter> bits_of (enabled h)"
    and "bits_of (disabled (group_restrict g h)) = bits_of (disabled g) \<union> bits_of (disabled h)"
  using assms by (simp_all add: group_wf_def group_union_def group_restrict_def bits_union bits_intersection)

lemma granted_eq: "group_wf g \<Longrightarrow> granted g = bits_of (enabled g) - bits_of (disabled g)"
  by (simp add: granted_def group_finalize_def group_wf_def bits_difference)

lemma granted_restrict: "group_wf g \<Longrightarrow> group_wf h \<Longrightarrow> granted (group_restrict g h) = granted g \<inter> granted h"
  by (auto simp: granted_eq group_bits)

lemma permission_in_capacity: "p < PERMISSION_COUNT \<Longrightarrow> p < 64 * PERMISSIONS_BITSET_SIZE"
  by (simp add: PERMISSION_COUNT_def PERMISSIONS_BITSET_SIZE_def)

lemma set_permissions_ok:
  assumes "length s = PERMISSIONS_BITSET_SIZE" "list_all (\<lambda>p. p < PERMISSION_COUNT) ps"
  shows "\<exists>s'. set_permissions s ps = Some s' \<and> length s' = PERMISSIONS_BITSET_SIZE \<and> bits_of s' = set ps \<union> bits_of s"
  using assms
proof (induction ps arbitrary: s)
  case (Cons p ps)
  have "p < 64 * PERMISSIONS_BITSET_SIZE" using Cons.prems(2) by (simp add: permission_in_capacity)
  with bitset.add_ok [OF Cons.prems(1)] obtain s' where
    s': "bitset_set s p = Some s'" "length s' = PERMISSIONS_BITSET_SIZE" "bits_of s' = insert p (bits_of s)" by blast
  with Cons.IH [OF s'(2)] Cons.prems(2) show ?case by auto
qed auto

lemma from_permission_ok:
  assumes "list_all (\<lambda>p. p < PERMISSION_COUNT) ps"
  shows "\<exists>s. from_permission ps = Some s \<and> length s = PERMISSIONS_BITSET_SIZE \<and> bits_of s = set ps"
  using set_permissions_ok [of permissions_new ps] assms by (simp add: from_permission_def permissions_new_def)

lemma group_from_list_ok:
  assumes "list_all (\<lambda>p. p < PERMISSION_COUNT) en" "list_all (\<lambda>p. p < PERMISSION_COUNT) dis"
  shows "\<exists>g. group_from_list en dis = Some g \<and> group_wf g \<and> bits_of (enabled g) = set en \<and> bits_of (disabled g) = set dis"
  using from_permission_ok [OF assms(1)] from_permission_ok [OF assms(2)]
  by (auto simp: group_from_list_def group_wf_def)

section \<open>The list of permissions of a bit array\<close>

lemma block_permissions_set: "set (block_permissions n w) = {p. p < PERMISSION_COUNT \<and> p div 64 = n \<and> bit w (p mod 64)}"
proof (induction n w rule: block_permissions.induct)
  case (1 n w)
  show ?case
  proof (cases "w = 0")
    case True
    then show ?thesis by (subst block_permissions.simps) simp
  next
    case False
    define item where "item = 63 - leading_zeros w"
    define w' where "w' = w XOR push_bit item 1"
    from pop_max_bitset [OF False] have w: "bitset w' = bitset w - {item}" "bit w item" "item < 64"
      by (simp_all add: item_def w'_def)
    have "bit w k \<longleftrightarrow> bit w' k \<or> k = item" for k
      using w(1,2) by (auto simp: set_eq_iff)
    moreover have "p div 64 = n \<and> p mod 64 = item \<longleftrightarrow> p = n * 64 + item" for p
      using w(3) by (auto simp: mult.commute)
    ultimately have "{p. p < PERMISSION_COUNT \<and> p div 64 = n \<and> bit w (p mod 64)} =
        {p. p < PERMISSION_COUNT \<and> p div 64 = n \<and> bit w' (p mod 64)} \<union> {p. p < PERMISSION_COUNT \<and> p = n * 64 + item}"
      by blast
    moreover have "set (block_permissions n w') = {p. p < PERMISSION_COUNT \<and> p div 64 = n \<and> bit w' (p mod 64)}"
      using 1 [OF False item_def w'_def] by (cases "permission_from_id (n * 64 + item)") auto
    moreover have "block_permissions n w =
        (case permission_from_id (n * 64 + item) of Some p \<Rightarrow> p # block_permissions n w' | None \<Rightarrow> block_permissions n w')"
      using False by (subst block_permissions.simps) (simp only: Let_def item_def w'_def if_False)
    ultimately show ?thesis
      by (cases "n * 64 + item < PERMISSION_COUNT") (simp_all only: permission_from_id_def if_True if_False option.case set_simps, blast+)
  qed
qed

lemma blocks_permissions_set:
  "set (blocks_permissions n s) =
     {p. p < PERMISSION_COUNT \<and> n \<le> p div 64 \<and> p div 64 - n < length s \<and> bit (s ! (p div 64 - n)) (p mod 64)}"
proof (induction s arbitrary: n)
  case (Cons w s)
  have "n \<le> p div 64 \<and> p div 64 - n < length (w # s) \<and> bit ((w # s) ! (p div 64 - n)) (p mod 64) \<longleftrightarrow>
      p div 64 = n \<and> bit w (p mod 64) \<or>
      Suc n \<le> p div 64 \<and> p div 64 - Suc n < length s \<and> bit (s ! (p div 64 - Suc n)) (p mod 64)" for p
    by (auto simp: nth_Cons')
  with Cons show ?case by (auto simp: block_permissions_set)
qed simp

lemma build_permissions_list_set: "set (build_permissions_list s) = {p \<in> bits_of s. p < PERMISSION_COUNT}"
  by (auto simp: build_permissions_list_def blocks_permissions_set bits_of_def)

section \<open>The roles reached from a list of roles\<close>

definition role_edge :: "(u32 \<Rightarrow> 'e + role_cache) \<Rightarrow> (u32 \<times> u32) set" where
  "role_edge role = {(a, b). \<exists>r. role a = Inr r \<and> b \<in> set (role_id_roles r)}"

definition reached_roles :: "(u32 \<Rightarrow> 'e + role_cache) \<Rightarrow> u32 list \<Rightarrow> u32 set" where
  "reached_roles role roots = (role_edge role)\<^sup>* `` set roots"

definition roles_bits :: "(u32 \<Rightarrow> 'e + role_cache) \<Rightarrow> (permissions_group \<Rightarrow> permissions) \<Rightarrow> u32 set \<Rightarrow> permission set" where
  "roles_bits role part rs = {p. \<exists>a \<in> rs. \<exists>r. role a = Inr r \<and> p \<in> bits_of (part (role_permissions r))}"

definition role_wf :: "(u32 \<Rightarrow> 'e + role_cache) \<Rightarrow> bool" where
  "role_wf role \<longleftrightarrow> (\<forall>a r. role a = Inr r \<longrightarrow> group_wf (role_permissions r))"

lemma reached_step: "a \<in> reached_roles role roots \<Longrightarrow> role a = Inr r \<Longrightarrow> set (role_id_roles r) \<subseteq> reached_roles role roots"
proof
  fix b assume "a \<in> reached_roles role roots" "role a = Inr r" "b \<in> set (role_id_roles r)"
  then obtain x where "x \<in> set roots" "(x, a) \<in> (role_edge role)\<^sup>*" "(a, b) \<in> role_edge role"
    by (auto simp: reached_roles_def role_edge_def)
  then show "b \<in> reached_roles role roots"
    unfolding reached_roles_def by (meson ImageI rtrancl_into_rtrancl)
qed

lemma reached_closed:
  assumes "set roots \<subseteq> F" "\<And>a r. a \<in> F \<Longrightarrow> role a = Inr r \<Longrightarrow> set (role_id_roles r) \<subseteq> F"
  shows "reached_roles role roots \<subseteq> F"
proof -
  have "b \<in> F" if "(a, b) \<in> (role_edge role)\<^sup>*" "a \<in> F" for a b
    using that by (induction rule: rtrancl_induct) (use assms(2) in \<open>auto simp: role_edge_def\<close>)
  with assms(1) show ?thesis by (auto simp: reached_roles_def)
qed

lemma roles_bits_insert:
  "role a = Inr r \<Longrightarrow> roles_bits role part (insert a F) = bits_of (part (role_permissions r)) \<union> roles_bits role part F"
  by (auto simp: roles_bits_def)

lemma add_role_loop_reach:
  assumes "role_wf role" "\<forall>a \<in> reached_roles role roots. \<exists>r. role a = Inr r"
    and "group_wf base"
    and "F \<union> set ids \<subseteq> reached_roles role roots" "set roots \<subseteq> F \<union> set ids"
    and "\<forall>a \<in> F. \<forall>r. role a = Inr r \<longrightarrow> set (role_id_roles r) \<subseteq> F \<union> set ids"
    and "bits_of (enabled base) = E \<union> roles_bits role enabled F" "bits_of (disabled base) = D \<union> roles_bits role disabled F"
  shows "\<exists>g. add_role_loop role base ids F = Inr g \<and> group_wf g \<and> merge g = merge base \<and>
     bits_of (enabled g) = E \<union> roles_bits role enabled (reached_roles role roots) \<and>
     bits_of (disabled g) = D \<union> roles_bits role disabled (reached_roles role roots)"
  using assms
proof (induction role base ids F rule: add_role_loop.induct)
  case (1 role base ids F)
  show ?case
  proof (cases ids rule: rev_cases)
    case Nil
    with 1(6,7,8) reached_closed [of roots F role] have "F = reached_roles role roots" by auto
    with 1 Nil show ?thesis by (simp add: add_role_loop.simps)
  next
    case (snoc ids' a)
    show ?thesis
    proof (cases "a \<in> F")
      case True
      then have "F \<union> set ids = F \<union> set ids'" using snoc by auto
      then have "\<exists>g. add_role_loop role base ids' F = Inr g \<and> group_wf g \<and> merge g = merge base \<and>
          bits_of (enabled g) = E \<union> roles_bits role enabled (reached_roles role roots) \<and>
          bits_of (disabled g) = D \<union> roles_bits role disabled (reached_roles role roots)"
        using 1(3-10) snoc True by (intro 1(2) [of a ids']) simp_all
      with snoc True show ?thesis by (subst add_role_loop.simps) simp
    next
      case False
      from snoc 1(6) have a: "a \<in> reached_roles role roots" by simp
      with 1(4) obtain r where r: "role a = Inr r" by blast
      with 1(3) have wf: "group_wf (role_permissions r)" by (simp add: role_wf_def)
      have eq: "insert a F \<union> set (ids' @ role_id_roles r) = F \<union> set ids \<union> set (role_id_roles r)" using snoc by auto
      have "\<exists>g. add_role_loop role (group_union base (role_permissions r)) (ids' @ role_id_roles r) (insert a F) = Inr g \<and>
          group_wf g \<and> merge g = merge (group_union base (role_permissions r)) \<and>
          bits_of (enabled g) = E \<union> roles_bits role enabled (reached_roles role roots) \<and>
          bits_of (disabled g) = D \<union> roles_bits role disabled (reached_roles role roots)"
      proof (rule 1(1) [of a ids' r])
        show "insert a F \<union> set (ids' @ role_id_roles r) \<subseteq> reached_roles role roots"
          unfolding eq using 1(6) reached_step [OF a r] by blast
        show "set roots \<subseteq> insert a F \<union> set (ids' @ role_id_roles r)" unfolding eq using 1(7) by blast
        show "\<forall>b \<in> insert a F. \<forall>r'. role b = Inr r' \<longrightarrow> set (role_id_roles r') \<subseteq> insert a F \<union> set (ids' @ role_id_roles r)"
          unfolding eq using 1(8) r by auto
      qed (use 1(3-5,9,10) snoc False r wf in \<open>simp_all add: group_bits roles_bits_insert Un_ac\<close>)
      with r snoc False show ?thesis
        by (subst add_role_loop.simps) (simp add: group_union_def)
    qed
  qed
qed

lemma add_role_loop_wf:
  "add_role_loop role base ids F = Inr g \<Longrightarrow> role_wf role \<Longrightarrow> group_wf base \<Longrightarrow> group_wf g"
proof (induction role base ids F rule: add_role_loop.induct)
  case (1 role base ids F)
  show ?case
  proof (cases "ids = []")
    case True
    with 1(3,5) show ?thesis by (simp add: add_role_loop.simps)
  next
    case False
    then obtain ids' a where ids: "ids = ids' @ [a]" by (meson rev_exhaust)
    show ?thesis
    proof (cases "a \<in> F")
      case True
      with 1(3) ids have "add_role_loop role base ids' F = Inr g" by (subst (asm) add_role_loop.simps) simp
      then show ?thesis using ids True 1(4,5) by (intro 1(2) [of a ids']) simp_all
    next
      case notin: False
      with 1(3) ids obtain r where r: "role a = Inr r"
        "add_role_loop role (group_union base (role_permissions r)) (ids' @ role_id_roles r) (insert a F) = Inr g"
        by (subst (asm) add_role_loop.simps) (cases "role a"; simp)
      then show ?thesis using ids notin 1(4,5) by (intro 1(1) [of a ids' r]) (simp_all add: role_wf_def)
    qed
  qed
qed

lemma maybe_add_roles_wf:
  "maybe_add_roles role base ids = Inr g \<Longrightarrow> role_wf role \<Longrightarrow> group_wf base \<Longrightarrow> group_wf g"
  by (auto simp: maybe_add_roles_def add_role_permissions_def add_role_loop_wf split: if_splits)

lemma maybe_add_roles_reach:
  assumes "role_wf role" "\<forall>a \<in> reached_roles role ids. \<exists>r. role a = Inr r" "group_wf base"
  shows "\<exists>g. maybe_add_roles role base ids = Inr g \<and> group_wf g \<and>
     bits_of (enabled g) = bits_of (enabled base) \<union> roles_bits role enabled (reached_roles role ids) \<and>
     bits_of (disabled g) = bits_of (disabled base) \<union> roles_bits role disabled (reached_roles role ids)"
proof (cases "ids = []")
  case True
  with assms show ?thesis by (simp add: maybe_add_roles_def reached_roles_def roles_bits_def)
next
  case False
  have "set ids \<subseteq> reached_roles role ids" by (auto simp: reached_roles_def)
  with False add_role_loop_reach [OF assms, of "{}" ids "bits_of (enabled base)" "bits_of (disabled base)"] show ?thesis
    by (auto simp: maybe_add_roles_def add_role_permissions_def roles_bits_def)
qed

lemma base_permissions_wf:
  assumes "base_permissions setting ids = Some (base, roles)"
    and "case setting of Inherit \<Rightarrow> True | Merge en dis \<Rightarrow> list_all (\<lambda>p. p < PERMISSION_COUNT) (en @ dis)
      | Replace en dis \<Rightarrow> list_all (\<lambda>p. p < PERMISSION_COUNT) (en @ dis)"
  shows "group_wf base"
  using assms group_from_list_ok by (fastforce simp: base_permissions_def split: permissions_setting.splits)

definition setting_valid :: "permissions_setting \<Rightarrow> bool" where
  "setting_valid setting = (case setting of Inherit \<Rightarrow> True | Merge en dis \<Rightarrow> list_all (\<lambda>p. p < PERMISSION_COUNT) (en @ dis)
      | Replace en dis \<Rightarrow> list_all (\<lambda>p. p < PERMISSION_COUNT) (en @ dis))"

definition tenant_wf :: "(u32 \<Rightarrow> 'e + tenant_cache) \<Rightarrow> bool" where
  "tenant_wf tenant \<longleftrightarrow> (\<forall>t tc h. tenant t = Inr tc \<longrightarrow> tenant_permissions tc = Some h \<longrightarrow> group_wf h)"

lemma tenant_group_wf:
  "tenant t = Inr tc \<Longrightarrow> tenant_group role tc = Inr tg \<Longrightarrow> tenant_wf tenant \<Longrightarrow> role_wf role \<Longrightarrow> group_wf tg"
  using maybe_add_roles_wf [of role] by (fastforce simp: tenant_group_def tenant_wf_def split: option.splits)

lemma effective_permissions_cases:
  assumes "effective_permissions role tenant ent user setting ids tid = Inr g"
    and "role_wf role" "tenant_wf tenant" "setting_valid setting"
  obtains h where "group_wf h" "limit_to_tenant role tenant ent user tid h = Inr g"
proof -
  from assms(1) obtain base roles h where
    h: "base_permissions setting ids = Some (base, roles)" "maybe_add_roles role base roles = Inr h"
      "limit_to_tenant role tenant ent user tid h = Inr g"
    by (auto simp: effective_permissions_def map_sum_def split: option.splits sum.splits)
  have "group_wf h"
    using maybe_add_roles_wf [OF h(2) assms(2)] base_permissions_wf [OF h(1)] assms(4) by (simp add: setting_valid_def)
  with h(3) that show thesis by blast
qed

lemma effective_permissions_wf:
  assumes "effective_permissions role tenant ent user setting ids tid = Inr g"
    and "role_wf role" "tenant_wf tenant" "setting_valid setting" "group_wf user"
  shows "group_wf g"
proof -
  from effective_permissions_cases [OF assms(1-4)] obtain h where
    h: "group_wf h" "limit_to_tenant role tenant ent user tid h = Inr g" .
  show ?thesis
  proof (cases tid)
    case None
    with h show ?thesis by (simp add: limit_to_tenant_def)
  next
    case (Some t)
    show ?thesis
    proof (cases ent)
      case True
      with h(2) Some obtain tc tg where t: "tenant t = Inr tc" "tenant_group role tc = Inr tg" "g = group_restrict h tg"
        by (auto simp: limit_to_tenant_def split: sum.splits)
      with h(1) tenant_group_wf [OF t(1,2) assms(3,2)] show ?thesis by simp
    next
      case False
      with h Some assms(5) show ?thesis by (auto simp: limit_to_tenant_def)
    qed
  qed
qed

section \<open>Properties\<close>

text \<open>
  What an account, and a tenant, is meant to be allowed: what its own lists and the roles it reaches enable, less what they
  disable. Lists that replace the roles leave the roles out.
\<close>

definition lists_of :: "permissions_setting \<Rightarrow> permission list \<times> permission list" where
  "lists_of setting = (case setting of Inherit \<Rightarrow> ([], []) | Merge en dis \<Rightarrow> (en, dis) | Replace en dis \<Rightarrow> (en, dis))"

definition roles_of :: "permissions_setting \<Rightarrow> u32 list \<Rightarrow> u32 list" where
  "roles_of setting ids = (case setting of Replace _ _ \<Rightarrow> [] | _ \<Rightarrow> ids)"

definition own_grants :: "(u32 \<Rightarrow> 'e + role_cache) \<Rightarrow> permissions_setting \<Rightarrow> u32 list \<Rightarrow> permission set" where
  "own_grants role setting ids =
     (set (fst (lists_of setting)) \<union> roles_bits role enabled (reached_roles role (roles_of setting ids))) -
     (set (snd (lists_of setting)) \<union> roles_bits role disabled (reached_roles role (roles_of setting ids)))"

definition tenant_roles :: "tenant_cache \<Rightarrow> u32 list" where
  "tenant_roles t = (case tenant_permissions t of Some g \<Rightarrow> if merge g then tenant_id_roles t else [] | None \<Rightarrow> tenant_id_roles t)"

definition tenant_grants :: "(u32 \<Rightarrow> 'e + role_cache) \<Rightarrow> tenant_cache \<Rightarrow> permission set" where
  "tenant_grants role t =
     (let f = (\<lambda>sel. (case tenant_permissions t of Some g \<Rightarrow> bits_of (sel g) | None \<Rightarrow> {}) \<union>
                roles_bits role sel (reached_roles role (tenant_roles t)))
      in f enabled - f disabled)"

definition available :: "(u32 \<Rightarrow> 'e + role_cache) \<Rightarrow> u32 list \<Rightarrow> bool" where
  "available role ids \<longleftrightarrow> (\<forall>a \<in> reached_roles role ids. \<exists>r. role a = Inr r)"

lemma bits_permissions_new [simp]: "bits_of permissions_new = {}"
  by (simp add: permissions_new_def)

lemma tenant_group_exact:
  assumes "role_wf role" "available role (tenant_roles t)" "\<And>h. tenant_permissions t = Some h \<Longrightarrow> group_wf h"
  shows "\<exists>tg. tenant_group role t = Inr tg \<and> group_wf tg \<and> granted tg = tenant_grants role t"
proof -
  have base: "group_wf (case tenant_permissions t of Some g \<Rightarrow> g | None \<Rightarrow> group_default)"
    using assms(3) by (simp split: option.split)
  from maybe_add_roles_reach [OF assms(1) assms(2) [unfolded available_def] base] show ?thesis
    by (auto simp: tenant_group_def tenant_roles_def tenant_grants_def granted_eq group_default_def Let_def split: option.splits)
qed

lemma own_group_exact:
  assumes "role_wf role" "available role (roles_of setting ids)" "setting_valid setting"
  shows "\<exists>base g. base_permissions setting ids = Some (base, roles_of setting ids) \<and>
    maybe_add_roles role base (roles_of setting ids) = Inr g \<and> group_wf g \<and> granted g = own_grants role setting ids"
proof -
  have "\<exists>base. base_permissions setting ids = Some (base, roles_of setting ids) \<and> group_wf base \<and>
    bits_of (enabled base) = set (fst (lists_of setting)) \<and> bits_of (disabled base) = set (snd (lists_of setting))"
  proof (cases setting)
    case Inherit
    then show ?thesis
      by (auto simp: base_permissions_def roles_of_def lists_of_def) (simp_all add: group_default_def)
  next
    case (Merge en dis)
    with assms(3) group_from_list_ok [of en dis] show ?thesis
      by (auto simp: base_permissions_def roles_of_def lists_of_def setting_valid_def)
  next
    case (Replace en dis)
    with assms(3) group_from_list_ok [of en dis] show ?thesis
      by (auto simp: base_permissions_def roles_of_def lists_of_def setting_valid_def)
  qed
  then obtain base where base: "base_permissions setting ids = Some (base, roles_of setting ids)" "group_wf base"
    "bits_of (enabled base) = set (fst (lists_of setting))" "bits_of (disabled base) = set (snd (lists_of setting))" by blast
  from maybe_add_roles_reach [OF assms(1) assms(2) [unfolded available_def] base(2)] base show ?thesis
    by (auto simp: own_grants_def granted_eq)
qed

text \<open>
  C10: the permissions of an account are: everything enabled in its own lists or in any role reached from its roles, through roles of
  roles and also around cycles, except what is disabled in its lists or in one of those roles; lists that replace the
  roles count alone. For an account of a tenant, only what is granted in the same way by the lists and
  roles of the tenant is kept; without the enterprise edition, only what an ordinary user is granted. The computation ends and
  neither fails nor panics when the tenant and the roles reached can be fetched.
\<close>

theorem effective_permissions_of_roles:
  assumes wf: "role_wf role" "tenant_wf tenant" "setting_valid setting" "group_wf user"
    and own: "available role (roles_of setting ids)"
    and tenants: "\<And>t. tid = Some t \<Longrightarrow> ent \<Longrightarrow> \<exists>tc. tenant t = Inr tc \<and> available role (tenant_roles tc)"
  shows "\<exists>g. effective_permissions role tenant ent user setting ids tid = Inr g \<and>
     granted g = own_grants role setting ids \<inter>
       (case tid of
          None \<Rightarrow> UNIV
        | Some t \<Rightarrow> if ent then (case tenant t of Inr tc \<Rightarrow> tenant_grants role tc | Inl _ \<Rightarrow> {}) else granted user)"
proof -
  from own_group_exact [OF wf(1) own wf(3)] obtain base g where
    g: "base_permissions setting ids = Some (base, roles_of setting ids)"
      "maybe_add_roles role base (roles_of setting ids) = Inr g" "group_wf g" "granted g = own_grants role setting ids" by blast
  have "\<exists>g'. limit_to_tenant role tenant ent user tid g = Inr g' \<and> granted g' = granted g \<inter>
       (case tid of
          None \<Rightarrow> UNIV
        | Some t \<Rightarrow> if ent then (case tenant t of Inr tc \<Rightarrow> tenant_grants role tc | Inl _ \<Rightarrow> {}) else granted user)"
  proof (cases "\<exists>t. tid = Some t \<and> ent")
    case True
    then obtain t tc where t: "tid = Some t" "ent" "tenant t = Inr tc" "available role (tenant_roles tc)" using tenants by blast
    with tenant_group_exact [OF wf(1) t(4)] wf(2) g(3) show ?thesis
      by (auto simp: limit_to_tenant_def tenant_wf_def granted_restrict)
  next
    case False
    with g(3) wf(4) show ?thesis by (auto simp: limit_to_tenant_def granted_restrict split: option.split)
  qed
  with g show ?thesis by (auto simp: effective_permissions_def)
qed

text \<open>
  A role that lists itself and enables the permissions 5, 7 and 9, and a tenant with the
  permissions 5 and 6 alone.
\<close>

definition sample_group :: "permission list \<Rightarrow> permissions_group" where
  "sample_group ps = the (group_from_list ps [])"

definition sample_role :: "u32 \<Rightarrow> unit + role_cache" where
  "sample_role _ = Inr \<lparr> role_id_roles = [1], role_permissions = sample_group [5, 7, 9] \<rparr>"

definition sample_tenant :: "u32 \<Rightarrow> unit + tenant_cache" where
  "sample_tenant _ = Inr \<lparr> tenant_id_roles = [], tenant_permissions = Some (sample_group [5, 6]) \<rparr>"

lemma sample_group:
  assumes "list_all (\<lambda>p. p < PERMISSION_COUNT) ps"
  shows "group_wf (sample_group ps)" "bits_of (enabled (sample_group ps)) = set ps" "bits_of (disabled (sample_group ps)) = {}"
  using group_from_list_ok [of ps "[]"] assms by (auto simp: sample_group_def)

lemmas sample_groups = sample_group [of "[5, 7, 9]"] sample_group [of "[5, 6]"]

lemma sample_reached: "reached_roles sample_role [1] = {1}"
proof
  show "reached_roles sample_role [1] \<subseteq> {1}"
    by (rule reached_closed) (auto simp: sample_role_def)
qed (auto simp: reached_roles_def)

lemma sample_role_bits: "roles_bits sample_role enabled {1} = {5, 7, 9}" "roles_bits sample_role disabled {1} = {}"
  using sample_groups by (auto simp: roles_bits_def sample_role_def PERMISSION_COUNT_def)

lemma sample_permissions_ok:
  "role_wf sample_role" "tenant_wf sample_tenant" "available sample_role ids"
  using sample_groups by (auto simp: role_wf_def tenant_wf_def available_def sample_role_def sample_tenant_def PERMISSION_COUNT_def)

definition sample_tenant_cache :: tenant_cache where
  "sample_tenant_cache = \<lparr> tenant_id_roles = [], tenant_permissions = Some (sample_group [5, 6]) \<rparr>"

lemma sample_tenant_cache: "sample_tenant t = Inr sample_tenant_cache" "tenant_grants sample_role sample_tenant_cache = {5, 6}"
  using sample_groups
  by (simp_all add: sample_tenant_def sample_tenant_cache_def tenant_grants_def tenant_roles_def reached_roles_def
      roles_bits_def PERMISSION_COUNT_def)

lemma sample_own_grants:
  "own_grants sample_role Inherit [1] = {5, 7, 9}" "own_grants sample_role (Merge [3] [9]) [1] = {3, 5, 7}"
  "own_grants sample_role (Replace [3] [9]) [1] = {3}"
  by (auto simp: own_grants_def lists_of_def roles_of_def sample_reached sample_role_bits)
     (auto simp: reached_roles_def roles_bits_def)

theorem effective_permissions_of_roles_witness:
  "(\<exists>g. effective_permissions sample_role sample_tenant True group_default (Merge [3] [9]) [1] None = Inr g \<and> granted g = {3, 5, 7}) \<and>
   (\<exists>g. effective_permissions sample_role sample_tenant True group_default (Merge [3] [9]) [1] (Some 4) = Inr g \<and> granted g = {5}) \<and>
   (\<exists>g. effective_permissions sample_role sample_tenant True group_default (Replace [3] [9]) [1] None = Inr g \<and> granted g = {3})"
proof (intro conjI)
  have valid: "setting_valid (Merge [3] [9])" "setting_valid (Replace [3] [9])"
    by (simp_all add: setting_valid_def PERMISSION_COUNT_def)
  note main = effective_permissions_of_roles [OF sample_permissions_ok(1,2)]
  from main [OF valid(1) group_wf_default sample_permissions_ok(3), of None True "[1]"]
  show "\<exists>g. effective_permissions sample_role sample_tenant True group_default (Merge [3] [9]) [1] None = Inr g \<and> granted g = {3, 5, 7}"
    by (simp add: sample_own_grants)
  from main [OF valid(2) group_wf_default sample_permissions_ok(3), of None True "[1]"]
  show "\<exists>g. effective_permissions sample_role sample_tenant True group_default (Replace [3] [9]) [1] None = Inr g \<and> granted g = {3}"
    by (simp add: sample_own_grants)
  from main [OF valid(1) group_wf_default sample_permissions_ok(3), of "Some 4" True "[1]"]
  show "\<exists>g. effective_permissions sample_role sample_tenant True group_default (Merge [3] [9]) [1] (Some 4) = Inr g \<and> granted g = {5}"
    by (simp add: sample_own_grants sample_tenant_cache sample_permissions_ok)
qed

text \<open>
  C34: in the enterprise edition an account of a tenant never has a permission its tenant does not have: whatever its own
  lists and roles say, if its permissions can be computed then the tenant was found and all of them are granted by the lists
  and roles of the tenant. In the other edition the limit is the group of an ordinary user instead.
\<close>

theorem tenant_limits_permissions:
  assumes "effective_permissions role tenant ent user setting ids (Some tid) = Inr g"
    and "role_wf role" "tenant_wf tenant" "setting_valid setting" "group_wf user"
  shows "if ent then \<exists>tc tg. tenant tid = Inr tc \<and> tenant_group role tc = Inr tg \<and> granted g \<subseteq> granted tg
     else granted g \<subseteq> granted user"
proof -
  from effective_permissions_cases [OF assms(1-4)] obtain h where
    h: "group_wf h" "limit_to_tenant role tenant ent user (Some tid) h = Inr g" .
  show ?thesis
  proof (cases ent)
    case True
    with h(2) obtain tc tg where t: "tenant tid = Inr tc" "tenant_group role tc = Inr tg" "g = group_restrict h tg"
      by (auto simp: limit_to_tenant_def split: sum.splits)
    with True h(1) tenant_group_wf [OF t(1,2) assms(3,2)] show ?thesis by (auto simp: granted_restrict)
  next
    case False
    with h(2) have "g = group_restrict h user" by (simp add: limit_to_tenant_def)
    with False h(1) assms(5) show ?thesis by (simp add: granted_restrict)
  qed
qed

theorem tenant_limits_permissions_witness:
  "\<exists>g. effective_permissions sample_role sample_tenant True group_default Inherit [1] (Some 4) = Inr g \<and>
     granted g \<subseteq> {5, 6} \<and> granted g \<noteq> {}"
proof -
  have valid: "setting_valid Inherit" by (simp add: setting_valid_def)
  note ok = sample_permissions_ok
  obtain base h where h: "base_permissions Inherit [1] = Some (base, [1])" "maybe_add_roles sample_role base [1] = Inr h"
    "group_wf h" "granted h = {5, 7, 9}"
    using own_group_exact [OF ok(1) ok(3) valid, of "[1]"] by (auto simp: sample_own_grants roles_of_def)
  have "group_wf k" if "tenant_permissions sample_tenant_cache = Some k" for k
    using ok(2) that sample_tenant_cache(1) by (auto simp: tenant_wf_def)
  with tenant_group_exact [OF ok(1) ok(3), of sample_tenant_cache] obtain tg where
    tg: "tenant_group sample_role sample_tenant_cache = Inr tg" "group_wf tg" "granted tg = {5, 6}"
    by (auto simp: sample_tenant_cache)
  then have eff: "effective_permissions sample_role sample_tenant True group_default Inherit [1] (Some 4) = Inr (group_restrict h tg)"
    using h by (simp add: effective_permissions_def limit_to_tenant_def sample_tenant_cache)
  have "granted (group_restrict h tg) = {5}" using h tg by (auto simp: granted_restrict)
  moreover from tenant_limits_permissions [OF eff ok(1,2) valid group_wf_default] tg
  have "granted (group_restrict h tg) \<subseteq> {5, 6}" by (auto simp: sample_tenant_cache)
  ultimately show ?thesis using eff by auto
qed

text \<open>
  A token may grant a set of permissions exactly when it has all of them; otherwise the error lists exactly the
  permissions it lacks.
\<close>

theorem can_grant_exact:
  assumes "length own = PERMISSIONS_BITSET_SIZE" "length requested = PERMISSIONS_BITSET_SIZE"
  shows "(can_grant own requested = Inr () \<longleftrightarrow> bits_of requested \<subseteq> bits_of own) \<and>
     (\<forall>ps. can_grant own requested = Inl ps \<longrightarrow> set ps = {p \<in> bits_of requested - bits_of own. p < PERMISSION_COUNT})"
  using assms bits_difference [of requested own]
  by (auto simp: can_grant_def Let_def bitset_is_empty_iff build_permissions_list_set)

theorem can_grant_exact_witness:
  "can_grant permissions_new permissions_new = Inr ()"
  using can_grant_exact [of permissions_new permissions_new] by (simp add: permissions_new_def)

end
