(* ===== verification/IpMask.thy ===== *)
theory IpMask
  imports Prelude
begin

text \<open>
  Addresses and address masks of the access lists (\<^verbatim>\<open>crates/registry/src/types/ipmask.rs\<close>), with the conversions of
  the standard library between the two families that the code calls. Parsing and printing of addresses is left out; the mask
  that a prefix length stands for is the one \<open>from_str\<close> computes.
\<close>

type_synonym u128 = "128 word"

datatype ip_addr = V4 u32 | V6 u128

datatype ip_mask = Mask_V4 u32 u32 | Mask_V6 u128 u128

section \<open>The two families\<close>

definition to_ipv6_mapped :: "u32 \<Rightarrow> u128" where
  "to_ipv6_mapped a = push_bit 32 0xFFFF OR ucast a"

definition to_ipv4_mapped :: "u128 \<Rightarrow> u32 option" where
  "to_ipv4_mapped a = (if drop_bit 32 a = 0xFFFF then Some (ucast a) else None)"

definition to_ipv4 :: "u128 \<Rightarrow> u32 option" where
  "to_ipv4 a = (if drop_bit 32 a = 0xFFFF \<or> drop_bit 32 a = 0 then Some (ucast a) else None)"

section \<open>Masks\<close>

definition from_ip :: "ip_addr \<Rightarrow> ip_mask" where
  "from_ip ip = (case ip of V4 a \<Rightarrow> Mask_V4 a (- 1) | V6 a \<Rightarrow> Mask_V6 a (- 1))"

definition mask_is_valid :: "ip_mask \<Rightarrow> bool" where
  "mask_is_valid m = (case m of Mask_V4 a _ \<Rightarrow> a \<noteq> 0 | Mask_V6 _ _ \<Rightarrow> True)"

definition try_to_ip :: "ip_mask \<Rightarrow> ip_addr option" where
  "try_to_ip m = (case m of
     Mask_V4 a k \<Rightarrow> if k = - 1 then Some (V4 a) else None
   | Mask_V6 a k \<Rightarrow> if k = - 1 then Some (V6 a) else None)"

definition mask_into_inner :: "ip_mask \<Rightarrow> ip_addr \<times> u128" where
  "mask_into_inner m = (case m of Mask_V4 a k \<Rightarrow> (V4 a, ucast k) | Mask_V6 a k \<Rightarrow> (V6 a, k))"

definition mask_matches :: "ip_mask \<Rightarrow> ip_addr \<Rightarrow> bool" where
  "mask_matches m remote =
     (case m of
        Mask_V4 addr msk \<Rightarrow>
          if msk = - 1 then
            (case remote of
               V4 r \<Rightarrow> addr = r
             | V6 r \<Rightarrow> (case to_ipv4_mapped r of Some r' \<Rightarrow> addr = r' | None \<Rightarrow> False))
          else if msk = 0 then (case remote of V4 _ \<Rightarrow> True | V6 _ \<Rightarrow> False)
          else
            (case remote of
               V4 ip \<Rightarrow> ip AND msk = addr AND msk
             | V6 ip \<Rightarrow> (case to_ipv4 ip of Some ip' \<Rightarrow> ip' AND msk = addr AND msk | None \<Rightarrow> False))
      | Mask_V6 addr msk \<Rightarrow>
          if msk = - 1 then (case remote of V6 r \<Rightarrow> r = addr | V4 r \<Rightarrow> to_ipv6_mapped r = addr)
          else if msk = 0 then (case remote of V6 _ \<Rightarrow> True | V4 _ \<Rightarrow> False)
          else (case remote of V6 ip \<Rightarrow> ip | V4 ip \<Rightarrow> to_ipv6_mapped ip) AND msk = addr AND msk)"

text \<open>The mask of a prefix length in \<open>from_str\<close>; shorter prefixes are refused.\<close>

definition mask_of_prefix :: "ip_addr \<Rightarrow> nat \<Rightarrow> ip_mask option" where
  "mask_of_prefix addr prefix =
     (case addr of
        V4 a \<Rightarrow> if 8 \<le> prefix \<and> prefix \<le> 32 then Some (Mask_V4 a (push_bit (32 - prefix) (- 1))) else None
      | V6 a \<Rightarrow> if 8 \<le> prefix \<and> prefix \<le> 128 then Some (Mask_V6 a (push_bit (128 - prefix) (- 1))) else None)"

text \<open>The key under which a mask is stored: the big-endian bytes of the address and the mask.\<close>

definition be_bytes_u32 :: "u32 \<Rightarrow> u8 list" where
  "be_bytes_u32 a = map (\<lambda>i. ucast (drop_bit (8 * i) a)) [3, 2, 1, 0]"

definition be_bytes_u128 :: "u128 \<Rightarrow> u8 list" where
  "be_bytes_u128 a = map (\<lambda>i. ucast (drop_bit (8 * i) a)) (rev [0..<16])"

definition to_index_key :: "ip_mask \<Rightarrow> u8 list" where
  "to_index_key m = (case m of
     Mask_V4 a k \<Rightarrow> be_bytes_u32 a @ be_bytes_u32 k
   | Mask_V6 a k \<Rightarrow> be_bytes_u128 a @ be_bytes_u128 k)"

section \<open>Lemmas\<close>

declare bit_not_iff [word_bits]

lemma mask_16: "(0xFFFF :: u128) = mask 16"
  by (simp add: mask_eq_exp_minus_1)

lemma mapped_inverse: "to_ipv4_mapped (to_ipv6_mapped a) = Some a"
proof -
  have "drop_bit 32 (to_ipv6_mapped a) = 0xFFFF"
    unfolding to_ipv6_mapped_def mask_16 by (rule bit_word_eqI) (auto simp: word_bits)
  moreover have "ucast (to_ipv6_mapped a) = a"
    unfolding to_ipv6_mapped_def mask_16 by (rule bit_word_eqI) (auto simp: word_bits)
  ultimately show ?thesis by (simp add: to_ipv4_mapped_def)
qed

lemma mapped_eq_iff [simp]: "to_ipv6_mapped a = to_ipv6_mapped b \<longleftrightarrow> a = b"
  using mapped_inverse by (metis option.inject)

lemma mapped_unique: "to_ipv4_mapped r = Some a \<longleftrightarrow> r = to_ipv6_mapped a"
proof
  assume "to_ipv4_mapped r = Some a"
  then have r: "drop_bit 32 r = 0xFFFF" "ucast r = a" by (simp_all add: to_ipv4_mapped_def split: if_splits)
  have "r = push_bit 32 (drop_bit 32 r) OR ucast (ucast r :: u32)"
    by (rule bit_word_eqI) (auto simp: word_bits)
  with r show "r = to_ipv6_mapped a" by (simp add: to_ipv6_mapped_def)
qed (simp add: mapped_inverse)

text \<open>The mask of a prefix keeps the high bits.\<close>

lemma and_prefix_mask:
  fixes a b :: "'a::len word"
  shows "a AND push_bit k (- 1) = b AND push_bit k (- 1) \<longleftrightarrow> drop_bit k a = drop_bit k b"
proof
  assume eq: "a AND push_bit k (- 1) = b AND push_bit k (- 1)"
  show "drop_bit k a = drop_bit k b"
  proof (rule bit_word_eqI)
    fix n assume "n < LENGTH('a)"
    show "bit (drop_bit k a) n = bit (drop_bit k b) n"
    proof (cases "k + n < LENGTH('a)")
      case True
      have "bit (a AND push_bit k (- 1)) (k + n) = bit (b AND push_bit k (- 1)) (k + n)" using eq by simp
      with True show ?thesis by (simp add: word_bits)
    qed (simp add: word_bits bit_beyond_length)
  qed
next
  assume eq: "drop_bit k a = drop_bit k b"
  show "a AND push_bit k (- 1) = b AND push_bit k (- 1)"
  proof (rule bit_word_eqI)
    fix n assume "n < LENGTH('a)"
    have "bit (drop_bit k a) (n - k) = bit (drop_bit k b) (n - k)" using eq by simp
    then show "bit (a AND push_bit k (- 1)) n = bit (b AND push_bit k (- 1)) n"
      by (auto simp: word_bits)
  qed
qed

section \<open>Properties\<close>

text \<open>An address of either family, with the mapped addresses of the second read as the first.\<close>

definition canonical :: "ip_addr \<Rightarrow> ip_addr" where
  "canonical ip = (case ip of V4 a \<Rightarrow> V4 a | V6 a \<Rightarrow> (case to_ipv4_mapped a of Some b \<Rightarrow> V4 b | None \<Rightarrow> V6 a))"

text \<open>
  A list entry for a single address matches exactly the peers with that address, where an IPv4 address and the IPv6 address
  it is mapped to are the same, whichever form the entry and the connection use.
\<close>

theorem single_address_matches: "mask_matches (from_ip ip) remote \<longleftrightarrow> canonical ip = canonical remote"
proof -
  have "to_ipv4_mapped a = None \<Longrightarrow> to_ipv6_mapped b \<noteq> a" for a b using mapped_inverse by auto
  then show ?thesis
    by (auto simp: mask_matches_def from_ip_def canonical_def mapped_unique split: ip_addr.splits option.splits)
qed

text \<open>
  The mask of a prefix length matches the addresses of its family that agree with it on that many leading bits.
\<close>

theorem prefix_matches:
  assumes "mask_of_prefix (V4 a) p = Some m4" "mask_of_prefix (V6 b) q = Some m6"
  shows "(mask_matches m4 (V4 r) \<longleftrightarrow> drop_bit (32 - p) r = drop_bit (32 - p) a) \<and>
     (mask_matches m6 (V6 s) \<longleftrightarrow> drop_bit (128 - q) s = drop_bit (128 - q) b)"
proof -
  have nz: "push_bit k (- 1 :: 'a::len word) \<noteq> 0" if "k < LENGTH('a)" for k
  proof -
    have "bit (push_bit k (- 1 :: 'a word)) k" using that by (simp add: word_bits)
    then show ?thesis by (metis bit_0_eq bot_apply bot_bool_def)
  qed
  from assms have m: "m4 = Mask_V4 a (push_bit (32 - p) (- 1))" "8 \<le> p" "p \<le> 32"
      "m6 = Mask_V6 b (push_bit (128 - q) (- 1))" "8 \<le> q" "q \<le> 128"
    by (simp_all add: mask_of_prefix_def split: if_splits)
  have nz4: "push_bit (32 - p) (- 1 :: u32) \<noteq> 0" using m(2) by (intro nz) simp
  have nz6: "push_bit (128 - q) (- 1 :: u128) \<noteq> 0" using m(5) by (intro nz) simp
  have "mask_matches m4 (V4 r) \<longleftrightarrow> r AND push_bit (32 - p) (- 1) = a AND push_bit (32 - p) (- 1)"
    using m(1) nz4 by (auto simp: mask_matches_def)
  moreover have "mask_matches m6 (V6 s) \<longleftrightarrow> s AND push_bit (128 - q) (- 1) = b AND push_bit (128 - q) (- 1)"
    using m(4) nz6 by (auto simp: mask_matches_def)
  ultimately show ?thesis by (simp only: and_prefix_mask)
qed

theorem prefix_matches_witness:
  "mask_of_prefix (V4 0x0A000000) 8 = Some (Mask_V4 0x0A000000 (push_bit 24 (- 1))) \<and>
   mask_matches (Mask_V4 0x0A000000 (push_bit 24 (- 1))) (V4 0x0A010203)"
  using prefix_matches [of "0x0A000000" 8 "Mask_V4 0x0A000000 (push_bit 24 (- 1))" 0 8 "Mask_V6 0 (push_bit 120 (- 1))" "0x0A010203"]
  by (simp add: mask_of_prefix_def)

text \<open>
  The two kinds of IPv4 entries disagree on IPv6 peers: an entry with a prefix also matches the obsolete IPv4-compatible addresses, with 96 leading
  zero bits (the loopback address among them), which an entry for the single address does not.
\<close>

theorem compatible_address_divergence:
  fixes a :: u32
  shows "\<not> mask_matches (from_ip (V4 a)) (V6 (ucast a)) \<and> mask_matches (Mask_V4 a 0xFFFFFF00) (V6 (ucast a))"
proof -
  have "drop_bit 32 (ucast a :: u128) = 0" by (rule bit_word_eqI) (auto simp: word_bits)
  moreover have "ucast (ucast a :: u128) = a" by (rule bit_word_eqI) (auto simp: word_bits)
  ultimately show ?thesis by (simp add: mask_matches_def from_ip_def to_ipv4_mapped_def to_ipv4_def)
qed

end
