(* ===== verification/Acl.thy ===== *)
theory Acl
  imports Bitmap
begin

text \<open>
  Access rights and the grants of rights to accounts (\<^verbatim>\<open>crates/types/src/acl.rs\<close>). A set of rights is a bitmap over the
  rights; the interpretation of \<open>bitmap_item\<close> gives it the laws of sets.
\<close>

datatype acl =
  Acl_Read
| Acl_Modify
| Acl_Delete
| Acl_ReadItems
| Acl_AddItems
| Acl_ModifyItems
| Acl_RemoveItems
| Acl_CreateChild
| Acl_Share
| Acl_Submit
| Acl_SchedulingReadFreeBusy
| Acl_SchedulingInvite
| Acl_SchedulingReply
| Acl_ModifyItemsOwn
| Acl_ModifyPrivateProperties
| Acl_ModifyRSVP
| Acl_None

fun u64_from_acl :: "acl \<Rightarrow> u64" where
  "u64_from_acl Acl_Read = 0"
| "u64_from_acl Acl_Modify = 1"
| "u64_from_acl Acl_Delete = 2"
| "u64_from_acl Acl_ReadItems = 3"
| "u64_from_acl Acl_AddItems = 4"
| "u64_from_acl Acl_ModifyItems = 5"
| "u64_from_acl Acl_RemoveItems = 6"
| "u64_from_acl Acl_CreateChild = 7"
| "u64_from_acl Acl_Share = 8"
| "u64_from_acl Acl_Submit = 9"
| "u64_from_acl Acl_SchedulingReadFreeBusy = 10"
| "u64_from_acl Acl_SchedulingInvite = 11"
| "u64_from_acl Acl_SchedulingReply = 12"
| "u64_from_acl Acl_ModifyItemsOwn = 13"
| "u64_from_acl Acl_ModifyPrivateProperties = 14"
| "u64_from_acl Acl_ModifyRSVP = 15"
| "u64_from_acl Acl_None = 16"

definition acl_from_u64 :: "u64 \<Rightarrow> acl" where
  "acl_from_u64 v =
     (if v = 0 then Acl_Read
      else if v = 1 then Acl_Modify
      else if v = 2 then Acl_Delete
      else if v = 3 then Acl_ReadItems
      else if v = 4 then Acl_AddItems
      else if v = 5 then Acl_ModifyItems
      else if v = 6 then Acl_RemoveItems
      else if v = 7 then Acl_CreateChild
      else if v = 8 then Acl_Share
      else if v = 9 then Acl_Submit
      else if v = 10 then Acl_SchedulingReadFreeBusy
      else if v = 11 then Acl_SchedulingInvite
      else if v = 12 then Acl_SchedulingReply
      else if v = 13 then Acl_ModifyItemsOwn
      else if v = 14 then Acl_ModifyPrivateProperties
      else if v = 15 then Acl_ModifyRSVP
      else Acl_None)"

fun acl_as_str :: "acl \<Rightarrow> bytes" where
  "acl_as_str Acl_Read = ''read''"
| "acl_as_str Acl_Modify = ''modify''"
| "acl_as_str Acl_Delete = ''delete''"
| "acl_as_str Acl_ReadItems = ''readItems''"
| "acl_as_str Acl_AddItems = ''addItems''"
| "acl_as_str Acl_ModifyItems = ''modifyItems''"
| "acl_as_str Acl_RemoveItems = ''removeItems''"
| "acl_as_str Acl_CreateChild = ''createChild''"
| "acl_as_str Acl_Share = ''share''"
| "acl_as_str Acl_Submit = ''submit''"
| "acl_as_str Acl_SchedulingReadFreeBusy = ''schedulingReadFreeBusy''"
| "acl_as_str Acl_SchedulingInvite = ''schedulingInvite''"
| "acl_as_str Acl_SchedulingReply = ''schedulingReply''"
| "acl_as_str Acl_ModifyItemsOwn = ''modifyItemsOwn''"
| "acl_as_str Acl_ModifyPrivateProperties = ''modifyPrivateProperties''"
| "acl_as_str Acl_ModifyRSVP = ''modifyRSVP''"
| "acl_as_str Acl_None = ''''"

definition acl_max :: u64 where
  "acl_max = u64_from_acl Acl_None"

definition acl_is_valid :: "acl \<Rightarrow> bool" where
  "acl_is_valid a \<longleftrightarrow> a \<noteq> Acl_None"

record acl_grant =
  grant_account_id :: u32
  grants :: bitmap

lemma acl_from_u64_code: "acl_from_u64 (u64_from_acl a) = a"
  by (cases a) (simp_all add: acl_from_u64_def)

interpretation acls: bitmap_item u64_from_acl acl_from_u64 acl_is_valid
proof unfold_locales
  show "unat (u64_from_acl a) < 64" for a by (cases a) simp_all
qed (rule acl_from_u64_code)

lemma acl_as_str_inj: "acl_as_str a = acl_as_str b \<longleftrightarrow> a = b"
  by (cases a; cases b) simp_all

text \<open>The rights a bitmap holds.\<close>

abbreviation rights :: "bitmap \<Rightarrow> acl set" where
  "rights b \<equiv> bitmap_items u64_from_acl acl_is_valid b"

end
