(* ===== verification/AccessToken.thy ===== *)
theory AccessToken
  imports Permissions IpMask Acl Collections
begin

text \<open>
  Access tokens (\<^verbatim>\<open>crates/common/src/auth/access_token.rs\<close> and the types of \<^verbatim>\<open>auth/mod.rs\<close>): what an account may do and whose
  data it may see. A token points at one scope of the account, the first for the password and one more for
  every API key and application password. The lookups of roles, tenants and access lists, the clock and
  the hash of a secret are arguments. The rate limiters and the cache weight of a token are
  left out.
\<close>

section \<open>Data\<close>

record access_scope =
  scope_permissions :: permissions
  credential_id :: u32
  expires_at :: u64
  allowed_ips :: "ip_mask list"

record access_to =
  access_account_id :: u32
  access_collections :: bitmap

record access_token_inner =
  token_account_id :: u32
  token_tenant_id :: "u32 option"
  member_of :: "u32 list"
  access_list :: "access_to list"
  scopes :: "access_scope list"
  revision_account :: u64
  revision :: u64
  credential_version :: u64

record access_token =
  scope_idx :: nat
  inner :: access_token_inner

definition scope_new :: "permissions \<Rightarrow> u32 \<Rightarrow> access_scope" where
  "scope_new ps cid = \<lparr> scope_permissions = ps, credential_id = cid, expires_at = - 1, allowed_ips = [] \<rparr>"

abbreviation Authenticate :: permission where "Authenticate \<equiv> 0"
abbreviation AuthenticateWithAlias :: permission where "AuthenticateWithAlias \<equiv> 1"
abbreviation Impersonate :: permission where "Impersonate \<equiv> 3"
abbreviation EmailReceive :: permission where "EmailReceive \<equiv> 8"
abbreviation SysAccountPasswordGet :: permission where "SysAccountPasswordGet \<equiv> 224"
abbreviation SysAccountPasswordUpdate :: permission where "SysAccountPasswordUpdate \<equiv> 225"

section \<open>Building the token of an account\<close>

datatype 'e build_error = Fetch_failed 'e | Data_corruption | Panicked

record acl_item =
  to_account_id :: u32
  to_collection :: collection
  to_document_id :: u32
  item_permissions :: u64

definition item_collections :: "acl_item \<Rightarrow> bitmap" where
  "item_collections item =
     (let acl = item_permissions item; c = to_collection item;
          cs = (if bitmap_contains u64_from_acl acl Acl_Read then bitmap_insert u64_from_collection bitmap_new c else bitmap_new)
      in if bitmap_contains u64_from_acl acl Acl_ReadItems
         then (case child_collection c of Some child \<Rightarrow> bitmap_insert u64_from_collection cs child | None \<Rightarrow> cs)
         else cs)"

fun add_access :: "access_to list \<Rightarrow> u32 \<Rightarrow> bitmap \<Rightarrow> access_to list" where
  "add_access [] account cs = [\<lparr> access_account_id = account, access_collections = cs \<rparr>]"
| "add_access (a # as) account cs =
     (if access_account_id a = account
      then a \<lparr> access_collections := bitmap_union (access_collections a) cs \<rparr> # as
      else a # add_access as account cs)"

fun acl_items_loop ::
  "u32 \<Rightarrow> u32 list \<Rightarrow> bool \<Rightarrow> acl_item list \<Rightarrow> access_to list \<Rightarrow> 'e build_error + access_to list" where
  "acl_items_loop account_id groups can_impersonate [] access = Inr access"
| "acl_items_loop account_id groups can_impersonate (item # items) access =
     (if to_account_id item \<noteq> account_id \<and> to_account_id item \<notin> set groups \<and> \<not> can_impersonate then
        (if \<not> collection_is_valid (to_collection item) then Inl Data_corruption
         else
           (let cs = item_collections item
            in acl_items_loop account_id groups can_impersonate items
                 (if \<not> bitmap_is_empty cs then add_access access (to_account_id item) cs else access)))
      else acl_items_loop account_id groups can_impersonate items access)"

fun access_loop ::
  "(u32 \<Rightarrow> 'e + acl_item list) \<Rightarrow> u32 \<Rightarrow> u32 list \<Rightarrow> bool \<Rightarrow> u32 list \<Rightarrow> access_to list \<Rightarrow>
     'e build_error + access_to list" where
  "access_loop acl_query account_id groups can_impersonate [] access = Inr access"
| "access_loop acl_query account_id groups can_impersonate (g # gs) access =
     (case acl_query g of
        Inl e \<Rightarrow> Inl (Fetch_failed e)
      | Inr items \<Rightarrow>
          (case acl_items_loop account_id groups can_impersonate items access of
             Inl e \<Rightarrow> Inl e
           | Inr access' \<Rightarrow> access_loop acl_query account_id groups can_impersonate gs access'))"

datatype credential_permissions = Cred_Inherit | Cred_Disable "permission list" | Cred_Replace "permission list"

record secondary_credential =
  sec_credential_id :: u32
  sec_expires_at :: "u64 option"
  sec_permissions :: credential_permissions
  sec_allowed_ips :: "ip_mask list"

datatype credential =
  Password (pw_secret: bytes) (pw_expires_at: "u64 option") (pw_allowed_ips: "ip_mask list")
| AppPassword secondary_credential
| ApiKey secondary_credential

definition narrow_permissions :: "permissions \<Rightarrow> credential_permissions \<Rightarrow> permissions option" where
  "narrow_permissions ps cp =
     (case cp of
        Cred_Inherit \<Rightarrow> Some ps
      | Cred_Disable list \<Rightarrow> map_option (bitset_clear_many ps) (from_permission list)
      | Cred_Replace list \<Rightarrow> map_option (\<lambda>r. bitset_intersection r ps) (from_permission list))"

definition add_secondary :: "u64 \<Rightarrow> access_scope list \<Rightarrow> secondary_credential \<Rightarrow> access_scope list option" where
  "add_secondary now ss c =
     (let expires = (case sec_expires_at c of Some v \<Rightarrow> v | None \<Rightarrow> - 1)
      in if expires > now then
           (case narrow_permissions (scope_permissions (hd ss)) (sec_permissions c) of
              None \<Rightarrow> None
            | Some ps \<Rightarrow> Some (ss @ [\<lparr> scope_permissions = ps, credential_id = sec_credential_id c, expires_at = expires,
                allowed_ips = sec_allowed_ips c \<rparr>]))
         else Some ss)"

fun credentials_loop ::
  "(bytes \<Rightarrow> u64) \<Rightarrow> u64 \<Rightarrow> credential list \<Rightarrow> access_scope list \<Rightarrow> u64 \<Rightarrow> (access_scope list \<times> u64) option" where
  "credentials_loop xxh3_64 now [] ss version = Some (ss, version)"
| "credentials_loop xxh3_64 now (Password secret expires ips # cs) ss version =
     credentials_loop xxh3_64 now cs
       (if expires \<noteq> None \<or> ips \<noteq> []
        then (hd ss) \<lparr> expires_at := (case expires of Some v \<Rightarrow> v | None \<Rightarrow> - 1), allowed_ips := ips \<rparr> # tl ss
        else ss)
       (max (xxh3_64 secret) 1)"
| "credentials_loop xxh3_64 now (AppPassword c # cs) ss version =
     (case add_secondary now ss c of None \<Rightarrow> None | Some ss' \<Rightarrow> credentials_loop xxh3_64 now cs ss' version)"
| "credentials_loop xxh3_64 now (ApiKey c # cs) ss version =
     (case add_secondary now ss c of None \<Rightarrow> None | Some ss' \<Rightarrow> credentials_loop xxh3_64 now cs ss' version)"

datatype user_roles = Roles_User | Roles_Admin | Roles_Custom "u32 list"

record user_account =
  user_permissions :: permissions_setting
  user_roles :: user_roles
  user_tenant_id :: "u32 option"
  member_group_ids :: "u32 list"
  credentials :: "credential list"

record group_account =
  group_permissions :: permissions_setting
  group_role_ids :: "u32 list option"
  group_tenant_id :: "u32 option"

datatype account = User_account user_account | Group_account group_account

record security_config =
  default_role_ids_user :: "u32 list"
  default_role_ids_admin :: "u32 list"
  default_role_ids_tenant :: "u32 list"
  default_role_ids_group :: "u32 list"

definition user_role_ids :: "security_config \<Rightarrow> user_account \<Rightarrow> u32 list" where
  "user_role_ids cfg a =
     (case user_roles a of
        Roles_User \<Rightarrow> default_role_ids_user cfg
      | Roles_Admin \<Rightarrow> (if user_tenant_id a = None then default_role_ids_admin cfg else default_role_ids_tenant cfg)
      | Roles_Custom ids \<Rightarrow> ids)"

text \<open>The lookups and settings the server holds.\<close>

record 'e auth_env =
  env_role :: "u32 \<Rightarrow> 'e + role_cache"
  env_tenant :: "u32 \<Rightarrow> 'e + tenant_cache"
  env_enterprise :: bool
  env_user_group :: permissions_group
  env_acl_query :: "u32 \<Rightarrow> 'e + acl_item list"
  env_xxh3_64 :: "bytes \<Rightarrow> u64"
  env_now :: u64
  env_config :: security_config

definition env_effective ::
  "'e auth_env \<Rightarrow> permissions_setting \<Rightarrow> u32 list \<Rightarrow> u32 option \<Rightarrow> 'e build_error + permissions_group" where
  "env_effective env setting ids tenant_id =
     (case effective_permissions (env_role env) (env_tenant env) (env_enterprise env) (env_user_group env) setting ids tenant_id of
        Inl None \<Rightarrow> Inl Panicked
      | Inl (Some e) \<Rightarrow> Inl (Fetch_failed e)
      | Inr g \<Rightarrow> Inr g)"

definition build_user_token ::
  "'e auth_env \<Rightarrow> user_account \<Rightarrow> u32 \<Rightarrow> u64 \<Rightarrow> u64 \<Rightarrow> 'e build_error + access_token_inner" where
  "build_user_token env a account_id revno revno_account =
     (case env_effective env (user_permissions a) (user_role_ids (env_config env) a) (user_tenant_id a) of
        Inl e \<Rightarrow> Inl e
      | Inr g \<Rightarrow>
          (let can_impersonate = (bitset_get (enabled g) Impersonate = Some True \<and> bitset_get (disabled g) Impersonate = Some False);
               groups = member_group_ids a
           in case access_loop (env_acl_query env) account_id groups can_impersonate (account_id # groups) [] of
                Inl e \<Rightarrow> Inl e
              | Inr access \<Rightarrow>
                  (case credentials_loop (env_xxh3_64 env) (env_now env) (credentials a) [scope_new (group_finalize g) (- 1)] 0 of
                     None \<Rightarrow> Inl Panicked
                   | Some (ss, version) \<Rightarrow>
                       Inr \<lparr> token_account_id = account_id, token_tenant_id = user_tenant_id a, member_of = groups,
                             access_list = access, scopes = ss, revision_account = revno_account, revision = revno,
                             credential_version = version \<rparr>)))"

definition build_group_token ::
  "'e auth_env \<Rightarrow> group_account \<Rightarrow> u32 \<Rightarrow> u64 \<Rightarrow> u64 \<Rightarrow> 'e build_error + access_token_inner" where
  "build_group_token env a account_id revno revno_account =
     (case env_effective env (group_permissions a)
        (case group_role_ids a of Some ids \<Rightarrow> ids | None \<Rightarrow> default_role_ids_group (env_config env)) (group_tenant_id a) of
        Inl e \<Rightarrow> Inl e
      | Inr g \<Rightarrow>
          Inr \<lparr> token_account_id = account_id, token_tenant_id = group_tenant_id a, member_of = [], access_list = [],
                scopes = [scope_new (group_finalize g) (- 1)], revision_account = revno_account, revision = revno,
                credential_version = 0 \<rparr>)"

definition build_access_token ::
  "'e auth_env \<Rightarrow> account \<Rightarrow> u32 \<Rightarrow> u64 \<Rightarrow> u64 \<Rightarrow> 'e build_error + access_token_inner" where
  "build_access_token env a account_id revno revno_account =
     (case a of
        User_account u \<Rightarrow> build_user_token env u account_id revno revno_account
      | Group_account g \<Rightarrow> build_group_token env g account_id revno revno_account)"

section \<open>Using a token\<close>

datatype token_error = Unauthorized string | CredentialExpired | IpUnauthorized | MissingPermission permission

definition access_scope_of :: "access_token \<Rightarrow> access_scope option" where
  "access_scope_of t = (if scope_idx t < length (scopes (inner t)) then Some (scopes (inner t) ! scope_idx t) else None)"

text \<open>A permission is an index inside the array of every scope, so that the test of its bit does not panic.\<close>

definition has_permission :: "access_token \<Rightarrow> permission \<Rightarrow> bool" where
  "has_permission t p = (case access_scope_of t of None \<Rightarrow> False | Some s \<Rightarrow> bitset_get (scope_permissions s) p = Some True)"

definition downgraded_permissions :: "permission list" where
  "downgraded_permissions =
     [Authenticate, AuthenticateWithAlias, SysAccountPasswordGet, SysAccountPasswordUpdate, EmailReceive]"

fun downgrade_loop :: "permissions \<Rightarrow> permissions \<Rightarrow> permission list \<Rightarrow> permissions option" where
  "downgrade_loop old new [] = Some new"
| "downgrade_loop old new (p # ps) =
     (case bitset_get old p of
        None \<Rightarrow> None
      | Some b \<Rightarrow>
          if b then (case bitset_set new p of None \<Rightarrow> None | Some new' \<Rightarrow> downgrade_loop old new' ps)
          else downgrade_loop old new ps)"

definition downgrade :: "access_token \<Rightarrow> access_token option" where
  "downgrade t =
     (case scopes (inner t) of
        [] \<Rightarrow> Some t
      | s # ss \<Rightarrow>
          (case downgrade_loop (scope_permissions s) permissions_new downgraded_permissions of
             None \<Rightarrow> None
           | Some ps \<Rightarrow> Some (t \<lparr> inner := (inner t) \<lparr> scopes :=
               \<lparr> scope_permissions = ps, credential_id = credential_id s, expires_at = - 1, allowed_ips = allowed_ips s \<rparr> # ss \<rparr> \<rparr>)))"

text \<open>The result \<open>None\<close> stands for a panic.\<close>

definition assert_is_valid :: "u64 \<Rightarrow> ip_addr \<Rightarrow> access_token \<Rightarrow> (token_error + access_token) option" where
  "assert_is_valid now remote_ip t =
     (case access_scope_of t of
        None \<Rightarrow> Some (Inl (Unauthorized ''Credential not valid.''))
      | Some s \<Rightarrow>
          (let has_expired = (expires_at s \<le> now);
               is_valid_ip = (allowed_ips s = [] \<or> list_ex (\<lambda>m. mask_matches m remote_ip) (allowed_ips s));
               checked = (\<lambda>t. if is_valid_ip then Inr t else Inl IpUnauthorized)
           in if has_expired
              then (if scope_idx t > 0 then Some (Inl CredentialExpired) else map_option checked (downgrade t))
              else Some (checked t)))"

definition token_new :: "u64 \<Rightarrow> access_token_inner \<Rightarrow> ip_addr \<Rightarrow> (token_error + access_token) option" where
  "token_new now i remote_ip = assert_is_valid now remote_ip \<lparr> scope_idx = 0, inner = i \<rparr>"

definition new_maybe_invalid :: "access_token_inner \<Rightarrow> access_token" where
  "new_maybe_invalid i = \<lparr> scope_idx = 0, inner = i \<rparr>"

fun position :: "('a \<Rightarrow> bool) \<Rightarrow> 'a list \<Rightarrow> nat option" where
  "position P [] = None"
| "position P (x # xs) = (if P x then Some 0 else map_option Suc (position P xs))"

definition new_scoped :: "u64 \<Rightarrow> access_token_inner \<Rightarrow> u32 \<Rightarrow> ip_addr \<Rightarrow> (token_error + access_token) option" where
  "new_scoped now i cid remote_ip =
     (case position (\<lambda>s. credential_id s = cid) (scopes i) of
        None \<Rightarrow> Some (Inl (Unauthorized ''Credential expired or removed.''))
      | Some k \<Rightarrow> assert_is_valid now remote_ip \<lparr> scope_idx = k, inner = i \<rparr>)"

definition renew :: "u64 \<Rightarrow> access_token_inner \<Rightarrow> u32 option \<Rightarrow> ip_addr \<Rightarrow> (token_error + access_token) option" where
  "renew now i cid remote_ip =
     (case cid of
        Some c \<Rightarrow> new_scoped now i c remote_ip
      | None \<Rightarrow> assert_is_valid now remote_ip \<lparr> scope_idx = 0, inner = i \<rparr>)"

definition account_id :: "access_token \<Rightarrow> u32" where
  "account_id t = token_account_id (inner t)"

definition tenant_id :: "access_token \<Rightarrow> u32 option" where
  "tenant_id t = token_tenant_id (inner t)"

definition secondary_ids :: "access_token \<Rightarrow> u32 list" where
  "secondary_ids t = member_of (inner t) @ map access_account_id (access_list (inner t))"

definition member_ids :: "access_token \<Rightarrow> u32 list" where
  "member_ids t = token_account_id (inner t) # member_of (inner t)"

definition all_ids :: "access_token \<Rightarrow> u32 list" where
  "all_ids t = token_account_id (inner t) # member_of (inner t) @ map access_account_id (access_list (inner t))"

definition accessible_in :: "access_token \<Rightarrow> collection \<Rightarrow> u32 list" where
  "accessible_in t c =
     map access_account_id (filter (\<lambda>a. bitmap_contains u64_from_collection (access_collections a) c) (access_list (inner t)))"

definition all_ids_by_collection :: "access_token \<Rightarrow> collection \<Rightarrow> u32 list" where
  "all_ids_by_collection t c = token_account_id (inner t) # member_of (inner t) @ accessible_in t c"

definition is_member :: "access_token \<Rightarrow> u32 \<Rightarrow> bool" where
  "is_member t a \<longleftrightarrow> token_account_id (inner t) = a \<or> a \<in> set (member_of (inner t)) \<or> has_permission t Impersonate"

definition is_account_id :: "access_token \<Rightarrow> u32 \<Rightarrow> bool" where
  "is_account_id t a \<longleftrightarrow> token_account_id (inner t) = a"

definition token_credential_id :: "access_token \<Rightarrow> u32 option" where
  "token_credential_id t = map_option credential_id (access_scope_of t)"

definition token_revision :: "access_token \<Rightarrow> u64" where
  "token_revision t = revision (inner t)"

fun assert_has_permissions :: "access_token \<Rightarrow> permission list \<Rightarrow> token_error + access_token" where
  "assert_has_permissions t [] = Inr t"
| "assert_has_permissions t (p # ps) =
     (if \<not> has_permission t p then Inl (MissingPermission p) else assert_has_permissions t ps)"

definition assert_has_permission :: "access_token \<Rightarrow> permission \<Rightarrow> token_error + access_token" where
  "assert_has_permission t p = (if has_permission t p then Inr t else Inl (MissingPermission p))"

definition enforce_permission :: "access_token \<Rightarrow> permission \<Rightarrow> token_error + unit" where
  "enforce_permission t p = (if has_permission t p then Inr () else Inl (MissingPermission p))"

definition token_permissions :: "access_token \<Rightarrow> permission list" where
  "token_permissions t = (case access_scope_of t of Some s \<Rightarrow> build_permissions_list (scope_permissions s) | None \<Rightarrow> [])"

definition permissions_bits :: "access_token \<Rightarrow> permissions option" where
  "permissions_bits t =
     (case access_scope_of t of
        Some s \<Rightarrow> Some (scope_permissions s)
      | None \<Rightarrow> (case scopes (inner t) of [] \<Rightarrow> None | s # _ \<Rightarrow> Some (scope_permissions s)))"

definition account_permissions :: "access_token \<Rightarrow> permissions option" where
  "account_permissions t = (case scopes (inner t) of [] \<Rightarrow> None | s # _ \<Rightarrow> Some (scope_permissions s))"

definition can_grant_permissions :: "access_token \<Rightarrow> permissions \<Rightarrow> (permission list + unit) option" where
  "can_grant_permissions t requested = map_option (\<lambda>own. can_grant own requested) (permissions_bits t)"

definition is_shared :: "access_token \<Rightarrow> u32 \<Rightarrow> bool" where
  "is_shared t a \<longleftrightarrow> \<not> is_member t a \<and> list_ex (\<lambda>x. access_account_id x = a) (access_list (inner t))"

definition shared_accounts :: "access_token \<Rightarrow> collection \<Rightarrow> u32 list" where
  "shared_accounts t c = member_of (inner t) @ accessible_in t c"

definition has_access :: "access_token \<Rightarrow> u32 \<Rightarrow> collection \<Rightarrow> bool" where
  "has_access t a c \<longleftrightarrow>
     is_member t a \<or>
     list_ex (\<lambda>x. access_account_id x = a \<and> bitmap_contains u64_from_collection (access_collections x) c) (access_list (inner t))"

definition has_account_access :: "access_token \<Rightarrow> u32 \<Rightarrow> bool" where
  "has_account_access t a \<longleftrightarrow> is_member t a \<or> list_ex (\<lambda>x. access_account_id x = a) (access_list (inner t))"

definition RECOVERY_ADMIN_ID :: u32 where
  "RECOVERY_ADMIN_ID = - 1"

definition inner_from_id :: "u32 \<Rightarrow> access_token_inner" where
  "inner_from_id a = \<lparr> token_account_id = a, token_tenant_id = None, member_of = [], access_list = [], scopes = [],
     revision_account = 0, revision = 0, credential_version = 0 \<rparr>"

definition new_admin :: access_token where
  "new_admin = \<lparr> scope_idx = 0,
     inner = (inner_from_id RECOVERY_ADMIN_ID) \<lparr> scopes := [scope_new (bitset_all PERMISSIONS_BITSET_SIZE) (- 1)] \<rparr> \<rparr>"

definition from_permissions :: "u32 \<Rightarrow> permission list \<Rightarrow> access_token option" where
  "from_permissions a ps =
     map_option (\<lambda>s. \<lparr> scope_idx = 0, inner = (inner_from_id a) \<lparr> scopes := [scope_new s (- 1)] \<rparr> \<rparr>) (from_permission ps)"

section \<open>Scopes only narrow\<close>

definition scopes_wf :: "access_scope list \<Rightarrow> bool" where
  "scopes_wf ss \<longleftrightarrow> ss \<noteq> [] \<and>
     (\<forall>s \<in> set ss. length (scope_permissions s) = PERMISSIONS_BITSET_SIZE \<and>
        bits_of (scope_permissions s) \<subseteq> bits_of (scope_permissions (hd ss)))"

fun credential_valid :: "credential \<Rightarrow> bool" where
  "credential_valid (Password _ _ _) \<longleftrightarrow> True"
| "credential_valid (AppPassword c) \<longleftrightarrow> (case sec_permissions c of Cred_Inherit \<Rightarrow> True
     | Cred_Disable l \<Rightarrow> list_all (\<lambda>p. p < PERMISSION_COUNT) l | Cred_Replace l \<Rightarrow> list_all (\<lambda>p. p < PERMISSION_COUNT) l)"
| "credential_valid (ApiKey c) \<longleftrightarrow> (case sec_permissions c of Cred_Inherit \<Rightarrow> True
     | Cred_Disable l \<Rightarrow> list_all (\<lambda>p. p < PERMISSION_COUNT) l | Cred_Replace l \<Rightarrow> list_all (\<lambda>p. p < PERMISSION_COUNT) l)"

lemma narrow_permissions_ok:
  assumes "length ps = PERMISSIONS_BITSET_SIZE" "credential_valid (ApiKey c)"
  shows "\<exists>qs. narrow_permissions ps (sec_permissions c) = Some qs \<and> length qs = PERMISSIONS_BITSET_SIZE \<and>
     bits_of qs \<subseteq> bits_of ps"
proof (cases "sec_permissions c")
  case (Cred_Disable l)
  with assms from_permission_ok [of l] obtain r where
    "from_permission l = Some r" "length r = PERMISSIONS_BITSET_SIZE" by auto
  with Cred_Disable assms(1) show ?thesis by (auto simp: narrow_permissions_def bits_clear_many)
next
  case (Cred_Replace l)
  with assms from_permission_ok [of l] obtain r where
    "from_permission l = Some r" "length r = PERMISSIONS_BITSET_SIZE" by auto
  with Cred_Replace assms(1) show ?thesis by (auto simp: narrow_permissions_def bits_intersection)
qed (use assms in \<open>simp add: narrow_permissions_def\<close>)

lemma add_secondary_ok:
  assumes "scopes_wf ss" "credential_valid (ApiKey c)"
  shows "\<exists>ss'. add_secondary now ss c = Some ss' \<and> scopes_wf ss' \<and> scope_permissions (hd ss') = scope_permissions (hd ss)"
proof -
  from assms(1) obtain s ss1 where ss: "ss = s # ss1" "length (scope_permissions s) = PERMISSIONS_BITSET_SIZE"
    by (cases ss) (auto simp: scopes_wf_def)
  from narrow_permissions_ok [OF ss(2) assms(2)] assms(1) ss show ?thesis
    by (auto simp: add_secondary_def Let_def scopes_wf_def)
qed

lemma credentials_loop_ok:
  assumes "scopes_wf ss" "list_all credential_valid cs"
  shows "\<exists>ss' v. credentials_loop h now cs ss version = Some (ss', v) \<and> scopes_wf ss' \<and>
     scope_permissions (hd ss') = scope_permissions (hd ss)"
  using assms
proof (induction cs arbitrary: ss version)
  case (Cons c cs)
  show ?case
  proof (cases c)
    case (Password secret expires ips)
    let ?ss = "if expires \<noteq> None \<or> ips \<noteq> [] then (hd ss) \<lparr> expires_at := (case expires of Some v \<Rightarrow> v | None \<Rightarrow> - 1),
        allowed_ips := ips \<rparr> # tl ss else ss"
    have "scopes_wf ?ss" "scope_permissions (hd ?ss) = scope_permissions (hd ss)"
      using Cons.prems(1) by (cases ss; auto simp: scopes_wf_def)+
    with Cons.IH [of ?ss "max (h secret) 1"] Cons.prems(2) Password show ?thesis by simp
  next
    case (AppPassword d)
    with Cons.prems(2) have "credential_valid (ApiKey d)" by simp
    from add_secondary_ok [OF Cons.prems(1) this, of now] obtain ss' where
      "add_secondary now ss d = Some ss'" "scopes_wf ss'" "scope_permissions (hd ss') = scope_permissions (hd ss)" by blast
    with Cons.IH [of ss' version] Cons.prems(2) AppPassword show ?thesis by simp
  next
    case (ApiKey d)
    with Cons.prems(2) have "credential_valid (ApiKey d)" by simp
    from add_secondary_ok [OF Cons.prems(1) this, of now] obtain ss' where
      "add_secondary now ss d = Some ss'" "scopes_wf ss'" "scope_permissions (hd ss') = scope_permissions (hd ss)" by blast
    with Cons.IH [of ss' version] Cons.prems(2) ApiKey show ?thesis by simp
  qed
qed simp

definition env_wf :: "'e auth_env \<Rightarrow> bool" where
  "env_wf env \<longleftrightarrow> role_wf (env_role env) \<and> tenant_wf (env_tenant env) \<and> group_wf (env_user_group env)"

lemma env_effective_wf:
  "env_effective env setting ids tid = Inr g \<Longrightarrow> env_wf env \<Longrightarrow> setting_valid setting \<Longrightarrow> group_wf g"
  by (auto simp: env_effective_def env_wf_def split: sum.splits option.splits intro: effective_permissions_wf)

lemma scopes_wf_main: "group_wf g \<Longrightarrow> scopes_wf [scope_new (group_finalize g) c]"
  by (simp add: scopes_wf_def scope_new_def group_finalize_def group_wf_def)

lemma build_user_token_scopes:
  assumes "build_user_token env a i r r' = Inr t" "env_wf env" "setting_valid (user_permissions a)"
    and "list_all credential_valid (credentials a)"
  obtains g where "env_effective env (user_permissions a) (user_role_ids (env_config env) a) (user_tenant_id a) = Inr g"
    "scopes_wf (scopes t)" "scope_permissions (hd (scopes t)) = group_finalize g"
proof -
  from assms(1) obtain g ss v where
    g: "env_effective env (user_permissions a) (user_role_ids (env_config env) a) (user_tenant_id a) = Inr g"
      "credentials_loop (env_xxh3_64 env) (env_now env) (credentials a) [scope_new (group_finalize g) (- 1)] 0 = Some (ss, v)"
      "scopes t = ss"
    by (auto simp: build_user_token_def Let_def split: sum.splits option.splits prod.splits)
  have "scopes_wf [scope_new (group_finalize g) (- 1)]"
    using env_effective_wf [OF g(1) assms(2,3)] by (rule scopes_wf_main)
  from credentials_loop_ok [OF this assms(4), of "env_xxh3_64 env" "env_now env" 0] g that show thesis
    by (auto simp: scope_new_def)
qed

section \<open>Who is shared with whom\<close>

abbreviation collections_in :: "bitmap \<Rightarrow> collection set" where
  "collections_in b \<equiv> bitmap_items u64_from_collection collection_is_valid b"

definition access_pairs :: "access_to list \<Rightarrow> (u32 \<times> collection) set" where
  "access_pairs as = {(x, c). \<exists>a \<in> set as. access_account_id a = x \<and> c \<in> collections_in (access_collections a)}"

text \<open>An item of an access list gives its grantee a collection of the owner: the one it names, for the right to read it, and its items, for the right to read these.\<close>

definition item_grants :: "acl_item \<Rightarrow> u32 \<Rightarrow> collection \<Rightarrow> bool" where
  "item_grants item x c \<longleftrightarrow> to_account_id item = x \<and>
     (Acl_Read \<in> rights (item_permissions item) \<and> c = to_collection item \<or>
      Acl_ReadItems \<in> rights (item_permissions item) \<and> child_collection (to_collection item) = Some c)"

lemma child_valid: "child_collection c = Some d \<Longrightarrow> collection_is_valid d"
  by (cases c) (auto simp: collection_is_valid_def)

lemma item_collections_items:
  assumes "collection_is_valid (to_collection item)"
  shows "collections_in (item_collections item) = {c. item_grants item (to_account_id item) c}"
proof -
  have acl: "bitmap_contains u64_from_acl b Acl_Read \<longleftrightarrow> Acl_Read \<in> rights b"
    "bitmap_contains u64_from_acl b Acl_ReadItems \<longleftrightarrow> Acl_ReadItems \<in> rights b" for b
    by (simp_all add: acls.contains_iff acl_is_valid_def)
  show ?thesis
    using assms child_valid [of "to_collection item"]
    by (cases "child_collection (to_collection item)")
      (auto simp: item_collections_def Let_def acl item_grants_def collection_items.items_insert collection_items.items_new)
qed

lemma add_access_pairs: "access_pairs (add_access as x cs) = access_pairs as \<union> {x} \<times> collections_in cs"
  by (induction as) (auto simp: access_pairs_def collection_items.items_union)

lemma empty_collections: "bitmap_is_empty b \<Longrightarrow> collections_in b = {}"
  using collection_items.items_new by (simp add: bitmap_is_empty_def bitmap_new_def)

lemma acl_items_loop_pairs:
  assumes "(acl_items_loop i groups False items access :: 'e build_error + access_to list) = Inr access'"
  shows "access_pairs access' = access_pairs access \<union>
     {(x, c). x \<noteq> i \<and> x \<notin> set groups \<and> (\<exists>item \<in> set items. item_grants item x c)}"
  using assms
proof (induction items arbitrary: access)
  case (Cons item items)
  show ?case
  proof (cases "to_account_id item \<noteq> i \<and> to_account_id item \<notin> set groups")
    case True
    with Cons.prems have valid: "collection_is_valid (to_collection item)" by (auto split: if_splits)
    let ?cs = "item_collections item"
    let ?a = "if \<not> bitmap_is_empty ?cs then add_access access (to_account_id item) ?cs else access"
    have "access_pairs ?a = access_pairs access \<union> {to_account_id item} \<times> collections_in ?cs"
      using empty_collections [of ?cs] by (simp add: add_access_pairs)
    also have "{to_account_id item} \<times> collections_in ?cs = {(x, c). item_grants item x c}"
      unfolding item_collections_items [OF valid] by (auto simp: item_grants_def)
    finally have a: "access_pairs ?a = access_pairs access \<union> {(x, c). item_grants item x c}" .
    from Cons.prems True valid have
      "(acl_items_loop i groups False items ?a :: 'e build_error + access_to list) = Inr access'" by (simp add: Let_def)
    from Cons.IH [OF this] a True show ?thesis by (auto simp: item_grants_def)
  next
    case False
    with Cons.prems have
      "(acl_items_loop i groups False items access :: 'e build_error + access_to list) = Inr access'" by auto
    from Cons.IH [OF this] False show ?thesis by (auto simp: item_grants_def)
  qed
qed simp

lemma access_loop_pairs:
  fixes q :: "u32 \<Rightarrow> 'e + acl_item list"
  assumes "access_loop q i groups False gs access = Inr access'"
  shows "access_pairs access' = access_pairs access \<union>
     {(x, c). x \<noteq> i \<and> x \<notin> set groups \<and> (\<exists>g \<in> set gs. \<exists>items. q g = Inr items \<and> (\<exists>item \<in> set items. item_grants item x c))}"
  using assms
proof (induction gs arbitrary: access)
  case (Cons g gs)
  then obtain items access1 where q: "q g = Inr items"
    "(acl_items_loop i groups False items access :: 'e build_error + access_to list) = Inr access1"
    "access_loop q i groups False gs access1 = Inr access'" by (auto split: sum.splits)
  from Cons.IH [OF q(3)] acl_items_loop_pairs [OF q(2)] q(1) show ?case by auto
qed simp

lemma has_permission_main:
  assumes "scopes_wf (scopes t)" "p < PERMISSION_COUNT"
  shows "has_permission (new_maybe_invalid t) p \<longleftrightarrow> p \<in> bits_of (scope_permissions (hd (scopes t)))"
proof -
  from assms(1) obtain s ss where s: "scopes t = s # ss" "length (scope_permissions s) = PERMISSIONS_BITSET_SIZE"
    by (cases "scopes t") (auto simp: scopes_wf_def)
  with bitset.test_ok [OF s(2) permission_in_capacity [OF assms(2)]] show ?thesis
    by (simp add: has_permission_def access_scope_of_def new_maybe_invalid_def)
qed

lemma has_access_pairs:
  assumes "collection_is_valid c"
  shows "has_access t x c \<longleftrightarrow> is_member t x \<or> (x, c) \<in> access_pairs (access_list (inner t))"
  using collection_items.contains_iff [OF assms]
  by (auto simp: has_access_def access_pairs_def list_ex_iff)

section \<open>Expired credentials\<close>

lemma downgrade_loop_ok:
  assumes "length old = PERMISSIONS_BITSET_SIZE" "length new = PERMISSIONS_BITSET_SIZE"
    and "list_all (\<lambda>p. p < PERMISSION_COUNT) ps"
  shows "\<exists>new'. downgrade_loop old new ps = Some new' \<and> length new' = PERMISSIONS_BITSET_SIZE \<and>
     bits_of new' = bits_of new \<union> (set ps \<inter> bits_of old)"
  using assms(2,3)
proof (induction ps arbitrary: new)
  case (Cons p ps)
  then have p: "p < 64 * PERMISSIONS_BITSET_SIZE" by (simp add: permission_in_capacity)
  note get = bitset.test_ok [OF assms(1) p]
  from bitset.add_ok [OF Cons.prems(1) p] obtain new1 where
    add: "bitset_set new p = Some new1" "length new1 = PERMISSIONS_BITSET_SIZE" "bits_of new1 = insert p (bits_of new)" by blast
  show ?case
  proof (cases "p \<in> bits_of old")
    case True
    with get add Cons.IH [OF add(2)] Cons.prems(2) show ?thesis by auto
  next
    case False
    with get Cons.IH [OF Cons.prems(1)] Cons.prems(2) show ?thesis by auto
  qed
qed simp

lemma downgraded_valid: "list_all (\<lambda>p. p < PERMISSION_COUNT) downgraded_permissions"
  by (simp add: downgraded_permissions_def PERMISSION_COUNT_def)

lemma downgrade_ok:
  assumes "scopes_wf (scopes (inner t))" "scope_idx t = 0"
  obtains t' where "downgrade t = Some t'" "account_id t' = account_id t" "member_ids t' = member_ids t"
    "tl (scopes (inner t')) = tl (scopes (inner t))"
    "\<And>p. p < PERMISSION_COUNT \<Longrightarrow> has_permission t' p \<longleftrightarrow> has_permission t p \<and> p \<in> set downgraded_permissions"
proof -
  from assms(1) obtain s ss where s: "scopes (inner t) = s # ss" "length (scope_permissions s) = PERMISSIONS_BITSET_SIZE"
    by (cases "scopes (inner t)") (auto simp: scopes_wf_def)
  have "length permissions_new = PERMISSIONS_BITSET_SIZE" "bits_of permissions_new = {}"
    by (simp_all add: permissions_new_def)
  with downgrade_loop_ok [OF s(2) _ downgraded_valid, of permissions_new] obtain ps where
    ps: "downgrade_loop (scope_permissions s) permissions_new downgraded_permissions = Some ps"
      "length ps = PERMISSIONS_BITSET_SIZE" "bits_of ps = set downgraded_permissions \<inter> bits_of (scope_permissions s)" by auto
  let ?t = "t \<lparr> inner := (inner t) \<lparr> scopes :=
     \<lparr> scope_permissions = ps, credential_id = credential_id s, expires_at = - 1, allowed_ips = allowed_ips s \<rparr> # ss \<rparr> \<rparr>"
  show thesis
  proof (rule that [of ?t])
    show "has_permission ?t p \<longleftrightarrow> has_permission t p \<and> p \<in> set downgraded_permissions" if "p < PERMISSION_COUNT" for p
      using bitset.test_ok [OF s(2) permission_in_capacity [OF that]] bitset.test_ok [OF ps(2) permission_in_capacity [OF that]]
        assms(2) s(1) ps(3) by (auto simp: has_permission_def access_scope_of_def)
  qed (simp_all add: downgrade_def s ps account_id_def member_ids_def)
qed

section \<open>Properties\<close>

text \<open>
  C1: no credential of an account has more permissions than the account itself: in the token built for a user, the permissions of the
  first scope are the effective permissions of the account, and every other scope, of an API key or an
  application password, has a subset of them, also when the credential lists its own permissions.
\<close>

theorem credential_scopes_narrow:
  assumes "build_user_token env a i r r' = Inr t" "env_wf env" "setting_valid (user_permissions a)"
    and "list_all credential_valid (credentials a)"
  shows "\<exists>g. env_effective env (user_permissions a) (user_role_ids (env_config env) a) (user_tenant_id a) = Inr g \<and>
     scopes t \<noteq> [] \<and> bits_of (scope_permissions (hd (scopes t))) = granted g \<and>
     (\<forall>s \<in> set (scopes t). bits_of (scope_permissions s) \<subseteq> granted g)"
  using build_user_token_scopes [OF assms] by (metis granted_def scopes_wf_def)

definition sample_env :: "unit auth_env" where
  "sample_env = \<lparr> env_role = (\<lambda>_. Inl ()), env_tenant = (\<lambda>_. Inl ()), env_enterprise = False, env_user_group = group_default,
     env_acl_query = (\<lambda>g. Inr (if g = 7 then [\<lparr> to_account_id = 9, to_collection = Collection_Calendar, to_document_id = 0,
       item_permissions = 1 \<rparr>] else [])), env_xxh3_64 = (\<lambda>_. 1), env_now = 5,
     env_config = \<lparr> default_role_ids_user = [], default_role_ids_admin = [], default_role_ids_tenant = [],
       default_role_ids_group = [] \<rparr> \<rparr>"

definition sample_user :: user_account where
  "sample_user = \<lparr> user_permissions = Inherit, user_roles = Roles_User, user_tenant_id = None, member_group_ids = [7],
     credentials = [ApiKey \<lparr> sec_credential_id = 2, sec_expires_at = None, sec_permissions = Cred_Replace [3], sec_allowed_ips = [] \<rparr>] \<rparr>"

lemma sample_env_wf: "env_wf sample_env" "setting_valid (user_permissions sample_user)"
    "list_all credential_valid (credentials sample_user)"
  by (simp_all add: sample_env_def sample_user_def env_wf_def role_wf_def tenant_wf_def setting_valid_def PERMISSION_COUNT_def)

lemma sample_effective: "env_effective sample_env Inherit [] None = Inr group_default"
  by (simp add: env_effective_def effective_permissions_def base_permissions_def maybe_add_roles_def limit_to_tenant_def)

lemma sample_access_loop:
  "(access_loop (env_acl_query sample_env) 4 [7] b [4, 7] [] :: unit build_error + access_to list) \<noteq> Inl e"
  by (simp add: sample_env_def Let_def collection_is_valid_def)

lemma sample_token: "\<exists>t. build_user_token sample_env sample_user 4 0 0 = Inr t"
proof -
  obtain ss v where c: "credentials_loop (env_xxh3_64 sample_env) (env_now sample_env) (credentials sample_user)
      [scope_new (group_finalize group_default) (- 1)] 0 = Some (ss, v)"
    using credentials_loop_ok [OF scopes_wf_main [OF group_wf_default] sample_env_wf(3)] by metis
  have u: "user_role_ids (env_config sample_env) sample_user = []"
    by (simp add: user_role_ids_def sample_user_def sample_env_def)
  have f: "user_permissions sample_user = Inherit" "user_tenant_id sample_user = None" "member_group_ids sample_user = [7]"
    by (simp_all add: sample_user_def)
  have "\<exists>access. access_loop (env_acl_query sample_env) 4 [7] b [4, 7] [] = (Inr access :: unit build_error + access_to list)" for b
    using sample_access_loop [of b] by (cases "access_loop (env_acl_query sample_env) 4 [7] b [4, 7] [] :: unit build_error + access_to list") simp_all
  then obtain access where a: "access_loop (env_acl_query sample_env) 4 [7]
      (bitset_get (enabled group_default) Impersonate = Some True \<and> bitset_get (disabled group_default) Impersonate = Some False)
      [4, 7] [] = (Inr access :: unit build_error + access_to list)"
    by blast
  show ?thesis
    unfolding build_user_token_def Let_def u f sample_effective by (simp add: a c del: access_loop.simps)
qed

theorem credential_scopes_narrow_witness:
  "\<exists>t. build_user_token sample_env sample_user 4 0 0 = Inr t \<and> scopes t \<noteq> [] \<and>
     (\<forall>s \<in> set (scopes t). bits_of (scope_permissions s) \<subseteq> bits_of (scope_permissions (hd (scopes t))))"
  using sample_token credential_scopes_narrow [OF _ sample_env_wf] by metis

text \<open>
  C9: the data of other accounts that a token reaches is exactly what was shared. For an account that may not impersonate, the token
  built for it has access to a collection of an account if and only if the account is its own, or is a group it belongs to, or the access lists hold an item that gives it
  or one of its groups the right to read the collection or the items of its parent collection.
\<close>

theorem access_is_what_was_shared:
  assumes "build_user_token env a i r r' = Inr t" "env_wf env" "setting_valid (user_permissions a)"
    and "list_all credential_valid (credentials a)"
    and "\<not> has_permission (new_maybe_invalid t) Impersonate" "collection_is_valid c"
  shows "has_access (new_maybe_invalid t) x c \<longleftrightarrow>
     x = i \<or> x \<in> set (member_group_ids a) \<or>
     (\<exists>g \<in> insert i (set (member_group_ids a)). \<exists>items. env_acl_query env g = Inr items \<and>
        (\<exists>item \<in> set items. item_grants item x c))"
proof -
  obtain g where g: "env_effective env (user_permissions a) (user_role_ids (env_config env) a) (user_tenant_id a) = Inr g"
    "scopes_wf (scopes t)" "scope_permissions (hd (scopes t)) = group_finalize g"
    using build_user_token_scopes [OF assms(1-4)] .
  have "Impersonate \<notin> granted g"
    using has_permission_main [OF g(2), of Impersonate] g(3) assms(5) by (simp add: granted_def PERMISSION_COUNT_def)
  with env_effective_wf [OF g(1) assms(2,3)] have
    imp: "\<not> (bitset_get (enabled g) Impersonate = Some True \<and> bitset_get (disabled g) Impersonate = Some False)"
    using bitset.test_ok [OF _ permission_in_capacity, of _ Impersonate]
    by (auto simp: granted_eq group_wf_def PERMISSION_COUNT_def)
  from assms(1) g(1) imp have
    t: "access_loop (env_acl_query env) i (member_group_ids a) False (i # member_group_ids a) [] = Inr (access_list t)"
      "token_account_id t = i" "member_of t = member_group_ids a"
    by (auto simp: build_user_token_def Let_def simp del: access_loop.simps split: sum.splits option.splits prod.splits)
  have "is_member (new_maybe_invalid t) x \<longleftrightarrow> x = i \<or> x \<in> set (member_group_ids a)"
    using assms(5) t(2,3) by (auto simp: is_member_def new_maybe_invalid_def)
  moreover have "(x, c) \<in> access_pairs (access_list t) \<longleftrightarrow> x \<noteq> i \<and> x \<notin> set (member_group_ids a) \<and>
      (\<exists>g \<in> insert i (set (member_group_ids a)). \<exists>items. env_acl_query env g = Inr items \<and> (\<exists>item \<in> set items. item_grants item x c))"
    using access_loop_pairs [OF t(1)] by (simp add: access_pairs_def [of "[]"])
  moreover have "inner (new_maybe_invalid t) = t" by (simp add: new_maybe_invalid_def)
  ultimately show ?thesis using has_access_pairs [OF assms(6), of "new_maybe_invalid t" x] by auto
qed

theorem access_is_what_was_shared_witness:
  "\<exists>t. build_user_token sample_env sample_user 4 0 0 = Inr t \<and> \<not> has_permission (new_maybe_invalid t) Impersonate \<and>
     has_access (new_maybe_invalid t) 9 Collection_Calendar \<and> \<not> has_access (new_maybe_invalid t) 9 Collection_AddressBook"
proof -
  obtain t where t: "build_user_token sample_env sample_user 4 0 0 = Inr t" using sample_token by blast
  obtain g where g: "env_effective sample_env (user_permissions sample_user) (user_role_ids (env_config sample_env) sample_user)
      (user_tenant_id sample_user) = Inr g" "scopes_wf (scopes t)" "scope_permissions (hd (scopes t)) = group_finalize g"
    using build_user_token_scopes [OF t sample_env_wf] .
  have "g = group_default"
    using g(1) sample_effective by (simp add: sample_user_def user_role_ids_def) (simp add: sample_env_def)
  then have imp: "\<not> has_permission (new_maybe_invalid t) Impersonate"
    using has_permission_main [OF g(2), of Impersonate] g(3) granted_eq [of group_default]
    by (simp add: granted_def PERMISSION_COUNT_def) (simp add: group_default_def permissions_new_def)
  have "Acl_Read \<in> rights 1" "Acl_ReadItems \<notin> rights 1"
    by (simp_all add: bitmap_items_def acl_is_valid_def)
  with access_is_what_was_shared [OF t sample_env_wf imp, of Collection_Calendar 9]
    access_is_what_was_shared [OF t sample_env_wf imp, of Collection_AddressBook 9] t imp
  show ?thesis
    by (auto simp: collection_is_valid_def sample_env_def sample_user_def item_grants_def)
qed

text \<open>
  C13: the check of a token before it is used covers every case and never panics. A credential that is gone is refused; an expired key or
  application password is refused; an address outside the allowed ones is refused. A token whose credential has not expired
  passes unchanged, and one whose main password has expired passes with the same identity and only those of its permissions that serve to change the password.
\<close>

theorem token_check_complete:
  assumes "scopes_wf (scopes (inner t))"
  shows "\<exists>r. assert_is_valid now ip t = Some r \<and>
     (case access_scope_of t of
        None \<Rightarrow> \<exists>m. r = Inl (Unauthorized m)
      | Some s \<Rightarrow>
          if expires_at s \<le> now \<and> 0 < scope_idx t then r = Inl CredentialExpired
          else if allowed_ips s \<noteq> [] \<and> (\<forall>m \<in> set (allowed_ips s). \<not> mask_matches m ip) then r = Inl IpUnauthorized
          else if now < expires_at s then r = Inr t
          else \<exists>t'. r = Inr t' \<and> account_id t' = account_id t \<and> member_ids t' = member_ids t \<and>
             (\<forall>p < PERMISSION_COUNT. has_permission t' p \<longleftrightarrow> has_permission t p \<and> p \<in> set downgraded_permissions))"
proof (cases "access_scope_of t")
  case (Some s)
  show ?thesis
  proof (cases "expires_at s \<le> now \<and> scope_idx t = 0")
    case True
    from downgrade_ok [OF assms] True obtain t' where "downgrade t = Some t'" "account_id t' = account_id t" "member_ids t' = member_ids t"
      "\<And>p. p < PERMISSION_COUNT \<Longrightarrow> has_permission t' p \<longleftrightarrow> has_permission t p \<and> p \<in> set downgraded_permissions"
      by metis
    with Some True show ?thesis by (auto simp: assert_is_valid_def Let_def list_ex_iff)
  next
    case False
    with Some show ?thesis by (auto simp: assert_is_valid_def Let_def list_ex_iff)
  qed
qed (simp add: assert_is_valid_def)

definition expired_token :: access_token where
  "expired_token = new_admin \<lparr> inner := (inner new_admin) \<lparr> scopes := [(scope_new (bitset_all PERMISSIONS_BITSET_SIZE) 4) \<lparr> expires_at := 4 \<rparr>] \<rparr> \<rparr>"

theorem token_check_complete_witness:
  "scopes_wf (scopes (inner expired_token)) \<and>
   (\<exists>t. assert_is_valid 5 (V4 0) expired_token = Some (Inr t) \<and> has_permission t Authenticate \<and> \<not> has_permission t Impersonate)"
proof -
  have wf: "scopes_wf (scopes (inner expired_token))"
    by (simp add: expired_token_def scopes_wf_def scope_new_def)
  have all: "has_permission expired_token p" if "p < PERMISSION_COUNT" for p
    using bitset.test_ok [OF _ permission_in_capacity [OF that], of "bitset_all PERMISSIONS_BITSET_SIZE"] permission_in_capacity [OF that]
    by (simp add: has_permission_def access_scope_of_def expired_token_def new_admin_def scope_new_def bits_all)
  have p: "Authenticate < PERMISSION_COUNT" "Impersonate < PERMISSION_COUNT" "Authenticate \<in> set downgraded_permissions"
    "Impersonate \<notin> set downgraded_permissions"
    by (simp_all add: PERMISSION_COUNT_def downgraded_permissions_def)
  have s: "access_scope_of expired_token = Some ((scope_new (bitset_all PERMISSIONS_BITSET_SIZE) 4) \<lparr> expires_at := 4 \<rparr>)"
    "scope_idx expired_token = 0"
    by (simp_all add: access_scope_of_def expired_token_def new_admin_def)
  show ?thesis
    using token_check_complete [OF wf, of 5 "V4 0"] wf all p by (auto simp: s scope_new_def)
qed

end
