(* ===== verification/JmapId.thy ===== *)
theory JmapId
  imports Base32 Bitmap
begin

text \<open>
  JMAP identifiers (\<^verbatim>\<open>crates/types/src/id.rs\<close>): a 64-bit number, printed in the
  server's base-32 alphabet without leading zeros and read back from it. The
  printer keeps a stop bit below the digits that are left and runs until the stop
  bit reaches bit 60; nothing in its text bounds the loop, so the model
  has it as a partial function, whose value \<open>None\<close> would mean that it does
  not return.
\<close>

type_synonym id = u64

definition id_default :: id where
  "id_default = - 1"

fun from_str_loop :: "bytes \<Rightarrow> u64 \<Rightarrow> unit + id" where
  "from_str_loop [] i = Inr i"
| "from_str_loop (ch # cs) i =
     (let d = inverse_of ch in if d \<noteq> 255 then from_str_loop cs (push_bit 5 i OR ucast d) else Inl ())"

definition id_from_str :: "bytes \<Rightarrow> unit + id" where
  "id_from_str s = from_str_loop s 0"

definition id_new :: "u64 \<Rightarrow> id" where
  "id_new i = i"

definition id_singleton :: id where
  "id_singleton = id_new 20080258862541"

definition STOP_BIT :: u64 where
  "STOP_BIT = push_bit 60 1"

partial_function (option) as_string_loop :: "u64 \<Rightarrow> bytes \<Rightarrow> bytes option" where
  "as_string_loop n buf =
     (if n \<noteq> STOP_BIT
      then as_string_loop (push_bit 5 n) (buf @ [BASE32_ALPHABET ! unat (drop_bit 59 n)])
      else Some buf)"

definition id_as_string :: "id \<Rightarrow> bytes option" where
  "id_as_string i =
     (if i = 0 then Some ''a''
      else
        (let top = drop_bit 60 i; n = push_bit 4 i OR 1
         in if top = 0 then as_string_loop (push_bit (leading_zeros n div 5 * 5) n) []
            else as_string_loop n [BASE32_ALPHABET ! unat top]))"

definition id_from_parts :: "u32 \<Rightarrow> u32 \<Rightarrow> id" where
  "id_from_parts prefix_id doc_id = push_bit 32 (ucast prefix_id) OR ucast doc_id"

definition id_id :: "id \<Rightarrow> u64" where
  "id_id i = i"

definition document_id :: "id \<Rightarrow> u32" where
  "document_id i = ucast i"

definition prefix_id :: "id \<Rightarrow> u32" where
  "prefix_id i = ucast (drop_bit 32 i)"

definition id_is_singleton :: "id \<Rightarrow> bool" where
  "id_is_singleton i \<longleftrightarrow> i = 20080258862541"

definition id_is_valid :: "id \<Rightarrow> bool" where
  "id_is_valid i \<longleftrightarrow> i \<noteq> - 1"

section \<open>The digits of an identifier\<close>

definition digit :: "nat \<Rightarrow> u64 \<Rightarrow> u64" where
  "digit k v = take_bit 5 (drop_bit (55 - 5 * k) v)"

abbreviation digit_text :: "nat list \<Rightarrow> u64 \<Rightarrow> bytes" where
  "digit_text ks v \<equiv> map (\<lambda>k. BASE32_ALPHABET ! unat (digit k v)) ks"

definition shifted :: "nat \<Rightarrow> u64 \<Rightarrow> u64" where
  "shifted k v = push_bit (5 * k) (push_bit 4 v OR 1)"

lemma bit_shifted:
  "bit (shifted k v) i \<longleftrightarrow>
     i < 64 \<and> (i = 5 * k \<or> (5 * k + 4 \<le> i \<and> bit v (i - (5 * k + 4))))"
  by (auto simp: shifted_def word_bits bit_exp_iff)

lemma bit_STOP_BIT: "bit STOP_BIT i \<longleftrightarrow> i = 60"
  unfolding STOP_BIT_def push_bit_of_1 by (subst bit_exp_iff) auto

lemma shifted_stop: "k \<le> 12 \<Longrightarrow> shifted k v = STOP_BIT \<longleftrightarrow> k = 12"
proof
  assume "shifted k v = STOP_BIT" and "k \<le> 12"
  then have "bit STOP_BIT (5 * k)" using bit_shifted [of k v "5 * k"] by auto
  then show "k = 12" by (simp add: bit_STOP_BIT)
next
  assume "k = 12"
  then show "shifted k v = STOP_BIT"
    by (intro bit_word_eqI) (auto simp: bit_shifted bit_STOP_BIT)
qed

lemma shifted_Suc: "push_bit 5 (shifted k v) = shifted (Suc k) v"
  by (rule bit_word_eqI) (auto simp: bit_shifted word_bits)

lemma shifted_digit: "k < 12 \<Longrightarrow> drop_bit 59 (shifted k v) = digit k v"
  by (rule bit_word_eqI) (auto simp: bit_shifted digit_def word_bits intro!: arg_cong [where f = "bit v"])

lemma as_string_loop_shifted:
  "k \<le> 12 \<Longrightarrow> as_string_loop (shifted k v) buf = Some (buf @ digit_text [k..<12] v)"
proof (induction "12 - k" arbitrary: k buf)
  case 0
  then have "k = 12" by simp
  then show ?case by (subst as_string_loop.simps) (simp add: shifted_stop)
next
  case (Suc d)
  then have "[k..<12] = k # [Suc k..<12]" by (simp add: upt_conv_Cons)
  moreover have "as_string_loop (shifted (Suc k) v) b = Some (b @ digit_text [Suc k..<12] v)" for b
    using Suc by (intro Suc.hyps(1)) simp_all
  ultimately show ?case using Suc.hyps(2) Suc.prems
    by (simp add: as_string_loop.simps [of "shifted k v"] shifted_stop shifted_Suc shifted_digit)
qed

section \<open>Reading the digits back\<close>

lemma digit_range: "unat (digit k v) < 32"
proof -
  have "unat (digit k v) < 2 ^ 5" by (rule unat_bound_of_bit) (auto simp: digit_def word_bits)
  then show ?thesis by simp
qed

lemma inverse_digit:
  assumes "unat (d :: u64) < 32"
  shows "inverse_of (BASE32_ALPHABET ! unat d) = ucast d" and "(ucast d :: u8) \<noteq> 255"
    and "ucast (ucast d :: u8) = d"
proof -
  have bits: "bit d i \<Longrightarrow> i < 5" for i using assms bit_bound_of_unat [of d 5 i] by simp
  show "ucast (ucast d :: u8) = d"
    by (rule bit_word_eqI) (use bits in \<open>force simp: word_bits\<close>)
  have u: "unat (ucast d :: u8) = unat d"
    using assms by (simp add: unsigned_ucast_eq take_bit_nat_eq_self)
  with assms inverse_alphabet [of "ucast d"] show "inverse_of (BASE32_ALPHABET ! unat d) = ucast d" by simp
  show "(ucast d :: u8) \<noteq> 255" using u assms by auto
qed

lemma join_low_5:
  "push_bit 5 (drop_bit (c + 5) v) OR take_bit 5 (drop_bit c v) = drop_bit c (v :: u64)"
proof (rule bit_word_eqI)
  fix i assume "i < LENGTH(64)"
  then show "bit (push_bit 5 (drop_bit (c + 5) v) OR take_bit 5 (drop_bit c v)) i = bit (drop_bit c v) i"
    by (cases "5 \<le> i") (simp_all add: word_bits)
qed

lemma join_digit:
  assumes "k < 12"
  shows "push_bit 5 (drop_bit (60 - 5 * k) v) OR digit k v = drop_bit (60 - 5 * Suc k) v"
proof -
  have "60 - 5 * k = (55 - 5 * k) + 5" and "60 - 5 * Suc k = 55 - 5 * k" using assms by simp_all
  then show ?thesis using join_low_5 [of "55 - 5 * k" v] by (simp only: digit_def)
qed

lemma from_str_loop_digits:
  "k \<le> 12 \<Longrightarrow> from_str_loop (digit_text [k..<12] v) (drop_bit (60 - 5 * k) v) = Inr v"
proof (induction "12 - k" arbitrary: k)
  case 0
  then show ?case by simp
next
  case (Suc d)
  then have "[k..<12] = k # [Suc k..<12]" by (simp add: upt_conv_Cons)
  moreover have "from_str_loop (digit_text [Suc k..<12] v) (drop_bit (60 - 5 * Suc k) v) = Inr v"
    using Suc by (intro Suc.hyps(1)) simp_all
  ultimately show ?case using Suc.hyps(2) Suc.prems
    by (simp add: inverse_digit [OF digit_range] join_digit)
qed

lemma id_as_string_top:
  "i \<noteq> 0 \<Longrightarrow> drop_bit 60 i \<noteq> 0 \<Longrightarrow>
     id_as_string i = Some ((BASE32_ALPHABET ! unat (drop_bit 60 i)) # digit_text [0..<12] i)"
  using as_string_loop_shifted [of 0 i] by (simp add: id_as_string_def Let_def shifted_def)

text \<open>
  With the four highest bits clear, the printer skips as many leading groups of five zero bits as it can.
\<close>

lemma id_as_string_low:
  assumes "i \<noteq> 0" and "drop_bit 60 i = 0"
  obtains k where "k \<le> 12" and "drop_bit (60 - 5 * k) i = 0"
    and "id_as_string i = Some (digit_text [k..<12] i)"
proof -
  let ?n = "push_bit 4 i OR 1"
  let ?k = "leading_zeros ?n div 5"
  have n: "?n = shifted 0 i" by (simp add: shifted_def)
  have ne: "?n \<noteq> 0" using bit_shifted [of 0 i 0] unfolding n by auto
  have max: "\<forall>b \<in> bitset ?n. b \<le> 63 - leading_zeros ?n" using pop_max_bitset(3) [OF ne] by simp
  have "leading_zeros ?n \<le> 63" using leading_zeros_max(2) [OF ne] by simp
  then have k: "?k \<le> 12" by simp
  have high: "drop_bit (60 - 5 * ?k) i = 0"
  proof (rule bit_word_eqI)
    fix b assume b: "b < LENGTH(64)"
    have "\<not> bit i (60 - 5 * ?k + b)"
    proof
      assume bit: "bit i (60 - 5 * ?k + b)"
      moreover have "bit (drop_bit 60 i) j \<Longrightarrow> False" for j using assms(2) by simp
      ultimately have "60 - 5 * ?k + b < 60"
        by (metis add.commute bit_drop_bit_eq comp_apply le_add_diff_inverse not_less)
      with bit have "60 - 5 * ?k + b + 4 \<in> bitset ?n"
        unfolding n by (simp add: bit_shifted)
      with max have "60 - 5 * ?k + b + 4 \<le> 63 - leading_zeros ?n" by blast
      then show False using \<open>leading_zeros ?n \<le> 63\<close> by linarith
    qed
    then show "bit (drop_bit (60 - 5 * ?k) i) b = bit 0 b" by (simp add: word_bits)
  qed
  have "push_bit (?k * 5) ?n = shifted ?k i" by (simp add: shifted_def mult.commute)
  then have "id_as_string i = Some (digit_text [?k..<12] i)"
    using assms as_string_loop_shifted [OF k, of i "[]"] by (simp add: id_as_string_def Let_def)
  with k high that show ?thesis by blast
qed

lemma id_from_str_as_string:
  obtains s where "id_as_string i = Some s" and "id_from_str s = Inr i"
proof (cases "i = 0")
  case True
  have "inverse_of (CHR ''a'') = 0" by (simp add: BASE32_INVERSE_def)
  with True that [of "''a''"] show ?thesis by (simp add: id_as_string_def id_from_str_def)
next
  case False
  show ?thesis
  proof (cases "drop_bit 60 i = 0")
    case True
    from id_as_string_low [OF False True] obtain k where
      k: "k \<le> 12" "drop_bit (60 - 5 * k) i = 0" "id_as_string i = Some (digit_text [k..<12] i)" by metis
    from from_str_loop_digits [OF k(1), of i] k(2,3) that show ?thesis by (simp add: id_from_str_def)
  next
    case nz: False
    have r: "unat (drop_bit 60 i) < 32"
    proof -
      have "unat (drop_bit 60 i) < 2 ^ 5"
        by (rule unat_bound_of_bit) (auto simp: word_bits dest: bit_imp_le_length)
      then show ?thesis by simp
    qed
    from from_str_loop_digits [of 0 i]
    have "id_from_str ((BASE32_ALPHABET ! unat (drop_bit 60 i)) # digit_text [0..<12] i) = Inr i"
      by (simp add: id_from_str_def inverse_digit [OF r])
    with id_as_string_top [OF False nz] that show ?thesis by blast
  qed
qed

section \<open>Properties\<close>

lemma id_parts_join: "push_bit 32 (ucast (prefix_id i)) OR ucast (document_id i) = (i :: u64)"
  by (rule bit_word_eqI) (auto simp: prefix_id_def document_id_def word_bits)

text \<open>
  C31: printing an identifier ends for each of the 64-bit values, and reading the text gives the identifier back.
\<close>

theorem jmap_id_roundtrip: "\<exists>s. id_as_string i = Some s \<and> id_from_str s = Inr i"
  by (rule id_from_str_as_string [of i]) blast

text \<open>
  An identifier built from a prefix and a document number gives both back, and every identifier is
  built from its parts.
\<close>

theorem jmap_id_parts:
  "prefix_id (id_from_parts p d) = p \<and> document_id (id_from_parts p d) = d \<and> id_from_parts (prefix_id i) (document_id i) = i"
  unfolding id_from_parts_def
  by (simp add: id_parts_join) (auto simp: prefix_id_def document_id_def word_bits intro!: bit_word_eqI)

end
