(* ===== verification/CacheInvalidate.thy ===== *)
theory CacheInvalidate
  imports AccessToken JmapId
begin

text \<open>
  Which cached objects a change of the directory makes stale, and their removal from the caches
  (\<^verbatim>\<open>crates/common/src/cache/invalidate.rs\<close>; the lookups of access tokens in
  \<^verbatim>\<open>crates/common/src/auth/access_token.rs\<close>). A field of an object that the code only compares has a value of the type
  variable \<open>'v\<close>; \<open>views\<close> says how the builder of access tokens reads such a field. The hash sets of the code are lists without duplicates
  in the order in which the set iterates. The queries of the registry are arguments; they return an error or
  the identifiers found. The hash function of local parts is third-party code and an argument.
\<close>

datatype cache_invalidation =
  Inv_AccessToken u32
| Inv_DavResources u32
| Inv_Domain u32
| Inv_Account u32
| Inv_DkimSignature u32
| Inv_Tenant u32
| Inv_Role u32
| Inv_List u32
| Inv_DomainLogo u32
| Inv_TenantLogo u32
| Inv_EmailNegative u32 u32

section \<open>The objects of the directory\<close>

record 'v email_alias =
  alias_enabled :: bool
  alias_name :: bytes
  alias_domain_id :: id
  alias_description :: 'v

record 'v user_object =
  uo_name :: bytes
  uo_domain_id :: id
  uo_credentials :: 'v
  uo_member_group_ids :: 'v
  uo_member_tenant_id :: 'v
  uo_roles :: 'v
  uo_permissions :: 'v
  uo_quotas :: 'v
  uo_aliases :: "'v email_alias list"
  uo_description :: 'v
  uo_locale :: 'v
  uo_encryption_at_rest :: 'v

record 'v group_object =
  go_name :: bytes
  go_domain_id :: id
  go_description :: 'v
  go_locale :: 'v
  go_member_tenant_id :: 'v
  go_roles :: 'v
  go_quotas :: 'v
  go_permissions :: 'v
  go_aliases :: "'v email_alias list"

record 'v domain_object =
  do_name :: bytes
  do_aliases :: 'v
  do_is_enabled :: 'v
  do_logo :: 'v
  do_member_tenant_id :: 'v
  do_directory_id :: 'v
  do_catch_all_address :: 'v
  do_sub_addressing :: 'v
  do_allow_relaying :: 'v

record 'v tenant_object =
  to_logo :: 'v
  to_roles :: 'v
  to_permissions :: 'v
  to_quotas :: 'v

record 'v role_object =
  ro_member_tenant_id :: 'v
  ro_role_ids :: 'v
  ro_enabled_permissions :: 'v
  ro_disabled_permissions :: 'v

record 'v list_object =
  lo_name :: bytes
  lo_domain_id :: id
  lo_aliases :: "'v email_alias list"
  lo_recipients :: 'v

datatype 'v object_inner =
  Obj_User "'v user_object"
| Obj_Group "'v group_object"
| Obj_Domain "'v domain_object"
| Obj_DkimSignature id
| Obj_Tenant "'v tenant_object"
| Obj_Role "'v role_object"
| Obj_MailingList "'v list_object"
| Obj_Other

section \<open>What a change makes stale\<close>

type_synonym builder = "cache_invalidation list"

definition invalidate :: "builder \<Rightarrow> cache_invalidation \<Rightarrow> builder" where
  "invalidate b change = List.insert change b"

definition with_invalidation :: "builder \<Rightarrow> cache_invalidation \<Rightarrow> builder" where
  "with_invalidation b change = invalidate b change"

definition builder_from :: "cache_invalidation \<Rightarrow> builder" where
  "builder_from change = invalidate [] change"

definition invalidate_if :: "bool \<Rightarrow> cache_invalidation \<Rightarrow> builder \<Rightarrow> builder" where
  "invalidate_if c change b = (if c then invalidate b change else b)"

definition hash_local_part :: "(bytes \<Rightarrow> u64) \<Rightarrow> bytes \<Rightarrow> u32" where
  "hash_local_part xxh3_64 s = ucast (xxh3_64 s)"

definition negative_emails_of :: "(bytes \<Rightarrow> u64) \<Rightarrow> bytes \<Rightarrow> id \<Rightarrow> 'v email_alias list \<Rightarrow> builder \<Rightarrow> builder" where
  "negative_emails_of h name domain_id aliases b =
     fold (\<lambda>a b. invalidate b (Inv_EmailNegative (document_id (alias_domain_id a)) (hash_local_part h (alias_name a))))
       (filter alias_enabled aliases)
       (invalidate b (Inv_EmailNegative (document_id domain_id) (hash_local_part h name)))"

definition invalidate_negative_email :: "(bytes \<Rightarrow> u64) \<Rightarrow> 'v object_inner \<Rightarrow> builder \<Rightarrow> builder" where
  "invalidate_negative_email h obj b =
     (case obj of
        Obj_User a \<Rightarrow> negative_emails_of h (uo_name a) (uo_domain_id a) (uo_aliases a) b
      | Obj_Group a \<Rightarrow> negative_emails_of h (go_name a) (go_domain_id a) (go_aliases a) b
      | Obj_MailingList l \<Rightarrow> negative_emails_of h (lo_name l) (lo_domain_id l) (lo_aliases l) b
      | _ \<Rightarrow> b)"

definition process_user_update :: "(bytes \<Rightarrow> u64) \<Rightarrow> u32 \<Rightarrow> 'v user_object \<Rightarrow> 'v user_object \<Rightarrow> builder \<Rightarrow> builder" where
  "process_user_update h i current new b =
     (let was_renamed = (uo_name current \<noteq> uo_name new \<or> uo_domain_id current \<noteq> uo_domain_id new);
          quota_changed = (uo_quotas current \<noteq> uo_quotas new);
          permissions_changed = (uo_permissions current \<noteq> uo_permissions new);
          roles_changed = (uo_roles current \<noteq> uo_roles new);
          tenant_changed = (uo_member_tenant_id current \<noteq> uo_member_tenant_id new);
          details_changed = (uo_locale current \<noteq> uo_locale new \<or> uo_description current \<noteq> uo_description new);
          groups_changed = (uo_member_group_ids current \<noteq> uo_member_group_ids new);
          aliases_changed = (uo_aliases current \<noteq> uo_aliases new);
          credentials_changed = (uo_credentials current \<noteq> uo_credentials new);
          encryption_changed = (uo_encryption_at_rest current \<noteq> uo_encryption_at_rest new);
          b1 = invalidate_if (was_renamed \<or> aliases_changed \<or> tenant_changed \<or> groups_changed \<or> quota_changed \<or>
                 details_changed \<or> encryption_changed) (Inv_Account i) b;
          b2 = (if was_renamed \<or> aliases_changed then invalidate_negative_email h (Obj_User new) b1 else b1);
          b3 = invalidate_if (tenant_changed \<or> groups_changed \<or> credentials_changed \<or> roles_changed \<or> permissions_changed)
                 (Inv_AccessToken i) b2
      in invalidate_if was_renamed (Inv_DavResources i) b3)"

definition process_group_update :: "(bytes \<Rightarrow> u64) \<Rightarrow> u32 \<Rightarrow> 'v group_object \<Rightarrow> 'v group_object \<Rightarrow> builder \<Rightarrow> builder" where
  "process_group_update h i current new b =
     (let was_renamed = (go_name current \<noteq> go_name new \<or> go_domain_id current \<noteq> go_domain_id new);
          quota_changed = (go_quotas current \<noteq> go_quotas new);
          permissions_changed = (go_permissions current \<noteq> go_permissions new);
          roles_changed = (go_roles current \<noteq> go_roles new);
          tenant_changed = (go_member_tenant_id current \<noteq> go_member_tenant_id new);
          details_changed = (go_locale current \<noteq> go_locale new \<or> go_description current \<noteq> go_description new);
          aliases_changed = (go_aliases current \<noteq> go_aliases new);
          b1 = invalidate_if (was_renamed \<or> aliases_changed \<or> tenant_changed \<or> quota_changed \<or> details_changed) (Inv_Account i) b;
          b2 = (if was_renamed \<or> aliases_changed then invalidate_negative_email h (Obj_Group new) b1 else b1);
          b3 = invalidate_if (tenant_changed \<or> roles_changed \<or> permissions_changed) (Inv_AccessToken i) b2
      in invalidate_if was_renamed (Inv_DavResources i) b3)"

definition process_update :: "(bytes \<Rightarrow> u64) \<Rightarrow> id \<Rightarrow> 'v object_inner \<Rightarrow> 'v object_inner \<Rightarrow> builder \<Rightarrow> builder" where
  "process_update h oid current_object new_object b =
     (let i = document_id oid
      in case (current_object, new_object) of
        (Obj_User current, Obj_User new) \<Rightarrow> process_user_update h i current new b
      | (Obj_Group current, Obj_Group new) \<Rightarrow> process_group_update h i current new b
      | (Obj_Domain current, Obj_Domain new) \<Rightarrow>
          invalidate_if (do_logo current \<noteq> do_logo new) (Inv_DomainLogo i)
            (invalidate_if (do_name current \<noteq> do_name new \<or> do_directory_id current \<noteq> do_directory_id new \<or>
                do_member_tenant_id current \<noteq> do_member_tenant_id new \<or> do_catch_all_address current \<noteq> do_catch_all_address new \<or>
                do_sub_addressing current \<noteq> do_sub_addressing new \<or> do_allow_relaying current \<noteq> do_allow_relaying new \<or>
                do_is_enabled current \<noteq> do_is_enabled new) (Inv_Domain i) b)
      | (Obj_DkimSignature current, Obj_DkimSignature new) \<Rightarrow>
          invalidate_if (document_id current \<noteq> document_id new) (Inv_DkimSignature (document_id new))
            (invalidate b (Inv_DkimSignature (document_id current)))
      | (Obj_Tenant current, Obj_Tenant new) \<Rightarrow>
          invalidate_if (to_logo current \<noteq> to_logo new) (Inv_TenantLogo i)
            (invalidate_if (to_permissions current \<noteq> to_permissions new \<or> to_roles current \<noteq> to_roles new \<or>
                to_quotas current \<noteq> to_quotas new) (Inv_Tenant i) b)
      | (Obj_Role current, Obj_Role new) \<Rightarrow>
          invalidate_if (ro_enabled_permissions current \<noteq> ro_enabled_permissions new \<or>
              ro_disabled_permissions current \<noteq> ro_disabled_permissions new \<or>
              ro_member_tenant_id current \<noteq> ro_member_tenant_id new \<or> ro_role_ids current \<noteq> ro_role_ids new) (Inv_Role i) b
      | (Obj_MailingList current, Obj_MailingList new) \<Rightarrow>
          (let renamed = (lo_aliases current \<noteq> lo_aliases new \<or> lo_name current \<noteq> lo_name new \<or>
                 lo_domain_id current \<noteq> lo_domain_id new)
           in if renamed \<or> lo_recipients current \<noteq> lo_recipients new
              then (let b1 = invalidate b (Inv_List i)
                    in if renamed then invalidate_negative_email h new_object b1 else b1)
              else b)
      | _ \<Rightarrow> b)"

definition process_delete :: "id \<Rightarrow> 'v object_inner \<Rightarrow> builder \<Rightarrow> builder" where
  "process_delete oid obj b =
     (let i = document_id oid
      in case obj of
        Obj_User _ \<Rightarrow> invalidate (invalidate (invalidate b (Inv_AccessToken i)) (Inv_Account i)) (Inv_DavResources i)
      | Obj_Group _ \<Rightarrow> invalidate (invalidate (invalidate b (Inv_AccessToken i)) (Inv_Account i)) (Inv_DavResources i)
      | Obj_Domain _ \<Rightarrow> invalidate (invalidate b (Inv_Domain i)) (Inv_DomainLogo i)
      | Obj_DkimSignature d \<Rightarrow> invalidate b (Inv_DkimSignature (document_id d))
      | Obj_Tenant _ \<Rightarrow> invalidate (invalidate b (Inv_Tenant i)) (Inv_TenantLogo i)
      | Obj_Role _ \<Rightarrow> invalidate b (Inv_Role i)
      | Obj_MailingList _ \<Rightarrow> invalidate b (Inv_List i)
      | Obj_Other \<Rightarrow> b)"

definition process_create :: "(bytes \<Rightarrow> u64) \<Rightarrow> 'v object_inner \<Rightarrow> builder \<Rightarrow> builder" where
  "process_create h obj b = invalidate_negative_email h obj b"

section \<open>Objects that link to a role\<close>

datatype object_type = Type_Account | Type_Tenant | Type_Role | Type_Other

type_synonym object_id = "object_type \<times> id"

record 'e registry =
  reg_linked_roles :: "u32 \<Rightarrow> 'e + object_id list"
  reg_tenant_accounts :: "u32 \<Rightarrow> 'e + u32 list"
  reg_enterprise :: bool

text \<open>The stack of roles to visit has its top first.\<close>

fun linked_loop :: "'e registry \<Rightarrow> object_id list \<Rightarrow> u32 list \<Rightarrow> builder \<Rightarrow> 'e + (u32 list \<times> builder)" where
  "linked_loop reg [] role_ids b = Inr (role_ids, b)"
| "linked_loop reg ((Type_Account, i) # os) role_ids b =
     linked_loop reg os role_ids (invalidate b (Inv_AccessToken (document_id i)))"
| "linked_loop reg ((Type_Tenant, i) # os) role_ids b =
     (if reg_enterprise reg then
        (let tenant_id = document_id i
         in case reg_tenant_accounts reg tenant_id of
              Inl e \<Rightarrow> Inl e
            | Inr accounts \<Rightarrow>
                linked_loop reg os role_ids (fold (\<lambda>a b. invalidate b (Inv_AccessToken a)) accounts (invalidate b (Inv_Tenant tenant_id))))
      else linked_loop reg os role_ids b)"
| "linked_loop reg ((Type_Role, i) # os) role_ids b = linked_loop reg os (document_id i # role_ids) b"
| "linked_loop reg ((Type_Other, i) # os) role_ids b = linked_loop reg os role_ids b"

function roles_loop :: "'e registry \<Rightarrow> u32 list \<Rightarrow> u32 set \<Rightarrow> builder \<Rightarrow> 'e + builder" where
  "roles_loop reg [] fetched b = Inr b"
| "roles_loop reg (r # rs) fetched b =
     (if r \<in> fetched then roles_loop reg rs fetched b
      else case reg_linked_roles reg r of
             Inl e \<Rightarrow> Inl e
           | Inr os \<Rightarrow>
               (case linked_loop reg os rs b of
                  Inl e \<Rightarrow> Inl e
                | Inr (rs', b') \<Rightarrow> roles_loop reg rs' (insert r fetched) b'))"
  by pat_completeness auto

text \<open>Each role is fetched once and there are finitely many, so that the loop ends even when roles include each other.\<close>

termination
proof (relation "measures [\<lambda>(reg, rs, fetched, b). card (- fetched), \<lambda>(reg, rs, fetched, b). length rs]")
  fix r :: u32 and fetched :: "u32 set"
  assume "r \<notin> fetched"
  moreover have "- insert r fetched = - fetched - {r}" by blast
  ultimately have "card (- insert r fetched) < card (- fetched)"
    using card_Diff1_less [of "- fetched" r] by simp
  then show "((reg', rs', insert r fetched, b'), (reg, r # rs, fetched, b)) \<in>
     measures [\<lambda>(reg, rs, fetched, b). card (- fetched), \<lambda>(reg, rs, fetched, b). length rs]" for reg' reg rs' rs b' b
    by simp
qed simp_all

fun role_of :: "cache_invalidation \<Rightarrow> u32 option" where
  "role_of (Inv_Role r) = Some r"
| "role_of _ = None"

definition invalidated :: "'e registry \<Rightarrow> builder \<Rightarrow> 'e + builder" where
  "invalidated reg changes = roles_loop reg (rev (List.map_filter role_of changes)) {} changes"

section \<open>The caches\<close>

record email_address =
  email_local_part :: bytes
  email_domain_id :: u32

datatype email_cache =
  Email_Account u32
| Email_MailingList u32
| Email_DisabledAccountAddress u32
| Email_DisabledListAddress u32

record logo_cache =
  logo_domain_id :: u32
  logo_tenant_id :: "u32 option"

text \<open>The caches that an invalidation touches; a value that it does not look at is of the type \<open>'c\<close>.\<close>

record 'c caches =
  access_tokens :: "u32 \<rightharpoonup> access_token_inner"
  http_auth :: "bytes \<rightharpoonup> u32"
  files :: "u32 \<rightharpoonup> 'c"
  contacts :: "u32 \<rightharpoonup> 'c"
  events :: "u32 \<rightharpoonup> 'c"
  scheduling :: "u32 \<rightharpoonup> 'c"
  emails :: "email_address \<rightharpoonup> email_cache"
  emails_negative :: "email_address \<rightharpoonup> unit"
  domain_names :: "bytes \<rightharpoonup> u32"
  domain_names_negative :: "bytes \<rightharpoonup> unit"
  domains :: "u32 \<rightharpoonup> 'c"
  accounts :: "u32 \<rightharpoonup> 'c"
  roles :: "u32 \<rightharpoonup> 'c"
  tenants :: "u32 \<rightharpoonup> 'c"
  lists :: "u32 \<rightharpoonup> 'c"
  dkim_signers :: "u32 \<rightharpoonup> 'c"
  logos :: "bytes \<rightharpoonup> logo_cache"

definition cache_remove :: "'k \<Rightarrow> ('k \<rightharpoonup> 'w) \<Rightarrow> ('k \<rightharpoonup> 'w)" where
  "cache_remove k m = m(k := None)"

definition cache_retain :: "('k \<Rightarrow> 'w \<Rightarrow> bool) \<Rightarrow> ('k \<rightharpoonup> 'w) \<Rightarrow> ('k \<rightharpoonup> 'w)" where
  "cache_retain P m = (\<lambda>k. case m k of None \<Rightarrow> None | Some v \<Rightarrow> if P k v then Some v else None)"

fun is_account_email :: "u32 \<Rightarrow> email_cache \<Rightarrow> bool" where
  "is_account_email i (Email_Account j) \<longleftrightarrow> j = i"
| "is_account_email i (Email_DisabledAccountAddress j) \<longleftrightarrow> j = i"
| "is_account_email i _ \<longleftrightarrow> False"

fun is_list_email :: "u32 \<Rightarrow> email_cache \<Rightarrow> bool" where
  "is_list_email i (Email_MailingList j) \<longleftrightarrow> j = i"
| "is_list_email i (Email_DisabledListAddress j) \<longleftrightarrow> j = i"
| "is_list_email i _ \<longleftrightarrow> False"

fun invalidate_local :: "cache_invalidation \<Rightarrow> 'c caches \<Rightarrow> 'c caches" where
  "invalidate_local (Inv_AccessToken i) c =
     c \<lparr> access_tokens := cache_remove i (access_tokens c), http_auth := cache_retain (\<lambda>_ v. v \<noteq> i) (http_auth c) \<rparr>"
| "invalidate_local (Inv_DavResources i) c =
     c \<lparr> files := cache_remove i (files c), contacts := cache_remove i (contacts c),
         events := cache_remove i (events c), scheduling := cache_remove i (scheduling c) \<rparr>"
| "invalidate_local (Inv_Domain i) c =
     c \<lparr> domains := cache_remove i (domains c), dkim_signers := cache_remove i (dkim_signers c),
         domain_names := cache_retain (\<lambda>_ v. v \<noteq> i) (domain_names c) \<rparr>"
| "invalidate_local (Inv_Account i) c =
     c \<lparr> accounts := cache_remove i (accounts c), emails := cache_retain (\<lambda>_ v. \<not> is_account_email i v) (emails c) \<rparr>"
| "invalidate_local (Inv_DkimSignature i) c = c \<lparr> dkim_signers := cache_remove i (dkim_signers c) \<rparr>"
| "invalidate_local (Inv_Tenant i) c = c \<lparr> tenants := cache_remove i (tenants c) \<rparr>"
| "invalidate_local (Inv_Role i) c = c \<lparr> roles := cache_remove i (roles c) \<rparr>"
| "invalidate_local (Inv_List i) c =
     c \<lparr> lists := cache_remove i (lists c), emails := cache_retain (\<lambda>_ v. \<not> is_list_email i v) (emails c) \<rparr>"
| "invalidate_local (Inv_DomainLogo i) c = c \<lparr> logos := cache_retain (\<lambda>_ v. logo_domain_id v \<noteq> i) (logos c) \<rparr>"
| "invalidate_local (Inv_TenantLogo i) c = c \<lparr> logos := cache_retain (\<lambda>_ v. logo_tenant_id v \<noteq> Some i) (logos c) \<rparr>"
| "invalidate_local (Inv_EmailNegative d h) c = c"

fun negative_email :: "cache_invalidation \<Rightarrow> (u32 \<times> u32) option" where
  "negative_email (Inv_EmailNegative d h) = Some (d, h)"
| "negative_email _ = None"

definition invalidate_local_caches :: "(bytes \<Rightarrow> u64) \<Rightarrow> builder \<Rightarrow> 'c caches \<Rightarrow> 'c caches" where
  "invalidate_local_caches h changes c =
     (let c' = fold invalidate_local changes c; negative = List.map_filter negative_email changes
      in if negative \<noteq> []
         then c' \<lparr> emails_negative := cache_retain (\<lambda>k _. (email_domain_id k, hash_local_part h (email_local_part k)) \<notin> set negative)
                (emails_negative c') \<rparr>
         else c')"

text \<open>The broadcast to the other nodes of the cluster is the second component of the result.\<close>

definition invalidate_caches ::
  "(bytes \<Rightarrow> u64) \<Rightarrow> 'e registry \<Rightarrow> builder \<Rightarrow> 'c caches \<Rightarrow> 'e + ('c caches \<times> builder option)" where
  "invalidate_caches h reg changes c =
     (if changes = [] then Inr (c, None)
      else case invalidated reg changes of
             Inl e \<Rightarrow> Inl e
           | Inr changes' \<Rightarrow> Inr (invalidate_local_caches h changes' c, Some changes'))"

definition invalidate_all_local_negative_caches :: "'c caches \<Rightarrow> 'c caches" where
  "invalidate_all_local_negative_caches c = c \<lparr> domain_names_negative := Map.empty, emails_negative := Map.empty \<rparr>"

definition invalidate_all_local_caches :: "'c caches \<Rightarrow> 'c caches" where
  "invalidate_all_local_caches c =
     (invalidate_all_local_negative_caches c)
       \<lparr> access_tokens := Map.empty, domains := Map.empty, domain_names := Map.empty, emails := Map.empty, tenants := Map.empty,
         files := Map.empty, contacts := Map.empty, events := Map.empty, scheduling := Map.empty, dkim_signers := Map.empty,
         accounts := Map.empty, roles := Map.empty, lists := Map.empty, logos := Map.empty \<rparr>"

definition invalidate_local_negative_account_cache :: "bytes \<Rightarrow> u32 \<Rightarrow> 'c caches \<Rightarrow> bool \<times> 'c caches" where
  "invalidate_local_negative_account_cache local_part domain_id c =
     (let k = \<lparr> email_local_part = local_part, email_domain_id = domain_id \<rparr>
      in (emails_negative c k \<noteq> None, c \<lparr> emails_negative := cache_remove k (emails_negative c) \<rparr>))"

section \<open>Access tokens and their cache\<close>

datatype 'e lookup_error = Build 'e | Account_not_found

text \<open>The account of the registry, its hash and the random revision of a new token are arguments.\<close>

definition access_token_lookup ::
  "'e auth_env \<Rightarrow> (u32 \<Rightarrow> 'e + account option) \<Rightarrow> (account \<Rightarrow> u64) \<Rightarrow> u64 \<Rightarrow> u32 \<Rightarrow> 'c caches \<Rightarrow>
     ('e build_error lookup_error + access_token_inner) \<times> 'c caches" where
  "access_token_lookup env object hash_account random aid c =
     (case access_tokens c aid of
        Some t \<Rightarrow> (Inr t, c)
      | None \<Rightarrow>
          (case object aid of
             Inl e \<Rightarrow> (Inl (Build (Fetch_failed e)), c)
           | Inr (Some a) \<Rightarrow>
               (case build_access_token env a aid random (hash_account a) of
                  Inl e \<Rightarrow> (Inl (Build e), c)
                | Inr t \<Rightarrow> (Inr t, c \<lparr> access_tokens := (access_tokens c)(aid \<mapsto> t) \<rparr>))
           | Inr None \<Rightarrow>
               if aid = RECOVERY_ADMIN_ID
               then (Inr (inner new_admin), c \<lparr> access_tokens := (access_tokens c)(aid \<mapsto> inner new_admin) \<rparr>)
               else (Inl Account_not_found, c)))"

definition access_token_from_account ::
  "'e auth_env \<Rightarrow> (account \<Rightarrow> u64) \<Rightarrow> u64 \<Rightarrow> u32 \<Rightarrow> account \<Rightarrow> 'c caches \<Rightarrow>
     ('e build_error + access_token_inner) \<times> 'c caches" where
  "access_token_from_account env hash_account random aid a c =
     (let rebuild = (case build_access_token env a aid random (hash_account a) of
             Inl e \<Rightarrow> (Inl e, c)
           | Inr t \<Rightarrow> (Inr t, c \<lparr> access_tokens := (access_tokens c)(aid \<mapsto> t) \<rparr>))
      in case access_tokens c aid of
           Some t \<Rightarrow> if revision_account t = hash_account a then (Inr t, c) else rebuild
         | None \<Rightarrow> rebuild)"

section \<open>The closure over roles\<close>

text \<open>What an object that links to a changed role makes stale, and the roles that include a role, directly or through others.\<close>

fun object_effects :: "'e registry \<Rightarrow> object_id \<Rightarrow> cache_invalidation set" where
  "object_effects reg (Type_Account, i) = {Inv_AccessToken (document_id i)}"
| "object_effects reg (Type_Tenant, i) =
     (if reg_enterprise reg
      then insert (Inv_Tenant (document_id i))
        (case reg_tenant_accounts reg (document_id i) of Inl _ \<Rightarrow> {} | Inr as \<Rightarrow> Inv_AccessToken ` set as)
      else {})"
| "object_effects reg _ = {}"

definition role_effects :: "'e registry \<Rightarrow> u32 \<Rightarrow> cache_invalidation set" where
  "role_effects reg r = (case reg_linked_roles reg r of Inl _ \<Rightarrow> {} | Inr os \<Rightarrow> \<Union> (object_effects reg ` set os))"

definition linked_roles :: "object_id list \<Rightarrow> u32 set" where
  "linked_roles os = {document_id i | i. (Type_Role, i) \<in> set os}"

definition role_links :: "'e registry \<Rightarrow> u32 \<Rightarrow> u32 set" where
  "role_links reg r = (case reg_linked_roles reg r of Inl _ \<Rightarrow> {} | Inr os \<Rightarrow> linked_roles os)"

inductive role_reaches :: "'e registry \<Rightarrow> u32 \<Rightarrow> u32 \<Rightarrow> bool" for reg where
  self: "role_reaches reg r r"
| link: "role_reaches reg r r' \<Longrightarrow> r'' \<in> role_links reg r' \<Longrightarrow> role_reaches reg r r''"

lemma role_reaches_front: "r' \<in> role_links reg r \<Longrightarrow> role_reaches reg r' r'' \<Longrightarrow> role_reaches reg r r''"
  by (rotate_tac, induction rule: role_reaches.induct) (blast intro: role_reaches.intros)+

lemma set_invalidate [simp]: "set (invalidate b x) = insert x (set b)"
  by (simp add: invalidate_def)

lemma set_fold_invalidate: "set (fold (\<lambda>a b. invalidate b (f a)) as b) = set b \<union> f ` set as"
  by (induction as arbitrary: b) auto

lemma linked_roles_Cons: "linked_roles ((t, i) # os) = (if t = Type_Role then insert (document_id i) (linked_roles os) else linked_roles os)"
  by (auto simp: linked_roles_def)

lemma linked_loop_ok:
  assumes "linked_loop reg os rs b = Inr (rs', b')"
  shows "set rs' = set rs \<union> linked_roles os \<and> set b' = set b \<union> \<Union> (object_effects reg ` set os)"
  using assms
proof (induction reg os rs b rule: linked_loop.induct)
  case (3 reg i os rs b)
  show ?case
  proof (cases "reg_enterprise reg")
    case True
    with 3(3) obtain as where as: "reg_tenant_accounts reg (document_id i) = Inr as" by (auto simp: Let_def split: sum.splits)
    from 3(1) [OF True refl as] 3(3) True as show ?thesis
      by (auto simp: Let_def set_fold_invalidate linked_roles_Cons)
  next
    case False
    with 3(2) 3(3) show ?thesis by (auto simp: linked_roles_Cons)
  qed
qed (auto simp: linked_roles_Cons linked_roles_def)

lemma roles_loop_step:
  assumes "roles_loop reg (r # rs) fetched b = Inr b'" "r \<notin> fetched"
  obtains os rs1 b1 where "reg_linked_roles reg r = Inr os" "linked_loop reg os rs b = Inr (rs1, b1)"
    "roles_loop reg rs1 (insert r fetched) b1 = Inr b'"
    "set rs1 = set rs \<union> role_links reg r" "set b1 = set b \<union> role_effects reg r"
proof -
  from assms obtain os where os: "reg_linked_roles reg r = Inr os" by (cases "reg_linked_roles reg r") simp_all
  with assms obtain rs1 b1 where s: "linked_loop reg os rs b = Inr (rs1, b1)" "roles_loop reg rs1 (insert r fetched) b1 = Inr b'"
    by (cases "linked_loop reg os rs b") auto
  with linked_loop_ok [OF s(1)] os that show thesis by (simp add: role_links_def role_effects_def)
qed

lemma roles_loop_complete:
  assumes "roles_loop reg rs fetched b = Inr b'"
    and "\<forall>f \<in> fetched. role_effects reg f \<subseteq> set b \<and> role_links reg f \<subseteq> fetched \<union> set rs"
  shows "set b \<subseteq> set b' \<and> (\<exists>F. fetched \<union> set rs \<subseteq> F \<and> (\<forall>f \<in> F. role_effects reg f \<subseteq> set b' \<and> role_links reg f \<subseteq> F))"
  using assms
proof (induction reg rs fetched b rule: roles_loop.induct)
  case (2 reg r rs fetched b)
  show ?case
  proof (cases "r \<in> fetched")
    case True
    have "\<forall>f \<in> fetched. role_effects reg f \<subseteq> set b \<and> role_links reg f \<subseteq> fetched \<union> set rs"
      using 2(4) True by auto
    moreover from 2(3) True have "roles_loop reg rs fetched b = Inr b'" by simp
    ultimately have "set b \<subseteq> set b' \<and> (\<exists>F. fetched \<union> set rs \<subseteq> F \<and> (\<forall>f \<in> F. role_effects reg f \<subseteq> set b' \<and> role_links reg f \<subseteq> F))"
      by (intro 2(1) [OF True])
    moreover have "fetched \<union> set (r # rs) = fetched \<union> set rs" using True by auto
    ultimately show ?thesis by (simp only:)
  next
    case False
    from roles_loop_step [OF 2(3) False] obtain os rs1 b1 where
      s: "reg_linked_roles reg r = Inr os" "linked_loop reg os rs b = Inr (rs1, b1)" "roles_loop reg rs1 (insert r fetched) b1 = Inr b'"
        "set rs1 = set rs \<union> role_links reg r" "set b1 = set b \<union> role_effects reg r" .
    have "\<forall>f \<in> insert r fetched. role_effects reg f \<subseteq> set b1 \<and> role_links reg f \<subseteq> insert r fetched \<union> set rs1"
      using 2(4) s(4,5) by auto
    from 2(2) [OF False s(1) s(2) refl s(3) this] s(4,5) show ?thesis by auto
  qed
qed auto

lemma roles_loop_sound:
  assumes "roles_loop reg rs fetched b = Inr b'"
  shows "set b' \<subseteq> set b \<union> (\<Union>r \<in> {r. \<exists>r0 \<in> set rs. role_reaches reg r0 r}. role_effects reg r)"
  using assms
proof (induction reg rs fetched b rule: roles_loop.induct)
  case (2 reg r rs fetched b)
  show ?case
  proof (cases "r \<in> fetched")
    case True
    from 2(1) [OF True] 2(3) True show ?thesis by auto
  next
    case False
    from roles_loop_step [OF 2(3) False] obtain os rs1 b1 where
      s: "reg_linked_roles reg r = Inr os" "linked_loop reg os rs b = Inr (rs1, b1)" "roles_loop reg rs1 (insert r fetched) b1 = Inr b'"
        "set rs1 = set rs \<union> role_links reg r" "set b1 = set b \<union> role_effects reg r" .
    have "\<exists>r0 \<in> set (r # rs). role_reaches reg r0 q" if "r0 \<in> set rs1" "role_reaches reg r0 q" for r0 q
      using that s(4) role_reaches_front by auto
    moreover have "role_reaches reg r r" by (rule self)
    ultimately show ?thesis using 2(2) [OF False s(1) s(2) refl s(3)] s(5) by fastforce
  qed
qed auto

lemma role_reaches_closed:
  "role_reaches reg r r' \<Longrightarrow> r \<in> F \<Longrightarrow> \<forall>f \<in> F. role_links reg f \<subseteq> F \<Longrightarrow> r' \<in> F"
  by (induction rule: role_reaches.induct) auto

lemma set_roles: "set (List.map_filter role_of b) = {r. Inv_Role r \<in> set b}"
proof -
  have "role_of x = Some r \<longleftrightarrow> x = Inv_Role r" for x r by (cases x) auto
  then show ?thesis by (force simp: map_filter_def)
qed

lemma invalidated_exact:
  assumes "invalidated reg changes = Inr changes'"
  shows "set changes' = set changes \<union> (\<Union>r \<in> {r. \<exists>r0. Inv_Role r0 \<in> set changes \<and> role_reaches reg r0 r}. role_effects reg r)"
proof
  from assms have l: "roles_loop reg (rev (List.map_filter role_of changes)) {} changes = Inr changes'"
    by (simp add: invalidated_def)
  from roles_loop_sound [OF l]
  show "set changes' \<subseteq> set changes \<union> (\<Union>r \<in> {r. \<exists>r0. Inv_Role r0 \<in> set changes \<and> role_reaches reg r0 r}. role_effects reg r)"
    by (auto simp: set_roles)
  from roles_loop_complete [OF l] obtain F where F: "set changes \<subseteq> set changes'" "{r. Inv_Role r \<in> set changes} \<subseteq> F"
    "\<forall>f \<in> F. role_effects reg f \<subseteq> set changes' \<and> role_links reg f \<subseteq> F"
    by (auto simp: set_roles)
  have "role_effects reg r \<subseteq> set changes'" if "Inv_Role r0 \<in> set changes" "role_reaches reg r0 r" for r0 r
    using role_reaches_closed [OF that(2), of F] that(1) F by blast
  with F(1) show "set changes \<union> (\<Union>r \<in> {r. \<exists>r0. Inv_Role r0 \<in> set changes \<and> role_reaches reg r0 r}. role_effects reg r) \<subseteq> set changes'"
    by blast
qed

lemma linked_loop_total:
  assumes "\<forall>t. \<exists>as. reg_tenant_accounts reg t = Inr as"
  shows "\<exists>rs' b'. linked_loop reg os rs b = Inr (rs', b')"
proof (induction os arbitrary: rs b)
  case (Cons x os)
  obtain t i where x: "x = (t, i)" by (cases x)
  from assms obtain as where "reg_tenant_accounts reg (document_id i) = Inr as" by blast
  with Cons x show ?case by (cases t) (simp_all add: Let_def)
qed simp

lemma roles_loop_total:
  assumes "\<forall>r. \<exists>os. reg_linked_roles reg r = Inr os" "\<forall>t. \<exists>as. reg_tenant_accounts reg t = Inr as"
  shows "\<exists>b'. roles_loop reg rs fetched b = Inr b'"
  using assms
proof (induction reg rs fetched b rule: roles_loop.induct)
  case (2 reg r rs fetched b)
  from 2(3) obtain os where os: "reg_linked_roles reg r = Inr os" by blast
  from linked_loop_total [OF 2(4)] obtain rs' b' where l: "linked_loop reg os rs b = Inr (rs', b')" by blast
  show ?case
  proof (cases "r \<in> fetched")
    case True
    with 2(1) [OF True 2(3,4)] show ?thesis by simp
  next
    case False
    with 2(2) [OF False os l refl 2(3,4)] os l show ?thesis by simp
  qed
qed simp

section \<open>What is removed from the caches\<close>

lemmas cache_simps = cache_remove_def cache_retain_def

lemma fold_access_tokens:
  "access_tokens (fold invalidate_local b c) i = (if Inv_AccessToken i \<in> set b then None else access_tokens c i)"
proof (induction b arbitrary: c)
  case (Cons x b)
  then show ?case by (cases x) (auto simp: cache_simps)
qed simp

lemma fold_http_auth:
  "http_auth (fold invalidate_local b c) k = (case http_auth c k of None \<Rightarrow> None | Some i \<Rightarrow> if Inv_AccessToken i \<in> set b then None else Some i)"
proof (induction b arbitrary: c)
  case (Cons x b)
  then show ?case by (cases x) (auto simp: cache_simps split: option.splits)
qed (simp split: option.split)

lemma fold_dav:
  "files (fold invalidate_local b c) i = (if Inv_DavResources i \<in> set b then None else files c i)"
  "contacts (fold invalidate_local b c) i = (if Inv_DavResources i \<in> set b then None else contacts c i)"
  "events (fold invalidate_local b c) i = (if Inv_DavResources i \<in> set b then None else events c i)"
  "scheduling (fold invalidate_local b c) i = (if Inv_DavResources i \<in> set b then None else scheduling c i)"
proof (induction b arbitrary: c)
  case (Cons x b)
  { case 1 from Cons(1) show ?case by (cases x) (auto simp: cache_simps) }
  { case 2 from Cons(2) show ?case by (cases x) (auto simp: cache_simps) }
  { case 3 from Cons(3) show ?case by (cases x) (auto simp: cache_simps) }
  { case 4 from Cons(4) show ?case by (cases x) (auto simp: cache_simps) }
qed simp_all

lemma fold_directory:
  "accounts (fold invalidate_local b c) i = (if Inv_Account i \<in> set b then None else accounts c i)"
  "tenants (fold invalidate_local b c) i = (if Inv_Tenant i \<in> set b then None else tenants c i)"
  "roles (fold invalidate_local b c) i = (if Inv_Role i \<in> set b then None else roles c i)"
  "lists (fold invalidate_local b c) i = (if Inv_List i \<in> set b then None else lists c i)"
  "domains (fold invalidate_local b c) i = (if Inv_Domain i \<in> set b then None else domains c i)"
  "dkim_signers (fold invalidate_local b c) i =
     (if Inv_Domain i \<in> set b \<or> Inv_DkimSignature i \<in> set b then None else dkim_signers c i)"
proof (induction b arbitrary: c)
  case (Cons x b)
  { case 1 from Cons(1) show ?case by (cases x) (auto simp: cache_simps) }
  { case 2 from Cons(2) show ?case by (cases x) (auto simp: cache_simps) }
  { case 3 from Cons(3) show ?case by (cases x) (auto simp: cache_simps) }
  { case 4 from Cons(4) show ?case by (cases x) (auto simp: cache_simps) }
  { case 5 from Cons(5) show ?case by (cases x) (auto simp: cache_simps) }
  { case 6 from Cons(6) show ?case by (cases x) (auto simp: cache_simps) }
qed simp_all

lemma fold_emails_negative: "emails_negative (fold invalidate_local b c) = emails_negative c"
proof (induction b arbitrary: c)
  case (Cons x b)
  then show ?case by (cases x) simp_all
qed simp

fun email_target :: "email_cache \<Rightarrow> cache_invalidation" where
  "email_target (Email_Account i) = Inv_Account i"
| "email_target (Email_DisabledAccountAddress i) = Inv_Account i"
| "email_target (Email_MailingList i) = Inv_List i"
| "email_target (Email_DisabledListAddress i) = Inv_List i"

lemma fold_emails:
  "emails (fold invalidate_local b c) k =
     (case emails c k of None \<Rightarrow> None | Some v \<Rightarrow> if email_target v \<in> set b then None else Some v)"
proof (induction b arbitrary: c)
  case (Cons x b)
  have "email_target v = x \<longleftrightarrow> (\<exists>i. x = Inv_Account i \<and> is_account_email i v \<or> x = Inv_List i \<and> is_list_email i v)" for v
    by (cases v) auto
  with Cons show ?case by (cases x) (auto simp: cache_simps split: option.splits)
qed (simp split: option.split)

text \<open>The entries that a list of changes makes stale, with the effects of the roles among them.\<close>

definition stale :: "'e registry \<Rightarrow> builder \<Rightarrow> cache_invalidation set" where
  "stale reg changes =
     set changes \<union> (\<Union>r \<in> {r. \<exists>r0. Inv_Role r0 \<in> set changes \<and> role_reaches reg r0 r}. role_effects reg r)"

lemma invalidate_local_caches_fields:
  "access_tokens (invalidate_local_caches h b c) = access_tokens (fold invalidate_local b c)"
  "http_auth (invalidate_local_caches h b c) = http_auth (fold invalidate_local b c)"
  "emails (invalidate_local_caches h b c) = emails (fold invalidate_local b c)"
  "tenants (invalidate_local_caches h b c) = tenants (fold invalidate_local b c)"
  "roles (invalidate_local_caches h b c) = roles (fold invalidate_local b c)"
  by (simp_all add: invalidate_local_caches_def Let_def)

lemma invalidate_caches_total:
  assumes "\<forall>r. \<exists>os. reg_linked_roles reg r = Inr os" "\<forall>t. \<exists>as. reg_tenant_accounts reg t = Inr as"
  obtains b where "set b = stale reg changes" "invalidate_caches h reg changes c =
     Inr (invalidate_local_caches h b c, if changes = [] then None else Some b)"
proof (cases "changes = []")
  case True
  then have "set [] = stale reg changes" by (simp add: stale_def)
  moreover have "invalidate_local_caches h [] c = c" by (simp add: invalidate_local_caches_def)
  ultimately show thesis using that [of "[]"] True by (simp add: invalidate_caches_def)
next
  case False
  from roles_loop_total [OF assms] obtain b where b: "invalidated reg changes = Inr b"
    unfolding invalidated_def by blast
  from that [of b] invalidated_exact [OF b] b False show thesis by (simp add: invalidate_caches_def stale_def)
qed

lemma invalidated_no_roles: "\<forall>r. Inv_Role r \<notin> set b \<Longrightarrow> invalidated reg b = Inr b"
proof -
  assume "\<forall>r. Inv_Role r \<notin> set b"
  then have "set (List.map_filter role_of b) = {}" unfolding set_roles by auto
  then show ?thesis by (simp only: invalidated_def set_empty roles_loop.simps rev.simps)
qed

lemma invalidate_caches_no_roles:
  assumes "\<forall>r. Inv_Role r \<notin> set b"
  shows "\<exists>c' out. invalidate_caches h reg b c = Inr (c', out) \<and>
     (\<forall>i. access_tokens c' i = (if Inv_AccessToken i \<in> set b then None else access_tokens c i))"
  using invalidated_no_roles [OF assms, of reg]
  by (simp add: invalidate_caches_def invalidate_local_caches_fields fold_access_tokens)

section \<open>Cached access tokens stay fresh\<close>

record 'v views =
  view_permissions :: "'v \<Rightarrow> permissions_setting"
  view_user_roles :: "'v \<Rightarrow> user_roles"
  view_role_ids :: "'v \<Rightarrow> u32 list option"
  view_tenant_id :: "'v \<Rightarrow> u32 option"
  view_group_ids :: "'v \<Rightarrow> u32 list"
  view_credentials :: "'v \<Rightarrow> credential list"

fun account_of :: "'v views \<Rightarrow> 'v object_inner \<Rightarrow> account option" where
  "account_of v (Obj_User u) = Some (User_account
     \<lparr> user_permissions = view_permissions v (uo_permissions u), user_roles = view_user_roles v (uo_roles u),
       user_tenant_id = view_tenant_id v (uo_member_tenant_id u), member_group_ids = view_group_ids v (uo_member_group_ids u),
       credentials = view_credentials v (uo_credentials u) \<rparr>)"
| "account_of v (Obj_Group g) = Some (Group_account
     \<lparr> group_permissions = view_permissions v (go_permissions g), group_role_ids = view_role_ids v (go_roles g),
       group_tenant_id = view_tenant_id v (go_member_tenant_id g) \<rparr>)"
| "account_of v _ = None"

text \<open>Every cached token is the one that the account it belongs to would be given now, up to its revisions.\<close>

definition token_fresh :: "'e auth_env \<Rightarrow> (u32 \<rightharpoonup> account) \<Rightarrow> u32 \<Rightarrow> access_token_inner \<Rightarrow> bool" where
  "token_fresh env accts i t \<longleftrightarrow>
     (\<exists>a r r'. accts i = Some a \<and> build_access_token env a i r r' = Inr t) \<or>
     i = RECOVERY_ADMIN_ID \<and> accts i = None \<and> t = inner new_admin"

definition tokens_fresh :: "'e auth_env \<Rightarrow> (u32 \<rightharpoonup> account) \<Rightarrow> 'c caches \<Rightarrow> bool" where
  "tokens_fresh env accts c \<longleftrightarrow> (\<forall>i t. access_tokens c i = Some t \<longrightarrow> token_fresh env accts i t)"

lemma tokens_fresh_update:
  "tokens_fresh env accts c \<Longrightarrow> token_fresh env accts i t \<Longrightarrow>
     tokens_fresh env accts (c \<lparr> access_tokens := (access_tokens c)(i \<mapsto> t) \<rparr>)"
  by (simp add: tokens_fresh_def)

definition same_kind :: "'v object_inner \<Rightarrow> 'v object_inner \<Rightarrow> bool" where
  "same_kind x y \<longleftrightarrow> (\<exists>u u'. x = Obj_User u \<and> y = Obj_User u') \<or> (\<exists>g g'. x = Obj_Group g \<and> y = Obj_Group g')"

lemma set_invalidate_if: "set (invalidate_if p x b) = (if p then insert x (set b) else set b)"
  by (simp add: invalidate_if_def)

lemma token_not_negative_of:
  "Inv_AccessToken i \<in> set (negative_emails_of h n d as b) \<longleftrightarrow> Inv_AccessToken i \<in> set b"
  unfolding negative_emails_of_def by (subst set_fold_invalidate) auto

lemma token_not_negative: "Inv_AccessToken i \<in> set (invalidate_negative_email h obj b) \<longleftrightarrow> Inv_AccessToken i \<in> set b"
  by (simp add: invalidate_negative_email_def token_not_negative_of split: object_inner.split)

lemma process_update_token:
  assumes "same_kind cur new" "account_of v cur \<noteq> account_of v new"
  shows "Inv_AccessToken (document_id oid) \<in> set (process_update h oid cur new b)"
  using assms
  by (auto simp: same_kind_def process_update_def process_user_update_def process_group_update_def Let_def set_invalidate_if
      token_not_negative)

text \<open>
  C11: after an account is changed in the directory, the caches hold no access token that reflects its old state: when every cached token is the one its account
  would be given, then so it is after a user or group object has been replaced by another and the entries that the change makes stale have been removed,
  whatever fields the change touches.
\<close>

theorem account_update_keeps_tokens_fresh:
  assumes "tokens_fresh env accts c" "same_kind cur new" "accts (document_id oid) = account_of v cur"
  shows "tokens_fresh env (accts(document_id oid := account_of v new))
     (invalidate_local_caches h (process_update h oid cur new []) c)"
proof (cases "Inv_AccessToken (document_id oid) \<in> set (process_update h oid cur new [])")
  case True
  with assms(1) show ?thesis
    by (auto simp: tokens_fresh_def token_fresh_def invalidate_local_caches_fields fold_access_tokens split: if_splits)
next
  case False
  with process_update_token [OF assms(2)] have "account_of v cur = account_of v new" by blast
  with assms(3) have "accts(document_id oid := account_of v new) = accts" by auto
  with assms(1) show ?thesis
    by (auto simp: tokens_fresh_def invalidate_local_caches_fields fold_access_tokens split: if_splits)
qed

definition sample_group :: "nat group_object" where
  "sample_group = \<lparr> go_name = ''staff'', go_domain_id = 1, go_description = 0, go_locale = 0, go_member_tenant_id = 0, go_roles = 0,
     go_quotas = 0, go_permissions = 0, go_aliases = [] \<rparr>"

definition sample_views :: "nat views" where
  "sample_views = \<lparr> view_permissions = (\<lambda>_. Inherit), view_user_roles = (\<lambda>_. Roles_User), view_role_ids = (\<lambda>_. Some []),
     view_tenant_id = (\<lambda>n. if n = 0 then None else Some 5), view_group_ids = (\<lambda>_. []), view_credentials = (\<lambda>_. []) \<rparr>"

definition empty_caches :: "unit caches" where
  "empty_caches = \<lparr> access_tokens = Map.empty, http_auth = Map.empty, files = Map.empty, contacts = Map.empty, events = Map.empty,
     scheduling = Map.empty, emails = Map.empty, emails_negative = Map.empty, domain_names = Map.empty, domain_names_negative = Map.empty,
     domains = Map.empty, accounts = Map.empty, roles = Map.empty, tenants = Map.empty, lists = Map.empty, dkim_signers = Map.empty,
     logos = Map.empty \<rparr>"

theorem account_update_keeps_tokens_fresh_witness:
  "\<exists>c :: unit caches. access_tokens c 4 \<noteq> None \<and>
     tokens_fresh sample_env [4 \<mapsto> the (account_of sample_views (Obj_Group sample_group))] c \<and>
     tokens_fresh sample_env [4 \<mapsto> the (account_of sample_views (Obj_Group (sample_group \<lparr> go_member_tenant_id := 1 \<rparr>)))]
       (invalidate_local_caches (\<lambda>_. 0) (process_update (\<lambda>_. 0) 4 (Obj_Group sample_group)
          (Obj_Group (sample_group \<lparr> go_member_tenant_id := 1 \<rparr>)) []) c)"
proof -
  let ?a = "the (account_of sample_views (Obj_Group sample_group))"
  obtain t where t: "build_access_token sample_env ?a 4 0 0 = Inr t"
    using sample_effective by (simp add: build_access_token_def build_group_token_def sample_views_def sample_group_def)
  let ?c = "empty_caches \<lparr> access_tokens := [4 \<mapsto> t] \<rparr>"
  have f: "tokens_fresh sample_env [4 \<mapsto> ?a] ?c" using t by (auto simp: tokens_fresh_def token_fresh_def split: if_splits)
  have k: "same_kind (Obj_Group sample_group) (Obj_Group (sample_group \<lparr> go_member_tenant_id := 1 \<rparr>))"
    by (simp add: same_kind_def)
  have d: "document_id 4 = 4" by (simp add: document_id_def)
  have "[4 \<mapsto> ?a] (document_id 4) = account_of sample_views (Obj_Group sample_group)" by (simp add: d)
  moreover have "[4 \<mapsto> ?a](document_id 4 := account_of sample_views (Obj_Group (sample_group \<lparr> go_member_tenant_id := 1 \<rparr>))) =
     [4 \<mapsto> the (account_of sample_views (Obj_Group (sample_group \<lparr> go_member_tenant_id := 1 \<rparr>)))]"
    by (simp add: d)
  moreover have "access_tokens ?c 4 \<noteq> None" by simp
  ultimately show ?thesis
    using account_update_keeps_tokens_fresh [OF f k, of 4 sample_views "\<lambda>_. 0"] f by metis
qed

text \<open>
  The lookup of an access token keeps the cached tokens fresh and gives a fresh one: in a cache where every token is the one its
  account would be given now, the token it returns is that of the account, or the administrator of the recovery mode when there is no account with its identifier,
  and it is in the cache afterwards.
\<close>

theorem access_token_lookup_fresh:
  assumes "tokens_fresh env accts c" "\<forall>i. object i = Inr (accts i)"
    and "access_token_lookup env object hash random i c = (r, c')"
  shows "tokens_fresh env accts c' \<and>
     (case r of
        Inr t \<Rightarrow> access_tokens c' i = Some t \<and> token_fresh env accts i t
      | Inl (Build e) \<Rightarrow> c' = c \<and> (\<exists>a. accts i = Some a \<and> build_access_token env a i random (hash a) = Inl e)
      | Inl Account_not_found \<Rightarrow> c' = c \<and> accts i = None)"
proof (cases "access_tokens c i")
  case (Some t)
  with assms have "r = Inr t" "c' = c" by (simp_all add: access_token_lookup_def)
  with assms(1) Some show ?thesis by (simp add: tokens_fresh_def)
next
  case None
  have built: "token_fresh env accts i t" if "accts i = Some a" "build_access_token env a i random (hash a) = Inr t" for a t
    using that by (auto simp: token_fresh_def)
  have admin: "token_fresh env accts i (inner new_admin)" if "accts i = None" "i = RECOVERY_ADMIN_ID"
    using that by (simp add: token_fresh_def)
  show ?thesis
  proof (cases "accts i")
    case (Some a)
    with None assms built [OF Some] show ?thesis
      by (cases "build_access_token env a i random (hash a)") (auto simp: access_token_lookup_def intro: tokens_fresh_update)
  next
    case accts: None
    with None assms admin show ?thesis
      by (cases "i = RECOVERY_ADMIN_ID") (auto simp: access_token_lookup_def intro: tokens_fresh_update)
  qed
qed

theorem access_token_lookup_fresh_witness:
  "\<exists>t c'. access_token_lookup sample_env (\<lambda>_. Inr None) (\<lambda>_. 0) 1 RECOVERY_ADMIN_ID empty_caches = (Inr t, c') \<and>
     tokens_fresh sample_env Map.empty c' \<and> access_tokens c' RECOVERY_ADMIN_ID = Some t"
proof -
  obtain r c' where r: "access_token_lookup sample_env (\<lambda>_. Inr None) (\<lambda>_. 0) 1 RECOVERY_ADMIN_ID empty_caches = (r, c')"
    by (cases "access_token_lookup sample_env (\<lambda>_. Inr None) (\<lambda>_. 0) 1 RECOVERY_ADMIN_ID empty_caches")
  have "tokens_fresh sample_env Map.empty empty_caches" by (simp add: tokens_fresh_def empty_caches_def)
  from access_token_lookup_fresh [OF this _ r] r show ?thesis
    by (auto simp: access_token_lookup_def empty_caches_def)
qed

text \<open>
  C12: the removal of stale entries is complete and touches nothing else. When the queries of the registry succeed the operation ends, although roles may include each other in a
  cycle, and removes exactly the access tokens, tenants and roles that are named in the changes or that follow from a changed role: those of the accounts
  that hold the role, or a role that includes it, and of the tenants that do with all their accounts. The other nodes are
  sent exactly this set, and nothing when there is no change.
\<close>

theorem invalidation_exact:
  assumes "\<forall>r. \<exists>os. reg_linked_roles reg r = Inr os" "\<forall>t. \<exists>as. reg_tenant_accounts reg t = Inr as"
  shows "\<exists>c' out. invalidate_caches h reg changes c = Inr (c', out) \<and>
     (\<forall>i. access_tokens c' i = (if Inv_AccessToken i \<in> stale reg changes then None else access_tokens c i)) \<and>
     (\<forall>i. tenants c' i = (if Inv_Tenant i \<in> stale reg changes then None else tenants c i)) \<and>
     (\<forall>i. roles c' i = (if Inv_Role i \<in> stale reg changes then None else roles c i)) \<and>
     (out = None \<longleftrightarrow> changes = []) \<and> (\<forall>b. out = Some b \<longrightarrow> set b = stale reg changes)"
proof -
  obtain b where b: "set b = stale reg changes" "invalidate_caches h reg changes c =
     Inr (invalidate_local_caches h b c, if changes = [] then None else Some b)"
    using invalidate_caches_total [OF assms] .
  show ?thesis
    by (simp add: b(2) invalidate_local_caches_fields fold_access_tokens fold_directory b(1) [symmetric])
qed

definition cyclic_registry :: "unit registry" where
  "cyclic_registry = \<lparr> reg_linked_roles = (\<lambda>r. Inr (if r = 1 then [(Type_Role, 2)] else if r = 2 then [(Type_Role, 1), (Type_Account, 4)] else [])),
     reg_tenant_accounts = (\<lambda>_. Inr []), reg_enterprise = False \<rparr>"

theorem invalidation_exact_witness:
  "\<exists>c' out. invalidate_caches (\<lambda>_. 0) cyclic_registry [Inv_Role 1]
       (empty_caches \<lparr> access_tokens := [4 \<mapsto> inner new_admin, 5 \<mapsto> inner new_admin] \<rparr>) = Inr (c', out) \<and>
     access_tokens c' 4 = None \<and> access_tokens c' 5 = Some (inner new_admin)"
proof -
  have reg: "\<forall>r. \<exists>os. reg_linked_roles cyclic_registry r = Inr os" "\<forall>t. \<exists>as. reg_tenant_accounts cyclic_registry t = Inr as"
    by (simp_all add: cyclic_registry_def)
  have d: "document_id 2 = 2" "document_id 4 = 4" "document_id 1 = 1" by (simp_all add: document_id_def)
  have "2 \<in> role_links cyclic_registry 1"
    by (auto simp: role_links_def linked_roles_def cyclic_registry_def d)
  with self [of cyclic_registry 1] have "role_reaches cyclic_registry 1 2" by (rule link)
  moreover have "Inv_AccessToken 4 \<in> role_effects cyclic_registry 2"
    by (simp add: role_effects_def cyclic_registry_def d)
  ultimately have "Inv_AccessToken 4 \<in> stale cyclic_registry [Inv_Role 1]" by (auto simp: stale_def)
  moreover have "Inv_AccessToken 5 \<notin> role_effects cyclic_registry r" for r
    by (auto simp: role_effects_def cyclic_registry_def d)
  then have "Inv_AccessToken 5 \<notin> stale cyclic_registry [Inv_Role 1]" by (auto simp: stale_def)
  ultimately show ?thesis
    using invalidation_exact [OF reg, of "\<lambda>_. 0" "[Inv_Role 1]"
      "empty_caches \<lparr> access_tokens := [4 \<mapsto> inner new_admin, 5 \<mapsto> inner new_admin] \<rparr>"] by auto
qed

text \<open>
  C37: a change of a tenant leaves the access tokens of its accounts in the cache, although their permissions are limited by
  those of the tenant: whatever permissions the tenant is given, no token is removed (a change of a role that the tenant holds removes them).
  A change of the aliases of a domain leaves the cached domain in place, although it holds the aliases.
\<close>

theorem tenant_update_keeps_tokens:
  "(\<exists>c' out. invalidate_caches h reg (process_update h oid (Obj_Tenant cur) (Obj_Tenant new) []) c = Inr (c', out) \<and>
      access_tokens c' = access_tokens c) \<and>
   process_update h oid (Obj_Domain d) (Obj_Domain (d \<lparr> do_aliases := x \<rparr>)) [] = []"
proof -
  let ?b = "process_update h oid (Obj_Tenant cur) (Obj_Tenant new) []"
  have b: "set ?b \<subseteq> {Inv_Tenant (document_id oid), Inv_TenantLogo (document_id oid)}"
    by (auto simp: process_update_def Let_def set_invalidate_if split: if_splits)
  then have "\<forall>r. Inv_Role r \<notin> set ?b" "\<forall>i. Inv_AccessToken i \<notin> set ?b" by auto
  with invalidate_caches_no_roles [of ?b h reg c] obtain c' out where
    "invalidate_caches h reg ?b c = Inr (c', out)" "\<forall>i. access_tokens c' i = access_tokens c i" by auto
  moreover have "process_update h oid (Obj_Domain d) (Obj_Domain (d \<lparr> do_aliases := x \<rparr>)) [] = []"
    by (simp add: process_update_def Let_def invalidate_if_def)
  ultimately show ?thesis by auto
qed

end
