(* ===== verification/DavResources.thy ===== *)
theory DavResources
  imports Acl "HOL-Library.Sublist"
begin

text \<open>
  The cached tree of the files, calendars and address books of an account
  (\<^verbatim>\<open>crates/common/src/storage/dav.rs\<close> and the types \<open>DavResources\<close>, \<open>DavPath\<close>, \<open>DavResource\<close> of
  \<^verbatim>\<open>crates/common/src/lib.rs\<close>). The set of paths is the list of its elements in the order
  the hash set iterates over them; two paths are equal when their strings are. An access to the list of resources
  out of its range panics, which is the result \<open>None\<close> of \<open>resource_at\<close> and of
  the operations that use it; \<open>resources_wf\<close> is the invariant that excludes it. The time zone of a calendar is
  a type of a library and only carried around: it is the type variable of the types.
\<close>

record dav_name =
  dav_name_name :: bytes
  dav_name_parent_id :: u32

record 'tz tiny_calendar_preferences =
  pref_account_id :: u32
  pref_tz :: 'tz
  pref_flags :: u16

datatype 'tz dav_resource_metadata =
  Meta_File bytes "u32 option" "u32 option" "acl_grant list"
| Meta_Calendar bytes "acl_grant list" "'tz tiny_calendar_preferences list"
| Meta_CalendarEvent "dav_name list" i64 u32
| Meta_CalendarEventNotification "dav_name list"
| Meta_AddressBook bytes "acl_grant list"
| Meta_ContactCard "dav_name list"

record 'tz dav_resource =
  resource_document_id :: u32
  resource_data :: "'tz dav_resource_metadata"

record dav_path =
  path_str :: bytes
  path_parent_id :: "u32 option"
  path_hierarchy_seq :: u32
  resource_idx :: nat

record 'tz dav_resources =
  base_path :: bytes
  paths :: "dav_path list"
  resources :: "'tz dav_resource list"
  item_change_id :: u64
  container_change_id :: u64
  highest_change_id :: u64
  resources_size :: u64

type_synonym 'tz dav_resource_path = "dav_path \<times> 'tz dav_resource"

definition SCHEDULE_INBOX_ID :: u32 where
  "SCHEDULE_INBOX_ID = - 2"

section \<open>A resource\<close>

definition is_child_of :: "'tz dav_resource \<Rightarrow> u32 \<Rightarrow> bool" where
  "is_child_of r parent =
     (case resource_data r of
        Meta_File _ _ pid _ \<Rightarrow> pid = Some parent
      | Meta_CalendarEvent names _ _ \<Rightarrow> list_ex (\<lambda>n. dav_name_parent_id n = parent) names
      | Meta_ContactCard names \<Rightarrow> list_ex (\<lambda>n. dav_name_parent_id n = parent) names
      | Meta_CalendarEventNotification names \<Rightarrow> names = [] \<and> parent = SCHEDULE_INBOX_ID
      | _ \<Rightarrow> False)"

definition first_parent :: "dav_name list \<Rightarrow> u32 option" where
  "first_parent names = (case names of [] \<Rightarrow> None | n # _ \<Rightarrow> Some (dav_name_parent_id n))"

definition resource_parent_id :: "'tz dav_resource \<Rightarrow> u32 option" where
  "resource_parent_id r =
     (case resource_data r of
        Meta_File _ _ pid _ \<Rightarrow> pid
      | Meta_CalendarEvent names _ _ \<Rightarrow> first_parent names
      | Meta_ContactCard names \<Rightarrow> first_parent names
      | Meta_CalendarEventNotification names \<Rightarrow> (if names = [] then Some SCHEDULE_INBOX_ID else None)
      | _ \<Rightarrow> None)"

definition child_names :: "'tz dav_resource \<Rightarrow> dav_name list option" where
  "child_names r =
     (case resource_data r of
        Meta_CalendarEvent names _ _ \<Rightarrow> Some names
      | Meta_ContactCard names \<Rightarrow> Some names
      | Meta_CalendarEventNotification names \<Rightarrow> (if names \<noteq> [] then Some names else None)
      | _ \<Rightarrow> None)"

definition container_name :: "'tz dav_resource \<Rightarrow> bytes option" where
  "container_name r =
     (case resource_data r of
        Meta_File name _ _ _ \<Rightarrow> Some name
      | Meta_Calendar name _ _ \<Rightarrow> Some name
      | Meta_AddressBook name _ \<Rightarrow> Some name
      | Meta_CalendarEventNotification names \<Rightarrow>
          (if names = [] then Some (if resource_document_id r = SCHEDULE_INBOX_ID then ''inbox'' else ''outbox'') else None)
      | _ \<Rightarrow> None)"

text \<open>The result \<open>None\<close> stands for the panic on two resources of different kinds.\<close>

definition has_hierarchy_changes :: "'tz dav_resource \<Rightarrow> 'tz dav_resource \<Rightarrow> bool option" where
  "has_hierarchy_changes r other =
     (case (resource_data r, resource_data other) of
        (Meta_File a _ c _, Meta_File b _ d _) \<Rightarrow> Some (a \<noteq> b \<or> c \<noteq> d)
      | (Meta_Calendar a _ _, Meta_Calendar b _ _) \<Rightarrow> Some (a \<noteq> b)
      | (Meta_AddressBook a _, Meta_AddressBook b _) \<Rightarrow> Some (a \<noteq> b)
      | (Meta_CalendarEvent a _ _, Meta_CalendarEvent b _ _) \<Rightarrow> Some (a \<noteq> b)
      | (Meta_ContactCard a, Meta_ContactCard b) \<Rightarrow> Some (a \<noteq> b)
      | (Meta_CalendarEventNotification a, Meta_CalendarEventNotification b) \<Rightarrow> Some (a \<noteq> b)
      | _ \<Rightarrow> None)"

text \<open>The end of an event is computed on 64 bits.\<close>

definition event_time_range :: "'tz dav_resource \<Rightarrow> (i64 \<times> i64) option" where
  "event_time_range r =
     (case resource_data r of Meta_CalendarEvent _ start duration \<Rightarrow> Some (start, start + ucast duration) | _ \<Rightarrow> None)"

definition calendar_preferences :: "'tz dav_resource \<Rightarrow> u32 \<Rightarrow> 'tz tiny_calendar_preferences option" where
  "calendar_preferences r account =
     (case resource_data r of
        Meta_Calendar _ _ prefs \<Rightarrow>
          (case find (\<lambda>p. pref_account_id p = account) prefs of
             Some p \<Rightarrow> Some p
           | None \<Rightarrow> (case prefs of [] \<Rightarrow> None | p # _ \<Rightarrow> Some p))
      | _ \<Rightarrow> None)"

definition is_container :: "'tz dav_resource \<Rightarrow> bool" where
  "is_container r =
     (case resource_data r of
        Meta_File _ sz _ _ \<Rightarrow> sz = None
      | Meta_Calendar _ _ _ \<Rightarrow> True
      | Meta_AddressBook _ _ \<Rightarrow> True
      | Meta_CalendarEventNotification names \<Rightarrow> names = []
      | _ \<Rightarrow> False)"

definition resource_size :: "'tz dav_resource \<Rightarrow> u32 option" where
  "resource_size r = (case resource_data r of Meta_File _ sz _ _ \<Rightarrow> sz | _ \<Rightarrow> None)"

definition resource_acls :: "'tz dav_resource \<Rightarrow> acl_grant list option" where
  "resource_acls r =
     (case resource_data r of
        Meta_File _ _ _ acls \<Rightarrow> Some acls
      | Meta_Calendar _ acls _ \<Rightarrow> Some acls
      | Meta_AddressBook _ acls \<Rightarrow> Some acls
      | _ \<Rightarrow> None)"

section \<open>The tree\<close>

definition resource_at :: "'tz dav_resources \<Rightarrow> dav_path \<Rightarrow> 'tz dav_resource option" where
  "resource_at d p = (if resource_idx p < length (resources d) then Some (resources d ! resource_idx p) else None)"

definition resource_path_size :: "'tz dav_resource_path \<Rightarrow> u32" where
  "resource_path_size rp = (case resource_size (snd rp) of Some n \<Rightarrow> n | None \<Rightarrow> 0)"

text \<open>The paths that pass a test, each with its resource.\<close>

definition select_paths :: "'tz dav_resources \<Rightarrow> (dav_path \<Rightarrow> bool) \<Rightarrow> 'tz dav_resource_path list option" where
  "select_paths d P = those (map (\<lambda>p. map_option (Pair p) (resource_at d p)) (filter P (paths d)))"

definition by_path :: "'tz dav_resources \<Rightarrow> bytes \<Rightarrow> 'tz dav_resource_path option option" where
  "by_path d name =
     (case find (\<lambda>p. path_str p = name) (paths d) of
        None \<Rightarrow> Some None
      | Some p \<Rightarrow> map_option (\<lambda>r. Some (p, r)) (resource_at d p))"

definition container_resource_by_id :: "'tz dav_resources \<Rightarrow> u32 \<Rightarrow> 'tz dav_resource option" where
  "container_resource_by_id d i = find (\<lambda>r. resource_document_id r = i \<and> is_container r) (resources d)"

definition path_of_found :: "'tz dav_resources \<Rightarrow> (nat \<times> 'tz dav_resource) option \<Rightarrow> 'tz dav_resource_path option" where
  "path_of_found d found =
     (case found of
        None \<Rightarrow> None
      | Some (idx, r) \<Rightarrow> map_option (\<lambda>p. (p, r)) (find (\<lambda>p. resource_idx p = idx) (paths d)))"

definition container_resource_path_by_id :: "'tz dav_resources \<Rightarrow> u32 \<Rightarrow> 'tz dav_resource_path option" where
  "container_resource_path_by_id d i =
     path_of_found d (find (\<lambda>(_, r). resource_document_id r = i \<and> is_container r) (enumerate 0 (resources d)))"

definition any_resource_path_by_id :: "'tz dav_resources \<Rightarrow> u32 \<Rightarrow> 'tz dav_resource_path option" where
  "any_resource_path_by_id d i =
     path_of_found d (find (\<lambda>(_, r). resource_document_id r = i) (enumerate 0 (resources d)))"

fun strip_prefix :: "bytes \<Rightarrow> bytes \<Rightarrow> bytes option" where
  "strip_prefix [] s = Some s"
| "strip_prefix (c # p) [] = None"
| "strip_prefix (c # p) (x # s) = (if x = c then strip_prefix p s else None)"

definition count_slashes :: "bytes \<Rightarrow> nat" where
  "count_slashes s = length (filter (\<lambda>c. c = CHR ''/'') s)"

definition subtree :: "'tz dav_resources \<Rightarrow> bytes \<Rightarrow> 'tz dav_resource_path list option" where
  "subtree d search = select_paths d (\<lambda>p. strip_prefix (search @ ''/'') (path_str p) \<noteq> None \<or> path_str p = search)"

definition subtree_with_depth :: "'tz dav_resources \<Rightarrow> bytes \<Rightarrow> nat \<Rightarrow> 'tz dav_resource_path list option" where
  "subtree_with_depth d search depth =
     select_paths d (\<lambda>p. (case strip_prefix (search @ ''/'') (path_str p) of
         None \<Rightarrow> False | Some name \<Rightarrow> count_slashes name < depth) \<or> path_str p = search)"

definition tree_with_depth :: "'tz dav_resources \<Rightarrow> nat \<Rightarrow> 'tz dav_resource_path list option" where
  "tree_with_depth d depth = select_paths d (\<lambda>p. count_slashes (path_str p) \<le> depth)"

definition dav_children :: "'tz dav_resources \<Rightarrow> u32 \<Rightarrow> 'tz dav_resource_path list option" where
  "dav_children d parent = select_paths d (\<lambda>p. path_parent_id p = Some parent)"

definition children_ids :: "'tz dav_resources \<Rightarrow> u32 \<Rightarrow> u32 list option" where
  "children_ids d parent = map_option (map (\<lambda>rp. resource_document_id (snd rp))) (select_paths d (\<lambda>p. path_parent_id p = Some parent))"

definition format_resource :: "'tz dav_resources \<Rightarrow> 'tz dav_resource_path \<Rightarrow> bytes" where
  "format_resource d rp =
     (if is_container (snd rp) then base_path d @ path_str (fst rp) @ ''/'' else base_path d @ path_str (fst rp))"

definition format_resource_paths_by_id :: "'tz dav_resources \<Rightarrow> u32 \<Rightarrow> bytes list option" where
  "format_resource_paths_by_id d i =
     map_option (\<lambda>rps. map (format_resource d) (filter (\<lambda>rp. resource_document_id (snd rp) = i) rps)) (select_paths d (\<lambda>_. True))"

definition format_collection :: "'tz dav_resources \<Rightarrow> bytes \<Rightarrow> bytes" where
  "format_collection d name = base_path d @ name @ ''/''"

definition format_item :: "'tz dav_resources \<Rightarrow> bytes \<Rightarrow> bytes" where
  "format_item d name = base_path d @ name"

section \<open>Invariant and lookups\<close>

definition resources_wf :: "'tz dav_resources \<Rightarrow> bool" where
  "resources_wf d \<longleftrightarrow> distinct (map path_str (paths d)) \<and> list_all (\<lambda>p. resource_idx p < length (resources d)) (paths d)"

definition with_resource :: "'tz dav_resources \<Rightarrow> dav_path \<Rightarrow> 'tz dav_resource_path" where
  "with_resource d p = (p, resources d ! resource_idx p)"

lemma those_map_Some: "(\<And>x. x \<in> set xs \<Longrightarrow> f x = Some (g x)) \<Longrightarrow> those (map f xs) = Some (map g xs)"
  by (induction xs) simp_all

lemma resource_at_wf: "resources_wf d \<Longrightarrow> p \<in> set (paths d) \<Longrightarrow> resource_at d p = Some (resources d ! resource_idx p)"
  by (simp add: resource_at_def resources_wf_def list_all_iff)

lemma select_paths_wf: "resources_wf d \<Longrightarrow> select_paths d P = Some (map (with_resource d) (filter P (paths d)))"
  by (auto simp: select_paths_def with_resource_def resource_at_wf intro: those_map_Some)

lemma find_path:
  "distinct (map path_str ps) \<Longrightarrow> find (\<lambda>p. path_str p = name) ps = Some p \<longleftrightarrow> p \<in> set ps \<and> path_str p = name"
  by (induction ps) (auto simp: image_iff)

lemma by_path_wf:
  assumes "resources_wf d"
  shows "by_path d name = Some (Some rp) \<longleftrightarrow> (\<exists>p \<in> set (paths d). path_str p = name \<and> rp = with_resource d p)"
    and "by_path d name \<noteq> None"
proof -
  have find: "find (\<lambda>p. path_str p = name) (paths d) = Some p \<longleftrightarrow> p \<in> set (paths d) \<and> path_str p = name" for p
    using assms by (simp add: find_path resources_wf_def)
  show "by_path d name = Some (Some rp) \<longleftrightarrow> (\<exists>p \<in> set (paths d). path_str p = name \<and> rp = with_resource d p)"
    "by_path d name \<noteq> None"
  proof (atomize(full), cases "find (\<lambda>p. path_str p = name) (paths d)")
    case None
    with find show "(by_path d name = Some (Some rp) \<longleftrightarrow> (\<exists>p \<in> set (paths d). path_str p = name \<and> rp = with_resource d p)) \<and>
       by_path d name \<noteq> None"
      by (auto simp: by_path_def)
  next
    case (Some q)
    with find have q: "p \<in> set (paths d) \<and> path_str p = name \<longleftrightarrow> p = q" for p by (metis option.inject)
    then have "q \<in> set (paths d)" by blast
    from resource_at_wf [OF assms this] Some q
    show "(by_path d name = Some (Some rp) \<longleftrightarrow> (\<exists>p \<in> set (paths d). path_str p = name \<and> rp = with_resource d p)) \<and>
       by_path d name \<noteq> None"
      unfolding bex_simps Bex_def conj_assoc [symmetric] q by (auto simp: by_path_def with_resource_def)
  qed
qed

section \<open>Paths as lists of names\<close>

text \<open>A path is the list of the names between its slashes. \<close>

fun components :: "bytes \<Rightarrow> bytes list" where
  "components [] = [[]]"
| "components (c # s) =
     (if c = CHR ''/'' then [] # components s else (case components s of [] \<Rightarrow> [[c]] | w # ws \<Rightarrow> (c # w) # ws))"

fun join_slash :: "bytes list \<Rightarrow> bytes" where
  "join_slash [] = []"
| "join_slash [w] = w"
| "join_slash (w # ws) = w @ CHR ''/'' # join_slash ws"

lemma components_nonempty [simp]: "components s \<noteq> []"
  by (induction s) (simp_all split: list.split)

lemma join_components: "join_slash (components s) = s"
proof (induction s)
  case (Cons c s)
  then show ?case by (cases "components s" rule: join_slash.cases) auto
qed simp

lemma components_append: "components (a @ CHR ''/'' # n) = components a @ components n"
  by (induction a) (auto split: list.split)

lemma length_components: "length (components s) = count_slashes s + 1"
  by (induction s) (auto simp: count_slashes_def split: list.split)

lemma join_slash_append: "xs \<noteq> [] \<Longrightarrow> ys \<noteq> [] \<Longrightarrow> join_slash (xs @ ys) = join_slash xs @ CHR ''/'' # join_slash ys"
  by (induction xs rule: join_slash.induct) (auto simp: neq_Nil_conv)

lemma prefix_components: "prefix (components a) (components b) \<longleftrightarrow> b = a \<or> (\<exists>n. b = a @ CHR ''/'' # n)"
proof
  assume "prefix (components a) (components b)"
  then obtain ys where ys: "components b = components a @ ys" by (auto simp: prefix_def)
  show "b = a \<or> (\<exists>n. b = a @ CHR ''/'' # n)"
  proof (cases "ys = []")
    case True
    with ys have "join_slash (components b) = join_slash (components a)" by simp
    then show ?thesis by (simp add: join_components)
  next
    case False
    with ys have "join_slash (components b) = join_slash (components a) @ CHR ''/'' # join_slash ys"
      by (simp add: join_slash_append)
    then show ?thesis by (auto simp: join_components)
  qed
qed (auto simp: components_append)

lemma strip_prefix_Some: "strip_prefix p s = Some n \<longleftrightarrow> s = p @ n"
  by (induction p s rule: strip_prefix.induct) auto

text \<open>
  The tree below a path is found by whole names. In a well-formed cache the subtree of a path consists of exactly the paths whose list of names begins with the list of names of
  the path, with their resources (\<open>calendars2\<close> is not below \<open>calendars\<close>), and the subtree of depth n of exactly those of them
  with at most n names more.
\<close>

theorem subtree_by_components:
  assumes "resources_wf d"
  shows "subtree d s = Some (map (with_resource d) (filter (\<lambda>p. prefix (components s) (components (path_str p))) (paths d))) \<and>
     subtree_with_depth d s n = Some (map (with_resource d) (filter (\<lambda>p. prefix (components s) (components (path_str p)) \<and>
       length (components (path_str p)) \<le> length (components s) + n) (paths d)))"
proof
  have "(strip_prefix (s @ ''/'') q \<noteq> None \<or> q = s) \<longleftrightarrow> prefix (components s) (components q)" for q
    by (auto simp: prefix_components strip_prefix_Some)
  then show "subtree d s = Some (map (with_resource d) (filter (\<lambda>p. prefix (components s) (components (path_str p))) (paths d)))"
    unfolding subtree_def select_paths_wf [OF assms] by (simp only:)
  have "((case strip_prefix (s @ ''/'') q of None \<Rightarrow> False | Some name \<Rightarrow> count_slashes name < n) \<or> q = s) \<longleftrightarrow>
     prefix (components s) (components q) \<and> length (components q) \<le> length (components s) + n" for q
  proof (cases "strip_prefix (s @ ''/'') q")
    case None
    then have "\<And>n. q \<noteq> s @ CHR ''/'' # n" using strip_prefix_Some [of "s @ ''/''" q] by auto
    with None show ?thesis by (auto simp: prefix_components)
  next
    case (Some name)
    then have "q = s @ CHR ''/'' # name" by (simp add: strip_prefix_Some)
    with Some show ?thesis by (auto simp: components_append length_components)
  qed
  then show "subtree_with_depth d s n = Some (map (with_resource d) (filter (\<lambda>p. prefix (components s) (components (path_str p)) \<and>
       length (components (path_str p)) \<le> length (components s) + n) (paths d)))"
    unfolding subtree_with_depth_def select_paths_wf [OF assms] by simp
qed

definition sample_resources :: "unit dav_resources" where
  "sample_resources = \<lparr> base_path = ''/dav/'', paths =
     [\<lparr> path_str = ''a'', path_parent_id = None, path_hierarchy_seq = 0, resource_idx = 0 \<rparr>,
      \<lparr> path_str = ''a/b'', path_parent_id = Some 1, path_hierarchy_seq = 1, resource_idx = 1 \<rparr>,
      \<lparr> path_str = ''ab'', path_parent_id = None, path_hierarchy_seq = 0, resource_idx = 1 \<rparr>],
     resources = [\<lparr> resource_document_id = 1, resource_data = Meta_Calendar ''a'' [\<lparr> grant_account_id = 4, grants = 1 \<rparr>] [] \<rparr>,
       \<lparr> resource_document_id = 2, resource_data = Meta_CalendarEvent [\<lparr> dav_name_name = ''b'', dav_name_parent_id = 1 \<rparr>] 0 60 \<rparr>],
     item_change_id = 0, container_change_id = 0, highest_change_id = 0, resources_size = 0 \<rparr>"

lemma sample_resources_wf: "resources_wf sample_resources"
  by (simp add: resources_wf_def sample_resources_def)

theorem subtree_by_components_witness:
  "resources_wf sample_resources \<and> map_option (map (path_str \<circ> fst)) (subtree sample_resources ''a'') = Some [''a'', ''a/b'']"
  using subtree_by_components [OF sample_resources_wf, of "''a''"] sample_resources_wf
  by (simp add: sample_resources_def with_resource_def)

end
