(* ===== verification/Sharing.thy ===== *)
theory Sharing
  imports CacheInvalidate DavResources
begin

text \<open>
  Access lists of folders, calendars and address books (\<^verbatim>\<open>crates/common/src/sharing/\<close>): the rights
  a user has through the grants to the accounts it is a member of, the containers and documents of another
  account that a user may see, and the refresh of the cached access tokens after the grants of a container
  have changed. A set of document identifiers is an Isabelle set; an access outside the list of resources is the
  result \<open>None\<close>.
\<close>

section \<open>Effective rights\<close>

fun effective_acl_loop :: "access_token \<Rightarrow> acl_grant list \<Rightarrow> bitmap \<Rightarrow> bitmap" where
  "effective_acl_loop t [] acl = acl"
| "effective_acl_loop t (item # items) acl =
     effective_acl_loop t items (if is_member t (grant_account_id item) then bitmap_union acl (grants item) else acl)"

definition effective_acl :: "acl_grant list \<Rightarrow> access_token \<Rightarrow> bitmap" where
  "effective_acl gs t = effective_acl_loop t gs bitmap_new"

fun effective_acl_archived_loop :: "access_token \<Rightarrow> acl_grant list \<Rightarrow> bitmap \<Rightarrow> bitmap" where
  "effective_acl_archived_loop t [] acl = acl"
| "effective_acl_archived_loop t (item # items) acl =
     effective_acl_archived_loop t items
       (if is_member t (grant_account_id item) then bitmap_union_raw acl (grants item) else acl)"

definition effective_acl_archived :: "acl_grant list \<Rightarrow> access_token \<Rightarrow> bitmap" where
  "effective_acl_archived gs t = effective_acl_archived_loop t gs bitmap_new"

section \<open>Shared resources\<close>

fun shared_acls_loop :: "access_token \<Rightarrow> bitmap \<Rightarrow> bool \<Rightarrow> u32 \<Rightarrow> acl_grant list \<Rightarrow> u32 set \<Rightarrow> u32 set" where
  "shared_acls_loop t check match_any i [] ids = ids"
| "shared_acls_loop t check match_any i (acl # acls) ids =
     shared_acls_loop t check match_any i acls
       (if is_member t (grant_account_id acl) then
          (let gs = bitmap_intersection (grants acl) check
           in if gs = check \<or> match_any \<and> \<not> bitmap_is_empty gs then insert i ids else ids)
        else ids)"

fun shared_containers_loop :: "access_token \<Rightarrow> bitmap \<Rightarrow> bool \<Rightarrow> 'tz dav_resource list \<Rightarrow> u32 set \<Rightarrow> u32 set" where
  "shared_containers_loop t check match_any [] ids = ids"
| "shared_containers_loop t check match_any (r # rs) ids =
     shared_containers_loop t check match_any rs
       (case resource_acls r of
          None \<Rightarrow> ids
        | Some acls \<Rightarrow> shared_acls_loop t check match_any (resource_document_id r) acls ids)"

definition shared_containers :: "'tz dav_resources \<Rightarrow> access_token \<Rightarrow> acl list \<Rightarrow> bool \<Rightarrow> u32 set" where
  "shared_containers d t check_acls match_any =
     shared_containers_loop t (bitmap_from_list u64_from_acl acl_is_valid check_acls) match_any (resources d) {}"

fun shared_children :: "'tz dav_resources \<Rightarrow> u32 set \<Rightarrow> dav_path list \<Rightarrow> u32 set \<Rightarrow> u32 set option" where
  "shared_children d containers [] ids = Some ids"
| "shared_children d containers (p # ps) ids =
     (case path_parent_id p of
        Some parent \<Rightarrow>
          if parent \<in> containers then
            (case resource_at d p of
               None \<Rightarrow> None
             | Some r \<Rightarrow> shared_children d containers ps (insert (resource_document_id r) ids))
          else shared_children d containers ps ids
      | None \<Rightarrow> shared_children d containers ps ids)"

definition shared_items :: "'tz dav_resources \<Rightarrow> access_token \<Rightarrow> acl list \<Rightarrow> bool \<Rightarrow> u32 set option" where
  "shared_items d t check_acls match_any =
     (let containers = shared_containers d t check_acls match_any
      in if containers \<noteq> {}
         then shared_children d containers (paths d)
           (fold (\<lambda>r ids. if \<not> is_container r \<and> resource_document_id r \<in> containers then insert (resource_document_id r) ids else ids)
             (resources d) {})
         else Some containers)"

definition shared_documents :: "'tz dav_resources \<Rightarrow> access_token \<Rightarrow> acl list \<Rightarrow> bool \<Rightarrow> u32 set option" where
  "shared_documents d t check_acls match_any =
     (let containers = shared_containers d t check_acls match_any
      in if containers \<noteq> {} then shared_children d containers (paths d) containers else Some containers)"

text \<open>The rights of the first resource with the identifier that has an access list.\<close>

definition acls_of_document :: "'tz dav_resources \<Rightarrow> u32 \<Rightarrow> acl_grant list option" where
  "acls_of_document d i =
     (case find (\<lambda>r. resource_document_id r = i \<and> resource_acls r \<noteq> None) (resources d) of
        None \<Rightarrow> None
      | Some r \<Rightarrow> resource_acls r)"

definition has_access_to_container :: "'tz dav_resources \<Rightarrow> access_token \<Rightarrow> u32 \<Rightarrow> bitmap \<Rightarrow> bool" where
  "has_access_to_container d t i check =
     (case acls_of_document d i of
        None \<Rightarrow> False
      | Some acls \<Rightarrow>
          (case find (\<lambda>a. is_member t (grant_account_id a)) acls of
             None \<Rightarrow> False
           | Some a \<Rightarrow> \<not> bitmap_is_empty (bitmap_intersection (grants a) check)))"

definition container_acl :: "'tz dav_resources \<Rightarrow> access_token \<Rightarrow> u32 \<Rightarrow> bitmap" where
  "container_acl d t i =
     (case acls_of_document d i of None \<Rightarrow> bitmap_new | Some acls \<Rightarrow> effective_acl_loop t acls bitmap_new)"

definition document_ids :: "'tz dav_resources \<Rightarrow> bool \<Rightarrow> u32 list" where
  "document_ids d container = map resource_document_id (filter (\<lambda>r. is_container r = container) (resources d))"

definition has_container_id :: "'tz dav_resources \<Rightarrow> u32 \<Rightarrow> bool" where
  "has_container_id d i = list_ex (\<lambda>r. resource_document_id r = i \<and> is_container r) (resources d)"

definition has_item_id :: "'tz dav_resources \<Rightarrow> u32 \<Rightarrow> bool" where
  "has_item_id d i = list_ex (\<lambda>r. resource_document_id r = i \<and> \<not> is_container r) (resources d)"

datatype dav_error = Forbidden

text \<open>The parent of a new document, which is stored with its identifier plus one.\<close>

definition validate_and_map_parent_acl ::
  "'tz dav_resources \<Rightarrow> access_token \<Rightarrow> bool \<Rightarrow> u32 option \<Rightarrow> bitmap \<Rightarrow> dav_error + u32" where
  "validate_and_map_parent_acl d t member parent check =
     (case parent of
        Some i \<Rightarrow> if member \<or> has_access_to_container d t i check then Inr (i + 1) else Inl Forbidden
      | None \<Rightarrow> if member then Inr 0 else Inl Forbidden)"

section \<open>Changes of the grants\<close>

definition grant_differs :: "acl_grant list \<Rightarrow> acl_grant \<Rightarrow> bool" where
  "grant_differs others item =
     (case find (\<lambda>g. grant_account_id g = grant_account_id item) others of
        None \<Rightarrow> True
      | Some g \<Rightarrow> grants g \<noteq> grants item)"

definition invalidate_changed :: "acl_grant list \<Rightarrow> acl_grant list \<Rightarrow> builder \<Rightarrow> builder" where
  "invalidate_changed items others b =
     fold (\<lambda>item b. if grant_differs others item then invalidate b (Inv_AccessToken (grant_account_id item)) else b) items b"

definition changed_principals :: "acl_grant list \<Rightarrow> acl_grant list option \<Rightarrow> builder" where
  "changed_principals acl_changes current =
     (case current of
        Some acl_current \<Rightarrow>
          invalidate_changed acl_changes acl_current (invalidate_changed acl_current acl_changes [])
      | None \<Rightarrow> fold (\<lambda>v b. invalidate b (Inv_AccessToken (grant_account_id v))) acl_changes [])"

definition refresh_acls ::
  "(bytes \<Rightarrow> u64) \<Rightarrow> 'e registry \<Rightarrow> acl_grant list \<Rightarrow> acl_grant list option \<Rightarrow> 'c caches \<Rightarrow>
     'e + ('c caches \<times> builder option)" where
  "refresh_acls h reg acl_changes current c = invalidate_caches h reg (changed_principals acl_changes current) c"

definition refresh_archived_acls ::
  "(bytes \<Rightarrow> u64) \<Rightarrow> 'e registry \<Rightarrow> acl_grant list \<Rightarrow> acl_grant list \<Rightarrow> 'c caches \<Rightarrow>
     'e + ('c caches \<times> builder option)" where
  "refresh_archived_acls h reg acl_changes acl_current c =
     invalidate_caches h reg
       (invalidate_changed acl_changes acl_current (invalidate_changed acl_current acl_changes [])) c"

section \<open>Correctness\<close>

lemma effective_acl_loop_rights:
  "rights (effective_acl_loop t gs b) = rights b \<union> (\<Union>g \<in> {g \<in> set gs. is_member t (grant_account_id g)}. rights (grants g))"
  by (induction gs arbitrary: b) (auto simp: acls.items_union)

lemma effective_acl_archived_loop: "effective_acl_archived_loop t gs b = effective_acl_loop t gs b"
  by (induction gs arbitrary: b) (simp_all add: bitmap_union_def bitmap_union_raw_def)

text \<open>
  The rights a user has on a shared container are those granted to the user or to an account it is a member of, no more and no
  fewer, both for grants in memory and for grants read in place from the store.
\<close>

theorem effective_acl_is_union:
  "rights (effective_acl gs t) = (\<Union>g \<in> {g \<in> set gs. is_member t (grant_account_id g)}. rights (grants g)) \<and>
   effective_acl_archived gs t = effective_acl gs t"
  unfolding effective_acl_def effective_acl_archived_def effective_acl_archived_loop effective_acl_loop_rights
  by (simp add: acls.items_new)

text \<open>A grant gives all, or one, of the rights asked for.\<close>

definition grant_suffices :: "acl list \<Rightarrow> bool \<Rightarrow> acl_grant \<Rightarrow> bool" where
  "grant_suffices check match_any g \<longleftrightarrow>
     (let wanted = {a \<in> set check. acl_is_valid a}
      in wanted \<subseteq> rights (grants g) \<or> match_any \<and> wanted \<inter> rights (grants g) \<noteq> {})"

definition shared_container :: "'tz dav_resources \<Rightarrow> access_token \<Rightarrow> acl list \<Rightarrow> bool \<Rightarrow> u32 \<Rightarrow> bool" where
  "shared_container d t check match_any i \<longleftrightarrow>
     (\<exists>r \<in> set (resources d). resource_document_id r = i \<and>
        (\<exists>gs. resource_acls r = Some gs \<and> (\<exists>g \<in> set gs. is_member t (grant_account_id g) \<and> grant_suffices check match_any g)))"

lemma grant_suffices_code:
  fixes check :: "acl list"
  defines "c \<equiv> bitmap_from_list u64_from_acl acl_is_valid check"
  shows "bitmap_intersection (grants g) c = c \<or> match_any \<and> \<not> bitmap_is_empty (bitmap_intersection (grants g) c) \<longleftrightarrow>
     grant_suffices check match_any g"
proof -
  have c: "bitmap_wf u64_from_acl acl_is_valid c" "rights c = {a \<in> set check. acl_is_valid a}"
    unfolding c_def by (rule acls.wf_from_list, rule acls.items_from_list)
  have i: "bitmap_wf u64_from_acl acl_is_valid (bitmap_intersection (grants g) c)"
    using c(1) by (auto simp: bitmap_wf_def bitmap_intersection_def bitset_and)
  have z: "bitmap_wf u64_from_acl acl_is_valid bitmap_new" by (simp add: bitmap_wf_def bitmap_new_def bitset_def)
  have "bitmap_intersection (grants g) c = c \<longleftrightarrow> rights c \<subseteq> rights (grants g)"
    unfolding acls.items_inject [OF i c(1), symmetric] acls.items_intersection by blast
  moreover have "bitmap_is_empty (bitmap_intersection (grants g) c) \<longleftrightarrow> rights (grants g) \<inter> rights c = {}"
    using acls.items_inject [OF i z] by (simp add: bitmap_is_empty_def bitmap_new_def acls.items_intersection acls.items_new [unfolded bitmap_new_def])
  ultimately show ?thesis unfolding grant_suffices_def Let_def c(2) by blast
qed

lemma shared_acls_loop_set:
  "shared_acls_loop t (bitmap_from_list u64_from_acl acl_is_valid check) any i gs ids =
     (if \<exists>g \<in> set gs. is_member t (grant_account_id g) \<and> grant_suffices check any g then insert i ids else ids)"
  by (induction gs arbitrary: ids) (auto simp: Let_def grant_suffices_code)

lemma shared_containers_loop_set:
  "shared_containers_loop t (bitmap_from_list u64_from_acl acl_is_valid check) any rs ids =
     ids \<union> {i. \<exists>r \<in> set rs. resource_document_id r = i \<and> (\<exists>gs. resource_acls r = Some gs \<and>
        (\<exists>g \<in> set gs. is_member t (grant_account_id g) \<and> grant_suffices check any g))}"
  by (induction rs arbitrary: ids) (auto simp: shared_acls_loop_set split: option.split)

lemma shared_containers_set: "shared_containers d t check any = {i. shared_container d t check any i}"
  by (simp add: shared_containers_def shared_containers_loop_set shared_container_def)

lemma shared_children_set:
  assumes "\<forall>p \<in> set ps. resource_at d p = Some (resources d ! resource_idx p)"
  shows "shared_children d containers ps ids =
     Some (ids \<union> {i. \<exists>p \<in> set ps. \<exists>parent \<in> containers. path_parent_id p = Some parent \<and>
        i = resource_document_id (resources d ! resource_idx p)})"
  using assms by (induction ps arbitrary: ids) (auto split: option.split)

text \<open>
  C14: the documents of another account that a user may see are exactly the shared containers and what lies directly in
  them: in a well-formed cache the computation does not panic, and a document is in the result if it has a grant to an account the user is a member of with all the
  rights asked for (or one of them, on request), or if one of its paths has such a container as parent.
\<close>

theorem shared_documents_exact:
  assumes "resources_wf d"
  shows "\<exists>S. shared_documents d t check any = Some S \<and>
     (\<forall>i. i \<in> S \<longleftrightarrow> shared_container d t check any i \<or>
        (\<exists>p \<in> set (paths d). \<exists>parent. path_parent_id p = Some parent \<and> shared_container d t check any parent \<and>
           i = resource_document_id (resources d ! resource_idx p)))"
proof -
  have "\<forall>p \<in> set (paths d). resource_at d p = Some (resources d ! resource_idx p)"
    using resource_at_wf [OF assms] by blast
  from shared_children_set [OF this] show ?thesis
    by (auto simp: shared_documents_def Let_def shared_containers_set)
qed

abbreviation token_of_4 :: access_token where
  "token_of_4 \<equiv> new_maybe_invalid (inner_from_id 4)"

lemma member_of_4: "is_member token_of_4 i \<longleftrightarrow> i = 4"
  by (auto simp: is_member_def new_maybe_invalid_def inner_from_id_def has_permission_def access_scope_of_def)

theorem shared_documents_exact_witness:
  "resources_wf sample_resources \<and>
   (\<exists>S. shared_documents sample_resources token_of_4 [Acl_Read] False = Some S \<and> 1 \<in> S \<and> 2 \<in> S)"
proof -
  have "Acl_Read \<in> rights 1" by (simp add: bitmap_items_def acl_is_valid_def)
  then have c: "shared_container sample_resources token_of_4 [Acl_Read] False 1"
    by (auto simp: shared_container_def sample_resources_def resource_acls_def grant_suffices_def member_of_4)
  have "\<exists>p \<in> set (paths sample_resources). path_parent_id p = Some 1 \<and> 2 = resource_document_id (resources sample_resources ! resource_idx p)"
    by (simp add: sample_resources_def)
  with c shared_documents_exact [OF sample_resources_wf, of token_of_4 "[Acl_Read]" False] sample_resources_wf show ?thesis by metis
qed

lemma effective_acl_loop_bit:
  "bit (effective_acl_loop t gs b) n \<longleftrightarrow> bit b n \<or> (\<exists>g \<in> set gs. is_member t (grant_account_id g) \<and> bit (grants g) n)"
  by (induction gs arbitrary: b) (auto simp: bitmap_union_def bit_or_iff)

lemma intersects_iff: "bitmap_intersection a b \<noteq> 0 \<longleftrightarrow> (\<exists>n. bit a n \<and> bit b n)"
proof -
  have "a AND b = 0 \<longleftrightarrow> (\<forall>n. \<not> (bit a n \<and> bit b n))"
    using bitset_empty_iff [of "a AND b"] by (auto simp: bitset_def bit_and_iff)
  then show ?thesis by (simp add: bitmap_intersection_def)
qed

lemma find_single: "filter P xs = [x] \<Longrightarrow> find P xs = Some x"
  by (induction xs) (auto split: if_splits)

text \<open>
  The test for access to a container never grants what the effective rights do not: if it succeeds, the rights of the user on the container include one of those asked for.
  It is complete when at most one grant of the container concerns the user: then it succeeds exactly if
  the effective rights include one of them. With two grants it may refuse what the rights allow, as it only looks at the first.
\<close>

theorem has_access_to_container_rights:
  "(has_access_to_container d t i check \<longrightarrow> bitmap_intersection (container_acl d t i) check \<noteq> 0) \<and>
   (\<forall>gs g. acls_of_document d i = Some gs \<and> filter (\<lambda>a. is_member t (grant_account_id a)) gs = [g] \<longrightarrow>
      (has_access_to_container d t i check \<longleftrightarrow> bitmap_intersection (container_acl d t i) check \<noteq> 0))"
proof (cases "acls_of_document d i")
  case (Some gs)
  let ?m = "\<lambda>a. is_member t (grant_account_id a)"
  have rights: "bitmap_intersection (container_acl d t i) check \<noteq> 0 \<longleftrightarrow>
     (\<exists>g \<in> set (filter ?m gs). bitmap_intersection (grants g) check \<noteq> 0)"
    unfolding intersects_iff using Some by (auto simp: container_acl_def effective_acl_loop_bit bitmap_new_def)
  have first: "has_access_to_container d t i check \<longleftrightarrow>
     (\<exists>g. find ?m gs = Some g \<and> bitmap_intersection (grants g) check \<noteq> 0)"
    using Some by (auto simp: has_access_to_container_def bitmap_is_empty_def split: option.split)
  have "g \<in> set (filter ?m gs)" if "find ?m gs = Some g" for g
    using that unfolding find_Some_iff set_filter by force
  then have "has_access_to_container d t i check \<longrightarrow> bitmap_intersection (container_acl d t i) check \<noteq> 0"
    unfolding rights first by blast
  moreover have "has_access_to_container d t i check \<longleftrightarrow> bitmap_intersection (container_acl d t i) check \<noteq> 0"
    if "filter ?m gs = [g]" for g
    unfolding rights first that find_single [OF that] by simp
  ultimately show ?thesis using Some by (metis option.inject)
qed (simp add: has_access_to_container_def)

definition two_grants :: "unit dav_resources" where
  "two_grants = sample_resources \<lparr> resources := [\<lparr> resource_document_id = 1, resource_data =
     Meta_AddressBook ''b'' [\<lparr> grant_account_id = 7, grants = 1 \<rparr>, \<lparr> grant_account_id = 4, grants = 2 \<rparr>] \<rparr>] \<rparr>"

definition group_member :: access_token where
  "group_member = new_maybe_invalid ((inner_from_id 4) \<lparr> member_of := [7] \<rparr>)"

theorem has_access_to_container_rights_witness:
  "has_access_to_container sample_resources token_of_4 1 1 \<and> bitmap_intersection (container_acl sample_resources token_of_4 1) 1 \<noteq> 0"
proof -
  have "acls_of_document sample_resources 1 = Some [\<lparr> grant_account_id = 4, grants = 1 \<rparr>]"
    by (simp add: acls_of_document_def sample_resources_def resource_acls_def)
  then have "has_access_to_container sample_resources token_of_4 1 1"
    by (simp add: has_access_to_container_def member_of_4 bitmap_is_empty_def bitmap_intersection_def)
  with has_access_to_container_rights [of sample_resources token_of_4 1 1] show ?thesis by blast
qed

text \<open>
  A user may be refused a right that a group gives it. When a group the user belongs to is granted the right to read a container and the user itself the right
  to modify it, the effective rights have both, but the test for the right to modify fails, as the grant to the group comes first.
\<close>

theorem first_grant_decides:
  "Acl_Modify \<in> rights (container_acl two_grants group_member 1) \<and>
   \<not> has_access_to_container two_grants group_member 1 (bitmap_from_item u64_from_acl Acl_Modify)"
proof -
  have m: "is_member group_member i \<longleftrightarrow> i = 4 \<or> i = 7" for i
    by (auto simp: is_member_def group_member_def new_maybe_invalid_def inner_from_id_def has_permission_def access_scope_of_def)
  have a: "acls_of_document two_grants 1 = Some [\<lparr> grant_account_id = 7, grants = 1 \<rparr>, \<lparr> grant_account_id = 4, grants = 2 \<rparr>]"
    by (simp add: acls_of_document_def two_grants_def resource_acls_def)
  have "container_acl two_grants group_member 1 = 3"
    by (simp add: container_acl_def a m bitmap_union_def bitmap_new_def)
  moreover have "bitmap_from_item u64_from_acl Acl_Modify = 2"
    by (simp add: bitmap_from_item_def bitmap_insert_def shl1_def)
  ultimately show ?thesis
    by (simp add: has_access_to_container_def a m bitmap_is_empty_def bitmap_intersection_def bitmap_items_def acl_is_valid_def)
qed

section \<open>Refreshed tokens\<close>

text \<open>The grants a list holds for an account. Nothing keeps a list from having several.\<close>

definition grants_to :: "acl_grant list \<Rightarrow> u32 \<Rightarrow> bitmap set" where
  "grants_to gs a = grants ` {g \<in> set gs. grant_account_id g = a}"

definition unchanged_for :: "acl_grant list \<Rightarrow> acl_grant list \<Rightarrow> u32 \<Rightarrow> bool" where
  "unchanged_for gs hs a \<longleftrightarrow> grants_to gs a = grants_to hs a \<and> (\<exists>v. grants_to gs a \<subseteq> {v})"

lemma set_invalidate_changed:
  "set (invalidate_changed items others b) = set b \<union> {Inv_AccessToken (grant_account_id g) | g. g \<in> set items \<and> grant_differs others g}"
  unfolding invalidate_changed_def by (induction items arbitrary: b) auto

lemma find_grants_to:
  "find (\<lambda>g. grant_account_id g = a) gs = None \<longleftrightarrow> grants_to gs a = {}"
  "find (\<lambda>g. grant_account_id g = a) gs = Some g \<Longrightarrow> grants g \<in> grants_to gs a"
  by (auto simp: find_None_iff grants_to_def) (auto simp: find_Some_iff)

lemma grant_differs_cases:
  assumes "\<not> grant_differs others g"
  shows "grants g \<in> grants_to others (grant_account_id g)"
  using assms find_grants_to(2) by (fastforce simp: grant_differs_def split: option.splits)

lemma unchanged_iff:
  "unchanged_for gs hs a \<longleftrightarrow>
     (\<forall>g\<in>set gs. grant_account_id g = a \<longrightarrow> \<not> grant_differs hs g) \<and> (\<forall>h\<in>set hs. grant_account_id h = a \<longrightarrow> \<not> grant_differs gs h)"
    (is "_ \<longleftrightarrow> ?same gs hs \<and> ?same hs gs")
proof
  have single: "\<not> grant_differs hs g" if "grants_to hs (grant_account_id g) = {grants g}" for g and hs :: "acl_grant list"
    using find_grants_to [of "grant_account_id g" hs] that by (auto simp: grant_differs_def split: option.split)
  assume u: "unchanged_for gs hs a"
  have "grants_to gs a = {grants g}" if "g \<in> set gs \<union> set hs" "grant_account_id g = a" for g
  proof -
    have "grants g \<in> grants_to gs a" using that u by (auto simp: grants_to_def unchanged_for_def)
    with u show ?thesis by (auto simp: unchanged_for_def)
  qed
  with u single show "?same gs hs \<and> ?same hs gs" by (auto simp: unchanged_for_def)
next
  assume same: "?same gs hs \<and> ?same hs gs"
  then have eq: "grants_to gs a = grants_to hs a"
    using grant_differs_cases by (fastforce simp: grants_to_def)
  show "unchanged_for gs hs a"
  proof (cases "find (\<lambda>g. grant_account_id g = a) gs")
    case None
    with eq show ?thesis by (simp add: unchanged_for_def find_grants_to)
  next
    case (Some g)
    have "grants h = grants g" if "h \<in> set hs" "grant_account_id h = a" for h
      using same that Some by (auto simp: grant_differs_def)
    then have "grants_to hs a \<subseteq> {grants g}" by (auto simp: grants_to_def)
    with eq show ?thesis by (auto simp: unchanged_for_def)
  qed
qed

text \<open>
  C15: after the grants of a container have changed, exactly the tokens whose rights may have changed are removed: the refresh
  succeeds without a query, and the token of an account stays in the cache if and only if the new and the old list hold
  no grant for it or both hold one and the same. A new container has no old grants. A list may hold several grants for
  an account; if they differ, its token is removed.
\<close>

theorem refresh_acls_exact:
  "\<exists>c' out. refresh_acls h reg acl_changes current c = Inr (c', out) \<and>
     (\<forall>a. access_tokens c' a =
        (if unchanged_for acl_changes (case current of Some acl_current \<Rightarrow> acl_current | None \<Rightarrow> []) a
         then access_tokens c a else None))"
proof -
  let ?b = "changed_principals acl_changes current" and ?cur = "case current of Some acl_current \<Rightarrow> acl_current | None \<Rightarrow> []"
  have all: "set (fold (\<lambda>v b. invalidate b (Inv_AccessToken (grant_account_id v))) gs b) =
      set b \<union> {Inv_AccessToken (grant_account_id g) | g. g \<in> set gs}" for gs b
    by (induction gs arbitrary: b) auto
  have b: "set ?b = {Inv_AccessToken (grant_account_id g) | g. g \<in> set ?cur \<and> grant_differs acl_changes g} \<union>
     {Inv_AccessToken (grant_account_id g) | g. g \<in> set acl_changes \<and> grant_differs ?cur g}"
    by (cases current) (simp_all add: changed_principals_def set_invalidate_changed all grant_differs_def)
  then have "\<forall>r. Inv_Role r \<notin> set ?b" by auto
  from invalidate_caches_no_roles [OF this] obtain c' out where
    c': "invalidate_caches h reg ?b c = Inr (c', out)"
      "\<forall>i. access_tokens c' i = (if Inv_AccessToken i \<in> set ?b then None else access_tokens c i)" by metis
  have "Inv_AccessToken a \<in> set ?b \<longleftrightarrow> \<not> unchanged_for acl_changes ?cur a" for a
    unfolding b unchanged_iff by auto
  with c' show ?thesis by (auto simp: refresh_acls_def)
qed

text \<open>The form for grants read from the store differs from the other only in the type of the old grants.\<close>

lemma refresh_archived_acls_eq: "refresh_archived_acls h reg acl_changes current c = refresh_acls h reg acl_changes (Some current) c"
  by (simp add: refresh_archived_acls_def refresh_acls_def changed_principals_def)

end
