(* ===== verification/ExprValue.thy ===== *)
theory ExprValue
  imports Prelude
begin

text \<open>
  The values of configuration expressions and the operators on them (\<^verbatim>\<open>crates/common/src/expr/mod.rs\<close>, \<^verbatim>\<open>eval.rs\<close>
  and the functions on arrays of \<^verbatim>\<open>functions/array.rs\<close> and \<^verbatim>\<open>functions/misc.rs\<close>). Integers have 64 bits and are
  read as signed. The operations on floating point numbers, of type \<open>'f\<close>, are the record \<open>float_ops\<close>; no
  law about them is assumed. Owned and borrowed strings are not told apart.
\<close>

datatype expression_constant =
  C_Relaxed | C_Strict | C_Disable | C_Optional | C_Require | C_Ipv4Only | C_Ipv6Only | C_Ipv6ThenIpv4 | C_Ipv4ThenIpv6
| C_Hourly | C_Daily | C_Weekly | C_Login | C_Plain | C_Xoauth2 | C_Oauthbearer | C_Mixer | C_Stanag4406 | C_Nsep

fun constant_as_str :: "expression_constant \<Rightarrow> bytes" where
  "constant_as_str C_Relaxed = ''relaxed''"
| "constant_as_str C_Strict = ''strict''"
| "constant_as_str C_Disable = ''disable''"
| "constant_as_str C_Optional = ''optional''"
| "constant_as_str C_Require = ''require''"
| "constant_as_str C_Ipv4Only = ''ipv4_only''"
| "constant_as_str C_Ipv6Only = ''ipv6_only''"
| "constant_as_str C_Ipv6ThenIpv4 = ''ipv6_then_ipv4''"
| "constant_as_str C_Ipv4ThenIpv6 = ''ipv4_then_ipv6''"
| "constant_as_str C_Hourly = ''hourly''"
| "constant_as_str C_Daily = ''daily''"
| "constant_as_str C_Weekly = ''weekly''"
| "constant_as_str C_Login = ''login''"
| "constant_as_str C_Plain = ''plain''"
| "constant_as_str C_Xoauth2 = ''xoauth2''"
| "constant_as_str C_Oauthbearer = ''oauthbearer''"
| "constant_as_str C_Mixer = ''mixer''"
| "constant_as_str C_Stanag4406 = ''stanag4406''"
| "constant_as_str C_Nsep = ''nsep''"

fun constant_to_id :: "expression_constant \<Rightarrow> u16" where
  "constant_to_id C_Relaxed = 0"
| "constant_to_id C_Strict = 1"
| "constant_to_id C_Disable = 2"
| "constant_to_id C_Optional = 3"
| "constant_to_id C_Require = 4"
| "constant_to_id C_Ipv4Only = 5"
| "constant_to_id C_Ipv6Only = 6"
| "constant_to_id C_Ipv6ThenIpv4 = 7"
| "constant_to_id C_Ipv4ThenIpv6 = 8"
| "constant_to_id C_Hourly = 9"
| "constant_to_id C_Daily = 10"
| "constant_to_id C_Weekly = 11"
| "constant_to_id C_Login = 12"
| "constant_to_id C_Plain = 13"
| "constant_to_id C_Xoauth2 = 14"
| "constant_to_id C_Oauthbearer = 15"
| "constant_to_id C_Mixer = 16"
| "constant_to_id C_Stanag4406 = 17"
| "constant_to_id C_Nsep = 18"

datatype 'f var =
  V_String bytes
| V_Integer i64
| V_Float 'f
| V_Array "'f var list"
| V_Constant expression_constant

datatype 'f const =
  K_Static expression_constant
| K_Integer i64
| K_Float 'f
| K_String bytes

datatype ordering = Ord_Less | Ord_Equal | Ord_Greater

record 'f float_ops =
  f_zero :: 'f
  f_add :: "'f \<Rightarrow> 'f \<Rightarrow> 'f"
  f_sub :: "'f \<Rightarrow> 'f \<Rightarrow> 'f"
  f_mul :: "'f \<Rightarrow> 'f \<Rightarrow> 'f"
  f_div :: "'f \<Rightarrow> 'f \<Rightarrow> 'f"
  f_neg :: "'f \<Rightarrow> 'f"
  f_eq :: "'f \<Rightarrow> 'f \<Rightarrow> bool"
  f_cmp :: "'f \<Rightarrow> 'f \<Rightarrow> ordering option"
  f_of_i64 :: "i64 \<Rightarrow> 'f"
  f_to_i64 :: "'f \<Rightarrow> i64"
  f_to_usize :: "'f \<Rightarrow> u64"
  f_parse :: "bytes \<Rightarrow> 'f option"
  f_display :: "'f \<Rightarrow> bytes"

section \<open>Integers of 64 bits\<close>

definition clamp_i64 :: "int \<Rightarrow> i64" where
  "clamp_i64 n = word_of_int (max (- (2 ^ 63)) (min (2 ^ 63 - 1) n))"

definition saturating_add :: "i64 \<Rightarrow> i64 \<Rightarrow> i64" where
  "saturating_add a b = clamp_i64 (sint a + sint b)"

definition saturating_sub :: "i64 \<Rightarrow> i64 \<Rightarrow> i64" where
  "saturating_sub a b = clamp_i64 (sint a - sint b)"

definition saturating_mul :: "i64 \<Rightarrow> i64 \<Rightarrow> i64" where
  "saturating_mul a b = clamp_i64 (sint a * sint b)"

definition i64_of_bool :: "bool \<Rightarrow> i64" where
  "i64_of_bool b = (if b then 1 else 0)"

definition display_i64 :: "i64 \<Rightarrow> bytes" where
  "display_i64 n = (if sint n < 0 then CHR ''-'' # decimal (nat (- sint n)) else decimal (nat (sint n)))"

definition digits_only :: "bytes \<Rightarrow> bool" where
  "digits_only s \<longleftrightarrow> s \<noteq> [] \<and> list_all is_ascii_digit s"

definition parse_i64 :: "bytes \<Rightarrow> i64 option" where
  "parse_i64 s =
     (case s of
        [] \<Rightarrow> None
      | c # ds \<Rightarrow>
          if c = CHR ''-'' then
            (if digits_only ds \<and> digits_value ds \<le> 2 ^ 63 then Some (word_of_int (- int (digits_value ds))) else None)
          else
            (let ds' = (if c = CHR ''+'' then ds else s)
             in if digits_only ds' \<and> digits_value ds' < 2 ^ 63 then Some (of_nat (digits_value ds')) else None))"

definition parse_usize :: "bytes \<Rightarrow> u64 option" where
  "parse_usize s =
     (case s of
        [] \<Rightarrow> None
      | c # ds \<Rightarrow>
          (let ds' = (if c = CHR ''+'' then ds else s)
           in if digits_only ds' \<and> digits_value ds' < 2 ^ 64 then Some (of_nat (digits_value ds')) else None))"

section \<open>Conversions\<close>

definition default_var :: "'f var" where
  "default_var = V_String []"

fun var_from_const :: "'f const \<Rightarrow> 'f var" where
  "var_from_const (K_Integer i) = V_Integer i"
| "var_from_const (K_Float f) = V_Float f"
| "var_from_const (K_String s) = V_String s"
| "var_from_const (K_Static c) = V_Constant c"

fun parse_number :: "'f float_ops \<Rightarrow> 'f var \<Rightarrow> 'f var" where
  "parse_number fo (V_String s) =
     (if s \<noteq> [] then
        (case parse_i64 s of
           Some n \<Rightarrow> V_Integer n
         | None \<Rightarrow> (case f_parse fo s of Some f \<Rightarrow> V_Float f | None \<Rightarrow> V_Integer 0))
      else V_Integer 0)"
| "parse_number fo (V_Integer n) = V_Integer n"
| "parse_number fo (V_Float f) = V_Float f"
| "parse_number fo (V_Array l) = V_Integer (i64_of_bool (l = []))"
| "parse_number fo (V_Constant c) = V_Integer 0"

fun to_bool :: "'f float_ops \<Rightarrow> 'f var \<Rightarrow> bool" where
  "to_bool fo (V_Float f) = (\<not> f_eq fo f (f_zero fo))"
| "to_bool fo (V_Integer n) = (n \<noteq> 0)"
| "to_bool fo (V_String s) = (s \<noteq> [])"
| "to_bool fo (V_Array a) = (a \<noteq> [])"
| "to_bool fo (V_Constant c) = True"

fun item_string :: "'f float_ops \<Rightarrow> 'f var \<Rightarrow> bytes" where
  "item_string fo (V_String s) = s"
| "item_string fo (V_Integer n) = display_i64 n"
| "item_string fo (V_Float f) = f_display fo f"
| "item_string fo (V_Array l) = []"
| "item_string fo (V_Constant c) = constant_as_str c"

fun join_items :: "'f float_ops \<Rightarrow> bytes \<Rightarrow> 'f var list \<Rightarrow> bytes" where
  "join_items fo result [] = result"
| "join_items fo result (v # vs) =
     join_items fo ((if result \<noteq> [] then result @ [CHR 0x0D, CHR 0x0A] else result) @ item_string fo v) vs"

fun var_to_string :: "'f float_ops \<Rightarrow> 'f var \<Rightarrow> bytes" where
  "var_to_string fo (V_Array l) = join_items fo [] l"
| "var_to_string fo v = item_string fo v"

fun var_display :: "'f float_ops \<Rightarrow> 'f var \<Rightarrow> bytes"
and vars_display :: "'f float_ops \<Rightarrow> 'f var list \<Rightarrow> bytes" where
  "var_display fo (V_String s) = s"
| "var_display fo (V_Integer n) = display_i64 n"
| "var_display fo (V_Float f) = f_display fo f"
| "var_display fo (V_Array l) = vars_display fo l"
| "var_display fo (V_Constant c) = constant_as_str c"
| "vars_display fo [] = []"
| "vars_display fo [v] = var_display fo v"
| "vars_display fo (v # w # vs) = var_display fo v @ CHR 0x0A # vars_display fo (w # vs)"

fun to_integer :: "'f float_ops \<Rightarrow> 'f var \<Rightarrow> i64 option" where
  "to_integer fo (V_Integer n) = Some n"
| "to_integer fo (V_Float f) = Some (f_to_i64 fo f)"
| "to_integer fo (V_String s) = (if s \<noteq> [] then parse_i64 s else None)"
| "to_integer fo _ = None"

fun to_usize :: "'f float_ops \<Rightarrow> 'f var \<Rightarrow> u64 option" where
  "to_usize fo (V_Integer n) = Some n"
| "to_usize fo (V_Float f) = Some (f_to_usize fo f)"
| "to_usize fo (V_String s) = (if s \<noteq> [] then parse_usize s else None)"
| "to_usize fo _ = None"

fun var_len :: "'f var \<Rightarrow> nat" where
  "var_len (V_String s) = length s"
| "var_len (V_Integer n) = 2"
| "var_len (V_Float f) = 2"
| "var_len (V_Array l) = sum_list (map (\<lambda>v. var_len v + 2) l)"
| "var_len (V_Constant c) = length (constant_as_str c)"

fun var_is_empty :: "'f var \<Rightarrow> bool" where
  "var_is_empty (V_String s) = (s = [])"
| "var_is_empty _ = False"

fun as_array :: "'f var \<Rightarrow> 'f var list option" where
  "as_array (V_Array l) = Some l"
| "as_array _ = None"

definition into_array :: "'f var \<Rightarrow> 'f var list" where
  "into_array v = (case v of V_Array l \<Rightarrow> l | _ \<Rightarrow> if \<not> var_is_empty v then [v] else [])"

section \<open>Equality and order\<close>

fun num_eq :: "'f float_ops \<Rightarrow> 'f var \<Rightarrow> 'f var \<Rightarrow> bool" where
  "num_eq fo (V_Integer a) (V_Integer b) = (a = b)"
| "num_eq fo (V_Float a) (V_Float b) = f_eq fo a b"
| "num_eq fo (V_Integer a) (V_Float b) = f_eq fo (f_of_i64 fo a) b"
| "num_eq fo (V_Float b) (V_Integer a) = f_eq fo (f_of_i64 fo a) b"
| "num_eq fo _ _ = False"

fun var_eq :: "'f float_ops \<Rightarrow> 'f var \<Rightarrow> 'f var \<Rightarrow> bool"
and vars_eq :: "'f float_ops \<Rightarrow> 'f var list \<Rightarrow> 'f var list \<Rightarrow> bool" where
  "var_eq fo (V_String a) (V_String b) = (a = b)"
| "var_eq fo (V_String a) (V_Integer b) = num_eq fo (parse_number fo (V_String a)) (V_Integer b)"
| "var_eq fo (V_String a) (V_Float b) = num_eq fo (parse_number fo (V_String a)) (V_Float b)"
| "var_eq fo (V_Integer a) (V_String b) = num_eq fo (V_Integer a) (parse_number fo (V_String b))"
| "var_eq fo (V_Float a) (V_String b) = num_eq fo (V_Float a) (parse_number fo (V_String b))"
| "var_eq fo (V_Array a) (V_Array b) = vars_eq fo a b"
| "var_eq fo a b = num_eq fo a b"
| "vars_eq fo [] [] = True"
| "vars_eq fo (a # as) (b # bs) = (var_eq fo a b \<and> vars_eq fo as bs)"
| "vars_eq fo _ _ = False"

definition cmp_int :: "int \<Rightarrow> int \<Rightarrow> ordering" where
  "cmp_int a b = (if a < b then Ord_Less else if a = b then Ord_Equal else Ord_Greater)"

fun cmp_bytes :: "bytes \<Rightarrow> bytes \<Rightarrow> ordering" where
  "cmp_bytes [] [] = Ord_Equal"
| "cmp_bytes [] (d # ds) = Ord_Less"
| "cmp_bytes (c # cs) [] = Ord_Greater"
| "cmp_bytes (c # cs) (d # ds) =
     (if (of_char c :: nat) < of_char d then Ord_Less else if c = d then cmp_bytes cs ds else Ord_Greater)"

fun num_cmp :: "'f float_ops \<Rightarrow> 'f var \<Rightarrow> 'f var \<Rightarrow> ordering option" where
  "num_cmp fo (V_Integer a) (V_Integer b) = Some (cmp_int (sint a) (sint b))"
| "num_cmp fo (V_Float a) (V_Float b) = f_cmp fo a b"
| "num_cmp fo (V_Integer a) (V_Float b) = f_cmp fo (f_of_i64 fo a) b"
| "num_cmp fo (V_Float a) (V_Integer b) = f_cmp fo a (f_of_i64 fo b)"
| "num_cmp fo (V_Constant a) (V_Constant b) = Some (cmp_int (uint (constant_to_id a)) (uint (constant_to_id b)))"
| "num_cmp fo _ _ = Some Ord_Less"

fun var_partial_cmp :: "'f float_ops \<Rightarrow> 'f var \<Rightarrow> 'f var \<Rightarrow> ordering option"
and vars_partial_cmp :: "'f float_ops \<Rightarrow> 'f var list \<Rightarrow> 'f var list \<Rightarrow> ordering option" where
  "var_partial_cmp fo (V_String a) (V_String b) = Some (cmp_bytes a b)"
| "var_partial_cmp fo (V_String a) (V_Integer b) = num_cmp fo (parse_number fo (V_String a)) (V_Integer b)"
| "var_partial_cmp fo (V_String a) (V_Float b) = num_cmp fo (parse_number fo (V_String a)) (V_Float b)"
| "var_partial_cmp fo (V_Integer a) (V_String b) = num_cmp fo (V_Integer a) (parse_number fo (V_String b))"
| "var_partial_cmp fo (V_Float a) (V_String b) = num_cmp fo (V_Float a) (parse_number fo (V_String b))"
| "var_partial_cmp fo (V_Array a) (V_Array b) = vars_partial_cmp fo a b"
| "var_partial_cmp fo (V_Array a) b = Some Ord_Greater"
| "var_partial_cmp fo (V_String a) b = Some Ord_Greater"
| "var_partial_cmp fo a b = num_cmp fo a b"
| "vars_partial_cmp fo [] [] = Some Ord_Equal"
| "vars_partial_cmp fo [] (b # bs) = Some Ord_Less"
| "vars_partial_cmp fo (a # as) [] = Some Ord_Greater"
| "vars_partial_cmp fo (a # as) (b # bs) =
     (case var_partial_cmp fo a b of Some Ord_Equal \<Rightarrow> vars_partial_cmp fo as bs | r \<Rightarrow> r)"

definition var_cmp :: "'f float_ops \<Rightarrow> 'f var \<Rightarrow> 'f var \<Rightarrow> ordering" where
  "var_cmp fo a b = (case var_partial_cmp fo a b of Some o' \<Rightarrow> o' | None \<Rightarrow> Ord_Greater)"

section \<open>Operators\<close>

fun op_add :: "'f float_ops \<Rightarrow> 'f var \<Rightarrow> 'f var \<Rightarrow> 'f var" where
  "op_add fo (V_Integer a) (V_Integer b) = V_Integer (saturating_add a b)"
| "op_add fo (V_Float a) (V_Float b) = V_Float (f_add fo a b)"
| "op_add fo (V_Integer i) (V_Float f) = V_Float (f_add fo (f_of_i64 fo i) f)"
| "op_add fo (V_Float f) (V_Integer i) = V_Float (f_add fo (f_of_i64 fo i) f)"
| "op_add fo (V_Array a) (V_Array b) = V_Array (a @ b)"
| "op_add fo (V_Array a) b = V_Array (a @ [b])"
| "op_add fo a (V_Array b) = V_Array (a # b)"
| "op_add fo (V_String a) b = (if a \<noteq> [] then V_String (a @ var_display fo b) else b)"
| "op_add fo a (V_String b) = (if b \<noteq> [] then V_String (var_display fo a @ b) else a)"
| "op_add fo a (V_Constant _) = a"
| "op_add fo (V_Constant _) b = b"

fun num_subtract :: "'f float_ops \<Rightarrow> 'f var \<Rightarrow> 'f var \<Rightarrow> 'f var" where
  "num_subtract fo (V_Integer a) (V_Integer b) = V_Integer (saturating_sub a b)"
| "num_subtract fo (V_Float a) (V_Float b) = V_Float (f_sub fo a b)"
| "num_subtract fo (V_Integer a) (V_Float b) = V_Float (f_sub fo (f_of_i64 fo a) b)"
| "num_subtract fo (V_Float a) (V_Integer b) = V_Float (f_sub fo a (f_of_i64 fo b))"
| "num_subtract fo _ _ = V_Integer 0"

text \<open>Values that are not numbers are turned into numbers first; numbers stay as they are.\<close>

fun op_subtract :: "'f float_ops \<Rightarrow> 'f var \<Rightarrow> 'f var \<Rightarrow> 'f var" where
  "op_subtract fo (V_Array a) b = V_Array (filter (\<lambda>v. \<not> var_eq fo v b) a)"
| "op_subtract fo b (V_Array a) = V_Array (filter (\<lambda>v. \<not> var_eq fo v b) a)"
| "op_subtract fo a b = num_subtract fo (parse_number fo a) (parse_number fo b)"

fun num_multiply :: "'f float_ops \<Rightarrow> 'f var \<Rightarrow> 'f var \<Rightarrow> 'f var" where
  "num_multiply fo (V_Integer a) (V_Integer b) = V_Integer (saturating_mul a b)"
| "num_multiply fo (V_Float a) (V_Float b) = V_Float (f_mul fo a b)"
| "num_multiply fo (V_Integer i) (V_Float f) = V_Float (f_mul fo (f_of_i64 fo i) f)"
| "num_multiply fo (V_Float f) (V_Integer i) = V_Float (f_mul fo (f_of_i64 fo i) f)"
| "num_multiply fo _ _ = V_Integer 0"

definition op_multiply :: "'f float_ops \<Rightarrow> 'f var \<Rightarrow> 'f var \<Rightarrow> 'f var" where
  "op_multiply fo a b = num_multiply fo (parse_number fo a) (parse_number fo b)"

fun num_divide :: "'f float_ops \<Rightarrow> 'f var \<Rightarrow> 'f var \<Rightarrow> 'f var" where
  "num_divide fo (V_Integer a) (V_Integer b) =
     V_Float (if b \<noteq> 0 then f_div fo (f_of_i64 fo a) (f_of_i64 fo b) else f_zero fo)"
| "num_divide fo (V_Float a) (V_Float b) = V_Float (if \<not> f_eq fo b (f_zero fo) then f_div fo a b else f_zero fo)"
| "num_divide fo (V_Integer a) (V_Float b) =
     V_Float (if \<not> f_eq fo b (f_zero fo) then f_div fo (f_of_i64 fo a) b else f_zero fo)"
| "num_divide fo (V_Float a) (V_Integer b) = V_Float (if b \<noteq> 0 then f_div fo a (f_of_i64 fo b) else f_zero fo)"
| "num_divide fo _ _ = V_Integer 0"

definition op_divide :: "'f float_ops \<Rightarrow> 'f var \<Rightarrow> 'f var \<Rightarrow> 'f var" where
  "op_divide fo a b = num_divide fo (parse_number fo a) (parse_number fo b)"

definition var_of_bool :: "bool \<Rightarrow> 'f var" where
  "var_of_bool b = V_Integer (i64_of_bool b)"

definition op_and :: "'f float_ops \<Rightarrow> 'f var \<Rightarrow> 'f var \<Rightarrow> 'f var" where
  "op_and fo a b = var_of_bool (to_bool fo a \<and> to_bool fo b)"

definition op_or :: "'f float_ops \<Rightarrow> 'f var \<Rightarrow> 'f var \<Rightarrow> 'f var" where
  "op_or fo a b = var_of_bool (to_bool fo a \<or> to_bool fo b)"

definition op_xor :: "'f float_ops \<Rightarrow> 'f var \<Rightarrow> 'f var \<Rightarrow> 'f var" where
  "op_xor fo a b = var_of_bool (to_bool fo a \<noteq> to_bool fo b)"

definition op_eq :: "'f float_ops \<Rightarrow> 'f var \<Rightarrow> 'f var \<Rightarrow> 'f var" where
  "op_eq fo a b = var_of_bool (var_eq fo a b)"

definition op_ne :: "'f float_ops \<Rightarrow> 'f var \<Rightarrow> 'f var \<Rightarrow> 'f var" where
  "op_ne fo a b = var_of_bool (\<not> var_eq fo a b)"

definition op_lt :: "'f float_ops \<Rightarrow> 'f var \<Rightarrow> 'f var \<Rightarrow> 'f var" where
  "op_lt fo a b = var_of_bool (var_partial_cmp fo a b = Some Ord_Less)"

definition op_le :: "'f float_ops \<Rightarrow> 'f var \<Rightarrow> 'f var \<Rightarrow> 'f var" where
  "op_le fo a b = var_of_bool (var_partial_cmp fo a b = Some Ord_Less \<or> var_partial_cmp fo a b = Some Ord_Equal)"

definition op_gt :: "'f float_ops \<Rightarrow> 'f var \<Rightarrow> 'f var \<Rightarrow> 'f var" where
  "op_gt fo a b = var_of_bool (var_partial_cmp fo a b = Some Ord_Greater)"

definition op_ge :: "'f float_ops \<Rightarrow> 'f var \<Rightarrow> 'f var \<Rightarrow> 'f var" where
  "op_ge fo a b = var_of_bool (var_partial_cmp fo a b = Some Ord_Greater \<or> var_partial_cmp fo a b = Some Ord_Equal)"

definition op_not :: "'f float_ops \<Rightarrow> 'f var \<Rightarrow> 'f var" where
  "op_not fo a = var_of_bool (\<not> to_bool fo a)"

text \<open>The negation of the least integer wraps around, as in a build without overflow checks.\<close>

definition op_minus :: "'f float_ops \<Rightarrow> 'f var \<Rightarrow> 'f var" where
  "op_minus fo a = (case parse_number fo a of V_Integer n \<Rightarrow> V_Integer (- n) | V_Float f \<Rightarrow> V_Float (f_neg fo f) | v \<Rightarrow> v)"

section \<open>Functions on values\<close>

text \<open>A function is called with the list of its arguments; \<open>None\<close> is the panic on a missing argument.\<close>

fun fn_count :: "'f var list \<Rightarrow> 'f var option" where
  "fn_count (V_Array a # _) = Some (V_Integer (of_nat (length a)))"
| "fn_count (v # _) = Some (V_Integer (if \<not> var_is_empty v then 1 else 0))"
| "fn_count [] = None"

fun dedup_loop :: "'f float_ops \<Rightarrow> 'f var list \<Rightarrow> 'f var list \<Rightarrow> 'f var list" where
  "dedup_loop fo result [] = result"
| "dedup_loop fo result (v # vs) = dedup_loop fo (if list_ex (\<lambda>r. var_eq fo r v) result then result else result @ [v]) vs"

fun fn_dedup :: "'f float_ops \<Rightarrow> 'f var list \<Rightarrow> 'f var option" where
  "fn_dedup fo (v # _) = Some (V_Array (dedup_loop fo [] (into_array v)))"
| "fn_dedup fo [] = None"

fun fn_is_intersect :: "'f float_ops \<Rightarrow> 'f var list \<Rightarrow> 'f var option" where
  "fn_is_intersect fo (V_Array a # V_Array b # _) = Some (var_of_bool (list_ex (\<lambda>x. list_ex (\<lambda>y. var_eq fo y x) b) a))"
| "fn_is_intersect fo (V_Array a # item # _) = Some (var_of_bool (list_ex (\<lambda>y. var_eq fo y item) a))"
| "fn_is_intersect fo (item # V_Array a # _) = Some (var_of_bool (list_ex (\<lambda>y. var_eq fo y item) a))"
| "fn_is_intersect fo (_ # _ # _) = Some (var_of_bool False)"
| "fn_is_intersect fo _ = None"

fun fn_winnow :: "'f var list \<Rightarrow> 'f var option" where
  "fn_winnow (V_Array a # _) = Some (V_Array (filter (\<lambda>i. \<not> var_is_empty i) a))"
| "fn_winnow (v # _) = Some v"
| "fn_winnow [] = None"

fun fn_is_empty :: "'f var list \<Rightarrow> 'f var option" where
  "fn_is_empty (V_String s # _) = Some (var_of_bool (s = []))"
| "fn_is_empty (V_Array a # _) = Some (var_of_bool (a = []))"
| "fn_is_empty (_ # _) = Some (var_of_bool False)"
| "fn_is_empty [] = None"

fun fn_is_number :: "'f var list \<Rightarrow> 'f var option" where
  "fn_is_number (V_Integer _ # _) = Some (var_of_bool True)"
| "fn_is_number (V_Float _ # _) = Some (var_of_bool True)"
| "fn_is_number (_ # _) = Some (var_of_bool False)"
| "fn_is_number [] = None"

fun fn_if_then :: "'f float_ops \<Rightarrow> 'f var list \<Rightarrow> 'f var option" where
  "fn_if_then fo (c # t # e # _) = Some (if to_bool fo c then t else e)"
| "fn_if_then fo _ = None"

section \<open>Properties of the values\<close>

lemma sint_of_int_i64: "- (2 ^ 63) \<le> n \<Longrightarrow> n < 2 ^ 63 \<Longrightarrow> sint (word_of_int n :: i64) = n"
  by (simp add: signed_of_int signed_take_bit_int_eq_self)

lemma sint_bounds_i64: "- (2 ^ 63) \<le> sint (n :: i64)" "sint (n :: i64) < 2 ^ 63"
  using sint_greater_eq [of n] sint_less [of n] by simp_all

text \<open>Integer arithmetic is exact as long as the result has 64 bits, and ends at the least or greatest integer otherwise.\<close>

lemma sint_clamp: "sint (clamp_i64 n) = max (- (2 ^ 63)) (min (2 ^ 63 - 1) n)"
  unfolding clamp_i64_def by (rule sint_of_int_i64) auto

lemma saturating_exact:
  "\<bar>sint a + sint b\<bar> < 2 ^ 63 \<Longrightarrow> sint (saturating_add a b) = sint a + sint b"
  "\<bar>sint a - sint b\<bar> < 2 ^ 63 \<Longrightarrow> sint (saturating_sub a b) = sint a - sint b"
  "\<bar>sint a * sint b\<bar> < 2 ^ 63 \<Longrightarrow> sint (saturating_mul a b) = sint a * sint b"
  by (simp_all add: saturating_add_def saturating_sub_def saturating_mul_def sint_clamp)

lemma decimal_not_sign: "decimal n = c # ds \<Longrightarrow> c \<noteq> CHR ''-'' \<and> c \<noteq> CHR ''+''"
  using decimal_digits(1) [of n] by (auto simp: is_ascii_digit_def byte_in_def)

lemma digits_only_decimal [simp]: "digits_only (decimal n)"
  by (simp add: digits_only_def decimal_digits)

text \<open>The text of an integer is read back as the integer.\<close>

lemma parse_display_i64: "parse_i64 (display_i64 n) = Some n"
proof (cases "sint n < 0")
  case True
  have "int (nat (- sint n)) = - sint n" "nat (- sint n) \<le> 2 ^ 63" using True sint_bounds_i64 [of n] by auto
  then show ?thesis using True by (simp add: display_i64_def parse_i64_def digits_value_decimal)
next
  case False
  obtain c ds where d: "decimal (nat (sint n)) = c # ds" using decimal_digits(2) by (cases "decimal (nat (sint n))") auto
  have "digits_only (c # ds)" "digits_value (c # ds) = nat (sint n)"
    using digits_only_decimal [of "nat (sint n)"] digits_value_decimal [of "nat (sint n)"] by (simp_all add: d)
  moreover have "nat (sint n) < 2 ^ 63" "(of_nat (nat (sint n)) :: i64) = n" using False sint_bounds_i64 [of n] by auto
  ultimately show ?thesis using False decimal_not_sign [OF d] by (simp add: display_i64_def parse_i64_def d Let_def)
qed

lemma display_i64_nonempty: "display_i64 n \<noteq> []"
  using decimal_digits(2) by (simp add: display_i64_def)

text \<open>A number and its text are the same value: an integer written into a string by any conversion is read back as that integer by the
  conversion to integers and by the numeric operators, and it compares equal to its text from both sides.\<close>

theorem integer_text_roundtrip:
  "to_integer fo (V_String (var_to_string fo (V_Integer n))) = Some n \<and>
   parse_number fo (V_String (var_display fo (V_Integer n))) = V_Integer n \<and>
   op_eq fo (V_Integer n) (V_String (display_i64 n)) = V_Integer 1 \<and> op_eq fo (V_String (display_i64 n)) (V_Integer n) = V_Integer 1"
  by (simp add: parse_display_i64 display_i64_nonempty op_eq_def var_of_bool_def i64_of_bool_def)

text \<open>Constants compare as equal in the order but are never equal; an empty array counts as one and any other as zero.\<close>

lemma constants_never_equal:
  "op_eq fo (V_Constant c) (V_Constant c) = V_Integer 0" "op_ne fo (V_Constant c) (V_Constant c) = V_Integer 1"
  "op_le fo (V_Constant c) (V_Constant c) = V_Integer 1" "op_ge fo (V_Constant c) (V_Constant c) = V_Integer 1"
  by (simp_all add: op_eq_def op_ne_def op_le_def op_ge_def cmp_int_def var_of_bool_def i64_of_bool_def)

lemma array_as_number:
  "parse_number fo (V_Array []) = V_Integer 1" "parse_number fo (V_Array (v # vs)) = V_Integer 0"
  by (simp_all add: i64_of_bool_def)

text \<open>The functions on arrays: the elements that stay are pairwise different and stand for all of them.\<close>

lemma dedup_loop_members:
  "set (dedup_loop fo result vs) \<subseteq> set result \<union> set vs"
  "v \<in> set result \<union> set vs \<Longrightarrow> v \<in> set (dedup_loop fo result vs) \<or> (\<exists>r \<in> set (dedup_loop fo result vs). var_eq fo r v)"
proof (induction vs arbitrary: result)
  case (Cons w vs)
  have keep: "set result \<subseteq> set (dedup_loop fo result vs)" for result vs
    by (induction vs arbitrary: result) (simp, fastforce split: if_splits)
  { case 1 show ?case using Cons(1) [of "if list_ex (\<lambda>r. var_eq fo r w) result then result else result @ [w]"] by (auto split: if_splits) }
  { case 2 then show ?case using Cons(2) [of "if list_ex (\<lambda>r. var_eq fo r w) result then result else result @ [w]"]
        keep [of "if list_ex (\<lambda>r. var_eq fo r w) result then result else result @ [w]" vs]
      by (auto simp: list_ex_iff split: if_splits) }
qed auto

end
