(* ===== verification/ExprNames.thy ===== *)
theory ExprNames
  imports ExprValue
begin

text \<open>
  The names that expressions can use: the variables of all contexts (\<^verbatim>\<open>ExpressionVariable\<close> in \<^verbatim>\<open>crates/registry/src/schema\<close>),
  the constants, the functions with the number of their arguments (\<^verbatim>\<open>crates/common/src/expr/functions/mod.rs\<close>) and durations
  (\<^verbatim>\<open>crates/registry/src/types/duration.rs\<close>). The generated lookups of names are the parameters \<open>tiny_map\<close>.
\<close>

datatype (plugins only: size) expression_variable =
  Var_Asn | Var_Attributes | Var_AuthenticatedAs | Var_Authority | Var_Bcc | Var_BccDomain | Var_BccLocal | Var_BccName | Var_Body |
  Var_BodyHtml | Var_BodyRaw | Var_BodyText | Var_BodyWords | Var_Cc | Var_CcDomain | Var_CcLocal | Var_CcName | Var_Country | Var_Domain |
  Var_Email | Var_EmailLower | Var_EnvFrom | Var_EnvFromDomain | Var_EnvFromLocal | Var_EnvTo | Var_ExpiresIn | Var_From | Var_FromDomain |
  Var_FromLocal | Var_FromName | Var_Headers | Var_HeloDomain | Var_Host | Var_Ip | Var_IpReverse | Var_IsTls | Var_IsV4 | Var_IsV6 |
  Var_LastError | Var_LastStatus | Var_Listener | Var_Local | Var_LocalIp | Var_LocalPort | Var_Location | Var_Method | Var_Mx | Var_Name |
  Var_NameLower | Var_NotifyNum | Var_Octets | Var_Path | Var_PathQuery | Var_Port | Var_Priority | Var_Protocol | Var_Query |
  Var_QueueAge | Var_QueueName | Var_Raw | Var_RawLower | Var_Rcpt | Var_RcptDomain | Var_ReceivedFromIp | Var_ReceivedViaPort |
  Var_Recipients | Var_RemoteIp | Var_RemoteIpPtr | Var_RemotePort | Var_ReplyTo | Var_ReplyToDomain | Var_ReplyToLocal | Var_ReplyToName |
  Var_RetryNum | Var_ReverseIp | Var_Scheme | Var_Sender | Var_SenderDomain | Var_Size | Var_Sld | Var_Source | Var_Subject |
  Var_SubjectThread | Var_SubjectWords | Var_To | Var_ToDomain | Var_ToLocal | Var_ToName | Var_Url | Var_Value | Var_ValueLower

definition variable_names :: "(bytes \<times> expression_variable) list" where
  "variable_names = [
     (''asn'', Var_Asn), (''attributes'', Var_Attributes), (''authenticated_as'', Var_AuthenticatedAs), (''authority'', Var_Authority),
     (''bcc'', Var_Bcc), (''bcc.domain'', Var_BccDomain), (''bcc.local'', Var_BccLocal), (''bcc.name'', Var_BccName), (''body'', Var_Body),
     (''body.html'', Var_BodyHtml), (''body.raw'', Var_BodyRaw), (''body.text'', Var_BodyText), (''body.words'', Var_BodyWords),
     (''cc'', Var_Cc), (''cc.domain'', Var_CcDomain), (''cc.local'', Var_CcLocal), (''cc.name'', Var_CcName), (''country'', Var_Country),
     (''domain'', Var_Domain), (''email'', Var_Email), (''email_lower'', Var_EmailLower), (''env_from'', Var_EnvFrom),
     (''env_from.domain'', Var_EnvFromDomain), (''env_from.local'', Var_EnvFromLocal), (''env_to'', Var_EnvTo),
     (''expires_in'', Var_ExpiresIn), (''from'', Var_From), (''from.domain'', Var_FromDomain), (''from.local'', Var_FromLocal),
     (''from.name'', Var_FromName), (''headers'', Var_Headers), (''helo_domain'', Var_HeloDomain), (''host'', Var_Host), (''ip'', Var_Ip),
     (''ip_reverse'', Var_IpReverse), (''is_tls'', Var_IsTls), (''is_v4'', Var_IsV4), (''is_v6'', Var_IsV6),
     (''last_error'', Var_LastError), (''last_status'', Var_LastStatus), (''listener'', Var_Listener), (''local'', Var_Local),
     (''local_ip'', Var_LocalIp), (''local_port'', Var_LocalPort), (''location'', Var_Location), (''method'', Var_Method),
     (''mx'', Var_Mx), (''name'', Var_Name), (''name_lower'', Var_NameLower), (''notify_num'', Var_NotifyNum), (''octets'', Var_Octets),
     (''path'', Var_Path), (''path_query'', Var_PathQuery), (''port'', Var_Port), (''priority'', Var_Priority),
     (''protocol'', Var_Protocol), (''query'', Var_Query), (''queue_age'', Var_QueueAge), (''queue_name'', Var_QueueName),
     (''raw'', Var_Raw), (''raw_lower'', Var_RawLower), (''rcpt'', Var_Rcpt), (''rcpt_domain'', Var_RcptDomain),
     (''received_from_ip'', Var_ReceivedFromIp), (''received_via_port'', Var_ReceivedViaPort), (''recipients'', Var_Recipients),
     (''remote_ip'', Var_RemoteIp), (''remote_ip.ptr'', Var_RemoteIpPtr), (''remote_port'', Var_RemotePort), (''reply_to'', Var_ReplyTo),
     (''reply_to.domain'', Var_ReplyToDomain), (''reply_to.local'', Var_ReplyToLocal), (''reply_to.name'', Var_ReplyToName),
     (''retry_num'', Var_RetryNum), (''reverse_ip'', Var_ReverseIp), (''scheme'', Var_Scheme), (''sender'', Var_Sender),
     (''sender_domain'', Var_SenderDomain), (''size'', Var_Size), (''sld'', Var_Sld), (''source'', Var_Source), (''subject'', Var_Subject),
     (''subject.thread'', Var_SubjectThread), (''subject.words'', Var_SubjectWords), (''to'', Var_To), (''to.domain'', Var_ToDomain),
     (''to.local'', Var_ToLocal), (''to.name'', Var_ToName), (''url'', Var_Url), (''value'', Var_Value), (''value_lower'', Var_ValueLower)]"

primrec variable_as_str :: "expression_variable \<Rightarrow> bytes" where
  "variable_as_str Var_Asn = ''asn''"
| "variable_as_str Var_Attributes = ''attributes''"
| "variable_as_str Var_AuthenticatedAs = ''authenticated_as''"
| "variable_as_str Var_Authority = ''authority''"
| "variable_as_str Var_Bcc = ''bcc''"
| "variable_as_str Var_BccDomain = ''bcc.domain''"
| "variable_as_str Var_BccLocal = ''bcc.local''"
| "variable_as_str Var_BccName = ''bcc.name''"
| "variable_as_str Var_Body = ''body''"
| "variable_as_str Var_BodyHtml = ''body.html''"
| "variable_as_str Var_BodyRaw = ''body.raw''"
| "variable_as_str Var_BodyText = ''body.text''"
| "variable_as_str Var_BodyWords = ''body.words''"
| "variable_as_str Var_Cc = ''cc''"
| "variable_as_str Var_CcDomain = ''cc.domain''"
| "variable_as_str Var_CcLocal = ''cc.local''"
| "variable_as_str Var_CcName = ''cc.name''"
| "variable_as_str Var_Country = ''country''"
| "variable_as_str Var_Domain = ''domain''"
| "variable_as_str Var_Email = ''email''"
| "variable_as_str Var_EmailLower = ''email_lower''"
| "variable_as_str Var_EnvFrom = ''env_from''"
| "variable_as_str Var_EnvFromDomain = ''env_from.domain''"
| "variable_as_str Var_EnvFromLocal = ''env_from.local''"
| "variable_as_str Var_EnvTo = ''env_to''"
| "variable_as_str Var_ExpiresIn = ''expires_in''"
| "variable_as_str Var_From = ''from''"
| "variable_as_str Var_FromDomain = ''from.domain''"
| "variable_as_str Var_FromLocal = ''from.local''"
| "variable_as_str Var_FromName = ''from.name''"
| "variable_as_str Var_Headers = ''headers''"
| "variable_as_str Var_HeloDomain = ''helo_domain''"
| "variable_as_str Var_Host = ''host''"
| "variable_as_str Var_Ip = ''ip''"
| "variable_as_str Var_IpReverse = ''ip_reverse''"
| "variable_as_str Var_IsTls = ''is_tls''"
| "variable_as_str Var_IsV4 = ''is_v4''"
| "variable_as_str Var_IsV6 = ''is_v6''"
| "variable_as_str Var_LastError = ''last_error''"
| "variable_as_str Var_LastStatus = ''last_status''"
| "variable_as_str Var_Listener = ''listener''"
| "variable_as_str Var_Local = ''local''"
| "variable_as_str Var_LocalIp = ''local_ip''"
| "variable_as_str Var_LocalPort = ''local_port''"
| "variable_as_str Var_Location = ''location''"
| "variable_as_str Var_Method = ''method''"
| "variable_as_str Var_Mx = ''mx''"
| "variable_as_str Var_Name = ''name''"
| "variable_as_str Var_NameLower = ''name_lower''"
| "variable_as_str Var_NotifyNum = ''notify_num''"
| "variable_as_str Var_Octets = ''octets''"
| "variable_as_str Var_Path = ''path''"
| "variable_as_str Var_PathQuery = ''path_query''"
| "variable_as_str Var_Port = ''port''"
| "variable_as_str Var_Priority = ''priority''"
| "variable_as_str Var_Protocol = ''protocol''"
| "variable_as_str Var_Query = ''query''"
| "variable_as_str Var_QueueAge = ''queue_age''"
| "variable_as_str Var_QueueName = ''queue_name''"
| "variable_as_str Var_Raw = ''raw''"
| "variable_as_str Var_RawLower = ''raw_lower''"
| "variable_as_str Var_Rcpt = ''rcpt''"
| "variable_as_str Var_RcptDomain = ''rcpt_domain''"
| "variable_as_str Var_ReceivedFromIp = ''received_from_ip''"
| "variable_as_str Var_ReceivedViaPort = ''received_via_port''"
| "variable_as_str Var_Recipients = ''recipients''"
| "variable_as_str Var_RemoteIp = ''remote_ip''"
| "variable_as_str Var_RemoteIpPtr = ''remote_ip.ptr''"
| "variable_as_str Var_RemotePort = ''remote_port''"
| "variable_as_str Var_ReplyTo = ''reply_to''"
| "variable_as_str Var_ReplyToDomain = ''reply_to.domain''"
| "variable_as_str Var_ReplyToLocal = ''reply_to.local''"
| "variable_as_str Var_ReplyToName = ''reply_to.name''"
| "variable_as_str Var_RetryNum = ''retry_num''"
| "variable_as_str Var_ReverseIp = ''reverse_ip''"
| "variable_as_str Var_Scheme = ''scheme''"
| "variable_as_str Var_Sender = ''sender''"
| "variable_as_str Var_SenderDomain = ''sender_domain''"
| "variable_as_str Var_Size = ''size''"
| "variable_as_str Var_Sld = ''sld''"
| "variable_as_str Var_Source = ''source''"
| "variable_as_str Var_Subject = ''subject''"
| "variable_as_str Var_SubjectThread = ''subject.thread''"
| "variable_as_str Var_SubjectWords = ''subject.words''"
| "variable_as_str Var_To = ''to''"
| "variable_as_str Var_ToDomain = ''to.domain''"
| "variable_as_str Var_ToLocal = ''to.local''"
| "variable_as_str Var_ToName = ''to.name''"
| "variable_as_str Var_Url = ''url''"
| "variable_as_str Var_Value = ''value''"
| "variable_as_str Var_ValueLower = ''value_lower''"

definition constant_names :: "(bytes \<times> expression_constant) list" where
  "constant_names = [
     (''relaxed'', C_Relaxed), (''strict'', C_Strict), (''disable'', C_Disable), (''optional'', C_Optional), (''require'', C_Require),
     (''ipv4_only'', C_Ipv4Only), (''ipv6_only'', C_Ipv6Only), (''ipv6_then_ipv4'', C_Ipv6ThenIpv4), (''ipv4_then_ipv6'', C_Ipv4ThenIpv6),
     (''hourly'', C_Hourly), (''daily'', C_Daily), (''weekly'', C_Weekly), (''login'', C_Login), (''plain'', C_Plain),
     (''xoauth2'', C_Xoauth2), (''oauthbearer'', C_Oauthbearer), (''mixer'', C_Mixer), (''stanag4406'', C_Stanag4406), (''nsep'', C_Nsep)]"

definition variable_parse ::
  "((bytes \<times> expression_variable) list \<Rightarrow> bytes \<Rightarrow> expression_variable option) \<Rightarrow> bytes \<Rightarrow> expression_variable option" where
  "variable_parse tiny_map s = tiny_map variable_names s"

definition constant_parse ::
  "((bytes \<times> expression_constant) list \<Rightarrow> bytes \<Rightarrow> expression_constant option) \<Rightarrow> bytes \<Rightarrow> expression_constant option" where
  "constant_parse tiny_map s = tiny_map constant_names s"

text \<open>The functions and the asynchronous functions, with the number of arguments; the latter with their number.\<close>

definition FUNCTIONS :: "(bytes \<times> u32) list" where
  "FUNCTIONS = [
     (''count'', 1), (''sort'', 2), (''dedup'', 1), (''winnow'', 1), (''is_intersect'', 2), (''is_email'', 1), (''email_part'', 2),
     (''is_empty'', 1), (''is_number'', 1), (''is_ip_addr'', 1), (''is_ipv4_addr'', 1), (''is_ipv6_addr'', 1), (''is_ip_in_cidr'', 2),
     (''ip_reverse_name'', 1), (''trim'', 1), (''trim_end'', 1), (''trim_start'', 1), (''len'', 1), (''to_lowercase'', 1),
     (''to_uppercase'', 1), (''is_uppercase'', 1), (''is_lowercase'', 1), (''has_digits'', 1), (''count_spaces'', 1),
     (''count_uppercase'', 1), (''count_lowercase'', 1), (''count_chars'', 1), (''contains'', 2), (''contains_ignore_case'', 2),
     (''eq_ignore_case'', 2), (''starts_with'', 2), (''ends_with'', 2), (''lines'', 1), (''substring'', 3), (''strip_prefix'', 2),
     (''strip_suffix'', 2), (''split'', 2), (''rsplit'', 2), (''split_once'', 2), (''rsplit_once'', 2), (''split_n'', 3),
     (''split_words'', 1), (''hash'', 2), (''if_then'', 3)]"

definition ASYNC_FUNCTIONS :: "(bytes \<times> u32 \<times> u32) list" where
  "ASYNC_FUNCTIONS = [
     (''is_local_domain'', 0, 1), (''is_local_address'', 1, 1), (''key_get'', 2, 2), (''key_exists'', 3, 2), (''key_set'', 4, 3),
     (''counter_incr'', 5, 3), (''counter_get'', 6, 2), (''dns_query'', 8, 2), (''sql_query'', 7, 3)]"

section \<open>Durations\<close>

text \<open>Digits, then a unit; white space is skipped. The result is in milliseconds.\<close>

fun duration_scan :: "bytes \<Rightarrow> bytes \<Rightarrow> bytes \<Rightarrow> (bytes \<times> bytes) option" where
  "duration_scan digits multiplier [] = Some (digits, multiplier)"
| "duration_scan digits multiplier (ch # cs) =
     (if is_ascii_digit ch then
        (if multiplier \<noteq> [] then None else duration_scan (digits @ [ch]) multiplier cs)
      else if \<not> is_ascii_whitespace ch then duration_scan digits (multiplier @ [to_ascii_lowercase ch]) cs
      else duration_scan digits multiplier cs)"

definition duration_unit :: "bytes \<Rightarrow> u64 option" where
  "duration_unit m =
     (if m = ''d'' then Some 86400000
      else if m = ''h'' then Some 3600000
      else if m = ''m'' then Some 60000
      else if m = ''s'' then Some 1000
      else if m = ''ms'' \<or> m = [] then Some 1
      else None)"

definition checked_mul_u64 :: "u64 \<Rightarrow> u64 \<Rightarrow> u64 option" where
  "checked_mul_u64 a b = (if unat a * unat b < 2 ^ 64 then Some (a * b) else None)"

definition duration_from_str :: "bytes \<Rightarrow> u64 option" where
  "duration_from_str s =
     (case duration_scan [] [] s of
        None \<Rightarrow> None
      | Some (digits, multiplier) \<Rightarrow>
          (case duration_unit multiplier of
             None \<Rightarrow> None
           | Some m \<Rightarrow> (case parse_usize digits of None \<Rightarrow> None | Some n \<Rightarrow> checked_mul_u64 n m)))"

section \<open>The tables\<close>

text \<open>Names are told apart by the number that their bytes make.\<close>

definition name_number :: "bytes \<Rightarrow> nat" where
  "name_number s = foldl (\<lambda>n c. 256 * n + of_char c) 0 s"

lemma names_by_number: "distinct (map name_number xs) \<Longrightarrow> distinct xs"
  by (simp add: distinct_map)

text \<open>No name has two meanings: functions, variables, constants and the words with a meaning of their own have different names.\<close>

definition expression_names :: "bytes list" where
  "expression_names =
     map fst FUNCTIONS @ map fst ASYNC_FUNCTIONS @ map fst variable_names @ map fst constant_names @
     [''true'', ''false'', ''matches'', ''metric'', ''system'']"

lemma expression_names_distinct: "distinct expression_names"
  by (rule names_by_number)
    (simp add: expression_names_def FUNCTIONS_def ASYNC_FUNCTIONS_def variable_names_def constant_names_def name_number_def)

lemma five_apart:
  assumes "distinct (a @ b @ v @ c @ t)"
  shows "w \<in> set a \<union> set b \<Longrightarrow> w \<notin> set t" "w \<in> set v \<Longrightarrow> w \<notin> set a \<and> w \<notin> set b \<and> w \<notin> set t"
    "w \<in> set c \<Longrightarrow> w \<notin> set a \<and> w \<notin> set b \<and> w \<notin> set v \<and> w \<notin> set t"
  using assms by auto

lemmas names_apart = five_apart [OF expression_names_distinct [unfolded expression_names_def]]

lemma name_tables_distinct: "distinct (map fst variable_names)" "distinct (map fst constant_names)"
  using expression_names_distinct by (simp_all add: expression_names_def)

lemma variable_names_complete: "v \<in> set (map snd variable_names)"
  unfolding variable_names_def by (cases v) simp_all

lemma variable_names_str: "variable_names = map (\<lambda>v. (variable_as_str v, v)) (map snd variable_names)"
  by (simp add: variable_names_def)

lemma variable_name_of: "map_of variable_names (variable_as_str v) = Some v"
proof (rule map_of_is_SomeI [OF name_tables_distinct(1)])
  have "(variable_as_str v, v) \<in> set (map (\<lambda>v. (variable_as_str v, v)) (map snd variable_names))"
    using variable_names_complete [of v] by force
  then show "(variable_as_str v, v) \<in> set variable_names" by (simp only: variable_names_str [symmetric])
qed

lemma constant_name_of: "map_of constant_names (constant_as_str c) = Some c"
  by (rule map_of_is_SomeI [OF name_tables_distinct(2)]) (cases c; simp add: constant_names_def)

end
