(* ===== verification/ExprParser.thy ===== *)
theory ExprParser
  imports ExprValue
begin

text \<open>
  The parser of configuration expressions (\<^verbatim>\<open>crates/common/src/expr/parser.rs\<close>). It turns a list of tokens into the items of a stack machine with
  an operator stack, and emits a jump before the second operand of a conjunction or disjunction whose distance it fills in when it takes the operator
  from the stack. Both stacks have their top first. The types of variables, regular expressions and system variables are the type variables
  \<open>'v\<close>, \<open>'r\<close> and \<open>'s\<close>.
\<close>

datatype binary_operator =
  Op_Add | Op_Subtract | Op_Multiply | Op_Divide | Op_And | Op_Or | Op_Xor | Op_Eq | Op_Ne | Op_Lt | Op_Le | Op_Gt | Op_Ge

datatype unary_operator = Op_Not | Op_Minus

datatype ('v, 'r, 's, 'f) item =
  I_Variable 'v
| I_Global bytes
| I_System 's
| I_Capture u32
| I_Constant "'f const"
| I_Binary binary_operator
| I_Unary unary_operator
| I_Regex 'r
| I_JmpIf bool u32
| I_Function u32 u32
| I_ArrayAccess
| I_ArrayBuild u32

datatype ('v, 'r, 's, 'f) token =
  T_Variable 'v
| T_Global bytes
| T_Capture u32
| T_Function bytes u32 u32
| T_Constant "'f const"
| T_System 's
| T_Regex 'r
| T_Binary binary_operator
| T_Unary unary_operator
| T_OpenParen
| T_CloseParen
| T_OpenBracket
| T_CloseBracket
| T_Comma

type_synonym ('v, 'r, 's, 'f) op_stack = "(('v, 'r, 's, 'f) token \<times> nat option) list"

record ('v, 'r, 's, 'f) parser =
  out_items :: "('v, 'r, 's, 'f) item list"
  operator_stack :: "('v, 'r, 's, 'f) op_stack"
  arg_count :: "int list"

datatype parse_error =
  Mismatched_parentheses
| Wrong_arguments bytes u32 int
| Missing_array_index
| Matches_arguments
| Function_arguments
| Invalid_token_on_stack
| Panic

definition ID_ARRAY_ACCESS :: u32 where
  "ID_ARRAY_ACCESS = - 1"

definition ID_ARRAY_BUILD :: u32 where
  "ID_ARRAY_BUILD = - 2"

fun precedence :: "binary_operator \<Rightarrow> nat" where
  "precedence Op_Multiply = 7"
| "precedence Op_Divide = 7"
| "precedence Op_Add = 6"
| "precedence Op_Subtract = 6"
| "precedence Op_Gt = 5"
| "precedence Op_Ge = 5"
| "precedence Op_Lt = 5"
| "precedence Op_Le = 5"
| "precedence Op_Eq = 4"
| "precedence Op_Ne = 4"
| "precedence Op_Xor = 3"
| "precedence Op_And = 2"
| "precedence Op_Or = 1"

section \<open>Counting arguments\<close>

text \<open>The counter of the arguments of an array is in the token of the array, which lies below the opening bracket.\<close>

definition bump_entry :: "('v, 'r, 's, 'f) token \<times> nat option \<Rightarrow> ('v, 'r, 's, 'f) token \<times> nat option" where
  "bump_entry e = (case fst e of T_Function name i n \<Rightarrow> if i = ID_ARRAY_BUILD then (T_Function name i (n + 1), snd e) else e | _ \<Rightarrow> e)"

fun bump :: "('v, 'r, 's, 'f) op_stack \<Rightarrow> ('v, 'r, 's, 'f) op_stack" where
  "bump [] = []"
| "bump [e] = [bump_entry e]"
| "bump (d # e # st) = d # bump_entry e # st"

definition inc_arg_count :: "('v, 'r, 's, 'f) parser \<Rightarrow> ('v, 'r, 's, 'f) parser" where
  "inc_arg_count p =
     (case arg_count p of
        [] \<Rightarrow> p
      | x # xs \<Rightarrow> p \<lparr> arg_count := min (2 ^ 31 - 1) (x + 1) # xs, operator_stack := bump (operator_stack p) \<rparr>)"

definition dec_arg_count :: "('v, 'r, 's, 'f) parser \<Rightarrow> ('v, 'r, 's, 'f) parser" where
  "dec_arg_count p = (case arg_count p of [] \<Rightarrow> p | x # xs \<Rightarrow> p \<lparr> arg_count := max (- (2 ^ 31)) (x - 1) # xs \<rparr>)"

section \<open>Moving operators to the output\<close>

definition update_jmp_pos ::
  "nat option \<Rightarrow> ('v, 'r, 's, 'f) item list \<Rightarrow> ('v, 'r, 's, 'f) item list option" where
  "update_jmp_pos jmp_pos out =
     (case jmp_pos of
        None \<Rightarrow> Some out
      | Some j \<Rightarrow>
          if j < length out then
            (case out ! j of
               I_JmpIf v _ \<Rightarrow> Some (out[j := I_JmpIf v (of_nat (length out - j))])
             | _ \<Rightarrow> Some out)
          else None)"

definition pop_binary ::
  "binary_operator \<Rightarrow> nat option \<Rightarrow> ('v, 'r, 's, 'f) item list \<Rightarrow> ('v, 'r, 's, 'f) item list option" where
  "pop_binary b jmp_pos out = map_option (\<lambda>out'. out' @ [I_Binary b]) (update_jmp_pos jmp_pos out)"

fun close_loop ::
  "('v, 'r, 's, 'f) token \<Rightarrow> ('v, 'r, 's, 'f) item list \<Rightarrow> ('v, 'r, 's, 'f) op_stack \<Rightarrow>
     parse_error + (('v, 'r, 's, 'f) item list \<times> ('v, 'r, 's, 'f) op_stack)" where
  "close_loop expect out [] = Inl Mismatched_parentheses"
| "close_loop expect out ((t, j) # st) =
     (if t = expect then Inr (out, st)
      else case t of
             T_Binary b \<Rightarrow> (case pop_binary b j out of None \<Rightarrow> Inl Panic | Some out' \<Rightarrow> close_loop expect out' st)
           | T_Unary u \<Rightarrow> close_loop expect (out @ [I_Unary u]) st
           | _ \<Rightarrow> Inl Mismatched_parentheses)"

fun binary_loop ::
  "binary_operator \<Rightarrow> ('v, 'r, 's, 'f) item list \<Rightarrow> ('v, 'r, 's, 'f) op_stack \<Rightarrow>
     parse_error + (('v, 'r, 's, 'f) item list \<times> ('v, 'r, 's, 'f) op_stack)" where
  "binary_loop bop out [] = Inr (out, [])"
| "binary_loop bop out ((t, j) # st) =
     (case t of
        T_Binary tb \<Rightarrow>
          if precedence bop \<le> precedence tb
          then (case pop_binary tb j out of None \<Rightarrow> Inl Panic | Some out' \<Rightarrow> binary_loop bop out' st)
          else Inr (out, (t, j) # st)
      | T_Unary u \<Rightarrow> binary_loop bop (out @ [I_Unary u]) st
      | _ \<Rightarrow> Inr (out, (t, j) # st))"

fun comma_loop ::
  "('v, 'r, 's, 'f) item list \<Rightarrow> ('v, 'r, 's, 'f) op_stack \<Rightarrow>
     parse_error + (('v, 'r, 's, 'f) item list \<times> ('v, 'r, 's, 'f) op_stack)" where
  "comma_loop out [] = Inr (out, [])"
| "comma_loop out ((t, j) # st) =
     (case t of
        T_Binary b \<Rightarrow> (case pop_binary b j out of None \<Rightarrow> Inl Panic | Some out' \<Rightarrow> comma_loop out' st)
      | T_Unary u \<Rightarrow> comma_loop (out @ [I_Unary u]) st
      | _ \<Rightarrow> Inr (out, (t, j) # st))"

fun finish_loop ::
  "('v, 'r, 's, 'f) item list \<Rightarrow> ('v, 'r, 's, 'f) op_stack \<Rightarrow> parse_error + ('v, 'r, 's, 'f) item list" where
  "finish_loop out [] = Inr out"
| "finish_loop out ((t, j) # st) =
     (case t of
        T_Binary b \<Rightarrow> (case pop_binary b j out of None \<Rightarrow> Inl Panic | Some out' \<Rightarrow> finish_loop out' st)
      | T_Unary u \<Rightarrow> finish_loop (out @ [I_Unary u]) st
      | _ \<Rightarrow> Inl Invalid_token_on_stack)"

section \<open>The parser\<close>

definition function_item :: "u32 \<Rightarrow> u32 \<Rightarrow> ('v, 'r, 's, 'f) item" where
  "function_item i n =
     (if i = ID_ARRAY_ACCESS then I_ArrayAccess else if i = ID_ARRAY_BUILD then I_ArrayBuild n else I_Function i n)"

text \<open>After a closing token: the function that the parenthesis or bracket belongs to.\<close>

definition call_closed :: "('v, 'r, 's, 'f) parser \<Rightarrow> parse_error + ('v, 'r, 's, 'f) parser" where
  "call_closed p =
     (case operator_stack p of
        [] \<Rightarrow> Inr p
      | (t, _) # st \<Rightarrow>
          (case t of
             T_Function name i n \<Rightarrow>
               (case arg_count p of
                  [] \<Rightarrow> Inl Panic
                | got # counts \<Rightarrow>
                    if got \<noteq> sint n
                    then Inl (if i \<noteq> - 1 then Wrong_arguments name n got else Missing_array_index)
                    else Inr (p \<lparr> out_items := out_items p @ [function_item i n], operator_stack := st, arg_count := counts \<rparr>))
           | T_Regex r \<Rightarrow>
               (case arg_count p of
                  [] \<Rightarrow> Inl Panic
                | got # counts \<Rightarrow>
                    if got \<noteq> 1 then Inl Matches_arguments
                    else Inr (p \<lparr> out_items := out_items p @ [I_Regex r], operator_stack := st, arg_count := counts \<rparr>))
           | T_System s \<Rightarrow>
               (case arg_count p of
                  [] \<Rightarrow> Inl Panic
                | got # counts \<Rightarrow>
                    if got \<noteq> 0 then Inl Function_arguments
                    else Inr (p \<lparr> out_items := out_items p @ [I_System s], operator_stack := st, arg_count := counts \<rparr>))
           | _ \<Rightarrow> Inr p))"

definition parse_close ::
  "('v, 'r, 's, 'f) token \<Rightarrow> ('v, 'r, 's, 'f) parser \<Rightarrow> parse_error + ('v, 'r, 's, 'f) parser" where
  "parse_close expect p =
     (case close_loop expect (out_items p) (operator_stack p) of
        Inl e \<Rightarrow> Inl e
      | Inr (out, st) \<Rightarrow> call_closed (p \<lparr> out_items := out, operator_stack := st \<rparr>))"

definition push_operand ::
  "('v, 'r, 's, 'f) item \<Rightarrow> ('v, 'r, 's, 'f) parser \<Rightarrow> ('v, 'r, 's, 'f) parser" where
  "push_operand i p = (let p' = inc_arg_count p in p' \<lparr> out_items := out_items p' @ [i] \<rparr>)"

definition push_operator ::
  "('v, 'r, 's, 'f) token \<Rightarrow> ('v, 'r, 's, 'f) parser \<Rightarrow> ('v, 'r, 's, 'f) parser" where
  "push_operator t p = p \<lparr> operator_stack := (t, None) # operator_stack p \<rparr>"

definition push_call ::
  "('v, 'r, 's, 'f) token \<Rightarrow> ('v, 'r, 's, 'f) parser \<Rightarrow> ('v, 'r, 's, 'f) parser" where
  "push_call t p = (let p' = inc_arg_count p in push_operator t (p' \<lparr> arg_count := 0 # arg_count p' \<rparr>))"

definition parse_binary ::
  "binary_operator \<Rightarrow> ('v, 'r, 's, 'f) parser \<Rightarrow> parse_error + ('v, 'r, 's, 'f) parser" where
  "parse_binary bop p =
     (let p' = dec_arg_count p
      in case binary_loop bop (out_items p') (operator_stack p') of
           Inl e \<Rightarrow> Inl e
         | Inr (out, st) \<Rightarrow>
             (let (out', jmp_pos) =
                (case bop of
                   Op_And \<Rightarrow> (out @ [I_JmpIf False 0], Some (length out))
                 | Op_Or \<Rightarrow> (out @ [I_JmpIf True 0], Some (length out))
                 | _ \<Rightarrow> (out, None))
              in Inr (p' \<lparr> out_items := out', operator_stack := (T_Binary bop, jmp_pos) # st \<rparr>)))"

definition open_bracket :: "bool \<Rightarrow> ('v, 'r, 's, 'f) parser \<Rightarrow> ('v, 'r, 's, 'f) parser" where
  "open_bracket last_is_var_or_fnc p =
     (let (p', i, num_args, count) =
        (if last_is_var_or_fnc then (p, ID_ARRAY_ACCESS, 2, 1) else (inc_arg_count p, ID_ARRAY_BUILD, 0, 0))
      in push_operator T_OpenBracket
           (push_operator (T_Function ''array'' i num_args) (p' \<lparr> arg_count := count # arg_count p' \<rparr>)))"

text \<open>A step gives the parser and whether the token may be followed by an index.\<close>

fun parse_step ::
  "('v, 'r, 's, 'f) token \<Rightarrow> bool \<Rightarrow> ('v, 'r, 's, 'f) parser \<Rightarrow> parse_error + (('v, 'r, 's, 'f) parser \<times> bool)" where
  "parse_step (T_Variable v) l p = Inr (push_operand (I_Variable v) p, True)"
| "parse_step (T_Constant c) l p = Inr (push_operand (I_Constant c) p, False)"
| "parse_step (T_Global g) l p = Inr (push_operand (I_Global g) p, False)"
| "parse_step (T_Capture c) l p = Inr (push_operand (I_Capture c) p, False)"
| "parse_step (T_Unary u) l p = Inr (push_operator (T_Unary u) p, False)"
| "parse_step T_OpenParen l p = Inr (push_operator T_OpenParen p, False)"
| "parse_step T_CloseParen l p = map_sum id (\<lambda>p'. (p', True)) (parse_close T_OpenParen p)"
| "parse_step T_CloseBracket l p = map_sum id (\<lambda>p'. (p', True)) (parse_close T_OpenBracket p)"
| "parse_step (T_Binary b) l p = map_sum id (\<lambda>p'. (p', False)) (parse_binary b p)"
| "parse_step (T_Function name i n) l p = Inr (push_call (T_Function name i n) p, False)"
| "parse_step (T_Regex r) l p = Inr (push_call (T_Regex r) p, False)"
| "parse_step (T_System s) l p = Inr (push_call (T_System s) p, False)"
| "parse_step T_OpenBracket l p = Inr (open_bracket l p, False)"
| "parse_step T_Comma l p =
     (case comma_loop (out_items p) (operator_stack p) of
        Inl e \<Rightarrow> Inl e
      | Inr (out, st) \<Rightarrow> Inr (p \<lparr> out_items := out, operator_stack := st \<rparr>, False))"

fun parse_tokens ::
  "('v, 'r, 's, 'f) token list \<Rightarrow> bool \<Rightarrow> ('v, 'r, 's, 'f) parser \<Rightarrow> parse_error + (('v, 'r, 's, 'f) parser \<times> bool)" where
  "parse_tokens [] l p = Inr (p, l)"
| "parse_tokens (t # ts) l p =
     (case parse_step t l p of Inl e \<Rightarrow> Inl e | Inr (p', l') \<Rightarrow> parse_tokens ts l' p')"

definition parser_new :: "('v, 'r, 's, 'f) parser" where
  "parser_new = \<lparr> out_items = [], operator_stack = [], arg_count = [] \<rparr>"

definition expression_parse :: "('v, 'r, 's, 'f) token list \<Rightarrow> parse_error + ('v, 'r, 's, 'f) item list" where
  "expression_parse ts =
     (case parse_tokens ts False parser_new of
        Inl e \<Rightarrow> Inl e
      | Inr (p, _) \<Rightarrow> finish_loop (out_items p) (operator_stack p))"

end
