(* ===== verification/ExprCompile.thy ===== *)
theory ExprCompile
  imports ExprParser
begin

text \<open>
  Correctness of the expression parser: the abstract syntax of expressions, the tokens it is written with, the items it should be compiled to,
  and the proof that the parser produces these items. The grammar \<open>ast_wf\<close> lists what the parser accepts:
  operands, operators by precedence, parentheses, calls, regular expression tests, system variables, arrays and indices.
\<close>

datatype ('v, 'r, 's, 'f) ast =
  A_Variable 'v
| A_Global bytes
| A_Capture u32
| A_Constant "'f const"
| A_Unary unary_operator "('v, 'r, 's, 'f) ast"
| A_Binary binary_operator "('v, 'r, 's, 'f) ast" "('v, 'r, 's, 'f) ast"
| A_Paren "('v, 'r, 's, 'f) ast"
| A_Call bytes u32 "('v, 'r, 's, 'f) ast list"
| A_Regex 'r "('v, 'r, 's, 'f) ast"
| A_System 's
| A_Index "('v, 'r, 's, 'f) ast" "('v, 'r, 's, 'f) ast"
| A_Array "('v, 'r, 's, 'f) ast list"

fun separated :: "('v, 'r, 's, 'f) token list list \<Rightarrow> ('v, 'r, 's, 'f) token list" where
  "separated [] = []"
| "separated [ts] = ts"
| "separated (ts # us # rest) = ts @ T_Comma # separated (us # rest)"

fun ast_tokens :: "('v, 'r, 's, 'f) ast \<Rightarrow> ('v, 'r, 's, 'f) token list" where
  "ast_tokens (A_Variable v) = [T_Variable v]"
| "ast_tokens (A_Global g) = [T_Global g]"
| "ast_tokens (A_Capture c) = [T_Capture c]"
| "ast_tokens (A_Constant c) = [T_Constant c]"
| "ast_tokens (A_Unary u e) = T_Unary u # ast_tokens e"
| "ast_tokens (A_Binary b l r) = ast_tokens l @ T_Binary b # ast_tokens r"
| "ast_tokens (A_Paren e) = T_OpenParen # ast_tokens e @ [T_CloseParen]"
| "ast_tokens (A_Call name i args) =
     T_Function name i (of_nat (length args)) # T_OpenParen # separated (map ast_tokens args) @ [T_CloseParen]"
| "ast_tokens (A_Regex r e) = T_Regex r # T_OpenParen # ast_tokens e @ [T_CloseParen]"
| "ast_tokens (A_System s) = [T_System s, T_OpenParen, T_CloseParen]"
| "ast_tokens (A_Index a i) = ast_tokens a @ T_OpenBracket # ast_tokens i @ [T_CloseBracket]"
| "ast_tokens (A_Array es) = T_OpenBracket # separated (map ast_tokens es) @ [T_CloseBracket]"

fun short_circuit :: "binary_operator \<Rightarrow> bool option" where
  "short_circuit Op_And = Some False"
| "short_circuit Op_Or = Some True"
| "short_circuit _ = None"

fun ast_code :: "('v, 'r, 's, 'f) ast \<Rightarrow> ('v, 'r, 's, 'f) item list" where
  "ast_code (A_Variable v) = [I_Variable v]"
| "ast_code (A_Global g) = [I_Global g]"
| "ast_code (A_Capture c) = [I_Capture c]"
| "ast_code (A_Constant c) = [I_Constant c]"
| "ast_code (A_Unary u e) = ast_code e @ [I_Unary u]"
| "ast_code (A_Binary b l r) =
     ast_code l @ (case short_circuit b of None \<Rightarrow> [] | Some v \<Rightarrow> [I_JmpIf v (of_nat (length (ast_code r) + 1))]) @
     ast_code r @ [I_Binary b]"
| "ast_code (A_Paren e) = ast_code e"
| "ast_code (A_Call name i args) = concat (map ast_code args) @ [I_Function i (of_nat (length args))]"
| "ast_code (A_Regex r e) = ast_code e @ [I_Regex r]"
| "ast_code (A_System s) = [I_System s]"
| "ast_code (A_Index a i) = ast_code a @ ast_code i @ [I_ArrayAccess]"
| "ast_code (A_Array es) = concat (map ast_code es) @ [I_ArrayBuild (of_nat (length es))]"

text \<open>How tightly an expression binds, and whether it may be followed by an index or be the element of an array.\<close>

fun ast_level :: "('v, 'r, 's, 'f) ast \<Rightarrow> nat" where
  "ast_level (A_Binary b l r) = precedence b"
| "ast_level (A_Unary u e) = 8"
| "ast_level _ = 9"

fun indexable :: "('v, 'r, 's, 'f) ast \<Rightarrow> bool" where
  "indexable (A_Global g) = False"
| "indexable (A_Capture c) = False"
| "indexable (A_Constant c) = False"
| "indexable (A_Unary u e) = indexable e"
| "indexable (A_Binary b l r) = indexable r"
| "indexable _ = True"

fun starts_direct :: "('v, 'r, 's, 'f) ast \<Rightarrow> bool" where
  "starts_direct (A_Unary u e) = False"
| "starts_direct (A_Paren e) = False"
| "starts_direct (A_Binary b l r) = starts_direct l"
| "starts_direct (A_Index a i) = starts_direct a"
| "starts_direct _ = True"

definition args_fit :: "'a list \<Rightarrow> bool" where
  "args_fit xs \<longleftrightarrow> length xs < 2 ^ 31 - 1"

fun ast_wf :: "('v, 'r, 's, 'f) ast \<Rightarrow> bool" where
  "ast_wf (A_Unary u e) \<longleftrightarrow> ast_wf e \<and> 8 \<le> ast_level e"
| "ast_wf (A_Binary b l r) \<longleftrightarrow> ast_wf l \<and> ast_wf r \<and> precedence b \<le> ast_level l \<and> precedence b < ast_level r"
| "ast_wf (A_Paren e) \<longleftrightarrow> ast_wf e"
| "ast_wf (A_Call name i args) \<longleftrightarrow> list_all ast_wf args \<and> i \<noteq> ID_ARRAY_ACCESS \<and> i \<noteq> ID_ARRAY_BUILD \<and> args_fit args"
| "ast_wf (A_Regex r e) \<longleftrightarrow> ast_wf e"
| "ast_wf (A_Index a i) \<longleftrightarrow> ast_wf a \<and> ast_wf i \<and> ast_level a = 9 \<and> indexable a"
| "ast_wf (A_Array es) \<longleftrightarrow> list_all ast_wf es \<and> list_all starts_direct es \<and> args_fit es"
| "ast_wf _ \<longleftrightarrow> True"

section \<open>Operators that wait on the stack\<close>

definition pending :: "nat \<Rightarrow> ('v, 'r, 's, 'f) op_stack \<Rightarrow> bool" where
  "pending k st \<longleftrightarrow> list_all (\<lambda>(t, _). case t of T_Binary b \<Rightarrow> k \<le> precedence b | T_Unary _ \<Rightarrow> True | _ \<Rightarrow> False) st"

fun drain :: "('v, 'r, 's, 'f) op_stack \<Rightarrow> ('v, 'r, 's, 'f) item list \<Rightarrow> ('v, 'r, 's, 'f) item list option" where
  "drain [] out = Some out"
| "drain ((t, j) # st) out =
     (case t of
        T_Binary b \<Rightarrow> (case pop_binary b j out of None \<Rightarrow> None | Some out' \<Rightarrow> drain st out')
      | T_Unary u \<Rightarrow> drain st (out @ [I_Unary u])
      | _ \<Rightarrow> None)"

text \<open>An operator of a given precedence, or a closing token, leaves the stack below alone.\<close>

definition blocked :: "nat \<Rightarrow> ('v, 'r, 's, 'f) op_stack \<Rightarrow> bool" where
  "blocked k st \<longleftrightarrow>
     (case st of
        [] \<Rightarrow> True
      | (t, _) # _ \<Rightarrow> (case t of T_Binary b \<Rightarrow> precedence b < k | T_Unary _ \<Rightarrow> 8 \<le> k
          | T_Function _ _ _ \<Rightarrow> False | T_Regex _ \<Rightarrow> False | T_System _ \<Rightarrow> False | _ \<Rightarrow> True))"

lemma precedence_bounds: "1 \<le> precedence b" "precedence b \<le> 7"
  by (cases b; simp)+

lemma pending_simps [simp]:
  "pending k []" "pending k ((T_Unary u, j) # st) \<longleftrightarrow> pending k st"
  "pending k ((T_Binary b, j) # st) \<longleftrightarrow> k \<le> precedence b \<and> pending k st"
  "pending k (st @ st') \<longleftrightarrow> pending k st \<and> pending k st'"
  by (simp_all add: pending_def)

lemma pending_mono: "pending k st \<Longrightarrow> k' \<le> k \<Longrightarrow> pending k' st"
  unfolding pending_def list_all_iff by (auto split: token.splits)

lemma drain_append: "drain (st @ st') out = Option.bind (drain st out) (drain st')"
  by (induction st out rule: drain.induct) (auto split: token.split option.split)

lemma binary_loop_stop:
  assumes "blocked (precedence b) st"
  shows "binary_loop b out st = Inr (out, st)"
proof (cases st)
  case (Cons e st')
  obtain t j where e: "e = (t, j)" by (cases e)
  from assms Cons e precedence_bounds(2) [of b] show ?thesis by (cases t) (auto simp: blocked_def)
qed simp

lemma binary_loop_drain:
  assumes "pending (precedence b) P" "drain P out = Some out'" "blocked (precedence b) st"
  shows "binary_loop b out (P @ st) = Inr (out', st)"
  using assms(1,2)
proof (induction P out rule: drain.induct)
  case (1 out)
  with binary_loop_stop [OF assms(3)] show ?case by simp
next
  case (2 t j P out)
  then show ?case by (cases t) (auto simp: pending_def split: option.splits)
qed

lemma close_loop_drain:
  assumes "pending k P" "drain P out = Some out'" "t = T_OpenParen \<or> t = T_OpenBracket"
  shows "close_loop t out (P @ (t, j) # st) = Inr (out', st)"
  using assms(1,2)
proof (induction P out rule: drain.induct)
  case (2 t' j P out)
  then show ?case using assms(3) by (cases t') (auto simp: pending_def split: option.splits)
qed simp

lemma comma_loop_drain:
  assumes "pending k P" "drain P out = Some out'" "t = T_OpenParen \<or> t = T_OpenBracket"
  shows "comma_loop out (P @ (t, j) # st) = Inr (out', (t, j) # st)"
  using assms(1,2)
proof (induction P out rule: drain.induct)
  case 1
  then show ?case using assms(3) by auto
next
  case (2 t' j P out)
  then show ?case by (cases t') (auto simp: pending_def split: option.splits)
qed

lemma finish_loop_drain: "pending k P \<Longrightarrow> drain P out = Some out' \<Longrightarrow> finish_loop out P = Inr out'"
proof (induction P out rule: drain.induct)
  case (2 t' j P out)
  then show ?case by (cases t') (auto simp: pending_def split: option.splits)
qed simp

lemma blocked_mono: "blocked k st \<Longrightarrow> k \<le> k' \<Longrightarrow> blocked k' st"
proof (cases st)
  case (Cons e st')
  obtain t j where e: "e = (t, j)" by (cases e)
  show "blocked k st \<Longrightarrow> k \<le> k' \<Longrightarrow> blocked k' st" using Cons e by (cases t) (auto simp: blocked_def)
qed (simp add: blocked_def)

lemma blocked_bump: "blocked k (bump st) \<longleftrightarrow> blocked k st"
  by (cases st rule: bump.cases) (auto simp: blocked_def bump_entry_def split: token.split)

text \<open>Below an operator or a parenthesis the counter of an array is not reached.\<close>

lemma bump_below_operator:
  "blocked k st \<Longrightarrow> bump ((T_Binary b, j) # st) = (T_Binary b, j) # st"
  "blocked k st \<Longrightarrow> bump ((T_Unary u, j) # st) = (T_Unary u, j) # st"
  "blocked k st \<Longrightarrow> bump ((T_OpenParen, j) # st) = (T_OpenParen, j) # st"
  by (cases st; force simp: blocked_def bump_entry_def split: token.splits prod.splits)+

section \<open>What reading an expression does to the parser\<close>

definition context_ok :: "nat \<Rightarrow> ('v, 'r, 's, 'f) parser \<Rightarrow> bool" where
  "context_ok k p \<longleftrightarrow> blocked k (operator_stack p) \<and> (case arg_count p of [] \<Rightarrow> True | x # _ \<Rightarrow> 0 \<le> x \<and> x < 2 ^ 31 - 1)"

text \<open>The parser after one more argument, which the counter of an array takes note of if the argument starts directly.\<close>

definition entered :: "bool \<Rightarrow> ('v, 'r, 's, 'f) parser \<Rightarrow> ('v, 'r, 's, 'f) parser" where
  "entered d p =
     (case arg_count p of
        [] \<Rightarrow> p
      | x # xs \<Rightarrow> p \<lparr> arg_count := (x + 1) # xs, operator_stack := (if d then bump (operator_stack p) else operator_stack p) \<rparr>)"

definition reads :: "('v, 'r, 's, 'f) ast \<Rightarrow> bool" where
  "reads e \<longleftrightarrow>
     (\<forall>p. context_ok (ast_level e) p \<longrightarrow>
        (\<exists>out P. parse_tokens (ast_tokens e) False p =
             Inr ((entered (starts_direct e) p)
               \<lparr> out_items := out, operator_stack := P @ operator_stack (entered (starts_direct e) p) \<rparr>, indexable e) \<and>
           pending (ast_level e) P \<and> drain P out = Some (out_items p @ ast_code e) \<and> (ast_level e = 9 \<longrightarrow> P = [])))"

lemma readsE:
  assumes "reads e" "context_ok (ast_level e) p"
  obtains out P where "parse_tokens (ast_tokens e) False p =
      Inr ((entered (starts_direct e) p) \<lparr> out_items := out, operator_stack := P @ operator_stack (entered (starts_direct e) p) \<rparr>, indexable e)"
    "pending (ast_level e) P" "drain P out = Some (out_items p @ ast_code e)" "ast_level e = 9 \<Longrightarrow> P = []"
  using assms unfolding reads_def by blast

lemma inc_entered: "context_ok k p \<Longrightarrow> inc_arg_count p = entered True p"
  by (auto simp: context_ok_def inc_arg_count_def entered_def split: list.split)

lemma entered_simps [simp]:
  "out_items (entered d p) = out_items p"
  "arg_count p = x # xs \<Longrightarrow> arg_count (entered d p) = (x + 1) # xs"
  "operator_stack (entered False p) = operator_stack p"
  by (auto simp: entered_def split: list.split)

lemma same_stack [simp]: "p \<lparr> out_items := out, operator_stack := operator_stack p \<rparr> = p \<lparr> out_items := out \<rparr>"
  by (cases p) simp

lemma blocked_entered: "blocked k (operator_stack (entered d p)) \<longleftrightarrow> blocked k (operator_stack p)"
  by (simp add: entered_def blocked_bump split: list.split)

lemma parse_tokens_append:
  "parse_tokens (ts @ us) l p =
     (case parse_tokens ts l p of Inl e \<Rightarrow> Inl e | Inr (p', l') \<Rightarrow> parse_tokens us l' p')"
  by (induction ts arbitrary: l p) (auto split: sum.split)

lemma call_closed_blocked: "blocked k (operator_stack p) \<Longrightarrow> call_closed p = Inr p"
  by (auto simp: call_closed_def blocked_def split: list.splits prod.splits token.splits)

lemma reads_operand:
  assumes "\<And>l p. parse_step t l p = Inr (push_operand i p, b)"
    and "ast_tokens e = [t]" "ast_code e = [i]" "ast_level e = 9" "starts_direct e" "indexable e = b"
  shows "reads e"
  unfolding reads_def
proof (intro allI impI)
  fix p :: "('a, 'b, 'c, 'd) parser"
  assume ok: "context_ok (ast_level e) p"
  show "\<exists>out P. parse_tokens (ast_tokens e) False p =
      Inr ((entered (starts_direct e) p) \<lparr> out_items := out, operator_stack := P @ operator_stack (entered (starts_direct e) p) \<rparr>, indexable e) \<and>
      pending (ast_level e) P \<and> drain P out = Some (out_items p @ ast_code e) \<and> (ast_level e = 9 \<longrightarrow> P = [])"
    using assms inc_entered [OF ok]
    by (intro exI [of _ "out_items p @ [i]"] exI [of _ "[]"]) (simp add: push_operand_def Let_def)
qed

lemma reads_unary:
  assumes "reads e" "8 \<le> ast_level e"
  shows "reads (A_Unary u e)"
  unfolding reads_def
proof (intro allI impI)
  fix p :: "('a, 'b, 'c, 'd) parser"
  assume ok: "context_ok (ast_level (A_Unary u e)) p"
  let ?p = "push_operator (T_Unary u) p"
  have "context_ok (ast_level e) ?p"
    using ok assms(2) by (simp add: context_ok_def push_operator_def blocked_def)
  then obtain out P where r: "parse_tokens (ast_tokens e) False ?p =
      Inr ((entered (starts_direct e) ?p) \<lparr> out_items := out, operator_stack := P @ operator_stack (entered (starts_direct e) ?p) \<rparr>, indexable e)"
    "pending (ast_level e) P" "drain P out = Some (out_items ?p @ ast_code e)"
    using readsE [OF assms(1)] by metis
  have st: "operator_stack (entered (starts_direct e) ?p) = (T_Unary u, None) # operator_stack p"
    using ok bump_below_operator(2) by (auto simp: entered_def push_operator_def context_ok_def split: list.split)
  have "(entered (starts_direct e) ?p) \<lparr> out_items := out, operator_stack := P @ (T_Unary u, None) # operator_stack p \<rparr> =
     (entered False p) \<lparr> out_items := out, operator_stack := (P @ [(T_Unary u, None)]) @ operator_stack (entered False p) \<rparr>"
    by (simp add: entered_def push_operator_def split: list.split)
  with r st show "\<exists>out P. parse_tokens (ast_tokens (A_Unary u e)) False p =
      Inr ((entered (starts_direct (A_Unary u e)) p)
        \<lparr> out_items := out, operator_stack := P @ operator_stack (entered (starts_direct (A_Unary u e)) p) \<rparr>, indexable (A_Unary u e)) \<and>
      pending (ast_level (A_Unary u e)) P \<and> drain P out = Some (out_items p @ ast_code (A_Unary u e)) \<and>
      (ast_level (A_Unary u e) = 9 \<longrightarrow> P = [])"
    using pending_mono [OF r(2) assms(2)]
    by (intro exI [of _ out] exI [of _ "P @ [(T_Unary u, None)]"]) (simp add: drain_append push_operator_def)
qed

definition jump_of :: "binary_operator \<Rightarrow> ('v, 'r, 's, 'f) item list" where
  "jump_of b = (case short_circuit b of None \<Rightarrow> [] | Some v \<Rightarrow> [I_JmpIf v 0])"

definition jump_pos :: "binary_operator \<Rightarrow> nat \<Rightarrow> nat option" where
  "jump_pos b n = (case short_circuit b of None \<Rightarrow> None | Some _ \<Rightarrow> Some n)"

lemma parse_binary_eq:
  "parse_binary b p =
     (case binary_loop b (out_items p) (operator_stack p) of
        Inl e \<Rightarrow> Inl e
      | Inr (out, st) \<Rightarrow> Inr ((dec_arg_count p)
          \<lparr> out_items := out @ jump_of b, operator_stack := (T_Binary b, jump_pos b (length out)) # st \<rparr>))"
proof -
  have "out_items (dec_arg_count p) = out_items p" "operator_stack (dec_arg_count p) = operator_stack p"
    by (simp_all add: dec_arg_count_def split: list.split)
  then show ?thesis
    by (cases b) (simp_all add: parse_binary_def Let_def jump_of_def jump_pos_def split: sum.split)
qed

text \<open>When the operator leaves the stack, its jump is made to end behind it.\<close>

lemma pop_binary_code:
  "pop_binary b (jump_pos b (length out)) (out @ jump_of b @ code) =
     Some (out @ (case short_circuit b of None \<Rightarrow> [] | Some v \<Rightarrow> [I_JmpIf v (of_nat (length code + 1))]) @ code @ [I_Binary b])"
  by (cases "short_circuit b")
    (simp_all add: pop_binary_def update_jmp_pos_def jump_pos_def jump_of_def nth_append list_update_append)

lemma dec_entered: "context_ok k p \<Longrightarrow>
  dec_arg_count ((entered d p) \<lparr> out_items := out, operator_stack := st \<rparr>) = p \<lparr> out_items := out, operator_stack := st \<rparr>"
  by (cases "arg_count p") (auto simp: context_ok_def dec_arg_count_def entered_def)

lemma reads_binary:
  assumes "reads l" "reads r" "precedence b \<le> ast_level l" "precedence b < ast_level r"
  shows "reads (A_Binary b l r)"
  unfolding reads_def
proof (intro allI impI)
  fix p :: "('a, 'b, 'c, 'd) parser"
  assume ok: "context_ok (ast_level (A_Binary b l r)) p"
  have okl: "context_ok (ast_level l) p" using ok assms(3) by (auto simp: context_ok_def intro: blocked_mono)
  obtain out P where l: "parse_tokens (ast_tokens l) False p =
      Inr ((entered (starts_direct l) p) \<lparr> out_items := out, operator_stack := P @ operator_stack (entered (starts_direct l) p) \<rparr>, indexable l)"
    "pending (ast_level l) P" "drain P out = Some (out_items p @ ast_code l)"
    using readsE [OF assms(1) okl] by metis
  let ?st = "operator_stack (entered (starts_direct l) p)" and ?out = "out_items p @ ast_code l"
  have b: "blocked (precedence b) ?st" using ok by (simp add: blocked_entered context_ok_def)
  let ?p = "p \<lparr> out_items := ?out @ jump_of b, operator_stack := (T_Binary b, jump_pos b (length ?out)) # ?st \<rparr>"
  have step: "parse_step (T_Binary b) (indexable l) ((entered (starts_direct l) p) \<lparr> out_items := out, operator_stack := P @ ?st \<rparr>) =
      Inr (?p, False)"
    using binary_loop_drain [OF pending_mono [OF l(2) assms(3)] l(3) b] dec_entered [OF ok]
    by (simp add: parse_binary_eq)
  have "context_ok (ast_level r) ?p" using ok assms(4) by (simp add: context_ok_def blocked_def)
  then obtain out' P' where r: "parse_tokens (ast_tokens r) False ?p =
      Inr ((entered (starts_direct r) ?p) \<lparr> out_items := out', operator_stack := P' @ operator_stack (entered (starts_direct r) ?p) \<rparr>, indexable r)"
    "pending (ast_level r) P'" "drain P' out' = Some (out_items ?p @ ast_code r)"
    using readsE [OF assms(2)] by metis
  have "operator_stack (entered (starts_direct r) ?p) = (T_Binary b, jump_pos b (length ?out)) # ?st"
    using b bump_below_operator(1) by (auto simp: entered_def [of "starts_direct r"] split: list.split)
  then have e: "(entered (starts_direct r) ?p) \<lparr> out_items := out', operator_stack := P' @ operator_stack (entered (starts_direct r) ?p) \<rparr> =
     (entered (starts_direct l) p) \<lparr> out_items := out', operator_stack := (P' @ [(T_Binary b, jump_pos b (length ?out))]) @ ?st \<rparr>"
    by (simp add: entered_def split: list.split)
  have "pending (precedence b) P'" using pending_mono [OF r(2)] assms(4) by simp
  moreover have "drain (P' @ [(T_Binary b, jump_pos b (length ?out))]) out' = Some (out_items p @ ast_code (A_Binary b l r))"
    using r(3) pop_binary_code [of b "out_items p @ ast_code l" "ast_code r"] by (simp add: drain_append)
  moreover have "parse_tokens (ast_tokens (A_Binary b l r)) False p =
      Inr ((entered (starts_direct l) p) \<lparr> out_items := out', operator_stack := (P' @ [(T_Binary b, jump_pos b (length ?out))]) @ ?st \<rparr>, indexable r)"
    unfolding ast_tokens.simps parse_tokens_append l(1) sum.case prod.case parse_tokens.simps step r(1) e ..
  ultimately show "\<exists>out P. parse_tokens (ast_tokens (A_Binary b l r)) False p =
      Inr ((entered (starts_direct (A_Binary b l r)) p)
        \<lparr> out_items := out, operator_stack := P @ operator_stack (entered (starts_direct (A_Binary b l r)) p) \<rparr>, indexable (A_Binary b l r)) \<and>
      pending (ast_level (A_Binary b l r)) P \<and> drain P out = Some (out_items p @ ast_code (A_Binary b l r)) \<and>
      (ast_level (A_Binary b l r) = 9 \<longrightarrow> P = [])"
    using precedence_bounds(2) [of b]
    by (intro exI [of _ out'] exI [of _ "P' @ [(T_Binary b, jump_pos b (length ?out))]"]) simp
qed

section \<open>Arguments, calls and arrays\<close>

definition frame_after :: "('v, 'r, 's, 'f) ast list \<Rightarrow> ('v, 'r, 's, 'f) token \<times> nat option \<Rightarrow> ('v, 'r, 's, 'f) token \<times> nat option" where
  "frame_after es f = fold (\<lambda>e f. if starts_direct e then bump_entry f else f) es f"

abbreviation opens :: "('v, 'r, 's, 'f) token \<Rightarrow> bool" where
  "opens t \<equiv> t = T_OpenParen \<or> t = T_OpenBracket"

lemma ast_level_pos: "1 \<le> ast_level e"
  using precedence_bounds(1) by (cases e) simp_all

lemma blocked_opens: "opens t \<Longrightarrow> blocked k ((t, j) # st)"
  by (auto simp: blocked_def)

lemma read_one_arg:
  assumes "reads e" "opens t" "operator_stack p = (t, j) # f # fs" "arg_count p = x # xs" "0 \<le> x" "x < 2 ^ 31 - 1"
  obtains out P where "parse_tokens (ast_tokens e) False p =
      Inr (p \<lparr> out_items := out, operator_stack := P @ (t, j) # frame_after [e] f # fs, arg_count := (x + 1) # xs \<rparr>, indexable e)"
    "pending 1 P" "drain P out = Some (out_items p @ ast_code e)"
proof -
  have "context_ok (ast_level e) p" using assms blocked_opens by (simp add: context_ok_def)
  then obtain out P where r: "parse_tokens (ast_tokens e) False p =
      Inr ((entered (starts_direct e) p) \<lparr> out_items := out, operator_stack := P @ operator_stack (entered (starts_direct e) p) \<rparr>, indexable e)"
    "pending (ast_level e) P" "drain P out = Some (out_items p @ ast_code e)"
    using readsE [OF assms(1)] by metis
  moreover have "(entered (starts_direct e) p) \<lparr> out_items := out, operator_stack := P @ operator_stack (entered (starts_direct e) p) \<rparr> =
     p \<lparr> out_items := out, operator_stack := P @ (t, j) # frame_after [e] f # fs, arg_count := (x + 1) # xs \<rparr>"
    using assms(3,4) by (simp add: entered_def frame_after_def)
  ultimately show thesis using that pending_mono [OF r(2) ast_level_pos] by simp
qed

lemma read_args:
  assumes "es \<noteq> []" "\<forall>e \<in> set es. reads e" "opens t" "operator_stack p = (t, j) # f # fs" "arg_count p = x # xs"
    and "0 \<le> x" "x + int (length es) \<le> 2 ^ 31 - 1"
  shows "\<exists>out P. parse_tokens (separated (map ast_tokens es)) False p =
      Inr (p \<lparr> out_items := out, operator_stack := P @ (t, j) # frame_after es f # fs, arg_count := (x + int (length es)) # xs \<rparr>, indexable (last es)) \<and>
      pending 1 P \<and> drain P out = Some (out_items p @ concat (map ast_code es))"
  using assms
proof (induction es arbitrary: p f x rule: list_nonempty_induct)
  case (single e)
  then have "reads e" "x < 2 ^ 31 - 1" by simp_all
  from read_one_arg [OF this(1) single(2-5) this(2)] show ?case by simp metis
next
  case (cons e es)
  then have e: "reads e" "x < 2 ^ 31 - 1" by simp_all
  obtain out P where r: "parse_tokens (ast_tokens e) False p =
      Inr (p \<lparr> out_items := out, operator_stack := P @ (t, j) # frame_after [e] f # fs, arg_count := (x + 1) # xs \<rparr>, indexable e)"
    "pending 1 P" "drain P out = Some (out_items p @ ast_code e)"
    using read_one_arg [OF e(1) cons.prems(2-5) e(2)] .
  let ?p = "p \<lparr> out_items := out_items p @ ast_code e, operator_stack := (t, j) # frame_after [e] f # fs, arg_count := (x + 1) # xs \<rparr>"
  from comma_loop_drain [OF r(2,3) cons.prems(2)] have
    comma: "parse_step T_Comma (indexable e)
       (p \<lparr> out_items := out, operator_stack := P @ (t, j) # frame_after [e] f # fs, arg_count := (x + 1) # xs \<rparr>) = Inr (?p, False)"
    by simp
  have "\<exists>out P. parse_tokens (separated (map ast_tokens es)) False ?p =
      Inr (?p \<lparr> out_items := out, operator_stack := P @ (t, j) # frame_after es (frame_after [e] f) # fs,
        arg_count := (x + 1 + int (length es)) # xs \<rparr>, indexable (last es)) \<and>
      pending 1 P \<and> drain P out = Some (out_items ?p @ concat (map ast_code es))"
    using cons.prems by (intro cons.IH) simp_all
  then obtain out' P' where r': "parse_tokens (separated (map ast_tokens es)) False ?p =
      Inr (?p \<lparr> out_items := out', operator_stack := P' @ (t, j) # frame_after es (frame_after [e] f) # fs,
        arg_count := (x + 1 + int (length es)) # xs \<rparr>, indexable (last es))"
    "pending 1 P'" "drain P' out' = Some (out_items ?p @ concat (map ast_code es))" by blast
  have "separated (map ast_tokens (e # es)) = ast_tokens e @ T_Comma # separated (map ast_tokens es)"
    using cons.hyps by (cases es) simp_all
  then have "parse_tokens (separated (map ast_tokens (e # es))) False p =
      Inr (p \<lparr> out_items := out', operator_stack := P' @ (t, j) # frame_after (e # es) f # fs,
        arg_count := (x + int (length (e # es))) # xs \<rparr>, indexable (last (e # es)))"
    using cons.hyps by (simp only: parse_tokens_append r(1) sum.case prod.case parse_tokens.simps comma r'(1))
      (simp add: frame_after_def algebra_simps)
  with r'(2,3) show ?case by (intro exI [of _ out'] exI [of _ P']) simp
qed

text \<open>The arguments up to the closing token, in one step.\<close>

lemma read_frame:
  assumes "\<forall>e \<in> set es. reads e" "operator_stack p = (t, j) # f # fs" "arg_count p = x # xs"
    and "0 \<le> x" "x + int (length es) \<le> 2 ^ 31 - 1"
    and "(t, c) = (T_OpenParen, T_CloseParen) \<or> (t, c) = (T_OpenBracket, T_CloseBracket)"
  shows "parse_tokens (separated (map ast_tokens es) @ [c]) False p =
     map_sum id (\<lambda>p'. (p', True)) (call_closed
       (p \<lparr> out_items := out_items p @ concat (map ast_code es), operator_stack := frame_after es f # fs,
            arg_count := (x + int (length es)) # xs \<rparr>))"
proof (cases "es = []")
  case True
  have "p \<lparr> out_items := out_items p, operator_stack := f # fs, arg_count := x # xs \<rparr> = p \<lparr> operator_stack := f # fs \<rparr>"
    using assms(3) by (cases p) simp
  moreover have "p \<lparr> out_items := out_items p, operator_stack := f # fs \<rparr> = p \<lparr> operator_stack := f # fs \<rparr>"
    by (cases p) simp
  ultimately show ?thesis using True assms(2,6)
    by (auto simp: parse_close_def frame_after_def map_sum_def split: sum.split)
next
  case False
  have o: "opens t" using assms(6) by auto
  obtain out P where r: "parse_tokens (separated (map ast_tokens es)) False p =
      Inr (p \<lparr> out_items := out, operator_stack := P @ (t, j) # frame_after es f # fs, arg_count := (x + int (length es)) # xs \<rparr>, indexable (last es))"
    "pending 1 P" "drain P out = Some (out_items p @ concat (map ast_code es))"
    using read_args [OF False assms(1) o assms(2-5)] by blast
  from close_loop_drain [OF r(2,3) o] have
    "parse_close t (p \<lparr> out_items := out, operator_stack := P @ (t, j) # frame_after es f # fs, arg_count := (x + int (length es)) # xs \<rparr>) =
      call_closed (p \<lparr> out_items := out_items p @ concat (map ast_code es), operator_stack := frame_after es f # fs,
            arg_count := (x + int (length es)) # xs \<rparr>)"
    by (cases p) (simp add: parse_close_def)
  with assms(6) show ?thesis unfolding parse_tokens_append r(1)
    by (auto simp: map_sum_def split: sum.split)
qed

lemma frame_after_other:
  assumes "\<And>name i n. t = T_Function name i n \<Longrightarrow> i \<noteq> ID_ARRAY_BUILD"
  shows "frame_after es (t, j) = (t, j)"
  using assms by (induction es) (auto simp: frame_after_def bump_entry_def split: token.split)

lemma frame_after_array:
  "list_all starts_direct es \<Longrightarrow>
   frame_after es (T_Function name ID_ARRAY_BUILD n, j) = (T_Function name ID_ARRAY_BUILD (n + of_nat (length es)), j)"
  by (induction es arbitrary: n) (auto simp: frame_after_def bump_entry_def algebra_simps)

lemma sint_count: "args_fit es \<Longrightarrow> sint (of_nat (length es) :: u32) = int (length es)"
  unfolding args_fit_def by (simp add: signed_of_nat signed_take_bit_int_eq_self)

section \<open>Every construct\<close>

text \<open>The conclusion of \<open>reads\<close> for a construct after which no operator waits.\<close>

lemma reads_closedI:
  assumes "ast_level e = 9" "indexable e"
    and "\<And>p. context_ok 9 p \<Longrightarrow> parse_tokens (ast_tokens e) False p =
      Inr ((entered (starts_direct e) p) \<lparr> out_items := out_items p @ ast_code e \<rparr>, True)"
  shows "reads e"
  unfolding reads_def using assms by auto

lemma reads_paren:
  assumes "reads e"
  shows "reads (A_Paren e)"
proof (rule reads_closedI)
  fix p :: "('a, 'b, 'c, 'd) parser"
  assume ok: "context_ok 9 p"
  let ?p = "push_operator T_OpenParen p" and ?d = "starts_direct e"
  have "context_ok (ast_level e) ?p" using ok by (simp add: context_ok_def push_operator_def blocked_def)
  then obtain out P where r: "parse_tokens (ast_tokens e) False ?p =
      Inr ((entered ?d ?p) \<lparr> out_items := out, operator_stack := P @ operator_stack (entered ?d ?p) \<rparr>, indexable e)"
    "pending (ast_level e) P" "drain P out = Some (out_items ?p @ ast_code e)"
    using readsE [OF assms] by metis
  have st: "operator_stack (entered ?d ?p) = (T_OpenParen, None) # operator_stack p"
    using ok bump_below_operator(3) by (auto simp: entered_def push_operator_def context_ok_def split: list.split)
  have q: "(entered ?d ?p) \<lparr> out_items := out', operator_stack := operator_stack p \<rparr> = (entered False p) \<lparr> out_items := out' \<rparr>" for out'
    by (cases p) (simp add: entered_def push_operator_def split: list.split)
  have op: "out_items ?p = out_items p" by (simp add: push_operator_def)
  have "parse_close T_OpenParen ((entered ?d ?p) \<lparr> out_items := out, operator_stack := P @ (T_OpenParen, None) # operator_stack p \<rparr>) =
      Inr ((entered False p) \<lparr> out_items := out_items p @ ast_code e \<rparr>)"
    using close_loop_drain [OF r(2,3), of T_OpenParen] call_closed_blocked [of 9 "(entered False p) \<lparr> out_items := out_items p @ ast_code e \<rparr>"]
      ok q [of "out_items p @ ast_code e"] op by (simp add: parse_close_def context_ok_def)
  with r(1) st show "parse_tokens (ast_tokens (A_Paren e)) False p =
      Inr ((entered (starts_direct (A_Paren e)) p) \<lparr> out_items := out_items p @ ast_code (A_Paren e) \<rparr>, True)"
    by (simp add: parse_tokens_append)
qed simp_all

text \<open>A call, a regular expression test and a system variable: the token, and its arguments in parentheses.\<close>

lemma reads_called:
  assumes "ast_tokens e = t # T_OpenParen # separated (map ast_tokens es) @ [T_CloseParen]"
    and "ast_code e = concat (map ast_code es) @ [i]" "ast_level e = 9" "indexable e" "starts_direct e"
    and "\<And>l p. parse_step t l p = Inr (push_call t p, False)"
    and "\<forall>e \<in> set es. reads e" "args_fit es" "\<And>name i n. t = T_Function name i n \<Longrightarrow> i \<noteq> ID_ARRAY_BUILD"
    and "\<And>p st counts. operator_stack p = (t, None) # st \<Longrightarrow> arg_count p = int (length es) # counts \<Longrightarrow>
       call_closed p = Inr (p \<lparr> out_items := out_items p @ [i], operator_stack := st, arg_count := counts \<rparr>)"
  shows "reads e"
proof (rule reads_closedI)
  fix p :: "('a, 'b, 'c, 'd) parser"
  assume ok: "context_ok 9 p"
  let ?q = "entered True p"
  let ?p = "push_operator T_OpenParen (push_call t p)"
  have p: "operator_stack ?p = (T_OpenParen, None) # (t, None) # operator_stack ?q" "arg_count ?p = 0 # arg_count ?q"
    "out_items ?p = out_items p"
    using inc_entered [OF ok] by (simp_all add: push_operator_def push_call_def Let_def)
  have n: "0 + int (length es) \<le> 2 ^ 31 - 1" using assms(8) by (simp add: args_fit_def)
  have fr: "frame_after es (t, None) = (t, None)" by (rule frame_after_other) (rule assms(9))
  let ?r = "?p \<lparr> out_items := out_items p @ concat (map ast_code es), operator_stack := (t, None) # operator_stack ?q,
      arg_count := int (length es) # arg_count ?q \<rparr>"
  have "call_closed ?r = Inr (?q \<lparr> out_items := out_items p @ ast_code e \<rparr>)"
    using inc_entered [OF ok] by (subst assms(10)) (auto simp: assms(2) push_operator_def push_call_def Let_def)
  then have "parse_tokens (separated (map ast_tokens es) @ [T_CloseParen]) False ?p =
      Inr (?q \<lparr> out_items := out_items p @ ast_code e \<rparr>, True)"
    using read_frame [OF assms(7) p(1,2) _ n, of T_CloseParen] p(3) by (simp add: fr)
  then show "parse_tokens (ast_tokens e) False p =
      Inr ((entered (starts_direct e) p) \<lparr> out_items := out_items p @ ast_code e \<rparr>, True)"
    by (simp add: assms(1,5,6))
qed (simp_all add: assms)

lemma reads_call:
  assumes "\<forall>e \<in> set es. reads e" "args_fit es" "i \<noteq> ID_ARRAY_ACCESS" "i \<noteq> ID_ARRAY_BUILD"
  shows "reads (A_Call name i es)"
  by (rule reads_called [where es = es and i = "I_Function i (of_nat (length es))"])
    (auto simp: assms call_closed_def function_item_def sint_count)

lemma reads_regex: "reads e \<Longrightarrow> reads (A_Regex r e)"
  by (rule reads_called [where es = "[e]" and i = "I_Regex r"]) (auto simp: call_closed_def args_fit_def)

lemma reads_system: "reads (A_System s)"
  by (rule reads_called [where es = "[]" and i = "I_System s"]) (auto simp: call_closed_def args_fit_def)

lemma open_bracket_simps:
  "operator_stack (open_bracket True p) = (T_OpenBracket, None) # (T_Function ''array'' ID_ARRAY_ACCESS 2, None) # operator_stack p"
  "arg_count (open_bracket True p) = 1 # arg_count p"
  "operator_stack (open_bracket False p) =
     (T_OpenBracket, None) # (T_Function ''array'' ID_ARRAY_BUILD 0, None) # operator_stack (inc_arg_count p)"
  "arg_count (open_bracket False p) = 0 # arg_count (inc_arg_count p)"
  "out_items (open_bracket True p) = out_items p"
  "out_items (open_bracket False p) = out_items (inc_arg_count p)"
  by (simp_all add: open_bracket_def push_operator_def)

lemma call_closed_function:
  assumes "operator_stack p = (T_Function name i n, j) # st" "arg_count p = sint n # counts"
  shows "call_closed p = Inr (p \<lparr> out_items := out_items p @ [function_item i n], operator_stack := st, arg_count := counts \<rparr>)"
  using assms by (simp add: call_closed_def)

lemma array_ids [simp]: "ID_ARRAY_ACCESS \<noteq> ID_ARRAY_BUILD" "ID_ARRAY_BUILD \<noteq> ID_ARRAY_ACCESS"
  by (simp_all add: ID_ARRAY_ACCESS_def ID_ARRAY_BUILD_def)

lemma reads_index:
  assumes "reads a" "reads i" "ast_level a = 9" "indexable a"
  shows "reads (A_Index a i)"
proof (rule reads_closedI)
  fix p :: "('a, 'b, 'c, 'd) parser"
  assume ok: "context_ok 9 p"
  let ?q = "(entered (starts_direct a) p) \<lparr> out_items := out_items p @ ast_code a \<rparr>"
  have a: "parse_tokens (ast_tokens a) False p = Inr (?q, True)"
    using readsE [OF assms(1), of p] ok assms(3,4) by auto
  let ?f = "(T_Function ''array'' ID_ARRAY_ACCESS 2, None) :: ('a, 'b, 'c, 'd) token \<times> nat option"
  let ?r = "(open_bracket True ?q) \<lparr> out_items := out_items ?q @ ast_code i, operator_stack := ?f # operator_stack ?q, arg_count := 2 # arg_count ?q \<rparr>"
  have fr: "frame_after [i] ?f = ?f" by (rule frame_after_other) auto
  have "call_closed ?r = Inr (?q \<lparr> out_items := out_items p @ ast_code (A_Index a i) \<rparr>)"
    by (subst call_closed_function) (auto simp: function_item_def open_bracket_def push_operator_def)
  then have "parse_tokens (separated (map ast_tokens [i]) @ [T_CloseBracket]) False (open_bracket True ?q) =
      Inr (?q \<lparr> out_items := out_items p @ ast_code (A_Index a i) \<rparr>, True)"
    using read_frame [of "[i]" "open_bracket True ?q" T_OpenBracket None ?f "operator_stack ?q" 1 "arg_count ?q" T_CloseBracket] assms(2) fr
    by (simp add: open_bracket_simps)
  with a show "parse_tokens (ast_tokens (A_Index a i)) False p =
      Inr ((entered (starts_direct (A_Index a i)) p) \<lparr> out_items := out_items p @ ast_code (A_Index a i) \<rparr>, True)"
    by (simp add: parse_tokens_append)
qed simp_all

lemma reads_array:
  assumes "\<forall>e \<in> set es. reads e" "list_all starts_direct es" "args_fit es"
  shows "reads (A_Array es)"
proof (rule reads_closedI)
  fix p :: "('a, 'b, 'c, 'd) parser"
  assume ok: "context_ok 9 p"
  let ?q = "entered True p" and ?n = "of_nat (length es) :: u32"
  let ?f = "\<lambda>n. (T_Function ''array'' ID_ARRAY_BUILD n, None) :: ('a, 'b, 'c, 'd) token \<times> nat option"
  let ?r = "(open_bracket False p) \<lparr> out_items := out_items p @ concat (map ast_code es), operator_stack := ?f ?n # operator_stack ?q,
      arg_count := int (length es) # arg_count ?q \<rparr>"
  have p: "operator_stack (open_bracket False p) = (T_OpenBracket, None) # ?f 0 # operator_stack ?q"
    "arg_count (open_bracket False p) = 0 # arg_count ?q" "out_items (open_bracket False p) = out_items p"
    by (simp_all add: open_bracket_simps inc_entered [OF ok])
  have fr: "frame_after es (?f 0) = ?f ?n" using frame_after_array [OF assms(2), of _ 0] by simp
  have "call_closed ?r = Inr (?q \<lparr> out_items := out_items p @ ast_code (A_Array es) \<rparr>)"
    by (subst call_closed_function)
      (auto simp: function_item_def open_bracket_def push_operator_def sint_count [OF assms(3)] inc_entered [OF ok])
  then have "parse_tokens (separated (map ast_tokens es) @ [T_CloseBracket]) False (open_bracket False p) =
      Inr (?q \<lparr> out_items := out_items p @ ast_code (A_Array es) \<rparr>, True)"
    using read_frame [OF assms(1) p(1,2), of T_CloseBracket] assms(3) p(3) by (simp add: fr args_fit_def)
  then show "parse_tokens (ast_tokens (A_Array es)) False p =
      Inr ((entered (starts_direct (A_Array es)) p) \<lparr> out_items := out_items p @ ast_code (A_Array es) \<rparr>, True)"
    by simp
qed simp_all

text \<open>The parser reads every well-formed expression.\<close>

theorem reads_all: "ast_wf e \<Longrightarrow> reads e"
proof (induction e)
  case (A_Variable v)
  show ?case by (rule reads_operand [where t = "T_Variable v" and i = "I_Variable v"]) simp_all
next
  case (A_Global g)
  show ?case by (rule reads_operand [where t = "T_Global g" and i = "I_Global g" and b = False]) simp_all
next
  case (A_Capture c)
  show ?case by (rule reads_operand [where t = "T_Capture c" and i = "I_Capture c" and b = False]) simp_all
next
  case (A_Constant c)
  show ?case by (rule reads_operand [where t = "T_Constant c" and i = "I_Constant c" and b = False]) simp_all
qed (simp_all add: reads_unary reads_binary reads_paren reads_call reads_regex reads_system reads_index reads_array list_all_iff)

lemma parse_of_reads:
  assumes "reads e"
  shows "expression_parse (ast_tokens e) = Inr (ast_code e)"
proof -
  have "context_ok (ast_level e) parser_new" by (simp add: context_ok_def blocked_def parser_new_def)
  then obtain out P where r: "parse_tokens (ast_tokens e) False parser_new =
      Inr ((entered (starts_direct e) parser_new)
        \<lparr> out_items := out, operator_stack := P @ operator_stack (entered (starts_direct e) parser_new) \<rparr>, indexable e)"
    "pending (ast_level e) P" "drain P out = Some (out_items parser_new @ ast_code e)"
    using readsE [OF assms] by metis
  then show ?thesis using finish_loop_drain [OF r(2,3)]
    by (simp add: expression_parse_def entered_def parser_new_def)
qed

text \<open>Correctness of the expression compiler: the tokens of any well-formed expression (operators by precedence and to the left, unary
  operators, parentheses, calls with the declared number of arguments, regular expression tests, system variables, indices, arrays of elements
  that begin with an operand) are parsed without an error to the items that the expression means: operands in order, each operator behind its
  operands, and before the second operand of a conjunction or disjunction a jump that ends exactly behind the operator.\<close>

theorem expression_parse_correct:
  assumes "ast_wf e"
  shows "expression_parse (ast_tokens e) = Inr (ast_code e)"
  by (rule parse_of_reads [OF reads_all [OF assms]])

text \<open>\<open>! a == 1 && (b || f([1, c][0]))\<close>.\<close>

definition example_ast :: "(nat, unit, unit, int) ast" where
  "example_ast =
     A_Binary Op_And (A_Binary Op_Eq (A_Unary Op_Not (A_Variable 1)) (A_Constant (K_Integer 1)))
       (A_Paren (A_Binary Op_Or (A_Variable 2)
         (A_Call ''f'' 4 [A_Index (A_Array [A_Constant (K_Integer 1), A_Variable 3]) (A_Constant (K_Integer 0))])))"

theorem expression_parse_correct_witness:
  "ast_wf example_ast \<and>
   expression_parse (ast_tokens example_ast) =
     Inr [I_Variable 1, I_Unary Op_Not, I_Constant (K_Integer 1), I_Binary Op_Eq, I_JmpIf False 10, I_Variable 2, I_JmpIf True 7,
       I_Constant (K_Integer 1), I_Variable 3, I_ArrayBuild 2, I_Constant (K_Integer 0), I_ArrayAccess, I_Function 4 1, I_Binary Op_Or,
       I_Binary Op_And]"
proof -
  have "ast_wf example_ast" by (simp add: example_ast_def args_fit_def ID_ARRAY_ACCESS_def ID_ARRAY_BUILD_def)
  then show ?thesis using expression_parse_correct [of example_ast] by (simp add: example_ast_def)
qed

text \<open>An element of an array that begins with a unary operator or a parenthesis is not counted, and the array is refused.\<close>

lemma array_of_negative_refused:
  "expression_parse [T_OpenBracket, T_Unary Op_Minus, T_Constant c, T_CloseBracket] = Inl (Wrong_arguments ''array'' 0 1)"
  "expression_parse [T_OpenBracket, T_OpenParen, T_Constant c, T_CloseParen, T_CloseBracket] = Inl (Wrong_arguments ''array'' 0 1)"
  by (simp_all add: expression_parse_def parser_new_def open_bracket_def push_operator_def push_operand_def inc_arg_count_def
      parse_close_def call_closed_def bump_entry_def ID_ARRAY_BUILD_def)

section \<open>Every list of tokens\<close>

text \<open>Two things in the parser could stop the program: the counter of a call that is not there, and a jump position outside of the output.\<close>

fun is_call :: "('v, 'r, 's, 'f) token \<Rightarrow> bool" where
  "is_call (T_Function name i n) = True"
| "is_call (T_Regex r) = True"
| "is_call (T_System s) = True"
| "is_call _ = False"

definition calls :: "('v, 'r, 's, 'f) op_stack \<Rightarrow> nat" where
  "calls st = length (filter (is_call \<circ> fst) st)"

definition jumps_inside :: "nat \<Rightarrow> ('v, 'r, 's, 'f) op_stack \<Rightarrow> bool" where
  "jumps_inside n st \<longleftrightarrow> list_all (\<lambda>(_, j). case j of None \<Rightarrow> True | Some k \<Rightarrow> k < n) st"

definition parser_ok :: "('v, 'r, 's, 'f) parser \<Rightarrow> bool" where
  "parser_ok p \<longleftrightarrow> calls (operator_stack p) = length (arg_count p) \<and> jumps_inside (length (out_items p)) (operator_stack p)"

lemma calls_simps [simp]: "calls [] = 0" "calls ((t, j) # st) = (if is_call t then 1 else 0) + calls st"
  by (simp_all add: calls_def)

lemma jumps_inside_simps [simp]: "jumps_inside n []"
  "jumps_inside n ((t, j) # st) \<longleftrightarrow> (case j of None \<Rightarrow> True | Some k \<Rightarrow> k < n) \<and> jumps_inside n st"
  by (simp_all add: jumps_inside_def)

lemma jumps_inside_mono: "jumps_inside n st \<Longrightarrow> n \<le> m \<Longrightarrow> jumps_inside m st"
  unfolding jumps_inside_def list_all_iff by (force split: option.splits)

lemma pop_binary_inside:
  assumes "case j of None \<Rightarrow> True | Some k \<Rightarrow> k < length out"
  shows "\<exists>out'. pop_binary b j out = Some out' \<and> length out' = length out + 1"
proof (cases j)
  case (Some k)
  with assms show ?thesis by (cases "out ! k") (simp_all add: pop_binary_def update_jmp_pos_def)
qed (simp add: pop_binary_def update_jmp_pos_def)

lemma calls_bump [simp]: "calls (bump st) = calls st"
  by (cases st rule: bump.cases) (auto simp: bump_entry_def calls_def split: token.split)

lemma jumps_bump [simp]: "jumps_inside n (bump st) \<longleftrightarrow> jumps_inside n st"
  by (cases st rule: bump.cases) (auto simp: bump_entry_def jumps_inside_def split: token.split)

text \<open>What the loops promise: no stop, no call taken from the stack, the jumps inside.\<close>

definition loop_ok :: "('v, 'r, 's, 'f) op_stack \<Rightarrow> parse_error + (('v, 'r, 's, 'f) item list \<times> ('v, 'r, 's, 'f) op_stack) \<Rightarrow> bool" where
  "loop_ok st r \<longleftrightarrow> (case r of Inl e \<Rightarrow> e \<noteq> Panic | Inr (out, st') \<Rightarrow> calls st' = calls st \<and> jumps_inside (length out) st')"

lemma loop_ok_simps [simp]:
  "loop_ok st (Inl e) \<longleftrightarrow> e \<noteq> Panic"
  "loop_ok st (Inr (out, st')) \<longleftrightarrow> calls st' = calls st \<and> jumps_inside (length out) st'"
  by (simp_all add: loop_ok_def)

lemma loop_ok_pop: "\<not> is_call t \<Longrightarrow> loop_ok ((t, j) # st) r \<longleftrightarrow> loop_ok st r"
  by (simp add: loop_ok_def split: sum.split)

text \<open>One operator taken from the stack, for every loop.\<close>

lemma popped_binary:
  assumes "jumps_inside (length out) ((t, j) # st)"
  obtains out' where "pop_binary b j out = Some out'" "jumps_inside (length out') st"
proof -
  obtain out' where o: "pop_binary b j out = Some out'" "length out' = length out + 1"
    using pop_binary_inside assms by fastforce
  with assms have "jumps_inside (length out') st" by (auto intro: jumps_inside_mono)
  with o that show thesis by blast
qed

lemma popped_unary: "jumps_inside (length out) ((t, j) # st) \<Longrightarrow> jumps_inside (length (out @ [i])) st"
  by (auto intro: jumps_inside_mono)

lemma close_loop_ok: "jumps_inside (length out) st \<Longrightarrow> \<not> is_call x \<Longrightarrow> loop_ok st (close_loop x out st)"
proof (induction x out st rule: close_loop.induct)
  case (2 x out t j st)
  show ?case
  proof (cases t)
    case (T_Binary b)
    obtain out' where "pop_binary b j out = Some out'" "jumps_inside (length out') st" using popped_binary [OF 2(3)] .
    with T_Binary 2 show ?thesis by (auto simp: loop_ok_pop)
  next
    case (T_Unary u)
    then show ?thesis using popped_unary [OF 2(3)] 2 by (auto simp: loop_ok_pop)
  qed (use 2 in auto)
qed simp

lemma binary_loop_ok: "jumps_inside (length out) st \<Longrightarrow> loop_ok st (binary_loop b out st)"
proof (induction b out st rule: binary_loop.induct)
  case (2 bop out t j st)
  show ?case
  proof (cases t)
    case (T_Binary b)
    obtain out' where "pop_binary b j out = Some out'" "jumps_inside (length out') st" using popped_binary [OF 2(3)] .
    with T_Binary 2 show ?thesis by (auto simp: loop_ok_pop)
  next
    case (T_Unary u)
    then show ?thesis using popped_unary [OF 2(3)] 2 by (auto simp: loop_ok_pop)
  qed (use 2 in auto)
qed simp

lemma comma_loop_ok: "jumps_inside (length out) st \<Longrightarrow> loop_ok st (comma_loop out st)"
proof (induction out st rule: comma_loop.induct)
  case (2 out t j st)
  show ?case
  proof (cases t)
    case (T_Binary b)
    obtain out' where "pop_binary b j out = Some out'" "jumps_inside (length out') st" using popped_binary [OF 2(3)] .
    with T_Binary 2 show ?thesis by (auto simp: loop_ok_pop)
  next
    case (T_Unary u)
    then show ?thesis using popped_unary [OF 2(3)] 2 by (auto simp: loop_ok_pop)
  qed (use 2 in auto)
qed simp

lemma finish_loop_ok: "jumps_inside (length out) st \<Longrightarrow> finish_loop out st \<noteq> Inl Panic"
proof (induction out st rule: finish_loop.induct)
  case (2 out t j st)
  show ?case
  proof (cases t)
    case (T_Binary b)
    obtain out' where "pop_binary b j out = Some out'" "jumps_inside (length out') st" using popped_binary [OF 2(3)] .
    with T_Binary 2 show ?thesis by auto
  next
    case (T_Unary u)
    then show ?thesis using popped_unary [OF 2(3)] 2 by auto
  qed auto
qed simp

lemma parser_ok_bump: "parser_ok p \<Longrightarrow> parser_ok (inc_arg_count p)"
  by (simp add: parser_ok_def inc_arg_count_def split: list.split)

lemma parser_ok_loop:
  assumes "parser_ok p" "loop_ok (operator_stack p) (Inr (out, st))"
  shows "parser_ok (p \<lparr> out_items := out, operator_stack := st \<rparr>)"
  using assms by (simp add: parser_ok_def)

lemma call_closed_ok:
  assumes "parser_ok p"
  shows "case call_closed p of Inl e \<Rightarrow> e \<noteq> Panic | Inr p' \<Rightarrow> parser_ok p'"
proof (cases "operator_stack p")
  case (Cons e st)
  obtain t j where e: "e = (t, j)" by (cases e)
  have j: "jumps_inside (length (out_items p @ [i])) st" for i
    using assms Cons e by (auto simp: parser_ok_def intro: jumps_inside_mono)
  show ?thesis
  proof (cases "is_call t")
    case True
    then obtain x xs where a: "arg_count p = x # xs" using assms Cons e by (cases "arg_count p") (auto simp: parser_ok_def)
    with True assms Cons e j show ?thesis by (cases t) (auto simp: call_closed_def parser_ok_def)
  next
    case False
    with assms Cons e show ?thesis by (cases t) (auto simp: call_closed_def)
  qed
qed (use assms in \<open>simp add: call_closed_def\<close>)

lemma parse_close_ok:
  assumes "parser_ok p" "\<not> is_call t"
  shows "case parse_close t p of Inl e \<Rightarrow> e \<noteq> Panic | Inr p' \<Rightarrow> parser_ok p'"
proof -
  have l: "loop_ok (operator_stack p) (close_loop t (out_items p) (operator_stack p))"
    using assms by (intro close_loop_ok) (simp_all add: parser_ok_def)
  show ?thesis
  proof (cases "close_loop t (out_items p) (operator_stack p)")
    case (Inl e)
    with l show ?thesis by (simp add: parse_close_def)
  next
    case (Inr r)
    obtain out st where r: "r = (out, st)" by (cases r)
    with call_closed_ok [OF parser_ok_loop [OF assms(1)]] Inr l show ?thesis by (simp add: parse_close_def)
  qed
qed

lemma parse_binary_ok:
  assumes "parser_ok p"
  shows "case parse_binary b p of Inl e \<Rightarrow> e \<noteq> Panic | Inr p' \<Rightarrow> parser_ok p'"
proof -
  have l: "loop_ok (operator_stack p) (binary_loop b (out_items p) (operator_stack p))"
    using assms by (intro binary_loop_ok) (simp_all add: parser_ok_def)
  have d: "length (arg_count (dec_arg_count p)) = length (arg_count p)" by (simp add: dec_arg_count_def split: list.split)
  show ?thesis
  proof (cases "binary_loop b (out_items p) (operator_stack p)")
    case (Inl e)
    with l show ?thesis by (simp add: parse_binary_eq)
  next
    case (Inr r)
    obtain out st where r: "r = (out, st)" by (cases r)
    have "case jump_pos b (length out) of None \<Rightarrow> True | Some k \<Rightarrow> k < length out + length (jump_of b)"
      by (simp add: jump_pos_def jump_of_def split: option.split)
    with l Inr r assms d show ?thesis
      by (auto simp: parse_binary_eq parser_ok_def intro: jumps_inside_mono)
  qed
qed

lemma parse_step_ok:
  assumes "parser_ok p"
  shows "case parse_step t l p of Inl e \<Rightarrow> e \<noteq> Panic | Inr (p', _) \<Rightarrow> parser_ok p'"
proof -
  have operand: "parser_ok (push_operand i p)" for i
    using parser_ok_bump [OF assms] by (auto simp: push_operand_def parser_ok_def Let_def intro: jumps_inside_mono)
  have call: "parser_ok (push_call t p)" if "is_call t" for t
    using parser_ok_bump [OF assms] that by (simp add: push_call_def push_operator_def parser_ok_def Let_def)
  have bracket: "parser_ok (open_bracket l p)"
    using assms parser_ok_bump [OF assms] by (cases l) (simp_all add: open_bracket_def push_operator_def parser_ok_def)
  have comma: "loop_ok (operator_stack p) (comma_loop (out_items p) (operator_stack p))"
    using assms by (intro comma_loop_ok) (simp add: parser_ok_def)
  show ?thesis
  proof (cases t)
    case T_Comma
    with comma show ?thesis
      using parser_ok_loop [OF assms] by (auto simp: loop_ok_def split: sum.splits prod.splits)
  next
    case T_CloseParen
    then show ?thesis using parse_close_ok [OF assms, of T_OpenParen] by (simp split: sum.splits)
  next
    case T_CloseBracket
    then show ?thesis using parse_close_ok [OF assms, of T_OpenBracket] by (simp split: sum.splits)
  next
    case (T_Binary b)
    then show ?thesis using parse_binary_ok [OF assms, of b] by (simp split: sum.splits)
  qed (use assms operand call bracket in \<open>simp_all add: push_operator_def parser_ok_def\<close>)
qed

lemma parse_tokens_ok:
  "parser_ok p \<Longrightarrow> case parse_tokens ts l p of Inl e \<Rightarrow> e \<noteq> Panic | Inr (p', _) \<Rightarrow> parser_ok p'"
proof (induction ts arbitrary: l p)
  case (Cons t ts)
  from parse_step_ok [OF Cons.prems, of t l] show ?case
  proof (cases "parse_step t l p")
    case (Inr r)
    obtain p' l' where "r = (p', l')" by (cases r)
    with Inr Cons.IH [of p' l'] parse_step_ok [OF Cons.prems, of t l] show ?thesis by simp
  qed simp
qed simp

text \<open>C40: The parser never stops the program: whatever tokens the text of an expression has, in any order and with any nesting,
  the parser ends with the compiled items or with one of its error messages. The counter of the arguments of a call is there when the call is
  closed, and the position of a jump is inside of the output when its distance is filled in.\<close>

theorem expression_parse_no_panic: "expression_parse ts \<noteq> Inl Panic"
proof -
  have "case parse_tokens ts False (parser_new :: ('a, 'b, 'c, 'd) parser) of Inl e \<Rightarrow> e \<noteq> Panic | Inr (p, _) \<Rightarrow> parser_ok p"
    by (rule parse_tokens_ok) (simp add: parser_ok_def parser_new_def)
  then show ?thesis
    by (auto simp: expression_parse_def parser_ok_def split: sum.splits prod.splits dest: finish_loop_ok)
qed

end
