(* ===== verification/ExprEval.thy ===== *)
theory ExprEval
  imports ExprCompile
begin

text \<open>
  The evaluation of configuration expressions and of blocks of conditions (\<^verbatim>\<open>crates/common/src/expr/eval.rs\<close> and \<^verbatim>\<open>if_block.rs\<close>).
  The machine has a stack of values with its top first and a context: the captures of the last regular expression and the state \<open>'w\<close> of the
  server that the asynchronous functions read and change. Parameters of the environment are the resolver of the variables, the settings of the
  server, the metrics, the table of functions (\<open>None\<close> is a panic in a function), the asynchronous functions with their errors \<open>'e\<close> and the
  search of a regular expression, with the empty text for a group that takes no part.
\<close>

datatype 'm system_variable = Hostname | Domain | NodeId | NodeHostname | NodeRole | Metric 'm

datatype 'e eval_fail = Eval_error 'e | Eval_panic

type_synonym 'w eval_context = "bytes list \<times> 'w"

type_synonym ('a, 'e, 'w) eval_result = "('e eval_fail + 'a) \<times> 'w eval_context"

record ('v, 'r, 'm, 'f, 'e, 'w) eval_env =
  float_env :: "'f float_ops"
  resolve_variable :: "'v \<Rightarrow> 'f var"
  resolve_global :: "bytes \<Rightarrow> 'f var"
  server_name :: bytes
  default_domain_name :: bytes
  node_id :: u64
  local_hostname :: bytes
  cluster_role :: "bytes option"
  read_metric :: "'m \<Rightarrow> 'f"
  fn_table :: "('f var list \<Rightarrow> 'f var option) list"
  eval_fnc :: "u32 \<Rightarrow> 'f var list \<Rightarrow> 'w \<Rightarrow> ('e + 'f var) \<times> 'w"
  regex_captures :: "'r \<Rightarrow> bytes \<Rightarrow> bytes list option"

section \<open>The machine\<close>

fun eval_system :: "('v, 'r, 'm, 'f, 'e, 'w) eval_env \<Rightarrow> 'm system_variable \<Rightarrow> 'f var" where
  "eval_system env Hostname = V_String (server_name env)"
| "eval_system env Domain = V_String (default_domain_name env)"
| "eval_system env NodeId = V_Integer (node_id env)"
| "eval_system env NodeHostname = V_String (local_hostname env)"
| "eval_system env NodeRole = V_String (case cluster_role env of None \<Rightarrow> [] | Some r \<Rightarrow> r)"
| "eval_system env (Metric m) = V_Float (read_metric env m)"

fun eval_unary :: "'f float_ops \<Rightarrow> unary_operator \<Rightarrow> 'f var \<Rightarrow> 'f var" where
  "eval_unary fo Op_Not v = op_not fo v"
| "eval_unary fo Op_Minus v = op_minus fo v"

fun eval_binary :: "'f float_ops \<Rightarrow> binary_operator \<Rightarrow> 'f var \<Rightarrow> 'f var \<Rightarrow> 'f var" where
  "eval_binary fo Op_Add l r = op_add fo l r"
| "eval_binary fo Op_Subtract l r = op_subtract fo l r"
| "eval_binary fo Op_Multiply l r = op_multiply fo l r"
| "eval_binary fo Op_Divide l r = op_divide fo l r"
| "eval_binary fo Op_And l r = op_and fo l r"
| "eval_binary fo Op_Or l r = op_or fo l r"
| "eval_binary fo Op_Xor l r = op_xor fo l r"
| "eval_binary fo Op_Eq l r = op_eq fo l r"
| "eval_binary fo Op_Ne l r = op_ne fo l r"
| "eval_binary fo Op_Lt l r = op_lt fo l r"
| "eval_binary fo Op_Le l r = op_le fo l r"
| "eval_binary fo Op_Gt l r = op_gt fo l r"
| "eval_binary fo Op_Ge l r = op_ge fo l r"

definition pop_default :: "'f var list \<Rightarrow> 'f var \<times> 'f var list" where
  "pop_default st = (case st of [] \<Rightarrow> (default_var, []) | v # st' \<Rightarrow> (v, st'))"

fun pop_args :: "nat \<Rightarrow> 'f var list \<Rightarrow> 'f var list \<Rightarrow> 'f var list \<times> 'f var list" where
  "pop_args 0 acc st = (acc, st)"
| "pop_args (Suc n) acc st = (let (v, st') = pop_default st in pop_args n (v # acc) st')"

definition nth_or_default :: "'f var list \<Rightarrow> u64 \<Rightarrow> 'f var" where
  "nth_or_default a i = (if unat i < length a then a ! unat i else default_var)"

definition eval_call ::
  "('v, 'r, 'm, 'f, 'e, 'w) eval_env \<Rightarrow> u32 \<Rightarrow> 'f var list \<Rightarrow> 'w eval_context \<Rightarrow> ('f var, 'e, 'w) eval_result" where
  "eval_call env i args c =
     (if unat i < length (fn_table env)
      then (case (fn_table env ! unat i) args of None \<Rightarrow> (Inl Eval_panic, c) | Some v \<Rightarrow> (Inr v, c))
      else (case eval_fnc env (i - of_nat (length (fn_table env))) args (snd c) of
              (Inl e, w) \<Rightarrow> (Inl (Eval_error e), (fst c, w))
            | (Inr v, w) \<Rightarrow> (Inr v, (fst c, w))))"

definition eval_regex ::
  "('v, 'r, 'm, 'f, 'e, 'w) eval_env \<Rightarrow> 'r \<Rightarrow> 'f var \<Rightarrow> 'w eval_context \<Rightarrow> 'f var \<times> 'w eval_context" where
  "eval_regex env r v c =
     (let captures = (case regex_captures env r (var_to_string (float_env env) v) of None \<Rightarrow> [] | Some cs \<Rightarrow> cs)
      in (var_of_bool (captures \<noteq> []), (captures, snd c)))"

definition eval_access :: "'f float_ops \<Rightarrow> 'f var \<Rightarrow> 'f var \<Rightarrow> 'f var" where
  "eval_access fo a i = nth_or_default (into_array a) (case to_usize fo i of None \<Rightarrow> 0 | Some n \<Rightarrow> n)"

definition eval_capture :: "'w eval_context \<Rightarrow> u32 \<Rightarrow> 'f var" where
  "eval_capture c i = V_String (if unat i < length (fst c) then fst c ! unat i else [])"

text \<open>An item other than a jump.\<close>

fun eval_item ::
  "('v, 'r, 'm, 'f, 'e, 'w) eval_env \<Rightarrow> ('v, 'r, 'm system_variable, 'f) item \<Rightarrow> 'f var list \<Rightarrow> 'w eval_context \<Rightarrow>
     ('f var list, 'e, 'w) eval_result" where
  "eval_item env (I_Variable v) st c = (Inr (resolve_variable env v # st), c)"
| "eval_item env (I_Global g) st c = (Inr (resolve_global env g # st), c)"
| "eval_item env (I_Constant k) st c = (Inr (var_from_const k # st), c)"
| "eval_item env (I_Capture i) st c = (Inr (eval_capture c i # st), c)"
| "eval_item env (I_System s) st c = (Inr (eval_system env s # st), c)"
| "eval_item env (I_Unary u) st c =
     (let (v, st') = pop_default st in (Inr (eval_unary (float_env env) u v # st'), c))"
| "eval_item env (I_Binary b) st c =
     (let (r, st') = pop_default st; (l, st'') = pop_default st' in (Inr (eval_binary (float_env env) b l r # st''), c))"
| "eval_item env (I_Function i n) st c =
     (let (args, st') = pop_args (unat n) [] st
      in case eval_call env i args c of (Inl e, c') \<Rightarrow> (Inl e, c') | (Inr v, c') \<Rightarrow> (Inr (v # st'), c'))"
| "eval_item env I_ArrayAccess st c =
     (let (i, st') = pop_default st; (a, st'') = pop_default st' in (Inr (eval_access (float_env env) a i # st''), c))"
| "eval_item env (I_ArrayBuild n) st c = (let (es, st') = pop_args (unat n) [] st in (Inr (V_Array es # st'), c))"
| "eval_item env (I_Regex r) st c =
     (let (v, st') = pop_default st; (m, c') = eval_regex env r v c in (Inr (m # st'), c'))"
| "eval_item env (I_JmpIf v n) st c = (Inr st, c)"

definition last_is_true :: "'f float_ops \<Rightarrow> 'f var list \<Rightarrow> bool" where
  "last_is_true fo st = (case st of [] \<Rightarrow> False | v # _ \<Rightarrow> to_bool fo v)"

function eval_loop ::
  "('v, 'r, 'm, 'f, 'e, 'w) eval_env \<Rightarrow> ('v, 'r, 'm system_variable, 'f) item list \<Rightarrow> 'f var list \<Rightarrow> 'w eval_context \<Rightarrow>
     ('f var list, 'e, 'w) eval_result" where
  "eval_loop env [] st c = (Inr st, c)"
| "eval_loop env (i # items) st c =
     (case i of
        I_JmpIf v pos \<Rightarrow> eval_loop env (if last_is_true (float_env env) st = v then drop (unat pos) items else items) st c
      | _ \<Rightarrow> (case eval_item env i st c of (Inl e, c') \<Rightarrow> (Inl e, c') | (Inr st', c') \<Rightarrow> eval_loop env items st' c'))"
  by pat_completeness auto
termination
  by (relation "measure (\<lambda>(_, items, _, _). length items)") auto

definition eval_expression ::
  "('v, 'r, 'm, 'f, 'e, 'w) eval_env \<Rightarrow> ('v, 'r, 'm system_variable, 'f) item list \<Rightarrow> 'w eval_context \<Rightarrow>
     ('f var, 'e, 'w) eval_result" where
  "eval_expression env items c =
     (case eval_loop env items [] c of (Inl e, c') \<Rightarrow> (Inl e, c') | (Inr st, c') \<Rightarrow> (Inr (fst (pop_default st)), c'))"

section \<open>Blocks of conditions\<close>

type_synonym ('v, 'r, 'm, 'f) expression = "('v, 'r, 'm system_variable, 'f) item list"

record ('v, 'r, 'm, 'f) if_block =
  if_then :: "(('v, 'r, 'm, 'f) expression \<times> ('v, 'r, 'm, 'f) expression) list"
  default_expr :: "('v, 'r, 'm, 'f) expression"

definition if_block_empty :: "('v, 'r, 'm, 'f) if_block" where
  "if_block_empty = \<lparr> if_then = [], default_expr = [] \<rparr>"

definition if_block_is_empty :: "('v, 'r, 'm, 'f) if_block \<Rightarrow> bool" where
  "if_block_is_empty b \<longleftrightarrow> default_expr b = [] \<and> if_then b = []"

fun eval_block_loop ::
  "('v, 'r, 'm, 'f, 'e, 'w) eval_env \<Rightarrow> (('v, 'r, 'm, 'f) expression \<times> ('v, 'r, 'm, 'f) expression) list \<Rightarrow>
     ('v, 'r, 'm, 'f) expression \<Rightarrow> 'w eval_context \<Rightarrow> ('f var, 'e, 'w) eval_result" where
  "eval_block_loop env [] d c = eval_expression env d c"
| "eval_block_loop env ((i, t) # rest) d c =
     (case eval_expression env i c of
        (Inl e, c') \<Rightarrow> (Inl e, c')
      | (Inr v, c') \<Rightarrow> if to_bool (float_env env) v then eval_expression env t c' else eval_block_loop env rest d c')"

definition eval_block ::
  "('v, 'r, 'm, 'f, 'e, 'w) eval_env \<Rightarrow> ('v, 'r, 'm, 'f) if_block \<Rightarrow> 'w eval_context \<Rightarrow> ('f var, 'e, 'w) eval_result" where
  "eval_block env b c = eval_block_loop env (if_then b) (default_expr b) c"

text \<open>The conversions of a value to the type that the setting needs.\<close>

definition try_string :: "'f var \<Rightarrow> bytes option" where
  "try_string v = (case v of V_String s \<Rightarrow> Some s | _ \<Rightarrow> None)"

definition try_bool :: "'f float_ops \<Rightarrow> 'f var \<Rightarrow> bool option" where
  "try_bool fo v = Some (to_bool fo v)"

definition try_i64 :: "'f float_ops \<Rightarrow> 'f var \<Rightarrow> i64 option" where
  "try_i64 fo v = to_integer fo v"

definition try_u64 :: "'f float_ops \<Rightarrow> 'f var \<Rightarrow> u64 option" where
  "try_u64 fo v = map_option (\<lambda>n. n) (to_integer fo v)"

definition try_usize :: "'f float_ops \<Rightarrow> 'f var \<Rightarrow> u64 option" where
  "try_usize fo v = to_usize fo v"

text \<open>The conversion of the value to the wanted type is \<open>conv\<close>; an error is reported and gives no value. A panic goes on.\<close>

definition finish_eval ::
  "('f var \<Rightarrow> 'a option) \<Rightarrow> ('f var, 'e, 'w) eval_result \<Rightarrow> 'a option option \<times> 'w" where
  "finish_eval conv r =
     (case r of
        (Inl (Eval_error e), c) \<Rightarrow> (Some None, snd c)
      | (Inl Eval_panic, c) \<Rightarrow> (None, snd c)
      | (Inr v, c) \<Rightarrow> (Some (conv v), snd c))"

definition eval_if ::
  "('v, 'r, 'm, 'f, 'e, 'w) eval_env \<Rightarrow> ('f var \<Rightarrow> 'a option) \<Rightarrow> ('v, 'r, 'm, 'f) if_block \<Rightarrow> 'w \<Rightarrow> 'a option option \<times> 'w" where
  "eval_if env conv b w = (if if_block_is_empty b then (Some None, w) else finish_eval conv (eval_block env b ([], w)))"

definition eval_expr ::
  "('v, 'r, 'm, 'f, 'e, 'w) eval_env \<Rightarrow> ('f var \<Rightarrow> 'a option) \<Rightarrow> ('v, 'r, 'm, 'f) expression \<Rightarrow> 'w \<Rightarrow> 'a option option \<times> 'w" where
  "eval_expr env conv items w = (if items = [] then (Some None, w) else finish_eval conv (eval_expression env items ([], w)))"

section \<open>What an expression means\<close>

text \<open>The value of an expression by recursion on its structure. The second operand of a conjunction or disjunction is evaluated only if the
  first does not decide; a first operand that decides is the value, as it is.\<close>

definition then_eval ::
  "('a, 'e, 'w) eval_result \<Rightarrow> ('a \<Rightarrow> 'w eval_context \<Rightarrow> ('b, 'e, 'w) eval_result) \<Rightarrow> ('b, 'e, 'w) eval_result" where
  "then_eval r k = (case r of (Inl e, c) \<Rightarrow> (Inl e, c) | (Inr v, c) \<Rightarrow> k v c)"

lemma then_eval_cong [fundef_cong]:
  "r = r' \<Longrightarrow> (\<And>v c. r' = (Inr v, c) \<Longrightarrow> k v c = k' v c) \<Longrightarrow> then_eval r k = then_eval r' k'"
  by (auto simp: then_eval_def split: prod.split sum.split)

fun sem ::
  "('v, 'r, 'm, 'f, 'e, 'w) eval_env \<Rightarrow> ('v, 'r, 'm system_variable, 'f) ast \<Rightarrow> 'w eval_context \<Rightarrow> ('f var, 'e, 'w) eval_result"
and sems ::
  "('v, 'r, 'm, 'f, 'e, 'w) eval_env \<Rightarrow> ('v, 'r, 'm system_variable, 'f) ast list \<Rightarrow> 'w eval_context \<Rightarrow> ('f var list, 'e, 'w) eval_result" where
  "sem env (A_Variable v) c = (Inr (resolve_variable env v), c)"
| "sem env (A_Global g) c = (Inr (resolve_global env g), c)"
| "sem env (A_Capture i) c = (Inr (eval_capture c i), c)"
| "sem env (A_Constant k) c = (Inr (var_from_const k), c)"
| "sem env (A_Unary u e) c = then_eval (sem env e c) (\<lambda>v c. (Inr (eval_unary (float_env env) u v), c))"
| "sem env (A_Binary b l r) c =
     then_eval (sem env l c) (\<lambda>v c.
       if short_circuit b = Some (to_bool (float_env env) v) then (Inr v, c)
       else then_eval (sem env r c) (\<lambda>w c. (Inr (eval_binary (float_env env) b v w), c)))"
| "sem env (A_Paren e) c = sem env e c"
| "sem env (A_Call name i args) c = then_eval (sems env args c) (\<lambda>vs c. eval_call env i vs c)"
| "sem env (A_Regex r e) c = then_eval (sem env e c) (\<lambda>v c. let (m, c') = eval_regex env r v c in (Inr m, c'))"
| "sem env (A_System s) c = (Inr (eval_system env s), c)"
| "sem env (A_Index a i) c =
     then_eval (sem env a c) (\<lambda>v c. then_eval (sem env i c) (\<lambda>w c. (Inr (eval_access (float_env env) v w), c)))"
| "sem env (A_Array es) c = then_eval (sems env es c) (\<lambda>vs c. (Inr (V_Array vs), c))"
| "sems env [] c = (Inr [], c)"
| "sems env (e # es) c = then_eval (sem env e c) (\<lambda>v c. then_eval (sems env es c) (\<lambda>vs c. (Inr (v # vs), c)))"

lemma then_eval_simps [simp]:
  "then_eval (Inl e, c) k = (Inl e, c)" "then_eval (Inr v, c) k = k v c"
  "then_eval (then_eval r k) k' = then_eval r (\<lambda>v c. then_eval (k v c) k')"
  by (auto simp: then_eval_def split: prod.split sum.split)

lemma pop_args_rev: "pop_args (length vs) acc (rev vs @ st) = (vs @ acc, st)"
  by (induction vs arbitrary: acc rule: rev_induct) (simp_all add: pop_default_def)

lemma eval_loop_item:
  assumes "\<And>v n. i \<noteq> I_JmpIf v n"
  shows "eval_loop env (i # items) st c = then_eval (eval_item env i st c) (\<lambda>st c. eval_loop env items st c)"
proof (cases i)
  case (I_JmpIf v n)
  with assms show ?thesis by blast
qed (simp_all add: then_eval_def split: prod.split sum.split)

lemma sems_length: "sems env es c = (Inr vs, c') \<Longrightarrow> length vs = length es"
  by (induction es arbitrary: c vs c') (auto simp: then_eval_def split: prod.splits sum.splits)

text \<open>The code of an expression puts its value on the stack.\<close>

definition evaluates :: "('v, 'r, 'm, 'f, 'e, 'w) eval_env \<Rightarrow> ('v, 'r, 'm system_variable, 'f) ast \<Rightarrow> bool" where
  "evaluates env e \<longleftrightarrow>
     (\<forall>rest st c. eval_loop env (ast_code e @ rest) st c = then_eval (sem env e c) (\<lambda>v c. eval_loop env rest (v # st) c))"

lemma evaluatesI:
  "(\<And>rest st c. eval_loop env (ast_code e @ rest) st c = then_eval (sem env e c) (\<lambda>v c. eval_loop env rest (v # st) c)) \<Longrightarrow> evaluates env e"
  unfolding evaluates_def by blast

lemma evaluatesD:
  "evaluates env e \<Longrightarrow> eval_loop env (ast_code e @ rest) st c = then_eval (sem env e c) (\<lambda>v c. eval_loop env rest (v # st) c)"
  unfolding evaluates_def by blast

lemma evaluates_args:
  assumes "\<forall>e \<in> set es. evaluates env e"
  shows "eval_loop env (concat (map ast_code es) @ rest) st c =
    then_eval (sems env es c) (\<lambda>vs c. eval_loop env rest (rev vs @ st) c)"
  using assms by (induction es arbitrary: st c) (simp_all add: evaluatesD)

lemma ast_code_length_pos: "0 < length (ast_code e)"
  by (induction e) simp_all

lemma args_code_length: "length es \<le> length (concat (map ast_code es))"
proof (induction es)
  case (Cons e es)
  have "1 \<le> length (ast_code e)" using ast_code_length_pos [of e] by linarith
  with Cons show ?case by simp
qed simp

lemma arg_code_length: "e \<in> set es \<Longrightarrow> length (ast_code e) \<le> length (concat (map ast_code es))"
  by (induction es) auto

lemma pop_args_sems:
  assumes "length es < 2 ^ 32" "sems env es c = (Inr vs, c')"
  shows "pop_args (unat (of_nat (length es) :: u32)) [] (rev vs @ st) = (vs, st)"
  using assms pop_args_rev [of vs "[]" st] sems_length [OF assms(2)] by (simp add: unat_of_nat take_bit_nat_eq_self)

lemma then_eval_congR: "(\<And>v c. r = (Inr v, c) \<Longrightarrow> k v c = k' v c) \<Longrightarrow> then_eval r k = then_eval r k'"
  by (rule then_eval_cong) simp_all

lemma jump_distance: "n + 1 < 2 ^ 32 \<Longrightarrow> unat (of_nat (n + 1) :: u32) = n + 1"
  by (simp add: unat_of_nat take_bit_nat_eq_self del: of_nat_add of_nat_Suc)

lemma evaluates_binary:
  assumes "evaluates env l" "evaluates env r" "length (ast_code r) + 1 < 2 ^ 32"
  shows "evaluates env (A_Binary b l r)"
proof (rule evaluatesI)
  fix rest st c
  let ?fo = "float_env env"
  have r: "eval_loop env (ast_code r @ I_Binary b # rest) (v # st) c =
      then_eval (sem env r c) (\<lambda>w c. eval_loop env rest (eval_binary ?fo b v w # st) c)" for v c
    by (simp add: evaluatesD [OF assms(2)] eval_loop_item pop_default_def)
  let ?jump = "case short_circuit b of None \<Rightarrow> [] | Some v \<Rightarrow> [I_JmpIf v (of_nat (length (ast_code r) + 1))]"
  have "eval_loop env (?jump @ ast_code r @ I_Binary b # rest) (v # st) c =
      (if short_circuit b = Some (to_bool ?fo v) then eval_loop env rest (v # st) c
       else then_eval (sem env r c) (\<lambda>w c. eval_loop env rest (eval_binary ?fo b v w # st) c))" for v c
    unfolding r [symmetric] using jump_distance [OF assms(3)]
    by (cases "short_circuit b") (auto simp: last_is_true_def simp del: of_nat_add of_nat_Suc)
  then show "eval_loop env (ast_code (A_Binary b l r) @ rest) st c =
      then_eval (sem env (A_Binary b l r) c) (\<lambda>v c. eval_loop env rest (v # st) c)"
    unfolding ast_code.simps append_assoc evaluatesD [OF assms(1)] sem.simps then_eval_simps
    by (intro then_eval_congR) (simp del: eval_loop.simps of_nat_add of_nat_Suc)
qed

lemma evaluates_call:
  assumes "\<forall>e \<in> set es. evaluates env e" "length es < 2 ^ 32"
  shows "evaluates env (A_Call name i es)"
proof (rule evaluatesI)
  fix rest st c
  show "eval_loop env (ast_code (A_Call name i es) @ rest) st c =
      then_eval (sem env (A_Call name i es) c) (\<lambda>v c. eval_loop env rest (v # st) c)"
    unfolding ast_code.simps append_assoc evaluates_args [OF assms(1)] sem.simps then_eval_simps
    by (intro then_eval_congR) (simp add: eval_loop_item pop_args_sems [OF assms(2)] then_eval_def del: eval_loop.simps split: prod.split sum.split)
qed

lemma evaluates_array:
  assumes "\<forall>e \<in> set es. evaluates env e" "length es < 2 ^ 32"
  shows "evaluates env (A_Array es)"
proof (rule evaluatesI)
  fix rest st c
  show "eval_loop env (ast_code (A_Array es) @ rest) st c =
      then_eval (sem env (A_Array es) c) (\<lambda>v c. eval_loop env rest (v # st) c)"
    unfolding ast_code.simps append_assoc evaluates_args [OF assms(1)] sem.simps then_eval_simps
    by (intro then_eval_congR) (simp add: eval_loop_item pop_args_sems [OF assms(2)] del: eval_loop.simps)
qed

lemma evaluates_unary: "evaluates env e \<Longrightarrow> evaluates env (A_Unary u e)"
  by (rule evaluatesI) (simp add: evaluatesD eval_loop_item pop_default_def del: eval_loop.simps)

lemma evaluates_regex: "evaluates env e \<Longrightarrow> evaluates env (A_Regex r e)"
  by (rule evaluatesI) (simp add: evaluatesD eval_loop_item pop_default_def eval_regex_def Let_def del: eval_loop.simps)

lemma evaluates_index: "evaluates env a \<Longrightarrow> evaluates env i \<Longrightarrow> evaluates env (A_Index a i)"
  by (rule evaluatesI) (simp add: evaluatesD eval_loop_item pop_default_def del: eval_loop.simps)

lemma evaluates_all: "length (ast_code e) < 2 ^ 32 \<Longrightarrow> evaluates env e"
proof (induction e)
  case (A_Binary b l r)
  then show ?case by (intro evaluates_binary) (auto split: option.splits)
next
  case (A_Call name i es)
  have "evaluates env e" if "e \<in> set es" for e
    using A_Call that arg_code_length [OF that] by simp
  then show ?case using A_Call args_code_length [of es] by (intro evaluates_call) auto
next
  case (A_Array es)
  have "evaluates env e" if "e \<in> set es" for e
    using A_Array that arg_code_length [OF that] by simp
  then show ?case using A_Array args_code_length [of es] by (intro evaluates_array) auto
next
  case (A_Paren e)
  then have "evaluates env e" by simp
  then show ?case by (intro evaluatesI) (simp add: evaluatesD)
qed (simp_all add: evaluates_unary evaluates_regex evaluates_index, (rule evaluatesI, simp)+)

lemma eval_expression_sem:
  assumes "length (ast_code e) < 2 ^ 32"
  shows "eval_expression env (ast_code e) c = sem env e c"
  using evaluatesD [OF evaluates_all [OF assms], of env "[]" "[]" c]
  by (simp add: eval_expression_def then_eval_def pop_default_def split: prod.split sum.split)

text \<open>C39: Compiling and running an expression gives what the expression means: for every well-formed expression whose code has fewer than
  2^32 items, the parser accepts its tokens, and the machine run on the compiled items in any environment and context gives the value (or the
  error) and leaves the captures and the state of the server of the recursive definition of its meaning, in which the second operand of a
  conjunction or disjunction is not evaluated when the first one decides, arguments are evaluated from left to right and an error ends the
  evaluation at once.\<close>

theorem compile_and_evaluate:
  assumes "ast_wf e" "length (ast_code e) < 2 ^ 32"
  shows "\<exists>items. expression_parse (ast_tokens e) = Inr items \<and> (\<forall>c. eval_expression env items c = sem env e c)"
proof -
  have "expression_parse (ast_tokens e) = Inr (ast_code e)"
    using parse_of_reads [OF reads_all [OF assms(1)]] .
  then show ?thesis using eval_expression_sem [OF assms(2)] by blast
qed

definition example_floats :: "int float_ops" where
  "example_floats = \<lparr> f_zero = 0, f_add = (+), f_sub = (-), f_mul = (*), f_div = (div), f_neg = uminus, f_eq = (=),
     f_cmp = (\<lambda>a b. Some (cmp_int a b)), f_of_i64 = sint, f_to_i64 = word_of_int, f_to_usize = word_of_int,
     f_parse = (\<lambda>_. None), f_display = (\<lambda>_. []) \<rparr>"

text \<open>An environment in which the asynchronous function counts its calls and fails.\<close>

definition example_env :: "(nat, unit, unit, int, nat, nat) eval_env" where
  "example_env = \<lparr> float_env = example_floats, resolve_variable = (\<lambda>v. V_Integer (of_nat v)), resolve_global = (\<lambda>_. default_var),
     server_name = ''mail'', default_domain_name = ''test'', node_id = 1, local_hostname = ''n1'', cluster_role = None,
     read_metric = (\<lambda>_. 0), fn_table = [fn_count, fn_dedup example_floats, fn_winnow, fn_is_empty, fn_is_number],
     eval_fnc = (\<lambda>i args w. (Inl w, w + 1)), regex_captures = (\<lambda>_ s. Some [s]) \<rparr>"

text \<open>\<open>a && (count([a, 2]) > 5 || g(b))\<close> with an asynchronous function \<open>g\<close>.\<close>

definition example_run :: "(nat, unit, unit system_variable, int) ast" where
  "example_run =
     A_Binary Op_And (A_Variable 1)
       (A_Paren (A_Binary Op_Or
         (A_Binary Op_Gt (A_Call ''count'' 0 [A_Array [A_Variable 1, A_Constant (K_Integer 2)]]) (A_Constant (K_Integer 5)))
         (A_Call ''g'' 6 [A_Variable 2])))"

theorem compile_and_evaluate_witness:
  "ast_wf example_run \<and> length (ast_code example_run) < 2 ^ 32 \<and>
   (\<exists>items. expression_parse (ast_tokens example_run) = Inr items \<and>
      eval_expression example_env items ([], 7) = (Inl (Eval_error 7), ([], 8)))"
proof -
  have w: "ast_wf example_run" by (simp add: example_run_def args_fit_def ID_ARRAY_ACCESS_def ID_ARRAY_BUILD_def)
  have l: "length (ast_code example_run) < 2 ^ 32" by (simp add: example_run_def)
  have "sem example_env example_run ([], 7) = (Inl (Eval_error 7), ([], 8))"
    by (simp add: example_run_def example_env_def eval_call_def op_gt_def cmp_int_def var_of_bool_def i64_of_bool_def)
  with compile_and_evaluate [OF w l, of example_env] w l show ?thesis by auto
qed

end
