(* ===== verification/ExprTokenizer.thy ===== *)
theory ExprTokenizer
  imports ExprNames ExprEval
begin

text \<open>
  The tokenizer of configuration expressions (\<^verbatim>\<open>crates/common/src/expr/tokenizer.rs\<close>), its use by the parser, and the compilation of
  blocks of conditions (\<^verbatim>\<open>if_block.rs\<close>). Parameters of the environment are the compiler of regular expressions, the names of the metrics,
  the lookups of names and the reader of floating point numbers.
\<close>

type_synonym ('r, 'm, 'f) expr_token = "(expression_variable, 'r, 'm system_variable, 'f) token"
type_synonym ('r, 'm, 'f) expr_parser = "(expression_variable, 'r, 'm system_variable, 'f) parser"
type_synonym ('r, 'm, 'f) expr_item = "(expression_variable, 'r, 'm system_variable, 'f) item"

record token_map =
  variables :: "expression_variable list"
  constants :: "expression_constant list"

record ('r, 'm, 'f) token_env =
  float_parse :: "bytes \<Rightarrow> 'f option"
  regex_new :: "bytes \<Rightarrow> 'r option"
  metric_parse :: "bytes \<Rightarrow> 'm option"
  variable_map :: "(bytes \<times> expression_variable) list \<Rightarrow> bytes \<Rightarrow> expression_variable option"
  constant_map :: "(bytes \<times> expression_constant) list \<Rightarrow> bytes \<Rightarrow> expression_constant option"
  env_tokens :: token_map

record ('r, 'm, 'f) tokenizer =
  iter :: bytes
  buf :: bytes
  depth :: u32
  next_token :: "('r, 'm, 'f) expr_token list"
  has_number :: bool
  has_dot :: bool
  has_alpha :: bool
  is_start :: bool
  is_eof :: bool

datatype token_error =
  Unmatched_close
| Unmatched_open
| Invalid_character char
| Expected_character char char
| Unexpected_end
| Unterminated_string
| Invalid_utf8
| Invalid_regex bytes
| Invalid_metric bytes
| Invalid_system bytes
| Invalid_float bytes
| Invalid_integer bytes
| Variable_not_allowed bytes
| Constant_not_allowed bytes
| Invalid_name bytes

definition tokenizer_new :: "bytes \<Rightarrow> ('r, 'm, 'f) tokenizer" where
  "tokenizer_new expr =
     \<lparr> iter = expr, buf = [], depth = 0, next_token = [], has_number = False, has_dot = False, has_alpha = False,
       is_start = True, is_eof = False \<rparr>"

definition with_variables :: "expression_variable list \<Rightarrow> token_map \<Rightarrow> token_map" where
  "with_variables vs m = m \<lparr> variables := variables m @ vs \<rparr>"

definition with_constants :: "expression_constant list \<Rightarrow> token_map \<Rightarrow> token_map" where
  "with_constants cs m = m \<lparr> constants := constants m @ cs \<rparr>"

definition default_token_map :: token_map where
  "default_token_map = \<lparr> variables = [], constants = [] \<rparr>"

section \<open>Strings\<close>

fun find_char :: "bytes \<Rightarrow> bytes \<Rightarrow> token_error + (char \<times> bytes)" where
  "find_char chars [] = Inl Unexpected_end"
| "find_char chars (ch # cs) =
     (if \<not> is_ascii_whitespace ch
      then (if ch \<in> set chars then Inr (ch, cs) else Inl (Expected_character (hd chars) ch))
      else find_char chars cs)"

text \<open>The character after a backslash is never the end; the backslash itself stays in the text.\<close>

definition unescape :: "char \<Rightarrow> char" where
  "unescape ch = (if ch = CHR ''n'' then CHR 0x0A else if ch = CHR ''r'' then CHR 0x0D else if ch = CHR ''t'' then CHR 0x09 else ch)"

fun string_loop :: "char \<Rightarrow> bytes \<Rightarrow> char \<Rightarrow> bytes \<Rightarrow> token_error + (bytes \<times> bytes)" where
  "string_loop stop_ch b last_ch [] = Inl Unterminated_string"
| "string_loop stop_ch b last_ch (ch # cs) =
     (if last_ch \<noteq> CHR 0x5C then
        (if ch \<noteq> stop_ch then string_loop stop_ch (b @ [ch]) ch cs
         else if utf8_valid b then Inr (b, cs) else Inl Invalid_utf8)
      else string_loop stop_ch (b @ [unescape ch]) ch cs)"

definition parse_string :: "char \<Rightarrow> bytes \<Rightarrow> token_error + (bytes \<times> bytes)" where
  "parse_string stop_ch it = string_loop stop_ch [] (CHR 0x00) it"

section \<open>Names and numbers\<close>

fun find_function :: "bytes \<Rightarrow> nat \<Rightarrow> (bytes \<times> u32) list \<Rightarrow> (u32 \<times> u32) option" where
  "find_function b idx [] = None"
| "find_function b idx ((name, num_args) # fs) = (if name = b then Some (of_nat idx, num_args) else find_function b (Suc idx) fs)"

fun find_async :: "bytes \<Rightarrow> (bytes \<times> u32 \<times> u32) list \<Rightarrow> (u32 \<times> u32) option" where
  "find_async b [] = None"
| "find_async b ((name, idx, num_args) # fs) =
     (if name = b then Some (idx + of_nat (length FUNCTIONS), num_args) else find_async b fs)"

definition function_lookup :: "bytes \<Rightarrow> (u32 \<times> u32) option" where
  "function_lookup b =
     (case find_function b 0 FUNCTIONS of Some r \<Rightarrow> Some r | None \<Rightarrow> find_async b ASYNC_FUNCTIONS)"

definition strip_dollar :: "bytes \<Rightarrow> bytes option" where
  "strip_dollar b = (case b of c # cs \<Rightarrow> if c = CHR ''$'' \<and> cs \<noteq> [] then Some cs else None | [] \<Rightarrow> None)"

definition name_token :: "('r, 'm, 'f) token_env \<Rightarrow> bytes \<Rightarrow> token_error + ('r, 'm, 'f) expr_token" where
  "name_token env b =
     (case strip_dollar b of
        Some variable \<Rightarrow>
          Inr (if list_all is_ascii_digit variable
               then (case parse_u32 variable of Some n \<Rightarrow> T_Capture n | None \<Rightarrow> T_Global variable)
               else T_Global variable)
      | None \<Rightarrow>
          (case function_lookup b of
             Some (i, num_args) \<Rightarrow> Inr (T_Function b i num_args)
           | None \<Rightarrow>
               (case variable_parse (variable_map env) b of
                  Some v \<Rightarrow>
                    if variables (env_tokens env) = [] \<or> v \<in> set (variables (env_tokens env)) then Inr (T_Variable v)
                    else Inl (Variable_not_allowed b)
                | None \<Rightarrow>
                    (case constant_parse (constant_map env) b of
                       Some c \<Rightarrow>
                         if constants (env_tokens env) = [] \<or> c \<in> set (constants (env_tokens env)) then Inr (T_Constant (K_Static c))
                         else Inl (Constant_not_allowed b)
                     | None \<Rightarrow>
                         (case duration_from_str b of
                            Some d \<Rightarrow> Inr (T_Constant (K_Integer d))
                          | None \<Rightarrow> Inl (Invalid_name b))))))"

definition parse_buf ::
  "('r, 'm, 'f) token_env \<Rightarrow> ('r, 'm, 'f) tokenizer \<Rightarrow> token_error + (('r, 'm, 'f) expr_token \<times> ('r, 'm, 'f) tokenizer)" where
  "parse_buf env t =
     (let b = (if utf8_valid (buf t) then buf t else []); t = t \<lparr> buf := [] \<rparr>
      in if has_number t \<and> \<not> has_alpha t then
           (let t = t \<lparr> has_number := False \<rparr>
            in if has_dot t then
                 (case float_parse env b of
                    Some f \<Rightarrow> Inr (T_Constant (K_Float f), t \<lparr> has_dot := False \<rparr>)
                  | None \<Rightarrow> Inl (Invalid_float b))
               else (case parse_i64 b of Some i \<Rightarrow> Inr (T_Constant (K_Integer i), t) | None \<Rightarrow> Inl (Invalid_integer b)))
         else
           (let t' = t \<lparr> has_alpha := False, has_number := False, has_dot := False \<rparr>
            in if \<not> has_number t \<and> \<not> has_dot t \<and> length b \<in> {4, 5} \<and> b = ''true'' then Inr (T_Constant (K_Integer 1), t')
               else if \<not> has_number t \<and> \<not> has_dot t \<and> length b \<in> {4, 5} \<and> b = ''false'' then Inr (T_Constant (K_Integer 0), t')
               else map_sum id (\<lambda>tok. (tok, t')) (name_token env b)))"

section \<open>The next token\<close>

definition system_name :: "bytes \<Rightarrow> 'm system_variable option" where
  "system_name s =
     (if s = ''domain'' then Some Domain
      else if s = ''hostname'' then Some Hostname
      else if s = ''node_id'' then Some NodeId
      else if s = ''node_hostname'' then Some NodeHostname
      else if s = ''node_role'' then Some NodeRole
      else None)"

text \<open>The quoted argument of \<open>matches\<close>, \<open>metric\<close> and \<open>system\<close>.\<close>

definition quoted_arg :: "bytes \<Rightarrow> token_error + (bytes \<times> bytes)" where
  "quoted_arg it = (case find_char [CHR 0x22, CHR 0x27] it of Inl e \<Rightarrow> Inl e | Inr (stop_ch, it') \<Rightarrow> parse_string stop_ch it')"

definition special_call ::
  "('r, 'm, 'f) token_env \<Rightarrow> ('r, 'm, 'f) tokenizer \<Rightarrow> token_error + (('r, 'm, 'f) expr_token \<times> ('r, 'm, 'f) tokenizer)" where
  "special_call env t =
     (case quoted_arg (iter t) of
        Inl e \<Rightarrow> Inl e
      | Inr (s, it) \<Rightarrow>
          (let t' = t \<lparr> has_alpha := False, buf := [], iter := it \<rparr>
           in if buf t = ''matches'' then
                (case regex_new env s of
                   None \<Rightarrow> Inl (Invalid_regex s)
                 | Some r \<Rightarrow> (case find_char '','' it of Inl e \<Rightarrow> Inl e | Inr (_, it') \<Rightarrow> Inr (T_Regex r, t' \<lparr> iter := it' \<rparr>)))
              else if buf t = ''metric'' then
                (case metric_parse env s of None \<Rightarrow> Inl (Invalid_metric s) | Some m \<Rightarrow> Inr (T_System (Metric m), t'))
              else
                (case system_name s of None \<Rightarrow> Inl (Invalid_system s) | Some v \<Rightarrow> Inr (T_System v, t'))))"

text \<open>The token that the name or number before a symbol makes.\<close>

definition prev_token_of ::
  "('r, 'm, 'f) token_env \<Rightarrow> char \<Rightarrow> ('r, 'm, 'f) tokenizer \<Rightarrow>
     token_error + (('r, 'm, 'f) expr_token option \<times> ('r, 'm, 'f) tokenizer)" where
  "prev_token_of env ch t =
     (if buf t = [] then Inr (None, t)
      else map_sum id (\<lambda>(tok, t'). (Some tok, t'))
        (if ch = CHR ''('' \<and> buf t \<in> {''matches'', ''metric'', ''system''} then special_call env t
         else parse_buf env (t \<lparr> is_start := False \<rparr>)))"

definition peek_next :: "char \<Rightarrow> ('r, 'm, 'f) tokenizer \<Rightarrow> bool" where
  "peek_next c t = (case iter t of [] \<Rightarrow> False | d # _ \<Rightarrow> d = c)"

definition skip_next :: "('r, 'm, 'f) tokenizer \<Rightarrow> ('r, 'm, 'f) tokenizer" where
  "skip_next t = t \<lparr> iter := tl (iter t) \<rparr>"

text \<open>The token of a symbol that is not white space. One equals sign takes the character after it, whatever it is.\<close>

definition symbol_token ::
  "char \<Rightarrow> ('r, 'm, 'f) tokenizer \<Rightarrow> token_error + (('r, 'm, 'f) expr_token \<times> ('r, 'm, 'f) tokenizer)" where
  "symbol_token ch t =
     (if ch = CHR ''&'' then Inr (T_Binary Op_And, if peek_next (CHR ''&'') t then skip_next t else t)
      else if ch = CHR ''|'' then Inr (T_Binary Op_Or, if peek_next (CHR ''|'') t then skip_next t else t)
      else if ch = CHR ''!'' then Inr (if peek_next (CHR ''='') t then (T_Binary Op_Ne, skip_next t) else (T_Unary Op_Not, t))
      else if ch = CHR ''^'' then Inr (T_Binary Op_Xor, t)
      else if ch = CHR ''('' then Inr (T_OpenParen, t \<lparr> depth := depth t + 1 \<rparr>)
      else if ch = CHR '')'' then
        (if depth t = 0 then Inl Unmatched_close else Inr (T_CloseParen, t \<lparr> depth := depth t - 1 \<rparr>))
      else if ch = CHR ''+'' then Inr (T_Binary Op_Add, t)
      else if ch = CHR ''*'' then Inr (T_Binary Op_Multiply, t)
      else if ch = CHR ''/'' then Inr (T_Binary Op_Divide, t)
      else if ch = CHR ''-'' then Inr (if is_start t then T_Unary Op_Minus else T_Binary Op_Subtract, t)
      else if ch = CHR ''='' then
        Inr (T_Binary (if peek_next (CHR ''>'') t then Op_Ge else if peek_next (CHR ''<'') t then Op_Le else Op_Eq), skip_next t)
      else if ch = CHR ''>'' then Inr (if peek_next (CHR ''='') t then (T_Binary Op_Ge, skip_next t) else (T_Binary Op_Gt, t))
      else if ch = CHR ''<'' then Inr (if peek_next (CHR ''='') t then (T_Binary Op_Le, skip_next t) else (T_Binary Op_Lt, t))
      else if ch = CHR '','' then Inr (T_Comma, t)
      else if ch = CHR ''['' then Inr (T_OpenBracket, t)
      else if ch = CHR '']'' then Inr (T_CloseBracket, t)
      else if ch = CHR 0x22 \<or> ch = CHR 0x27 then
        (case parse_string ch (iter t) of Inl e \<Rightarrow> Inl e | Inr (s, it) \<Rightarrow> Inr (T_Constant (K_String s), t \<lparr> iter := it \<rparr>))
      else Inl (Invalid_character ch))"

fun starts_operand :: "('r, 'm, 'f) expr_token \<Rightarrow> bool" where
  "starts_operand T_OpenParen = True"
| "starts_operand T_Comma = True"
| "starts_operand (T_Binary b) = True"
| "starts_operand _ = False"

definition is_blank :: "char \<Rightarrow> bool" where
  "is_blank ch \<longleftrightarrow> ch = CHR '' '' \<or> ch = CHR 0x0D \<or> ch = CHR 0x0A"

text \<open>A character that ends a name or number: the token before it, then its own, which may have to wait.\<close>

definition next_other ::
  "('r, 'm, 'f) token_env \<Rightarrow> char \<Rightarrow> ('r, 'm, 'f) tokenizer \<Rightarrow>
     token_error + (('r, 'm, 'f) expr_token option \<times> ('r, 'm, 'f) tokenizer)" where
  "next_other env ch t =
     (case prev_token_of env ch t of
        Inl e \<Rightarrow> Inl e
      | Inr (prev_token, t1) \<Rightarrow>
          if is_blank ch then Inr (prev_token, t1)
          else
            (case symbol_token ch t1 of
               Inl e \<Rightarrow> Inl e
             | Inr (tok, t2) \<Rightarrow>
                 (let t3 = t2 \<lparr> is_start := starts_operand tok \<rparr>
                  in case prev_token of
                       None \<Rightarrow> Inr (Some tok, t3)
                     | Some prev \<Rightarrow> Inr (Some prev, t3 \<lparr> next_token := tok # next_token t3 \<rparr>))))"

definition next_end ::
  "('r, 'm, 'f) token_env \<Rightarrow> ('r, 'm, 'f) tokenizer \<Rightarrow>
     token_error + (('r, 'm, 'f) expr_token option \<times> ('r, 'm, 'f) tokenizer)" where
  "next_end env t =
     (if depth t > 0 then Inl Unmatched_open
      else if buf t \<noteq> [] then map_sum id (\<lambda>(tok, t'). (Some tok, t')) (parse_buf env t)
      else Inr (None, t))"

definition is_name_char :: "char \<Rightarrow> bool" where
  "is_name_char c \<longleftrightarrow> byte_in 65 90 c \<or> byte_in 97 122 c \<or> c = CHR ''_'' \<or> c = CHR ''$''"

definition push_buf :: "char \<Rightarrow> ('r, 'm, 'f) tokenizer \<Rightarrow> ('r, 'm, 'f) tokenizer" where
  "push_buf ch t = t \<lparr> buf := buf t @ [ch] \<rparr>"

definition last_in_buf :: "bytes \<Rightarrow> ('r, 'm, 'f) tokenizer \<Rightarrow> bool" where
  "last_in_buf cs t \<longleftrightarrow> buf t \<noteq> [] \<and> List.last (buf t) \<in> set cs"

text \<open>The loop over the characters that are left; a blank with no name before it is skipped.\<close>

fun next_loop ::
  "('r, 'm, 'f) token_env \<Rightarrow> bytes \<Rightarrow> ('r, 'm, 'f) tokenizer \<Rightarrow>
     token_error + (('r, 'm, 'f) expr_token option \<times> ('r, 'm, 'f) tokenizer)" where
  "next_loop env [] t = next_end env (t \<lparr> iter := [] \<rparr>)"
| "next_loop env (ch # cs) t =
     (if is_name_char ch then next_loop env cs ((push_buf ch t) \<lparr> has_alpha := True \<rparr>)
      else if is_ascii_digit ch then next_loop env cs ((push_buf ch t) \<lparr> has_number := True \<rparr>)
      else if ch = CHR ''.'' then next_loop env cs ((push_buf ch t) \<lparr> has_dot := True \<rparr>)
      else if ch = CHR ''}'' then next_end env (t \<lparr> iter := cs, is_eof := True \<rparr>)
      else if ch = CHR ''-'' \<and> last_in_buf ''['' t
        \<or> ch = CHR '':'' \<and> CHR ''.'' \<in> set (buf t)
        \<or> ch = CHR '']'' \<and> CHR ''['' \<in> set (buf t)
        \<or> ch = CHR ''*'' \<and> last_in_buf ''[.'' t then next_loop env cs (push_buf ch t)
      else if is_blank ch \<and> buf t = [] then next_loop env cs t
      else next_other env ch (t \<lparr> iter := cs \<rparr>))"

definition tokenizer_next ::
  "('r, 'm, 'f) token_env \<Rightarrow> ('r, 'm, 'f) tokenizer \<Rightarrow>
     token_error + (('r, 'm, 'f) expr_token option \<times> ('r, 'm, 'f) tokenizer)" where
  "tokenizer_next env t =
     (case next_token t of
        tok # toks \<Rightarrow> Inr (Some tok, t \<lparr> next_token := toks \<rparr>)
      | [] \<Rightarrow> if is_eof t then Inr (None, t) else next_loop env (iter t) t)"

section \<open>Every token uses up text\<close>

definition weight :: "('r, 'm, 'f) tokenizer \<Rightarrow> nat" where
  "weight t = 2 * length (iter t) + length (next_token t) + (if buf t = [] then 0 else 1)"

lemma find_char_shorter: "find_char chars it = Inr (c, it') \<Longrightarrow> length it' < length it"
  by (induction chars it rule: find_char.induct) (auto split: if_splits)

lemma string_loop_shorter: "string_loop stop b l it = Inr (s, it') \<Longrightarrow> length it' < length it"
proof (induction stop b l it rule: string_loop.induct)
  case (2 stop b l ch cs)
  then show ?case by (cases "l = CHR 0x5C") (auto split: if_splits)
qed simp

lemma quoted_arg_shorter: "quoted_arg it = Inr (s, it') \<Longrightarrow> length it' < length it"
  using string_loop_shorter find_char_shorter
  by (fastforce simp: quoted_arg_def parse_string_def split: sum.splits prod.splits)

lemma map_sum_Inr_iff: "map_sum id f x = Inr y \<longleftrightarrow> (\<exists>z. x = Inr z \<and> y = f z)"
  by (cases x) auto

lemma parse_buf_state:
  "parse_buf env t = Inr (tok, t') \<Longrightarrow> iter t' = iter t \<and> buf t' = [] \<and> next_token t' = next_token t \<and> depth t' = depth t"
  by (cases "has_number t \<and> \<not> has_alpha t")
    (auto simp: parse_buf_def Let_def map_sum_Inr_iff simp del: insert_iff split: if_splits option.splits)

lemma special_call_state:
  assumes "special_call env t = Inr (tok, t')"
  shows "length (iter t') < length (iter t) \<and> buf t' = [] \<and> next_token t' = next_token t"
proof (cases "quoted_arg (iter t)")
  case (Inr r)
  obtain s it where r: "r = (s, it)" by (cases r)
  have it: "length it < length (iter t)" using quoted_arg_shorter Inr r by blast
  consider (regex) "buf t = ''matches''" | (other) "buf t \<noteq> ''matches''" by blast
  then show ?thesis
  proof cases
    case regex
    with assms Inr r obtain c it' where "find_char '','' it = Inr (c, it')" "t' = t \<lparr> has_alpha := False, buf := [], iter := it' \<rparr>"
      by (auto simp: special_call_def split: option.splits sum.splits)
    with it find_char_shorter show ?thesis by fastforce
  next
    case other
    with assms Inr r have "t' = t \<lparr> has_alpha := False, buf := [], iter := it \<rparr>"
      by (auto simp: special_call_def Let_def split: option.splits if_splits)
    with it show ?thesis by simp
  qed
qed (use assms in \<open>simp add: special_call_def\<close>)

definition text_kept :: "('r, 'm, 'f) tokenizer \<Rightarrow> token_error + (('r, 'm, 'f) expr_token \<times> ('r, 'm, 'f) tokenizer) \<Rightarrow> bool" where
  "text_kept t r \<longleftrightarrow>
     (\<forall>tok t'. r = Inr (tok, t') \<longrightarrow> length (iter t') \<le> length (iter t) \<and> buf t' = buf t \<and> next_token t' = next_token t)"

lemma text_kept_if: "(b \<Longrightarrow> text_kept t x) \<Longrightarrow> (\<not> b \<Longrightarrow> text_kept t y) \<Longrightarrow> text_kept t (if b then x else y)"
  by simp

lemma symbol_token_kept: "text_kept t (symbol_token ch t)"
proof -
  have "length it \<le> length (iter t)" if "parse_string ch (iter t) = Inr (s, it)" for s it
    using string_loop_shorter that by (fastforce simp: parse_string_def)
  then show ?thesis unfolding symbol_token_def
    by (intro text_kept_if) (auto simp: text_kept_def skip_next_def split: if_splits sum.splits)
qed

lemma symbol_token_state:
  "symbol_token ch t = Inr (tok, t') \<Longrightarrow> length (iter t') \<le> length (iter t) \<and> buf t' = buf t \<and> next_token t' = next_token t"
  using symbol_token_kept [of t ch] by (simp add: text_kept_def)

lemma prev_token_state:
  assumes "prev_token_of env ch t = Inr (p, t')"
  shows "length (iter t') \<le> length (iter t) \<and> buf t' = [] \<and> next_token t' = next_token t \<and> (p = None \<longleftrightarrow> buf t = [])"
proof (cases "buf t = []")
  case False
  show ?thesis
  proof (cases "ch = CHR ''('' \<and> buf t \<in> {''matches'', ''metric'', ''system''}")
    case True
    with False assms obtain tok where "special_call env t = Inr (tok, t')" "p = Some tok"
      by (auto simp: prev_token_of_def map_sum_Inr_iff)
    with special_call_state [OF this(1)] False show ?thesis by simp
  next
    case c: False
    with False assms obtain tok where "parse_buf env (t \<lparr> is_start := False \<rparr>) = Inr (tok, t')" "p = Some tok"
      by (auto simp: prev_token_of_def map_sum_Inr_iff)
    with parse_buf_state [OF this(1)] False show ?thesis by simp
  qed
qed (use assms in \<open>simp add: prev_token_of_def\<close>)

lemma next_other_weight:
  assumes "next_other env ch t = Inr (Some tok, t')"
  shows "weight t' \<le> weight t"
proof -
  obtain p t1 where p: "prev_token_of env ch t = Inr (p, t1)"
    using assms by (auto simp: next_other_def split: sum.splits)
  note st = prev_token_state [OF p]
  show ?thesis
  proof (cases "is_blank ch")
    case True
    with assms p have "t' = t1" by (simp add: next_other_def)
    with st show ?thesis by (simp add: weight_def)
  next
    case False
    with assms p obtain tk t2 where "symbol_token ch t1 = Inr (tk, t2)"
      "t' = t2 \<lparr> is_start := starts_operand tk \<rparr> \<or>
       p \<noteq> None \<and> t' = t2 \<lparr> is_start := starts_operand tk, next_token := tk # next_token t2 \<rparr>"
      by (auto simp: next_other_def Let_def split: sum.splits prod.splits option.splits)
    with symbol_token_state [OF this(1)] st show ?thesis by (auto simp: weight_def)
  qed
qed

lemma next_end_weight: "next_end env t = Inr (Some tok, t') \<Longrightarrow> weight t' < weight t"
  using parse_buf_state by (fastforce simp: next_end_def weight_def map_sum_Inr_iff split: if_splits)

lemma next_loop_weight:
  "next_loop env cs t = Inr (Some tok, t') \<Longrightarrow> weight t' < weight (t \<lparr> iter := cs \<rparr>)"
proof (induction env cs t rule: next_loop.induct)
  case (1 env t)
  then show ?case using next_end_weight by fastforce
next
  case (2 env ch cs t)
  have push: "weight ((push_buf ch t) \<lparr> iter := cs \<rparr>) < weight (t \<lparr> iter := ch # cs \<rparr>)" by (simp add: weight_def push_buf_def)
  have same: "weight (t \<lparr> iter := cs \<rparr>) < weight (t \<lparr> iter := ch # cs \<rparr>)" by (simp add: weight_def)
  have flags: "weight (u \<lparr> has_alpha := a, iter := cs \<rparr>) = weight (u \<lparr> iter := cs \<rparr>)"
    "weight (u \<lparr> has_number := a, iter := cs \<rparr>) = weight (u \<lparr> iter := cs \<rparr>)"
    "weight (u \<lparr> has_dot := a, iter := cs \<rparr>) = weight (u \<lparr> iter := cs \<rparr>)"
    "weight (u \<lparr> iter := cs, is_eof := a \<rparr>) = weight (u \<lparr> iter := cs \<rparr>)" for a and u :: "('a, 'b, 'c) tokenizer"
    by (simp_all add: weight_def)
  consider (alpha) "is_name_char ch" | (digit) "\<not> is_name_char ch" "is_ascii_digit ch" | (other) "\<not> is_name_char ch" "\<not> is_ascii_digit ch" by blast
  then show ?case
  proof cases
    case alpha
    with 2 push flags show ?thesis by (simp add: less_trans [OF _ push])
  next
    case digit
    with 2 push flags show ?thesis by (simp add: less_trans [OF _ push])
  next
    case other
    show ?thesis using other 2 push same flags next_end_weight [of env "t \<lparr> iter := cs, is_eof := True \<rparr>" tok t']
        next_other_weight [of env ch "t \<lparr> iter := cs \<rparr>" tok t']
      by (auto split: if_splits intro: less_trans le_less_trans)
  qed
qed

lemma tokenizer_next_weight: "tokenizer_next env t = Inr (Some tok, t') \<Longrightarrow> weight t' < weight t"
  using next_loop_weight [of env "iter t" t tok t']
  by (auto simp: tokenizer_next_def weight_def split: list.splits if_splits)

section \<open>The parser on text\<close>

datatype expr_error = Token_error token_error | Parse_error parse_error

text \<open>The parser asks for one token after the other.\<close>

function parse_text ::
  "('r, 'm, 'f) token_env \<Rightarrow> ('r, 'm, 'f) tokenizer \<Rightarrow> bool \<Rightarrow> ('r, 'm, 'f) expr_parser \<Rightarrow>
     expr_error + ('r, 'm, 'f) expr_item list" where
  "parse_text env t l p =
     (case tokenizer_next env t of
        Inl e \<Rightarrow> Inl (Token_error e)
      | Inr (None, _) \<Rightarrow> map_sum Parse_error id (finish_loop (out_items p) (operator_stack p))
      | Inr (Some tok, t') \<Rightarrow>
          (case parse_step tok l p of Inl e \<Rightarrow> Inl (Parse_error e) | Inr (p', l') \<Rightarrow> parse_text env t' l' p'))"
  by pat_completeness auto
termination
  by (relation "measure (\<lambda>(_, t, _, _). weight t)") (auto dest: tokenizer_next_weight)

declare parse_text.simps [simp del]

definition expression_compile :: "('r, 'm, 'f) token_env \<Rightarrow> bytes \<Rightarrow> expr_error + ('r, 'm, 'f) expr_item list" where
  "expression_compile env expr = parse_text env (tokenizer_new expr) False parser_new"

section \<open>Compiling a block of conditions\<close>

text \<open>The setting as it is stored: conditions with their results, and the result if none holds. What is reported is the list of the messages.\<close>

record expression_setting =
  match_list :: "(bytes \<times> bytes) list"
  else_text :: bytes

record expression_context =
  ctx_default :: "expression_setting option"
  allowed_variables :: "expression_variable list"
  allowed_constants :: "expression_constant list"

datatype compile_error =
  Missing_else
| Empty_condition
| Else_error expr_error
| Then_error nat expr_error
| If_error nat expr_error

definition context_env :: "('r, 'm, 'f) token_env \<Rightarrow> expression_context \<Rightarrow> ('r, 'm, 'f) token_env" where
  "context_env env ctx =
     env \<lparr> env_tokens := with_constants (allowed_constants ctx) (with_variables (allowed_variables ctx) default_token_map) \<rparr>"

fun compile_matches ::
  "('r, 'm, 'f) token_env \<Rightarrow> nat \<Rightarrow> (bytes \<times> bytes) list \<Rightarrow>
     compile_error + (('r, 'm, 'f) expr_item list \<times> ('r, 'm, 'f) expr_item list) list" where
  "compile_matches env num [] = Inr []"
| "compile_matches env num ((i, t) # ms) =
     (case expression_compile env i of
        Inl e \<Rightarrow> Inl (If_error (num + 1) e)
      | Inr if_expr \<Rightarrow>
          (case expression_compile env t of
             Inl e \<Rightarrow> Inl (Then_error (num + 1) e)
           | Inr then_expr \<Rightarrow> map_sum id (\<lambda>rest. (if_expr, then_expr) # rest) (compile_matches env (num + 1) ms)))"

definition try_compile_expr ::
  "('r, 'm, 'f) token_env \<Rightarrow> expression_context \<Rightarrow> expression_setting \<Rightarrow>
     compile_error list \<times> (expression_variable, 'r, 'm, 'f) if_block option" where
  "try_compile_expr env ctx expr =
     (if else_text expr = [] then (if match_list expr \<noteq> [] then [Missing_else] else [], None)
      else if list_ex (\<lambda>(i, t). i = [] \<or> t = []) (match_list expr) then ([Empty_condition], None)
      else
        (case expression_compile (context_env env ctx) (else_text expr) of
           Inl e \<Rightarrow> ([Else_error e], None)
         | Inr d \<Rightarrow>
             (case compile_matches (context_env env ctx) 0 (match_list expr) of
                Inl e \<Rightarrow> ([e], None)
              | Inr ms \<Rightarrow> ([], Some \<lparr> if_then = ms, default_expr = d \<rparr>))))"

text \<open>The default of a setting has to compile; no block is the panic otherwise.\<close>

definition compile_default_expr ::
  "('r, 'm, 'f) token_env \<Rightarrow> expression_context \<Rightarrow> compile_error list \<times> (expression_variable, 'r, 'm, 'f) if_block option" where
  "compile_default_expr env ctx =
     (case ctx_default ctx of Some d \<Rightarrow> try_compile_expr env ctx d | None \<Rightarrow> ([], Some if_block_empty))"

definition compile_expr ::
  "('r, 'm, 'f) token_env \<Rightarrow> expression_context \<Rightarrow> expression_setting \<Rightarrow>
     compile_error list \<times> (expression_variable, 'r, 'm, 'f) if_block option" where
  "compile_expr env ctx expr =
     (if else_text expr = [] \<and> match_list expr = [] then ([], Some if_block_empty)
      else
        (case try_compile_expr env ctx expr of
           (es, Some b) \<Rightarrow> (es, Some b)
         | (es, None) \<Rightarrow> (let (es', b) = compile_default_expr env ctx in (es @ es', b))))"

end
