(* ===== verification/ExprText.thy ===== *)
theory ExprText
  imports ExprTokenizer
begin

text \<open>
  From the text of an expression to its value. \<open>ast_text\<close> writes an expression; the tokenizer reads it back as the tokens of the expression, the
  parser compiles them and the machine computes what the expression means. \<open>lex_ok\<close> is what the tokenizer can read: a minus sign is an operator
  with one operand only at the start of the text and after an opening parenthesis, a comma or a binary operator.
\<close>

section \<open>The text of an expression\<close>

fun op_text :: "binary_operator \<Rightarrow> bytes" where
  "op_text Op_Add = ''+''"
| "op_text Op_Subtract = ''-''"
| "op_text Op_Multiply = ''*''"
| "op_text Op_Divide = ''/''"
| "op_text Op_And = ''&&''"
| "op_text Op_Or = ''||''"
| "op_text Op_Xor = ''^''"
| "op_text Op_Eq = ''==''"
| "op_text Op_Ne = ''!=''"
| "op_text Op_Lt = ''<''"
| "op_text Op_Le = ''<=''"
| "op_text Op_Gt = ''>''"
| "op_text Op_Ge = ''>=''"

fun unary_text :: "unary_operator \<Rightarrow> bytes" where
  "unary_text Op_Not = ''!''"
| "unary_text Op_Minus = ''-''"

definition quoted :: "bytes \<Rightarrow> bytes" where
  "quoted s = CHR 0x22 # s @ [CHR 0x22]"

fun const_text :: "'f const \<Rightarrow> bytes" where
  "const_text (K_Integer n) = decimal (unat n)"
| "const_text (K_String s) = quoted s"
| "const_text (K_Static c) = constant_as_str c"
| "const_text (K_Float f) = []"

fun system_word :: "'m system_variable \<Rightarrow> bytes" where
  "system_word (Metric m) = ''metric''"
| "system_word _ = ''system''"

fun system_key :: "('m \<Rightarrow> bytes) \<Rightarrow> 'm system_variable \<Rightarrow> bytes" where
  "system_key mt Hostname = ''hostname''"
| "system_key mt Domain = ''domain''"
| "system_key mt NodeId = ''node_id''"
| "system_key mt NodeHostname = ''node_hostname''"
| "system_key mt NodeRole = ''node_role''"
| "system_key mt (Metric m) = mt m"

definition system_text :: "('m \<Rightarrow> bytes) \<Rightarrow> 'm system_variable \<Rightarrow> bytes" where
  "system_text mt v = system_word v @ ''('' @ quoted (system_key mt v)"

type_synonym ('r, 'm, 'f) expr_ast = "(expression_variable, 'r, 'm system_variable, 'f) ast"

fun joined :: "bytes list \<Rightarrow> bytes" where
  "joined [] = []"
| "joined [t] = t"
| "joined (t # u # us) = t @ '', '' @ joined (u # us)"

text \<open>The texts of regular expressions and metrics are \<open>rt\<close> and \<open>mt\<close>.\<close>

fun ast_text :: "('r \<Rightarrow> bytes) \<Rightarrow> ('m \<Rightarrow> bytes) \<Rightarrow> ('r, 'm, 'f) expr_ast \<Rightarrow> bytes" where
  "ast_text rt mt (A_Variable v) = variable_as_str v @ '' ''"
| "ast_text rt mt (A_Global g) = CHR ''$'' # g @ '' ''"
| "ast_text rt mt (A_Capture c) = CHR ''$'' # decimal (unat c) @ '' ''"
| "ast_text rt mt (A_Constant k) = const_text k @ '' ''"
| "ast_text rt mt (A_Unary u e) = unary_text u @ '' '' @ ast_text rt mt e"
| "ast_text rt mt (A_Binary b l r) = ast_text rt mt l @ op_text b @ '' '' @ ast_text rt mt r"
| "ast_text rt mt (A_Paren e) = ''( '' @ ast_text rt mt e @ '') ''"
| "ast_text rt mt (A_Call name i args) = name @ '' ( '' @ joined (map (ast_text rt mt) args) @ '') ''"
| "ast_text rt mt (A_Regex r e) = ''matches('' @ quoted (rt r) @ '', '' @ ast_text rt mt e @ '') ''"
| "ast_text rt mt (A_System s) = system_text mt s @ '') ''"
| "ast_text rt mt (A_Index a i) = ast_text rt mt a @ ''[ '' @ ast_text rt mt i @ ''] ''"
| "ast_text rt mt (A_Array es) = ''[ '' @ joined (map (ast_text rt mt) es) @ ''] ''"

definition word_char :: "char \<Rightarrow> bool" where
  "word_char c \<longleftrightarrow> is_name_char c \<or> is_ascii_digit c \<or> c = CHR ''.''"

definition quotable :: "bytes \<Rightarrow> bool" where
  "quotable s \<longleftrightarrow> utf8_valid s \<and> CHR 0x22 \<notin> set s \<and> CHR 0x5C \<notin> set s"

fun const_ok :: "('r, 'm, 'f) token_env \<Rightarrow> 'f const \<Rightarrow> bool" where
  "const_ok env (K_Integer n) \<longleftrightarrow> 0 \<le> sint n"
| "const_ok env (K_String s) \<longleftrightarrow> quotable s"
| "const_ok env (K_Static c) \<longleftrightarrow> constants (env_tokens env) = [] \<or> c \<in> set (constants (env_tokens env))"
| "const_ok env (K_Float f) \<longleftrightarrow> False"

fun system_ok :: "('r, 'm, 'f) token_env \<Rightarrow> ('m \<Rightarrow> bytes) \<Rightarrow> 'm system_variable \<Rightarrow> bool" where
  "system_ok env mt (Metric m) \<longleftrightarrow> quotable (mt m) \<and> metric_parse env (mt m) = Some m"
| "system_ok env mt _ \<longleftrightarrow> True"

fun lex_ok :: "('r, 'm, 'f) token_env \<Rightarrow> ('r \<Rightarrow> bytes) \<Rightarrow> ('m \<Rightarrow> bytes) \<Rightarrow> bool \<Rightarrow> ('r, 'm, 'f) expr_ast \<Rightarrow> bool" where
  "lex_ok env rt mt st (A_Variable v) \<longleftrightarrow> variables (env_tokens env) = [] \<or> v \<in> set (variables (env_tokens env))"
| "lex_ok env rt mt st (A_Global g) \<longleftrightarrow> list_all word_char g \<and> g \<noteq> [] \<and> \<not> list_all is_ascii_digit g"
| "lex_ok env rt mt st (A_Capture c) \<longleftrightarrow> True"
| "lex_ok env rt mt st (A_Constant k) \<longleftrightarrow> const_ok env k"
| "lex_ok env rt mt st (A_Unary u e) \<longleftrightarrow> (u = Op_Minus \<longrightarrow> st) \<and> lex_ok env rt mt False e"
| "lex_ok env rt mt st (A_Binary b l r) \<longleftrightarrow> lex_ok env rt mt st l \<and> lex_ok env rt mt True r"
| "lex_ok env rt mt st (A_Paren e) \<longleftrightarrow> lex_ok env rt mt True e"
| "lex_ok env rt mt st (A_Call name i args) \<longleftrightarrow>
     function_lookup name = Some (i, of_nat (length args)) \<and> list_all (lex_ok env rt mt True) args"
| "lex_ok env rt mt st (A_Regex r e) \<longleftrightarrow> quotable (rt r) \<and> regex_new env (rt r) = Some r \<and> lex_ok env rt mt True e"
| "lex_ok env rt mt st (A_System s) \<longleftrightarrow> system_ok env mt s"
| "lex_ok env rt mt st (A_Index a i) \<longleftrightarrow> lex_ok env rt mt st a \<and> lex_ok env rt mt False i"
| "lex_ok env rt mt st (A_Array es) \<longleftrightarrow>
     (case es of [] \<Rightarrow> True | e # es' \<Rightarrow> lex_ok env rt mt False e \<and> list_all (lex_ok env rt mt True) es')"

fun nesting :: "('r, 'm, 'f) expr_ast \<Rightarrow> nat" where
  "nesting (A_Unary u e) = nesting e"
| "nesting (A_Binary b l r) = max (nesting l) (nesting r)"
| "nesting (A_Paren e) = nesting e + 1"
| "nesting (A_Call name i args) = fold max (map nesting args) 0 + 1"
| "nesting (A_Regex r e) = nesting e + 1"
| "nesting (A_System s) = 1"
| "nesting (A_Index a i) = max (nesting a) (nesting i)"
| "nesting (A_Array es) = fold max (map nesting es) 0"
| "nesting _ = 0"

section \<open>What the tokenizer yields\<close>

definition ready_state :: "bool \<Rightarrow> u32 \<Rightarrow> bytes \<Rightarrow> ('r, 'm, 'f) tokenizer" where
  "ready_state st d it =
     \<lparr> iter = it, buf = [], depth = d, next_token = [], has_number = False, has_dot = False, has_alpha = False,
       is_start = st, is_eof = False \<rparr>"

definition ready :: "bool \<Rightarrow> u32 \<Rightarrow> bytes \<Rightarrow> ('r, 'm, 'f) tokenizer \<Rightarrow> bool" where
  "ready st d it t \<longleftrightarrow> t = ready_state st d it \<or> t = ready_state st d (CHR '' '' # it)"

fun yields ::
  "('r, 'm, 'f) token_env \<Rightarrow> ('r, 'm, 'f) tokenizer \<Rightarrow> ('r, 'm, 'f) expr_token list \<Rightarrow> ('r, 'm, 'f) tokenizer \<Rightarrow> bool" where
  "yields env t [] t' \<longleftrightarrow> t' = t"
| "yields env t (tok # toks) t' \<longleftrightarrow> (\<exists>t1. tokenizer_next env t = Inr (Some tok, t1) \<and> yields env t1 toks t')"

lemma yields_append: "yields env t ts t1 \<Longrightarrow> yields env t1 us t2 \<Longrightarrow> yields env t (ts @ us) t2"
  by (induction env t ts t1 rule: yields.induct) auto

lemma yields_parse:
  "yields env t toks t' \<Longrightarrow> parse_text env t l p =
     (case parse_tokens toks l p of Inl e \<Rightarrow> Inl (Parse_error e) | Inr (p', l') \<Rightarrow> parse_text env t' l' p')"
proof (induction env t toks t' arbitrary: l p rule: yields.induct)
  case (2 env t tok toks t')
  then obtain t1 where t1: "tokenizer_next env t = Inr (Some tok, t1)" "yields env t1 toks t'" by auto
  with 2(1) [OF t1(2)] show ?case by (subst parse_text.simps) (simp split: sum.split prod.split)
qed simp

lemma next_loop_iter: "next_loop env cs (t \<lparr> iter := x \<rparr>) = next_loop env cs t"
proof (induction cs arbitrary: t)
  case (Cons ch cs)
  have swap: "u \<lparr> iter := x, has_alpha := True \<rparr> = u \<lparr> has_alpha := True, iter := x \<rparr>"
    "u \<lparr> iter := x, has_number := True \<rparr> = u \<lparr> has_number := True, iter := x \<rparr>"
    "u \<lparr> iter := x, has_dot := True \<rparr> = u \<lparr> has_dot := True, iter := x \<rparr>"
    "push_buf ch (u \<lparr> iter := x \<rparr>) = (push_buf ch u) \<lparr> iter := x \<rparr>"
    "last_in_buf w (u \<lparr> iter := x \<rparr>) = last_in_buf w u" for w and u :: "('a, 'b, 'c) tokenizer"
    by (simp_all add: push_buf_def last_in_buf_def)
  show ?case by (simp only: next_loop.simps swap Cons.IH) simp
qed simp

lemma blank_skipped:
  "tokenizer_next env (ready_state st d (CHR '' '' # it)) = tokenizer_next env (ready_state st d it)"
proof -
  have "next_loop env it (ready_state st d (CHR '' '' # it)) = next_loop env it (ready_state st d it)"
    using next_loop_iter [where t = "ready_state st d it" and x = "CHR '' '' # it"] by (simp add: ready_state_def)
  then show ?thesis
    by (simp add: tokenizer_next_def ready_state_def is_name_char_def byte_in_def is_ascii_digit_def is_blank_def)
qed

lemma ready_next: "ready st d it t \<Longrightarrow> tokenizer_next env t = tokenizer_next env (ready_state st d it)"
  using blank_skipped by (auto simp: ready_def)

section \<open>Names and numbers\<close>

definition scanned :: "bytes \<Rightarrow> ('r, 'm, 'f) tokenizer \<Rightarrow> ('r, 'm, 'f) tokenizer" where
  "scanned w t =
     t \<lparr> buf := buf t @ w, has_alpha := has_alpha t \<or> list_ex is_name_char w,
         has_number := has_number t \<or> list_ex is_ascii_digit w, has_dot := has_dot t \<or> CHR ''.'' \<in> set w \<rparr>"

lemma char_classes:
  "is_ascii_digit c \<Longrightarrow> \<not> is_name_char c" "is_name_char c \<Longrightarrow> \<not> is_ascii_digit c" "is_name_char c \<Longrightarrow> c \<noteq> CHR ''.''" "is_ascii_digit c \<Longrightarrow> c \<noteq> CHR ''.''"
  by (auto simp: is_ascii_digit_def is_name_char_def byte_in_def)

lemma next_loop_word: "list_all word_char w \<Longrightarrow> next_loop env (w @ cs) t = next_loop env cs (scanned w t)"
proof (induction w arbitrary: t)
  case (Cons c w)
  consider (alpha) "is_name_char c" | (digit) "is_ascii_digit c" | (dot) "c = CHR ''.''"
    using Cons.prems by (auto simp: word_char_def)
  then show ?case
  proof cases
    case alpha
    then have "scanned (c # w) t = scanned w ((push_buf c t) \<lparr> has_alpha := True \<rparr>)"
      using char_classes [of c] by (auto simp: scanned_def push_buf_def)
    with alpha Cons show ?thesis by simp
  next
    case digit
    then have "scanned (c # w) t = scanned w ((push_buf c t) \<lparr> has_number := True \<rparr>)"
      using char_classes [of c] by (auto simp: scanned_def push_buf_def)
    with digit Cons char_classes(1) show ?thesis by simp
  next
    case dot
    then have n: "\<not> is_name_char c" "\<not> is_ascii_digit c" using char_classes by blast+
    then have "scanned (c # w) t = scanned w ((push_buf c t) \<lparr> has_dot := True \<rparr>)"
      using dot by (auto simp: scanned_def push_buf_def)
    with n dot Cons show ?thesis by simp
  qed
qed (simp add: scanned_def)

lemma word_utf8: "list_all word_char w \<Longrightarrow> utf8_valid w"
proof (rule utf8_valid_ascii)
  assume "list_all word_char w"
  moreover have "word_char c \<Longrightarrow> byte_in 0 0x7F c" for c
    by (auto simp: word_char_def is_name_char_def is_ascii_digit_def byte_in_def)
  ultimately show "list_all (byte_in 0 0x7F) w" by (auto simp: list_all_iff)
qed

lemma blank_ends_word:
  assumes "buf t \<noteq> []"
  shows "next_loop env (CHR '' '' # cs) t =
     map_sum id (\<lambda>(tok, t'). (Some tok, t')) (parse_buf env (t \<lparr> iter := cs, is_start := False \<rparr>))"
  using assms
  by (auto simp: is_name_char_def byte_in_def is_ascii_digit_def next_other_def is_blank_def prev_token_of_def split: sum.split)

lemma word_read:
  assumes "list_all word_char w" "list_ex is_name_char w" "w \<noteq> ''true''" "w \<noteq> ''false''" "name_token env w = Inr tok"
  shows "tokenizer_next env (ready_state st d (w @ CHR '' '' # rest)) = Inr (Some tok, ready_state False d rest)"
proof -
  let ?t = "scanned w (ready_state st d (w @ CHR '' '' # rest))"
  have w: "w \<noteq> []" using assms(2) by auto
  have "parse_buf env (?t \<lparr> iter := rest, is_start := False \<rparr>) = Inr (tok, ready_state False d rest)"
    using assms(2-) word_utf8 [OF assms(1)] by (simp add: parse_buf_def scanned_def ready_state_def Let_def)
  with blank_ends_word [of ?t env rest] w show ?thesis
    by (simp add: tokenizer_next_def next_loop_word [OF assms(1)] ready_state_def [of st] scanned_def)
qed

lemma digits_word: "list_all is_ascii_digit w \<Longrightarrow> list_all word_char w \<and> \<not> list_ex is_name_char w \<and> CHR ''.'' \<notin> set w"
  using char_classes(1) by (auto simp: list_all_iff list_ex_iff word_char_def is_ascii_digit_def byte_in_def)

lemma number_read:
  assumes "list_all is_ascii_digit w" "w \<noteq> []" "parse_i64 w = Some n"
  shows "tokenizer_next env (ready_state st d (w @ CHR '' '' # rest)) = Inr (Some (T_Constant (K_Integer n)), ready_state False d rest)"
proof -
  let ?t = "scanned w (ready_state st d (w @ CHR '' '' # rest))"
  note w = digits_word [OF assms(1)]
  have "list_ex is_ascii_digit w" using assms(1,2) by (cases w) auto
  then have "parse_buf env (?t \<lparr> iter := rest, is_start := False \<rparr>) = Inr (T_Constant (K_Integer n), ready_state False d rest)"
    using w assms(3) word_utf8 [of w] by (simp add: parse_buf_def scanned_def ready_state_def Let_def)
  with blank_ends_word [of ?t env rest] w assms(2) show ?thesis
    by (simp add: tokenizer_next_def next_loop_word ready_state_def [of st] scanned_def)
qed

section \<open>Strings\<close>

lemma string_loop_read:
  assumes "CHR 0x22 \<notin> set s" "CHR 0x5C \<notin> set s" "l \<noteq> CHR 0x5C" "utf8_valid (b @ s)"
  shows "string_loop (CHR 0x22) b l (s @ CHR 0x22 # rest) = Inr (b @ s, rest)"
  using assms
proof (induction s arbitrary: b l)
  case (Cons c s)
  from Cons.prems have "c \<noteq> CHR 0x5C" "c \<noteq> CHR 0x22" by auto
  with Cons.IH [of c "b @ [c]"] Cons.prems show ?case by simp
qed simp

lemma parse_string_read: "quotable s \<Longrightarrow> parse_string (CHR 0x22) (s @ CHR 0x22 # rest) = Inr (s, rest)"
  using string_loop_read [of s "CHR 0x00" "[]" rest] by (simp add: parse_string_def quotable_def)

lemma quoted_arg_read: "quotable s \<Longrightarrow> quoted_arg (quoted s @ rest) = Inr (s, rest)"
  using parse_string_read by (simp add: quoted_arg_def quoted_def is_ascii_whitespace_def)

lemmas char_tests = is_name_char_def byte_in_def is_ascii_digit_def is_blank_def last_in_buf_def

lemma symbol_read:
  assumes "\<not> is_name_char c" "\<not> is_ascii_digit c" "c \<noteq> CHR ''.''" "c \<noteq> CHR ''}''" "\<not> is_blank c"
    and "symbol_token c (ready_state st d rest) = Inr (tok, t')"
  shows "tokenizer_next env (ready_state st d (c # rest)) = Inr (Some tok, t' \<lparr> is_start := starts_operand tok \<rparr>)"
proof -
  from assms show ?thesis
    by (simp add: tokenizer_next_def next_other_def prev_token_of_def ready_state_def last_in_buf_def Let_def)
qed

lemma string_read:
  assumes "quotable s"
  shows "tokenizer_next env (ready_state st d (quoted s @ rest)) = Inr (Some (T_Constant (K_String s)), ready_state False d rest)"
proof -
  have "symbol_token (CHR 0x22) (ready_state st d (s @ CHR 0x22 # rest)) = Inr (T_Constant (K_String s), ready_state st d rest)"
    using parse_string_read [OF assms] by (simp add: symbol_token_def ready_state_def)
  from symbol_read [OF _ _ _ _ _ this] show ?thesis
    by (simp add: quoted_def char_tests ready_state_def)
qed

section \<open>The names of the tables\<close>

definition plain_word :: "bytes \<Rightarrow> bool" where
  "plain_word w \<longleftrightarrow> list_all word_char w \<and> list_ex is_name_char w \<and> CHR ''$'' \<notin> set w"

lemma expression_names_plain: "list_all plain_word expression_names"
  unfolding expression_names_def FUNCTIONS_def ASYNC_FUNCTIONS_def variable_names_def constant_names_def
  by (simp add: plain_word_def word_char_def is_name_char_def is_ascii_digit_def byte_in_def)

lemma find_function_None: "find_function b i fs = None \<longleftrightarrow> b \<notin> fst ` set fs"
  by (induction b i fs rule: find_function.induct) auto

lemma find_async_None: "find_async b fs = None \<longleftrightarrow> b \<notin> fst ` set fs"
  by (induction b fs rule: find_async.induct) auto

lemma function_lookup_None:
  "function_lookup b = None \<longleftrightarrow> b \<notin> set (map fst FUNCTIONS) \<and> b \<notin> set (map fst ASYNC_FUNCTIONS)"
  using find_function_None [of b 0 FUNCTIONS]
  by (cases "find_function b 0 FUNCTIONS") (auto simp: function_lookup_def find_async_None)

lemma plain_strip: "plain_word w \<Longrightarrow> strip_dollar w = None"
  by (cases w) (auto simp: plain_word_def strip_dollar_def)

lemma function_name_read:
  assumes "function_lookup b = Some (i, n)"
  shows "tokenizer_next env (ready_state st d (b @ CHR '' '' # rest)) = Inr (Some (T_Function b i n), ready_state False d rest)"
proof -
  have b: "b \<in> set (map fst FUNCTIONS) \<union> set (map fst ASYNC_FUNCTIONS)" using assms function_lookup_None [of b] by auto
  then have p: "plain_word b" using expression_names_plain by (auto simp: list_all_iff expression_names_def)
  moreover have "b \<noteq> ''true'' \<and> b \<noteq> ''false''" using names_apart(1) [OF b] by simp
  ultimately show ?thesis using assms plain_strip [OF p]
    by (intro word_read) (auto simp: plain_word_def name_token_def)
qed

lemma variable_name_read:
  assumes "tiny_map_spec (variable_map env)" "variables (env_tokens env) = [] \<or> v \<in> set (variables (env_tokens env))"
  shows "tokenizer_next env (ready_state st d (variable_as_str v @ CHR '' '' # rest)) = Inr (Some (T_Variable v), ready_state False d rest)"
proof -
  let ?w = "variable_as_str v"
  have m: "?w \<in> set (map fst variable_names)" using map_of_SomeD [OF variable_name_of [of v]] by force
  then have p: "plain_word ?w" using expression_names_plain by (auto simp: list_all_iff expression_names_def)
  have "?w \<noteq> ''true'' \<and> ?w \<noteq> ''false'' \<and> function_lookup ?w = None"
    using names_apart(2) [OF m] by (simp add: function_lookup_None)
  moreover have "variable_parse (variable_map env) ?w = Some v"
    by (simp add: variable_parse_def tiny_map_specD [OF assms(1) name_tables_distinct(1)] variable_name_of)
  ultimately show ?thesis using assms(2) plain_strip [OF p] p
    by (intro word_read) (auto simp: plain_word_def name_token_def)
qed

lemma constant_name_read:
  assumes "tiny_map_spec (variable_map env)" "tiny_map_spec (constant_map env)"
    and "constants (env_tokens env) = [] \<or> c \<in> set (constants (env_tokens env))"
  shows "tokenizer_next env (ready_state st d (constant_as_str c @ CHR '' '' # rest)) =
    Inr (Some (T_Constant (K_Static c)), ready_state False d rest)"
proof -
  let ?w = "constant_as_str c"
  have m: "?w \<in> set (map fst constant_names)" using map_of_SomeD [OF constant_name_of [of c]] by force
  then have p: "plain_word ?w" using expression_names_plain by (auto simp: list_all_iff expression_names_def)
  have "?w \<noteq> ''true'' \<and> ?w \<noteq> ''false'' \<and> function_lookup ?w = None \<and> ?w \<notin> fst ` set variable_names"
    using names_apart(3) [OF m] by (simp add: function_lookup_None)
  moreover from this have "variable_parse (variable_map env) ?w = None"
    by (simp add: variable_parse_def tiny_map_specD [OF assms(1) name_tables_distinct(1)] map_of_eq_None_iff)
  moreover have "constant_parse (constant_map env) ?w = Some c"
    by (simp add: constant_parse_def tiny_map_specD [OF assms(2) name_tables_distinct(2)] constant_name_of)
  ultimately show ?thesis using assms(3) plain_strip [OF p] p
    by (intro word_read) (auto simp: plain_word_def name_token_def)
qed

section \<open>Reading an expression\<close>

text \<open>One token: from a text that begins with it to the text behind it.\<close>

definition reads_token ::
  "('r, 'm, 'f) token_env \<Rightarrow> bytes \<Rightarrow> bool \<Rightarrow> u32 \<Rightarrow> ('r, 'm, 'f) expr_token \<Rightarrow> bool \<Rightarrow> u32 \<Rightarrow> bool" where
  "reads_token env w st d tok st' d' \<longleftrightarrow>
     (\<forall>rest. \<exists>t'. tokenizer_next env (ready_state st d (w @ rest)) = Inr (Some tok, t') \<and> ready st' d' rest t')"

lemma reads_tokenI:
  "(\<And>rest. tokenizer_next env (ready_state st d (w @ CHR '' '' # rest)) = Inr (Some tok, ready_state st' d' rest)) \<Longrightarrow>
   reads_token env (w @ '' '') st d tok st' d'"
  unfolding reads_token_def ready_def by fastforce

lemma reads_symbolI:
  assumes "\<And>rest. tokenizer_next env (ready_state st d (w @ CHR '' '' # rest)) = Inr (Some tok, ready_state st' d' (CHR '' '' # rest))"
  shows "reads_token env (w @ '' '') st d tok st' d'"
  unfolding reads_token_def ready_def using assms by fastforce

lemma reads_yields:
  assumes "reads_token env w st d tok st' d'" "ready st d (w @ rest) t"
  obtains t' where "yields env t [tok] t'" "ready st' d' rest t'"
  using assms ready_next [OF assms(2), of env] unfolding reads_token_def by fastforce

text \<open>Symbols.\<close>

lemma symbol_reads:
  assumes "\<not> is_name_char c" "\<not> is_ascii_digit c" "c \<noteq> CHR ''.''" "c \<noteq> CHR ''}''" "\<not> is_blank c"
    and "\<And>rest. symbol_token c (ready_state st d (w @ CHR '' '' # rest)) = Inr (tok, ready_state st d' (CHR '' '' # rest))"
    and "starts_operand tok = st'"
  shows "reads_token env ((c # w) @ '' '') st d tok st' d'"
proof (rule reads_symbolI)
  fix rest
  show "tokenizer_next env (ready_state st d ((c # w) @ CHR '' '' # rest)) = Inr (Some tok, ready_state st' d' (CHR '' '' # rest))"
    using symbol_read [OF assms(1-6)] assms(7) by (simp add: ready_state_def)
qed

lemmas symbol_defs = symbol_token_def peek_next_def skip_next_def ready_state_def char_tests

lemma op_reads:
  assumes "b = Op_Subtract \<Longrightarrow> \<not> st"
  shows "reads_token env (op_text b @ '' '') st d (T_Binary b) True d"
  using assms by (cases b) (simp_all only: op_text.simps, (rule symbol_reads; simp add: symbol_defs)+)

lemma unary_reads:
  assumes "u = Op_Minus \<Longrightarrow> st"
  shows "reads_token env (unary_text u @ '' '') st d (T_Unary u) False d"
  using assms by (cases u) (simp_all only: unary_text.simps, (rule symbol_reads; simp add: symbol_defs)+)

lemma open_reads: "reads_token env (''('' @ '' '') st d T_OpenParen True (d + 1)"
  by (rule symbol_reads) (simp_all add: symbol_defs)

lemma close_reads: "d \<noteq> 0 \<Longrightarrow> reads_token env ('')'' @ '' '') st d T_CloseParen False (d - 1)"
  by (rule symbol_reads) (simp_all add: symbol_defs)

lemma comma_reads: "reads_token env ('','' @ '' '') st d T_Comma True d"
  by (rule symbol_reads) (simp_all add: symbol_defs)

lemma brackets_read:
  "reads_token env (''['' @ '' '') st d T_OpenBracket False d"
  "reads_token env ('']'' @ '' '') st d T_CloseBracket False d"
  by (rule symbol_reads; simp add: symbol_defs)+

text \<open>Names and constants.\<close>

lemma dollar_word: "list_all word_char g \<Longrightarrow> list_all word_char (CHR ''$'' # g) \<and> list_ex is_name_char (CHR ''$'' # g)"
  by (simp add: word_char_def is_name_char_def)

lemma global_reads:
  assumes "list_all word_char g" "g \<noteq> []" "\<not> list_all is_ascii_digit g"
  shows "reads_token env ((CHR ''$'' # g) @ '' '') st d (T_Global g) False d"
  by (rule reads_tokenI, rule word_read) (use assms dollar_word [OF assms(1)] in \<open>simp_all add: name_token_def strip_dollar_def\<close>)

lemma capture_reads: "reads_token env ((CHR ''$'' # decimal (unat c)) @ '' '') st d (T_Capture c) False d"
proof (rule reads_tokenI, rule word_read)
  have w: "list_all word_char (decimal (unat c))" using digits_word [OF decimal_digits(1)] by simp
  show "list_all word_char (CHR ''$'' # decimal (unat c))" "list_ex is_name_char (CHR ''$'' # decimal (unat c))"
    using dollar_word [OF w] by simp_all
  show "name_token env (CHR ''$'' # decimal (unat c)) = Inr (T_Capture c)"
    using decimal_digits parse_u32_decimal by (simp add: name_token_def strip_dollar_def)
qed simp_all

lemma integer_text: "0 \<le> sint n \<Longrightarrow> parse_i64 (decimal (unat n)) = Some n"
proof -
  assume n: "0 \<le> sint n"
  have "uint (word_of_int (sint n) :: i64) = sint n"
    unfolding uint_word_of_int using n sint_bounds_i64(2) [of n] by (intro mod_pos_pos_trivial) simp_all
  then have "uint n = sint n" by simp
  with n have "display_i64 n = decimal (unat n)" by (simp add: display_i64_def unat_eq_nat_uint)
  with parse_display_i64 [of n] show ?thesis by simp
qed

lemma const_reads:
  assumes "tiny_map_spec (variable_map env)" "tiny_map_spec (constant_map env)" "const_ok env k"
  shows "reads_token env (const_text k @ '' '') st d (T_Constant k) False d"
proof (cases k)
  case (K_Integer n)
  then show ?thesis using assms(3) integer_text decimal_digits by (auto intro!: reads_tokenI number_read)
next
  case (K_String s)
  then show ?thesis using assms(3) string_read by (auto intro!: reads_symbolI)
next
  case (K_Static c)
  then show ?thesis using assms(3) constant_name_read [OF assms(1,2)] by (intro reads_tokenI) simp
next
  case (K_Float f)
  then show ?thesis using assms(3) by simp
qed

section \<open>Sequences of tokens\<close>

definition goes ::
  "('r, 'm, 'f) token_env \<Rightarrow> bool \<Rightarrow> u32 \<Rightarrow> bytes \<Rightarrow> ('r, 'm, 'f) expr_token list \<Rightarrow> bool \<Rightarrow> u32 \<Rightarrow> bool" where
  "goes env st d w toks st' d' \<longleftrightarrow>
     (\<forall>rest t. ready st d (w @ rest) t \<longrightarrow> (\<exists>t'. yields env t toks t' \<and> ready st' d' rest t'))"

lemma goes_token: "reads_token env w st d tok st' d' \<Longrightarrow> goes env st d w [tok] st' d'"
  unfolding goes_def by (metis reads_yields)

lemma goes_Nil: "goes env st d [] [] st d"
  by (simp add: goes_def)

lemma goes_append:
  assumes "goes env st d x ts st1 d1" "goes env st1 d1 y us st2 d2"
  shows "goes env st d (x @ y) (ts @ us) st2 d2"
  unfolding goes_def
proof (intro allI impI)
  fix rest and t :: "('a, 'b, 'c) tokenizer"
  assume "ready st d ((x @ y) @ rest) t"
  then obtain t1 where t1: "yields env t ts t1" "ready st1 d1 (y @ rest) t1"
    using assms(1) unfolding goes_def by fastforce
  then obtain t2 where "yields env t1 us t2" "ready st2 d2 rest t2"
    using assms(2) unfolding goes_def by blast
  with t1 yields_append show "\<exists>t'. yields env t (ts @ us) t' \<and> ready st2 d2 rest t'" by blast
qed

text \<open>A quoted argument after one of the words with a meaning of their own: the token, and the parenthesis that waits.\<close>

lemma special_read:
  assumes "w \<in> {''matches'', ''metric'', ''system''}"
    and "\<And>t. buf t = w \<Longrightarrow> iter t = cs \<Longrightarrow> special_call env t = Inr (tok, t \<lparr> has_alpha := False, buf := [], iter := cs' \<rparr>)"
  shows "yields env (ready_state st d (w @ CHR ''('' # cs)) [tok, T_OpenParen] (ready_state True (d + 1) cs')"
proof -
  have w: "list_all word_char w" "\<not> list_ex is_ascii_digit w" "CHR ''.'' \<notin> set w" "w \<noteq> []" "CHR ''['' \<notin> set w"
    using assms(1) by (auto simp: word_char_def is_name_char_def is_ascii_digit_def byte_in_def)
  let ?t = "(scanned w (ready_state st d (w @ CHR ''('' # cs))) \<lparr> iter := cs \<rparr>"
  let ?t' = "?t \<lparr> has_alpha := False, buf := [], iter := cs' \<rparr>"
  have t: "buf ?t = w" "iter ?t = cs" by (simp_all add: scanned_def ready_state_def)
  have "tokenizer_next env (ready_state st d (w @ CHR ''('' # cs)) = next_other env (CHR ''('') ?t"
    using w by (simp add: tokenizer_next_def ready_state_def [of st] next_loop_word char_tests scanned_def)
  also have "\<dots> = Inr (Some tok, ?t' \<lparr> depth := d + 1, is_start := True, next_token := [T_OpenParen] \<rparr>)"
    using w assms(1) assms(2) [OF t] t
    by (simp add: next_other_def prev_token_of_def is_blank_def symbol_token_def scanned_def ready_state_def Let_def)
  finally show ?thesis using w by (simp add: tokenizer_next_def scanned_def ready_state_def)
qed

lemma goes_special:
  assumes "\<And>st d rest. yields env (ready_state st d (w @ rest)) toks (ready_state True (d + 1) (x @ rest))" "x = [] \<or> x = '' ''"
    and "w \<noteq> []" "toks \<noteq> []"
  shows "goes env st d w toks True (d + 1)"
  unfolding goes_def
proof (intro allI impI)
  fix rest and t :: "('a, 'b, 'c) tokenizer"
  assume t: "ready st d (w @ rest) t"
  obtain tok toks' where toks: "toks = tok # toks'" using assms(4) by (cases toks) auto
  have "yields env t toks (ready_state True (d + 1) (x @ rest))"
    using assms(1) [of st d rest] ready_next [OF t, of env] by (simp add: toks)
  moreover have "ready True (d + 1) rest (ready_state True (d + 1) (x @ rest))" using assms(2) by (auto simp: ready_def)
  ultimately show "\<exists>t'. yields env t toks t' \<and> ready True (d + 1) rest t'" by blast
qed

lemma goes_regex:
  assumes "quotable s" "regex_new env s = Some r"
  shows "goes env st d (''matches('' @ quoted s @ '', '') [T_Regex r, T_OpenParen] True (d + 1)"
proof (rule goes_special [where x = "'' ''"])
  fix st d rest
  have "yields env (ready_state st d (''matches'' @ CHR ''('' # (quoted s @ '', '' @ rest))) [T_Regex r, T_OpenParen]
      (ready_state True (d + 1) (CHR '' '' # rest))"
  proof (rule special_read)
    fix t :: "('a, 'b, 'c) tokenizer"
    assume "buf t = ''matches''" "iter t = quoted s @ '', '' @ rest"
    then show "special_call env t = Inr (T_Regex r, t \<lparr> has_alpha := False, buf := [], iter := CHR '' '' # rest \<rparr>)"
      using assms quoted_arg_read [OF assms(1), of "'', '' @ rest"]
      by (simp add: special_call_def is_ascii_whitespace_def Let_def)
  qed simp
  then show "yields env (ready_state st d ((''matches('' @ quoted s @ '', '') @ rest)) [T_Regex r, T_OpenParen]
      (ready_state True (d + 1) ('' '' @ rest))" by simp
qed simp_all

lemma goes_system:
  assumes "system_ok env mt v"
  shows "goes env st d (system_text mt v) [T_System v, T_OpenParen] True (d + 1)"
proof (rule goes_special [where x = "[]"])
  fix st d rest
  let ?w = "system_word v" and ?s = "system_key mt v"
  have q: "quotable ?s" using assms by (cases v) (auto simp: quotable_def utf8_valid_ascii byte_in_def)
  have "yields env (ready_state st d (?w @ CHR ''('' # (quoted ?s @ rest))) [T_System v, T_OpenParen] (ready_state True (d + 1) rest)"
  proof (rule special_read)
    fix t :: "('a, 'b, 'c) tokenizer"
    assume "buf t = ?w" "iter t = quoted ?s @ rest"
    then show "special_call env t = Inr (T_System v, t \<lparr> has_alpha := False, buf := [], iter := rest \<rparr>)"
      using assms quoted_arg_read [OF q, of rest] by (cases v) (auto simp: special_call_def system_name_def Let_def)
  qed (cases v; simp)
  then show "yields env (ready_state st d (system_text mt v @ rest)) [T_System v, T_OpenParen] (ready_state True (d + 1) ([] @ rest))"
    by (simp add: system_text_def)
qed (simp_all add: system_text_def)

section \<open>Every expression\<close>

definition lexes :: "('r, 'm, 'f) token_env \<Rightarrow> ('r \<Rightarrow> bytes) \<Rightarrow> ('m \<Rightarrow> bytes) \<Rightarrow> ('r, 'm, 'f) expr_ast \<Rightarrow> bool" where
  "lexes env rt mt e \<longleftrightarrow>
     (\<forall>st d. lex_ok env rt mt st e \<longrightarrow> unat d + nesting e < 2 ^ 32 \<longrightarrow> goes env st d (ast_text rt mt e) (ast_tokens e) False d)"

lemma depth_next:
  assumes "unat (d :: u32) + 1 < 2 ^ 32"
  shows "d + 1 \<noteq> 0" "unat (d + 1) = unat d + 1"
proof -
  show u: "unat (d + 1) = unat d + 1" using assms by (simp add: unat_word_ariths)
  then show "d + 1 \<noteq> 0" by (metis Suc_eq_plus1 nat.simps(3) unsigned_0)
qed

text \<open>What stands in parentheses, the closing one included.\<close>

lemma goes_close:
  assumes "goes env True (d + 1) x ts st' (d + 1)" "unat (d :: u32) + 1 < 2 ^ 32"
  shows "goes env True (d + 1) (x @ '') '') (ts @ [T_CloseParen]) False d"
proof -
  have "goes env st' (d + 1) ('')'' @ '' '') [T_CloseParen] False d"
    using goes_token [OF close_reads [OF depth_next(1) [OF assms(2)]]] by fastforce
  from goes_append [OF assms(1) this] show ?thesis by simp
qed

lemma nesting_member: "e \<in> set es \<Longrightarrow> nesting e \<le> fold max (map nesting es) n"
proof (induction es arbitrary: n)
  case (Cons x es)
  have mono: "m \<le> fold max ks m" for m :: nat and ks by (induction ks arbitrary: m) (auto intro: order_trans [OF max.cobounded2])
  show ?case using Cons mono [of "max (nesting x) n" "map nesting es"] by (auto intro: order_trans [OF max.cobounded1])
qed simp

lemma goes_joined:
  assumes "es \<noteq> []" "\<forall>e \<in> set es. lexes env rt mt e \<and> unat d + nesting e < 2 ^ 32"
    and "lex_ok env rt mt st (hd es)" "list_all (lex_ok env rt mt True) (tl es)"
  shows "goes env st d (joined (map (ast_text rt mt) es)) (separated (map ast_tokens es)) False d"
  using assms
proof (induction es arbitrary: st rule: list_nonempty_induct)
  case (single e)
  then show ?case by (simp add: lexes_def)
next
  case (cons e es)
  have e: "goes env st d (ast_text rt mt e) (ast_tokens e) False d" using cons.prems by (simp add: lexes_def)
  obtain e' es' where es: "es = e' # es'" using cons.hyps by (cases es) auto
  have "goes env True d (joined (map (ast_text rt mt) es)) (separated (map ast_tokens es)) False d"
    using cons.prems es by (intro cons.IH) auto
  from goes_append [OF e goes_append [OF goes_token [OF comma_reads] this]] show ?case by (simp add: es)
qed

lemma goes_args:
  assumes "\<forall>e \<in> set es. lexes env rt mt e \<and> unat d + nesting e < 2 ^ 32" "list_all (lex_ok env rt mt True) es"
  shows "\<exists>st'. goes env True d (joined (map (ast_text rt mt) es)) (separated (map ast_tokens es)) st' d"
proof (cases es)
  case (Cons e es')
  with assms goes_joined [of es env rt mt d True] show ?thesis by auto
qed (use goes_Nil in auto)

lemma lexes_unary:
  assumes "lexes env rt mt e"
  shows "lexes env rt mt (A_Unary u e)"
  unfolding lexes_def
proof (intro allI impI)
  fix st and d :: u32
  assume ok: "lex_ok env rt mt st (A_Unary u e)" "unat d + nesting (A_Unary u e) < 2 ^ 32"
  then have "goes env False d (ast_text rt mt e) (ast_tokens e) False d" using assms by (simp add: lexes_def)
  from goes_append [OF goes_token [OF unary_reads] this, of u st] ok(1)
  show "goes env st d (ast_text rt mt (A_Unary u e)) (ast_tokens (A_Unary u e)) False d" by simp
qed

lemma lexes_binary:
  assumes "lexes env rt mt l" "lexes env rt mt r"
  shows "lexes env rt mt (A_Binary b l r)"
  unfolding lexes_def
proof (intro allI impI)
  fix st and d :: u32
  assume "lex_ok env rt mt st (A_Binary b l r)" "unat d + nesting (A_Binary b l r) < 2 ^ 32"
  then have "goes env st d (ast_text rt mt l) (ast_tokens l) False d" "goes env True d (ast_text rt mt r) (ast_tokens r) False d"
    using assms by (auto simp: lexes_def)
  from goes_append [OF this(1) goes_append [OF goes_token [OF op_reads] this(2)], of b]
  show "goes env st d (ast_text rt mt (A_Binary b l r)) (ast_tokens (A_Binary b l r)) False d" by simp
qed

lemma lexes_paren:
  assumes "lexes env rt mt e"
  shows "lexes env rt mt (A_Paren e)"
  unfolding lexes_def
proof (intro allI impI)
  fix st and d :: u32
  assume "lex_ok env rt mt st (A_Paren e)" "unat d + nesting (A_Paren e) < 2 ^ 32"
  then have d: "unat d + 1 < 2 ^ 32" and "goes env True (d + 1) (ast_text rt mt e) (ast_tokens e) False (d + 1)"
    using assms depth_next(2) [of d] by (auto simp: lexes_def)
  from goes_append [OF goes_token [OF open_reads] goes_close [OF this(2) d]]
  show "goes env st d (ast_text rt mt (A_Paren e)) (ast_tokens (A_Paren e)) False d" by simp
qed

lemma lexes_regex:
  assumes "lexes env rt mt e"
  shows "lexes env rt mt (A_Regex r e)"
  unfolding lexes_def
proof (intro allI impI)
  fix st and d :: u32
  assume ok: "lex_ok env rt mt st (A_Regex r e)" "unat d + nesting (A_Regex r e) < 2 ^ 32"
  then have d: "unat d + 1 < 2 ^ 32" and "goes env True (d + 1) (ast_text rt mt e) (ast_tokens e) False (d + 1)"
    using assms depth_next(2) [of d] by (auto simp: lexes_def)
  from goes_append [OF goes_regex goes_close [OF this(2) d]] ok
  show "goes env st d (ast_text rt mt (A_Regex r e)) (ast_tokens (A_Regex r e)) False d" by simp
qed

lemma lexes_system: "lexes env rt mt (A_System s)"
  unfolding lexes_def
proof (intro allI impI)
  fix st and d :: u32
  assume ok: "lex_ok env rt mt st (A_System s)" "unat d + nesting (A_System s) < 2 ^ 32"
  then have d: "unat d + 1 < 2 ^ 32" by simp
  from goes_append [OF goes_system goes_close [OF goes_Nil d]] ok
  show "goes env st d (ast_text rt mt (A_System s)) (ast_tokens (A_System s)) False d" by simp
qed

lemma lexes_call:
  assumes "\<forall>e \<in> set es. lexes env rt mt e"
  shows "lexes env rt mt (A_Call name i es)"
  unfolding lexes_def
proof (intro allI impI)
  fix st and d :: u32
  assume ok: "lex_ok env rt mt st (A_Call name i es)" "unat d + nesting (A_Call name i es) < 2 ^ 32"
  then have d: "unat d + 1 < 2 ^ 32" by simp
  have "\<forall>e \<in> set es. lexes env rt mt e \<and> unat (d + 1) + nesting e < 2 ^ 32"
    using assms ok(2) depth_next(2) [OF d] nesting_member [of _ es 0] by fastforce
  then obtain st' where a: "goes env True (d + 1) (joined (map (ast_text rt mt) es)) (separated (map ast_tokens es)) st' (d + 1)"
    using goes_args ok(1) by fastforce
  have "reads_token env (name @ '' '') st d (T_Function name i (of_nat (length es))) False d"
    using ok(1) by (intro reads_tokenI function_name_read) simp
  from goes_append [OF goes_token [OF this] goes_append [OF goes_token [OF open_reads] goes_close [OF a d]]]
  show "goes env st d (ast_text rt mt (A_Call name i es)) (ast_tokens (A_Call name i es)) False d" by simp
qed

lemma lexes_index:
  assumes "lexes env rt mt a" "lexes env rt mt i"
  shows "lexes env rt mt (A_Index a i)"
  unfolding lexes_def
proof (intro allI impI)
  fix st and d :: u32
  assume "lex_ok env rt mt st (A_Index a i)" "unat d + nesting (A_Index a i) < 2 ^ 32"
  then have "goes env st d (ast_text rt mt a) (ast_tokens a) False d" "goes env False d (ast_text rt mt i) (ast_tokens i) False d"
    using assms by (auto simp: lexes_def)
  from goes_append [OF this(1) goes_append [OF goes_token [OF brackets_read(1)] goes_append [OF this(2) goes_token [OF brackets_read(2)]]]]
  show "goes env st d (ast_text rt mt (A_Index a i)) (ast_tokens (A_Index a i)) False d" by simp
qed

lemma lexes_array:
  assumes "\<forall>e \<in> set es. lexes env rt mt e"
  shows "lexes env rt mt (A_Array es)"
  unfolding lexes_def
proof (intro allI impI)
  fix st and d :: u32
  assume ok: "lex_ok env rt mt st (A_Array es)" "unat d + nesting (A_Array es) < 2 ^ 32"
  have m: "\<forall>e \<in> set es. lexes env rt mt e \<and> unat d + nesting e < 2 ^ 32"
    using assms ok(2) nesting_member [of _ es 0] by fastforce
  have "\<exists>st'. goes env False d (joined (map (ast_text rt mt) es)) (separated (map ast_tokens es)) st' d"
  proof (cases es)
    case (Cons e es')
    with ok(1) goes_joined [OF _ m, of False] show ?thesis by auto
  qed (use goes_Nil in auto)
  then obtain st' where "goes env False d (joined (map (ast_text rt mt) es)) (separated (map ast_tokens es)) st' d" ..
  from goes_append [OF goes_token [OF brackets_read(1)] goes_append [OF this goes_token [OF brackets_read(2)]]]
  show "goes env st d (ast_text rt mt (A_Array es)) (ast_tokens (A_Array es)) False d" by simp
qed

lemma lexes_all:
  assumes "tiny_map_spec (variable_map env)" "tiny_map_spec (constant_map env)"
  shows "lexes env rt mt e"
proof (induction e)
  case (A_Variable v)
  then show ?case unfolding lexes_def
    using variable_name_read [OF assms(1)] by (auto intro!: goes_token reads_tokenI)
next
  case (A_Global g)
  then show ?case unfolding lexes_def using goes_token [OF global_reads] by fastforce
next
  case (A_Capture c)
  then show ?case unfolding lexes_def using goes_token [OF capture_reads] by fastforce
next
  case (A_Constant k)
  then show ?case unfolding lexes_def using goes_token [OF const_reads [OF assms]] by fastforce
qed (simp_all add: lexes_unary lexes_binary lexes_paren lexes_call lexes_regex lexes_system lexes_index lexes_array)

section \<open>From the text of a setting to its value\<close>

lemma text_compiles:
  assumes "tiny_map_spec (variable_map env)" "tiny_map_spec (constant_map env)"
    and "ast_wf e" "lex_ok env rt mt True e" "nesting e < 2 ^ 32"
  shows "expression_compile env (ast_text rt mt e) = Inr (ast_code e)"
proof -
  have "goes env True 0 (ast_text rt mt e) (ast_tokens e) False 0"
    using lexes_all [OF assms(1,2), of rt mt e] assms(4,5) by (simp add: lexes_def)
  moreover have "ready True 0 (ast_text rt mt e @ []) (tokenizer_new (ast_text rt mt e))"
    by (simp add: ready_def ready_state_def tokenizer_new_def)
  ultimately obtain t' where t': "yields env (tokenizer_new (ast_text rt mt e)) (ast_tokens e) t'" "ready False 0 [] t'"
    unfolding goes_def by blast
  obtain p l where p: "parse_tokens (ast_tokens e) False parser_new = Inr (p, l)"
    "finish_loop (out_items p) (operator_stack p) = Inr (ast_code e)"
    using parse_of_reads [OF reads_all [OF assms(3)]] by (auto simp: expression_parse_def split: sum.splits)
  have "tokenizer_next env t' = Inr (None, ready_state False 0 [])"
    using ready_next [OF t'(2), of env] by (simp add: tokenizer_next_def ready_state_def next_end_def)
  then have "parse_text env t' l p = Inr (ast_code e)" by (subst parse_text.simps) (simp add: p(2))
  with yields_parse [OF t'(1), of False parser_new] p(1) show ?thesis by (simp add: expression_compile_def)
qed

text \<open>The meaning of a block of conditions: the result of the first condition that holds.\<close>

fun block_meaning ::
  "'f float_ops \<Rightarrow> ('a \<Rightarrow> 'w eval_context \<Rightarrow> ('f var, 'e, 'w) eval_result) \<Rightarrow> ('a \<times> 'a) list \<Rightarrow> 'a \<Rightarrow> 'w eval_context \<Rightarrow>
     ('f var, 'e, 'w) eval_result" where
  "block_meaning fo meaning [] d c = meaning d c"
| "block_meaning fo meaning ((i, t) # ms) d c =
     then_eval (meaning i c) (\<lambda>v c. if to_bool fo v then meaning t c else block_meaning fo meaning ms d c)"

text \<open>What a client of the expressions needs: the text of an expression compiles, and the code computes what the expression means.\<close>

locale compiled_language =
  fixes env :: "('r, 'm, 'f) token_env"
    and venv :: "(expression_variable, 'r, 'm, 'f, 'e, 'w) eval_env"
    and text_of :: "'a \<Rightarrow> bytes"
    and code_of :: "'a \<Rightarrow> ('r, 'm, 'f) expr_item list"
    and meaning :: "'a \<Rightarrow> 'w eval_context \<Rightarrow> ('f var, 'e, 'w) eval_result"
    and ok :: "'a \<Rightarrow> bool"
  assumes compiles: "ok e \<Longrightarrow> expression_compile env (text_of e) = Inr (code_of e)"
    and runs: "ok e \<Longrightarrow> eval_expression venv (code_of e) c = meaning e c"
begin

lemma matches_compile:
  "list_all (\<lambda>(i, t). ok i \<and> ok t) ms \<Longrightarrow>
   compile_matches env n (map (map_prod text_of text_of) ms) = Inr (map (map_prod code_of code_of) ms)"
  by (induction ms arbitrary: n) (auto simp: compiles)

lemma block_runs:
  "list_all (\<lambda>(i, t). ok i \<and> ok t) ms \<Longrightarrow> ok d \<Longrightarrow>
   eval_block_loop venv (map (map_prod code_of code_of) ms) (code_of d) c = block_meaning (float_env venv) meaning ms d c"
proof (induction ms arbitrary: c)
  case (Cons m ms)
  obtain i t where m: "m = (i, t)" by (cases m)
  with Cons show ?case by (auto simp: runs then_eval_def split: sum.split prod.split)
qed (simp add: runs)

end

definition text_ok :: "('r, 'm, 'f) token_env \<Rightarrow> ('r \<Rightarrow> bytes) \<Rightarrow> ('m \<Rightarrow> bytes) \<Rightarrow> ('r, 'm, 'f) expr_ast \<Rightarrow> bool" where
  "text_ok env rt mt e \<longleftrightarrow> ast_wf e \<and> lex_ok env rt mt True e \<and> nesting e < 2 ^ 32 \<and> length (ast_code e) < 2 ^ 32"

interpretation expr: compiled_language env venv "ast_text rt mt" ast_code "sem venv"
  "\<lambda>e. tiny_map_spec (variable_map env) \<and> tiny_map_spec (constant_map env) \<and> text_ok env rt mt e"
  for env venv rt mt
  by unfold_locales (auto simp: text_ok_def text_compiles eval_expression_sem)

lemma ast_text_nonempty: "lex_ok env rt mt st e \<Longrightarrow> ast_text rt mt e \<noteq> []"
  by (induction e arbitrary: st) auto

text \<open>The setting that is written with given conditions and results.\<close>

definition written_setting ::
  "('r \<Rightarrow> bytes) \<Rightarrow> ('m \<Rightarrow> bytes) \<Rightarrow> (('r, 'm, 'f) expr_ast \<times> ('r, 'm, 'f) expr_ast) list \<Rightarrow> ('r, 'm, 'f) expr_ast \<Rightarrow> expression_setting" where
  "written_setting rt mt ms d =
     \<lparr> match_list = map (map_prod (ast_text rt mt) (ast_text rt mt)) ms, else_text = ast_text rt mt d \<rparr>"

lemma context_env_maps [simp]:
  "variable_map (context_env env ctx) = variable_map env" "constant_map (context_env env ctx) = constant_map env"
  by (simp_all add: context_env_def)

text \<open>C38: From the text of a setting to its value: a setting written with well-formed expressions that the tokenizer can read, whose variables and
  constants are allowed in its context, compiles without a message, and in every environment and context its evaluation gives the value, or the
  error, that the result of the first condition with a true value means, or the result for no condition if there is none; the captures and the
  effects of the conditions evaluated before are kept and no later condition is evaluated. The only hypothesis on code outside of the program is
  that the generated lookups find the names of their tables.\<close>

theorem setting_evaluates:
  assumes "tiny_map_spec (variable_map env)" "tiny_map_spec (constant_map env)"
    and "list_all (\<lambda>(i, t). text_ok (context_env env ctx) rt mt i \<and> text_ok (context_env env ctx) rt mt t) ms"
    and "text_ok (context_env env ctx) rt mt d"
  shows "\<exists>b. try_compile_expr env ctx (written_setting rt mt ms d) = ([], Some b) \<and>
    (\<forall>c. eval_block venv b c = block_meaning (float_env venv) (sem venv) ms d c)"
proof -
  let ?env = "context_env env ctx"
  let ?b = "\<lparr> if_then = map (map_prod ast_code ast_code) ms, default_expr = ast_code d \<rparr>"
  have ms: "list_all (\<lambda>(i, t). (tiny_map_spec (variable_map ?env) \<and> tiny_map_spec (constant_map ?env) \<and> text_ok ?env rt mt i) \<and>
      (tiny_map_spec (variable_map ?env) \<and> tiny_map_spec (constant_map ?env) \<and> text_ok ?env rt mt t)) ms"
    using assms(1-3) by (simp add: case_prod_unfold)
  have "\<not> list_ex (\<lambda>(i, t). i = [] \<or> t = []) (match_list (written_setting rt mt ms d))" "else_text (written_setting rt mt ms d) \<noteq> []"
    using assms(3,4) ast_text_nonempty by (fastforce simp: written_setting_def list_ex_iff list_all_iff text_ok_def)+
  then have "try_compile_expr env ctx (written_setting rt mt ms d) = ([], Some ?b)"
    using expr.matches_compile [OF ms] expr.compiles [of ?env rt mt d] assms
    by (simp add: try_compile_expr_def) (simp add: written_setting_def)
  moreover have "eval_block venv ?b c = block_meaning (float_env venv) (sem venv) ms d c" for c
    using expr.block_runs [OF ms, of d venv c] assms by (simp add: eval_block_def)
  ultimately show ?thesis by blast
qed

section \<open>An example\<close>

definition sample_tokens :: "(bytes, unit, int) token_env" where
  "sample_tokens =
     \<lparr> float_parse = (\<lambda>_. None), regex_new = Some, metric_parse = (\<lambda>_. None), variable_map = map_of, constant_map = map_of,
       env_tokens = default_token_map \<rparr>"

definition sample_ctx :: expression_context where
  "sample_ctx = \<lparr> ctx_default = None, allowed_variables = [Var_RemoteIp, Var_IsTls], allowed_constants = [] \<rparr>"

definition sample_values :: "(expression_variable, bytes, unit, int, unit, nat) eval_env" where
  "sample_values =
     \<lparr> float_env = example_floats, resolve_variable = (\<lambda>v. if v = Var_RemoteIp then V_String ''10.0.0.1'' else V_Integer 0),
       resolve_global = (\<lambda>_. default_var), server_name = [], default_domain_name = [], node_id = 0, local_hostname = [],
       cluster_role = None, read_metric = (\<lambda>_. 0), fn_table = [fn_count], eval_fnc = (\<lambda>i args w. (Inl (), w)),
       regex_captures = (\<lambda>_ _. None) \<rparr>"

text \<open>\<open>remote_ip == "10.0.0.1" && ! is_tls\<close> gives \<open>relaxed\<close>, and \<open>count(remote_ip)\<close> is the result otherwise.\<close>

definition sample_if :: "(bytes, unit, int) expr_ast" where
  "sample_if =
     A_Binary Op_And (A_Binary Op_Eq (A_Variable Var_RemoteIp) (A_Constant (K_String ''10.0.0.1''))) (A_Unary Op_Not (A_Variable Var_IsTls))"

definition sample_else :: "(bytes, unit, int) expr_ast" where
  "sample_else = A_Call ''count'' 0 [A_Variable Var_RemoteIp]"

lemma sample_text:
  "ast_text id (\<lambda>_. []) sample_if = ''remote_ip == '' @ [CHR 0x22] @ ''10.0.0.1'' @ [CHR 0x22] @ '' && ! is_tls ''"
  by (simp add: sample_if_def quoted_def)

lemmas sample_defs = sample_tokens_def sample_ctx_def context_env_def with_variables_def with_constants_def default_token_map_def

lemma sample_ok:
  "text_ok (context_env sample_tokens sample_ctx) id (\<lambda>_. []) sample_if"
  "text_ok (context_env sample_tokens sample_ctx) id (\<lambda>_. []) (A_Constant (K_Static C_Relaxed))"
  "text_ok (context_env sample_tokens sample_ctx) id (\<lambda>_. []) sample_else"
  by (simp_all add: text_ok_def sample_if_def sample_else_def sample_defs quotable_def utf8_valid_ascii byte_in_def args_fit_def
      ID_ARRAY_ACCESS_def ID_ARRAY_BUILD_def function_lookup_def FUNCTIONS_def)

theorem setting_evaluates_witness:
  "\<exists>b. try_compile_expr sample_tokens sample_ctx
      (written_setting id (\<lambda>_. []) [(sample_if, A_Constant (K_Static C_Relaxed))] sample_else) = ([], Some b) \<and>
    eval_block sample_values b ([], 0) = (Inr (V_Constant C_Relaxed), ([], 0))"
proof -
  have "tiny_map_spec (variable_map sample_tokens)" "tiny_map_spec (constant_map sample_tokens)"
    by (simp_all add: sample_tokens_def tiny_map_spec_def)
  moreover have "block_meaning (float_env sample_values) (sem sample_values) [(sample_if, A_Constant (K_Static C_Relaxed))] sample_else ([], 0) =
      (Inr (V_Constant C_Relaxed), ([], 0))"
    by (simp add: sample_if_def sample_values_def op_eq_def op_not_def op_and_def var_of_bool_def i64_of_bool_def)
  ultimately show ?thesis
    using setting_evaluates [where env = sample_tokens and ctx = sample_ctx and rt = id and mt = "\<lambda>_. []" and venv = sample_values
        and ms = "[(sample_if, A_Constant (K_Static C_Relaxed))]" and d = sample_else] sample_ok by auto
qed

section \<open>Texts that are read differently from what they seem to say\<close>

lemmas text_defs = expression_compile_def tokenizer_new_def parser_new_def tokenizer_next_def next_other_def prev_token_of_def
  symbol_token_def peek_next_def skip_next_def char_tests push_buf_def next_end_def parse_buf_def Let_def

text \<open>A single equals sign swallows the character after it: \<open>size=5\<close> compares with nothing.\<close>

lemma single_equals_swallows:
  "symbol_token (CHR ''='') (ready_state st d (c # cs)) =
     Inr (T_Binary (if c = CHR ''>'' then Op_Ge else if c = CHR ''<'' then Op_Le else Op_Eq), ready_state st d cs)"
  by (simp add: symbol_token_def peek_next_def skip_next_def ready_state_def)

text \<open>The backslash of an escaped character stays in the string.\<close>

lemma escape_keeps_backslash:
  "parse_string (CHR 0x22) (CHR 0x5C # CHR 0x22 # CHR 0x22 # rest) = Inr ([CHR 0x5C, CHR 0x22], rest)"
  by (simp add: parse_string_def unescape_def utf8_valid_ascii byte_in_def)

text \<open>An array with a negative number is compiled to an empty array.\<close>

lemma negative_array_is_empty:
  "expression_compile env ''[-1]'' = Inr [I_Constant (K_Integer 1), I_Binary Op_Subtract, I_ArrayBuild 0]"
proof -
  have n: "parse_i64 ''1'' = Some 1" "utf8_valid ''1''"
    by (simp_all add: parse_i64_def digits_only_def is_ascii_digit_def byte_in_def digits_value_def utf8_valid_ascii)
  have t: "tokenizer_next env (tokenizer_new ''[-1]'') = Inr (Some T_OpenBracket, ready_state False 0 ''-1]'')"
    by (simp add: text_defs ready_state_def)
  have t1: "tokenizer_next env (ready_state False 0 ''-1]'') = Inr (Some (T_Binary Op_Subtract), ready_state True 0 ''1]'')"
    by (simp add: text_defs ready_state_def)
  have t2: "tokenizer_next env (ready_state True 0 ''1]'') =
      Inr (Some (T_Constant (K_Integer 1)), (ready_state False 0 []) \<lparr> next_token := [T_CloseBracket] \<rparr>)"
    by (simp add: text_defs ready_state_def n)
  have t3: "tokenizer_next env ((ready_state False 0 []) \<lparr> next_token := [T_CloseBracket] \<rparr>) =
      Inr (Some T_CloseBracket, ready_state False 0 [])"
    by (simp add: tokenizer_next_def ready_state_def)
  have t4: "tokenizer_next env (ready_state False 0 []) = Inr (None, ready_state False 0 [])"
    by (simp add: tokenizer_next_def ready_state_def next_end_def)
  let ?toks = "[T_OpenBracket, T_Binary Op_Subtract, T_Constant (K_Integer 1), T_CloseBracket]"
  have "yields env (tokenizer_new ''[-1]'') ?toks (ready_state False 0 [])" using t t1 t2 t3 by simp
  from yields_parse [OF this, of False parser_new] show ?thesis
    by (simp add: expression_compile_def parse_text.simps [of _ "ready_state False 0 []"] t4 parser_new_def open_bracket_def push_operator_def
        push_operand_def inc_arg_count_def parse_close_def call_closed_def bump_entry_def parse_binary_def dec_arg_count_def pop_binary_def
        update_jmp_pos_def function_item_def ID_ARRAY_BUILD_def ID_ARRAY_ACCESS_def Let_def)
qed

end
