(* ===== verification/SmtpQueue.thy ===== *)
theory SmtpQueue
  imports IpMask "HOL-Library.AList"
begin

text \<open>
  A message of the outbound queue and what a delivery attempt does to it
  (\<open>src/crates/smtp/src/queue/mod.rs\<close>, the schedules of \<open>manager.rs\<close> and
  \<open>spool.rs\<close>, the recipient updates of \<open>outbound/delivery.rs\<close>, the choice of a
  queue in \<open>common/src/network/mta.rs\<close>). Times are seconds since the epoch in 64
  bits and wrap as the code's additions do. The setting that names the queue of a
  recipient is an expression evaluated elsewhere and a parameter here, as are the
  Unicode functions used on addresses. A panic of the code is \<open>None\<close>.
\<close>

section \<open>Data\<close>

type_synonym queue_name = bytes
type_synonym queue_id = u64

datatype queue_expiry = Ttl u64 | Attempts u32

record 'a schedule =
  due :: u64
  inner :: 'a

record response =
  code :: u16
  esc :: "u8 \<times> u8 \<times> u8"
  resp_message :: bytes

record host_response =
  hostname :: bytes
  response :: response

record unexpected_response =
  command :: bytes
  unexpected :: response

datatype queue_error =
    DnsError bytes
  | UnexpectedResponse unexpected_response
  | ConnectionError bytes
  | TlsError bytes
  | DaneError bytes
  | MtaStsError bytes
  | RateLimited
  | ConcurrencyLimited
  | Io bytes

record error_details =
  entity :: bytes
  details :: queue_error

datatype ('t, 'e) status =
    Scheduled
  | Completed 't
  | TemporaryFailure 'e
  | PermanentFailure 'e

type_synonym rcpt_status = "(host_response, error_details) status"

record recipient =
  address :: bytes
  retry :: "u32 schedule"
  notify :: "u32 schedule"
  rcpt_expires :: queue_expiry
  rcpt_queue :: queue_name
  rcpt_status :: rcpt_status
  rcpt_flags :: u64
  orcpt :: "bytes option"

datatype metadata =
    QueueSize bytes u64
  | QueueCount bytes u64
  | Headers bytes u64

record message =
  created :: u64
  blob_hash :: bytes
  return_path :: bytes
  recipients :: "recipient list"
  received_from_ip :: ip_addr
  received_via_port :: u16
  msg_flags :: u64
  env_id :: "bytes option"
  priority :: u16
  msg_size :: u64
  msg_metadata :: "metadata list"

record message_wrapper =
  queue_id :: queue_id
  queue_name :: queue_name
  is_multi_queue :: bool
  span_id :: u64
  message :: message

record queue_strategy =
  qs_retry :: "u64 list"
  qs_notify :: "u64 list"
  qs_expiry :: queue_expiry
  virtual_queue :: queue_name

definition FROM_AUTHENTICATED :: u64 where "FROM_AUTHENTICATED = push_bit 32 1"

definition FROM_UNAUTHENTICATED :: u64 where "FROM_UNAUTHENTICATED = push_bit 33 1"

definition FROM_UNAUTHENTICATED_DMARC :: u64 where "FROM_UNAUTHENTICATED_DMARC = push_bit 34 1"

definition FROM_DSN :: u64 where "FROM_DSN = push_bit 35 1"

definition FROM_REPORT :: u64 where "FROM_REPORT = push_bit 36 1"

definition FROM_AUTOGENERATED :: u64 where "FROM_AUTOGENERATED = push_bit 37 1"

definition RCPT_DSN_SENT :: u64 where "RCPT_DSN_SENT = push_bit 32 1"

definition has_flag :: "recipient \<Rightarrow> u64 \<Rightarrow> bool" where
  "has_flag r flag \<longleftrightarrow> rcpt_flags r AND flag \<noteq> 0"

section \<open>Names of queues\<close>

definition DEFAULT_QUEUE_NAME :: queue_name where
  "DEFAULT_QUEUE_NAME = ''default'' @ [CHR 0x00]"

definition queue_name_new :: "bytes \<Rightarrow> queue_name option" where
  "queue_name_new name =
     (if 1 \<le> length name \<and> length name \<le> 8 then Some (name @ replicate (8 - length name) (CHR 0x00)) else None)"

definition queue_name_from_bytes :: "bytes \<Rightarrow> queue_name option" where
  "queue_name_from_bytes name = (if length name = 8 then Some name else None)"

definition trim_end_nul :: "bytes \<Rightarrow> bytes" where
  "trim_end_nul s = rev (dropWhile (\<lambda>c. c = CHR 0x00) (rev s))"

definition queue_name_as_str :: "queue_name \<Rightarrow> bytes" where
  "queue_name_as_str q = trim_end_nul (if utf8_valid q then q else [])"

section \<open>Addresses\<close>

fun split_at :: "bytes \<Rightarrow> (bytes \<times> bytes) option" where
  "split_at [] = None"
| "split_at (c # s) =
     (case split_at s of
        Some (l, d) \<Rightarrow> Some (c # l, d)
      | None \<Rightarrow> if c = CHR ''@'' then Some ([], s) else None)"

definition domain_part :: "bytes \<Rightarrow> bytes" where
  "domain_part a = (case split_at a of Some (_, d) \<Rightarrow> d | None \<Rightarrow> [])"

definition is_ascii :: "bytes \<Rightarrow> bool" where
  "is_ascii s \<longleftrightarrow> list_all (\<lambda>c. of_char c < (128::nat)) s"

text \<open>
  The Unicode functions on text and the settings of the queue. \<open>eval_queue\<close> is
  the value of the expression that names the strategy for a recipient of a
  message, \<open>None\<close> if it has none.
\<close>

record smtp_env =
  unicode_lower :: "bytes \<Rightarrow> bytes"
  domain_to_ascii :: "bytes \<Rightarrow> bytes option"
  eval_queue :: "message \<Rightarrow> recipient \<Rightarrow> bytes option"
  queue_strategies :: "bytes \<Rightarrow> queue_strategy option"

definition to_lowercase_address :: "'x smtp_env_scheme \<Rightarrow> bool \<Rightarrow> bytes \<Rightarrow> bytes" where
  "to_lowercase_address env lower_local a =
     (case split_at a of
        Some (l, d) \<Rightarrow>
          (if lower_local then unicode_lower env l else l) @ CHR ''@'' #
          (if is_ascii d then map to_ascii_lowercase d
           else (case domain_to_ascii env d of Some d' \<Rightarrow> d' | None \<Rightarrow> unicode_lower env d))
      | None \<Rightarrow> unicode_lower env a)"

definition default_schedule :: queue_strategy where
  "default_schedule =
     \<lparr> qs_retry = [120, 300, 600, 900, 1800, 3600, 7200], qs_notify = [86400, 259200],
       qs_expiry = Ttl 432000, virtual_queue = DEFAULT_QUEUE_NAME \<rparr>"

definition get_queue_or_default :: "'x smtp_env_scheme \<Rightarrow> bytes \<Rightarrow> queue_strategy" where
  "get_queue_or_default env name =
     (case queue_strategies env name of Some s \<Rightarrow> s | None \<Rightarrow> default_schedule)"

definition strategy_of :: "'x smtp_env_scheme \<Rightarrow> message \<Rightarrow> recipient \<Rightarrow> queue_strategy" where
  "strategy_of env m r =
     get_queue_or_default env (case eval_queue env m r of Some name \<Rightarrow> name | None \<Rightarrow> ''default'')"

section \<open>Schedules\<close>

definition schedule_now :: "u64 \<Rightarrow> u32 schedule" where
  "schedule_now now = \<lparr> due = now, inner = 0 \<rparr>"

definition schedule_later :: "u64 \<Rightarrow> u64 \<Rightarrow> u32 schedule" where
  "schedule_later now duration = \<lparr> due = now + duration, inner = 0 \<rparr>"

definition recipient_new :: "'x smtp_env_scheme \<Rightarrow> u64 \<Rightarrow> bytes \<Rightarrow> recipient" where
  "recipient_new env now a =
     \<lparr> address = to_lowercase_address env False a, retry = schedule_now now, notify = schedule_now now,
       rcpt_expires = Attempts 0, rcpt_queue = DEFAULT_QUEUE_NAME, rcpt_status = Scheduled,
       rcpt_flags = 0, orcpt = None \<rparr>"

fun is_pending :: "('t, 'e) status \<Rightarrow> bool" where
  "is_pending Scheduled \<longleftrightarrow> True"
| "is_pending (TemporaryFailure _) \<longleftrightarrow> True"
| "is_pending _ \<longleftrightarrow> False"

definition expiration_time :: "recipient \<Rightarrow> u64 \<Rightarrow> u64 option" where
  "expiration_time r c = (case rcpt_expires r of Ttl time \<Rightarrow> Some (c + time) | Attempts _ \<Rightarrow> None)"

definition is_expired :: "recipient \<Rightarrow> u64 \<Rightarrow> u64 \<Rightarrow> bool" where
  "is_expired r c now \<longleftrightarrow>
     (case rcpt_expires r of Ttl time \<Rightarrow> c + time \<le> now | Attempts count \<Rightarrow> count \<le> inner (retry r))"

definition in_queue :: "queue_name option \<Rightarrow> recipient \<Rightarrow> bool" where
  "in_queue q r \<longleftrightarrow> (case q of None \<Rightarrow> True | Some q' \<Rightarrow> rcpt_queue r = q')"

definition earlier_event :: "u64 \<Rightarrow> recipient \<Rightarrow> u64" where
  "earlier_event c r =
     (let e = min (due (retry r)) (due (notify r))
      in case expiration_time r c of Some x \<Rightarrow> min e x | None \<Rightarrow> e)"

fun lowest :: "('a \<Rightarrow> u64) \<Rightarrow> u64 option \<Rightarrow> 'a list \<Rightarrow> u64 option" where
  "lowest f acc [] = acc"
| "lowest f acc (r # rs) =
     lowest f (case acc of Some n \<Rightarrow> Some (if f r < n then f r else n) | None \<Rightarrow> Some (f r)) rs"

fun next_event_loop :: "queue_name option \<Rightarrow> u64 \<Rightarrow> u64 option \<Rightarrow> recipient list \<Rightarrow> u64 option" where
  "next_event_loop q c acc [] = acc"
| "next_event_loop q c acc (r # rs) =
     next_event_loop q c
       (if is_pending (rcpt_status r) \<and> in_queue q r then
          (case acc of
             Some n \<Rightarrow> Some (if earlier_event c r < n then earlier_event c r else n)
           | None \<Rightarrow> Some (earlier_event c r))
        else acc) rs"

definition next_event :: "message \<Rightarrow> queue_name option \<Rightarrow> u64 option" where
  "next_event m q = next_event_loop q (created m) None (recipients m)"

definition next_delivery_event :: "message \<Rightarrow> queue_name option \<Rightarrow> u64 option" where
  "next_delivery_event m q =
     lowest (\<lambda>r. due (retry r)) None (filter (\<lambda>r. is_pending (rcpt_status r) \<and> in_queue q r) (recipients m))"

definition next_dsn :: "message \<Rightarrow> queue_name option \<Rightarrow> u64 option" where
  "next_dsn m q =
     lowest (\<lambda>r. due (notify r)) None (filter (\<lambda>r. is_pending (rcpt_status r) \<and> in_queue q r) (recipients m))"

fun expires_loop :: "u64 \<Rightarrow> u64 option \<Rightarrow> recipient list \<Rightarrow> u64 option" where
  "expires_loop c acc [] = acc"
| "expires_loop c acc (r # rs) =
     expires_loop c
       (case expiration_time r c of
          Some e \<Rightarrow> (case acc of Some n \<Rightarrow> Some (if n < e then e else n) | None \<Rightarrow> Some e)
        | None \<Rightarrow> acc) rs"

definition message_expires :: "message \<Rightarrow> queue_name option \<Rightarrow> u64 option" where
  "message_expires m q =
     expires_loop (created m) None (filter (\<lambda>r. is_pending (rcpt_status r) \<and> in_queue q r) (recipients m))"

fun next_events_loop :: "u64 \<Rightarrow> (queue_name \<times> u64) list \<Rightarrow> recipient list \<Rightarrow> (queue_name \<times> u64) list" where
  "next_events_loop c es [] = es"
| "next_events_loop c es (r # rs) =
     next_events_loop c
       (if is_pending (rcpt_status r) then
          (case map_of es (rcpt_queue r) of
             Some e \<Rightarrow> if earlier_event c r < e then AList.update (rcpt_queue r) (earlier_event c r) es else es
           | None \<Rightarrow> AList.update (rcpt_queue r) (earlier_event c r) es)
        else es) rs"

definition next_events :: "message \<Rightarrow> (queue_name \<times> u64) list" where
  "next_events m = next_events_loop (created m) [] (recipients m)"

text \<open>The same functions on the archived form of a message, as it is stored.\<close>

definition archived_next_delivery_event :: "message \<Rightarrow> queue_name option \<Rightarrow> u64 option" where
  "archived_next_delivery_event m q =
     lowest (\<lambda>r. due (retry r)) None (filter (\<lambda>r. is_pending (rcpt_status r) \<and> in_queue q r) (recipients m))"

definition archived_next_event :: "message \<Rightarrow> queue_name option \<Rightarrow> u64 option" where
  "archived_next_event m q =
     lowest (\<lambda>r. let e = min (due (retry r)) (due (notify r))
                 in case rcpt_expires r of Ttl ttl \<Rightarrow> min e (created m + ttl) | Attempts _ \<Rightarrow> e) None
       (filter (\<lambda>r. is_pending (rcpt_status r) \<and> in_queue q r) (recipients m))"

definition archived_next_notify_event :: "message \<Rightarrow> queue_name option \<Rightarrow> u64 option" where
  "archived_next_notify_event m q =
     lowest (\<lambda>r. due (notify r)) None (filter (\<lambda>r. is_pending (rcpt_status r) \<and> in_queue q r) (recipients m))"

section \<open>Changes of a recipient\<close>

fun into_permanent :: "('t, 'e) status \<Rightarrow> ('t, 'e) status" where
  "into_permanent (TemporaryFailure e) = PermanentFailure e"
| "into_permanent s = s"

fun into_temporary :: "('t, 'e) status \<Rightarrow> ('t, 'e) status" where
  "into_temporary (PermanentFailure e) = TemporaryFailure e"
| "into_temporary s = s"

fun is_permanent :: "('t, 'e) status \<Rightarrow> bool" where
  "is_permanent (PermanentFailure _) \<longleftrightarrow> True"
| "is_permanent _ \<longleftrightarrow> False"

datatype pending_delivery = Pending bool | NotPending

definition never_attempted :: "recipient \<Rightarrow> error_details" where
  "never_attempted r =
     \<lparr> entity = domain_part (address r), details = Io ''Message expired without any delivery attempts made.'' \<rparr>"

fun has_pending_loop ::
  "queue_name \<Rightarrow> u64 \<Rightarrow> u64 \<Rightarrow> recipient list \<Rightarrow> bool \<Rightarrow> bool \<Rightarrow> recipient list \<times> bool \<times> bool" where
  "has_pending_loop q c now [] pending here = ([], pending, here)"
| "has_pending_loop q c now (r # rs) pending here =
     (let (r', pending', here') =
        (case rcpt_status r of
           TemporaryFailure _ \<Rightarrow>
             (if is_expired r c now then (r\<lparr>rcpt_status := into_permanent (rcpt_status r)\<rparr>, pending, here)
              else (r, True, here \<or> rcpt_queue r = q))
         | Scheduled \<Rightarrow>
             (if is_expired r c now then (r\<lparr>rcpt_status := PermanentFailure (never_attempted r)\<rparr>, pending, here)
              else (r, True, here \<or> rcpt_queue r = q))
         | Completed _ \<Rightarrow> (r, pending, here)
         | PermanentFailure _ \<Rightarrow> (r, pending, here));
        (rs', res) = has_pending_loop q c now rs pending' here'
      in (r' # rs', res))"

definition has_pending_delivery :: "u64 \<Rightarrow> message_wrapper \<Rightarrow> pending_delivery \<times> message_wrapper" where
  "has_pending_delivery now w =
     (let (rs, pending, here) =
        has_pending_loop (queue_name w) (created (message w)) now (recipients (message w)) False False
      in (if pending then Pending here else NotPending, w\<lparr>message := message w\<lparr>recipients := rs\<rparr>\<rparr>))"

definition set_rcpt_status ::
  "'x smtp_env_scheme \<Rightarrow> u64 \<Rightarrow> rcpt_status \<Rightarrow> nat \<Rightarrow> message \<Rightarrow> message option" where
  "set_rcpt_status env now s idx m =
     (if length (recipients m) \<le> idx then None
      else
        let m = m\<lparr>recipients := (recipients m)[idx := (recipients m ! idx)\<lparr>rcpt_status := s\<rparr>]\<rparr>
        in if is_pending s then
             (let r = recipients m ! idx; q = strategy_of env m r
              in if qs_retry q = [] then None
                 else Some (m\<lparr>recipients := (recipients m)[idx :=
                        r\<lparr>retry := \<lparr> due = now + qs_retry q ! min (unat (inner (retry r))) (length (qs_retry q) - 1),
                                   inner = inner (retry r) + 1 \<rparr>,
                          rcpt_expires := qs_expiry q,
                          rcpt_queue := virtual_queue q\<rparr>]\<rparr>))
           else Some m)"

definition rate_limited :: error_details where
  "rate_limited = \<lparr> entity = ''localhost'', details = RateLimited \<rparr>"

definition set_rcpt_rate_limit :: "nat \<Rightarrow> u64 \<Rightarrow> message \<Rightarrow> message option" where
  "set_rcpt_rate_limit idx retry_at m =
     (if length (recipients m) \<le> idx then None
      else Some (m\<lparr>recipients := (recipients m)[idx :=
             (recipients m ! idx)\<lparr>retry := (retry (recipients m ! idx))\<lparr>due := retry_at\<rparr>,
               rcpt_status := TemporaryFailure rate_limited\<rparr>]\<rparr>))"

datatype delivery_result =
    Domain_result rcpt_status "nat list"
  | Account_result rcpt_status nat
  | RateLimited_result "nat list" u64

fun set_each :: "('a \<Rightarrow> message \<Rightarrow> message option) \<Rightarrow> 'a list \<Rightarrow> message \<Rightarrow> message option" where
  "set_each f [] m = Some m"
| "set_each f (i # is) m = (case f i m of Some m' \<Rightarrow> set_each f is m' | None \<Rightarrow> None)"

fun apply_result :: "'x smtp_env_scheme \<Rightarrow> u64 \<Rightarrow> delivery_result \<Rightarrow> message \<Rightarrow> message option" where
  "apply_result env now (Domain_result s is) m = set_each (set_rcpt_status env now s) is m"
| "apply_result env now (Account_result s i) m = set_rcpt_status env now s i m"
| "apply_result env now (RateLimited_result is retry_at) m = set_each (\<lambda>i. set_rcpt_rate_limit i retry_at) is m"

definition apply_results ::
  "'x smtp_env_scheme \<Rightarrow> u64 \<Rightarrow> delivery_result list \<Rightarrow> message \<Rightarrow> message option" where
  "apply_results env now = set_each (apply_result env now)"

section \<open>Schedules are least times\<close>

definition pending_in :: "message \<Rightarrow> queue_name option \<Rightarrow> recipient list" where
  "pending_in m q = filter (\<lambda>r. is_pending (rcpt_status r) \<and> in_queue q r) (recipients m)"

lemma lowest_eq: "lowest f acc rs =
  (if acc = None \<and> rs = [] then None else Some (Min (set_option acc \<union> f ` set rs)))"
proof (induction rs arbitrary: acc)
  case Nil
  then show ?case by (cases acc) auto
next
  case (Cons r rs)
  have *: "Min (insert (if f r < n then f r else n) (f ` set rs)) = Min (insert n (insert (f r) (f ` set rs)))" for n
  proof (cases "rs = []")
    case False
    then have "Min (insert n (insert (f r) (f ` set rs))) = min n (min (f r) (Min (f ` set rs)))"
      by (subst Min_insert) auto
    with False show ?thesis by (auto simp: min_def)
  qed (auto simp: min_def)
  show ?case by (cases acc) (simp_all add: Cons.IH * insert_commute del: Min_insert)
qed

text \<open>
  Every schedule of a message is the least of some times over the pending
  recipients of a queue; the four functions of the live and the archived form
  that compute one differ in the time they look at.
\<close>

locale least_time =
  fixes view :: "message \<Rightarrow> queue_name option \<Rightarrow> u64 option"
    and time :: "message \<Rightarrow> recipient \<Rightarrow> u64"
  assumes view_lowest: "view m q = lowest (time m) None (pending_in m q)"
begin

lemma view_eq: "view m q = (if pending_in m q = [] then None else Some (Min (time m ` set (pending_in m q))))"
  by (simp add: view_lowest lowest_eq)

lemma view_None_iff: "view m q = None \<longleftrightarrow> (\<forall>r\<in>set (recipients m). is_pending (rcpt_status r) \<longrightarrow> \<not> in_queue q r)"
  by (auto simp: view_eq pending_in_def filter_empty_conv)

lemma view_le: "view m q = Some t \<Longrightarrow> r \<in> set (pending_in m q) \<Longrightarrow> t \<le> time m r"
  by (auto simp: view_eq split: if_splits)

lemma view_attained: "view m q = Some t \<Longrightarrow> \<exists>r\<in>set (pending_in m q). time m r = t"
proof -
  assume v: "view m q = Some t"
  then have "pending_in m q \<noteq> []" by (auto simp: view_eq)
  then have "Min (time m ` set (pending_in m q)) \<in> time m ` set (pending_in m q)" by (intro Min_in) auto
  then obtain r where "Min (time m ` set (pending_in m q)) = time m r" "r \<in> set (pending_in m q)" by (rule imageE)
  with v show ?thesis by (auto simp: view_eq intro!: bexI [of _ r] split: if_splits)
qed

lemma view_due_iff: "(\<exists>t. view m q = Some t \<and> t \<le> now) \<longleftrightarrow> (\<exists>r\<in>set (pending_in m q). time m r \<le> now)"
proof
  assume "\<exists>t. view m q = Some t \<and> t \<le> now"
  then show "\<exists>r\<in>set (pending_in m q). time m r \<le> now" using view_attained by blast
next
  assume "\<exists>r\<in>set (pending_in m q). time m r \<le> now"
  then obtain r where r: "r \<in> set (pending_in m q)" "time m r \<le> now" by blast
  then obtain t where "view m q = Some t" by (cases "view m q") (auto simp: view_eq split: if_splits)
  with r view_le show "\<exists>t. view m q = Some t \<and> t \<le> now" by (meson order_trans)
qed

end

lemma next_event_loop_lowest:
  "next_event_loop q c acc rs =
     lowest (earlier_event c) acc (filter (\<lambda>r. is_pending (rcpt_status r) \<and> in_queue q r) rs)"
  by (induction rs arbitrary: acc) simp_all

interpretation event: least_time next_event "\<lambda>m. earlier_event (created m)"
  by unfold_locales (simp add: next_event_def next_event_loop_lowest pending_in_def)

interpretation delivery: least_time next_delivery_event "\<lambda>m r. due (retry r)"
  by unfold_locales (simp add: next_delivery_event_def pending_in_def)

interpretation dsn: least_time next_dsn "\<lambda>m r. due (notify r)"
  by unfold_locales (simp add: next_dsn_def pending_in_def)

lemma archived_earlier_event:
  "(\<lambda>r. let e = min (due (retry r)) (due (notify r))
        in case rcpt_expires r of Ttl ttl \<Rightarrow> min e (c + ttl) | Attempts _ \<Rightarrow> e) = earlier_event c"
  by (rule ext) (simp add: earlier_event_def expiration_time_def split: queue_expiry.splits)

interpretation archived_event: least_time archived_next_event "\<lambda>m. earlier_event (created m)"
  by unfold_locales (simp add: archived_next_event_def pending_in_def archived_earlier_event)

lemma map_of_next_events_loop:
  "map_of (next_events_loop c es rs) q = next_event_loop (Some q) c (map_of es q) rs"
proof (induction rs arbitrary: es)
  case (Cons r rs)
  show ?case
    by (simp only: next_events_loop.simps next_event_loop.simps Cons.IH)
       (auto simp: in_queue_def update_conv' split: option.splits)
qed simp

lemma map_of_next_events: "map_of (next_events m) q = next_event m (Some q)"
  by (simp add: next_events_def next_event_def map_of_next_events_loop)

lemma distinct_next_events_loop: "distinct (map fst es) \<Longrightarrow> distinct (map fst (next_events_loop c es rs))"
  by (induction rs arbitrary: es) (auto simp: distinct_update split: option.splits)

lemma distinct_next_events: "distinct (map fst (next_events m))"
  by (simp add: next_events_def distinct_next_events_loop)

lemma next_events_member: "(q, t) \<in> set (next_events m) \<longleftrightarrow> next_event m (Some q) = Some t"
  by (metis map_of_next_events map_of_eq_Some_iff distinct_next_events)

lemma next_events_Nil: "next_events m = [] \<longleftrightarrow> next_event m None = None"
proof -
  have "next_events m = [] \<longleftrightarrow> (\<forall>q. next_event m (Some q) = None)"
    by (metis map_of_next_events map_of.simps(1) map_of_eq_empty_iff ext)
  also have "\<dots> \<longleftrightarrow> (\<forall>r\<in>set (recipients m). \<not> is_pending (rcpt_status r))"
    by (auto simp: event.view_None_iff in_queue_def)
  also have "\<dots> \<longleftrightarrow> next_event m None = None"
    by (auto simp: event.view_None_iff in_queue_def)
  finally show ?thesis .
qed

text \<open>
  The next event of a message in a queue is the least of the retry, notification
  and expiration times over the pending recipients of that queue, and there
  is none exactly when no recipient is pending there. The table of next events
  has one entry per queue with this value, and the archived form of the message
  gives the same.
\<close>

theorem next_event_exact:
  "next_event m q =
     (if pending_in m q = [] then None else Some (Min (earlier_event (created m) ` set (pending_in m q)))) \<and>
   archived_next_event m q = next_event m q \<and>
   distinct (map fst (next_events m)) \<and>
   (\<forall>q t. (q, t) \<in> set (next_events m) \<longleftrightarrow> next_event m (Some q) = Some t)"
  by (auto simp: event.view_eq archived_event.view_eq distinct_next_events next_events_member)

section \<open>Expired recipients\<close>

definition expire :: "u64 \<Rightarrow> u64 \<Rightarrow> recipient \<Rightarrow> recipient" where
  "expire c now r =
     (if is_pending (rcpt_status r) \<and> is_expired r c now
      then r\<lparr>rcpt_status := PermanentFailure
             (case rcpt_status r of TemporaryFailure e \<Rightarrow> e | _ \<Rightarrow> never_attempted r)\<rparr>
      else r)"

lemma has_pending_loop_eq:
  "has_pending_loop q c now rs pending here =
     (map (expire c now) rs,
      pending \<or> (\<exists>r\<in>set (map (expire c now) rs). is_pending (rcpt_status r)),
      here \<or> (\<exists>r\<in>set (map (expire c now) rs). is_pending (rcpt_status r) \<and> rcpt_queue r = q))"
proof (induction rs arbitrary: pending here)
  case (Cons r rs)
  then show ?case by (cases "rcpt_status r") (auto simp: expire_def Let_def)
qed simp

lemma has_pending_delivery_eq:
  "has_pending_delivery now w =
     (let m = (message w)\<lparr>recipients := map (expire (created (message w)) now) (recipients (message w))\<rparr>
      in (if pending_in m None = [] then NotPending else Pending (pending_in m (Some (queue_name w)) \<noteq> []),
          w\<lparr>message := m\<rparr>))"
  by (auto simp: has_pending_delivery_def has_pending_loop_eq pending_in_def in_queue_def Let_def
        filter_empty_conv)

lemma expire_same [simp]:
  "retry (expire c now r) = retry r" "notify (expire c now r) = notify r" "address (expire c now r) = address r"
  "rcpt_queue (expire c now r) = rcpt_queue r" "rcpt_expires (expire c now r) = rcpt_expires r"
  "rcpt_flags (expire c now r) = rcpt_flags r" "orcpt (expire c now r) = orcpt r"
  by (simp_all add: expire_def)

lemma is_pending_expire: "is_pending (rcpt_status (expire c now r)) \<longleftrightarrow> is_pending (rcpt_status r) \<and> \<not> is_expired r c now"
  by (auto simp: expire_def)

lemma is_expired_expire [simp]: "is_expired (expire c now r) c' now' \<longleftrightarrow> is_expired r c' now'"
  by (simp add: is_expired_def split: queue_expiry.split)

lemma has_pending_none:
  "fst (has_pending_delivery now w) = NotPending \<longleftrightarrow> next_event (message (snd (has_pending_delivery now w))) None = None"
  by (simp add: has_pending_delivery_eq Let_def event.view_eq)

text \<open>
  The check before a delivery turns every pending recipient whose time or
  attempts are used up into a permanent failure with its last error, changes no
  other recipient, and tells exactly whether a pending recipient is left and
  whether one is left in the queue at hand.
\<close>

theorem expired_recipients_fail:
  "case has_pending_delivery now w of (p, w') \<Rightarrow>
     w' = w\<lparr>message := (message w)\<lparr>recipients := map (expire (created (message w)) now) (recipients (message w))\<rparr>\<rparr> \<and>
     (p = NotPending \<longleftrightarrow> next_event (message w') None = None) \<and>
     (p = Pending True \<longleftrightarrow> next_event (message w') (Some (queue_name w)) \<noteq> None) \<and>
     (\<forall>r\<in>set (recipients (message w')). is_pending (rcpt_status r) \<longrightarrow> \<not> is_expired r (created (message w')) now)"
  by (auto simp: has_pending_delivery_eq Let_def event.view_eq pending_in_def in_queue_def filter_empty_conv
        is_pending_expire)

section \<open>Retries\<close>

lemma set_rcpt_status_final:
  "idx < length (recipients m) \<Longrightarrow> \<not> is_pending s \<Longrightarrow>
   set_rcpt_status env now s idx m = Some (m\<lparr>recipients := (recipients m)[idx := (recipients m ! idx)\<lparr>rcpt_status := s\<rparr>]\<rparr>)"
  by (simp add: set_rcpt_status_def)

lemma set_rcpt_status_retry:
  assumes "idx < length (recipients m)" "is_pending s"
    and "\<And>m r. qs_retry (strategy_of env m r) \<noteq> []"
  shows "\<exists>q r. set_rcpt_status env now s idx m = Some (m\<lparr>recipients := (recipients m)[idx := r]\<rparr>) \<and>
    (\<exists>m' r'. q = strategy_of env m' r') \<and>
    r = (recipients m ! idx)\<lparr>rcpt_status := s,
           retry := \<lparr> due = now + qs_retry q ! min (unat (inner (retry (recipients m ! idx)))) (length (qs_retry q) - 1),
                     inner = inner (retry (recipients m ! idx)) + 1 \<rparr>,
           rcpt_expires := qs_expiry q, rcpt_queue := virtual_queue q\<rparr>"
  using assms by (auto simp: set_rcpt_status_def Let_def)

text \<open>The tries of one recipient: each fails for now, at some time, with some error.\<close>

definition fail_tries ::
  "'x smtp_env_scheme \<Rightarrow> nat \<Rightarrow> (u64 \<times> error_details) list \<Rightarrow> message \<Rightarrow> message option" where
  "fail_tries env idx = set_each (\<lambda>(now, e). set_rcpt_status env now (TemporaryFailure e) idx)"

lemma set_each_append:
  "set_each f (xs @ ys) m = (case set_each f xs m of Some m' \<Rightarrow> set_each f ys m' | None \<Rightarrow> None)"
  by (induction xs arbitrary: m) (simp_all split: option.split)

lemma fail_tries_snoc:
  "fail_tries env idx (ts @ [(now, e)]) m =
     (case fail_tries env idx ts m of Some m' \<Rightarrow> set_rcpt_status env now (TemporaryFailure e) idx m' | None \<Rightarrow> None)"
  by (simp add: fail_tries_def set_each_append split: option.split)

lemma fail_tries_count:
  assumes "idx < length (recipients m)" "\<And>m r. qs_retry (strategy_of env m r) \<noteq> []"
  shows "\<exists>m'. fail_tries env idx ts m = Some m' \<and> length (recipients m') = length (recipients m) \<and>
    created m' = created m \<and>
    inner (retry (recipients m' ! idx)) = inner (retry (recipients m ! idx)) + of_nat (length ts) \<and>
    (ts \<noteq> [] \<longrightarrow> rcpt_status (recipients m' ! idx) = TemporaryFailure (snd (last ts)) \<and>
       (\<exists>m'' r''. rcpt_expires (recipients m' ! idx) = qs_expiry (strategy_of env m'' r'')))"
proof (induction ts rule: rev_induct)
  case (snoc t ts)
  obtain now e where t: "t = (now, e)" by force
  from snoc obtain m' where m': "fail_tries env idx ts m = Some m'" "length (recipients m') = length (recipients m)"
    "created m' = created m"
    "inner (retry (recipients m' ! idx)) = inner (retry (recipients m ! idx)) + of_nat (length ts)" by blast
  from m'(2) assms have "idx < length (recipients m')" by simp
  from set_rcpt_status_retry [of idx m' "TemporaryFailure e" env now, OF this _ assms(2)] m' assms(1)
  show ?case by (fastforce simp: t fail_tries_snoc)
qed (simp add: fail_tries_def)

text \<open>
  C28: Retries end. If the strategies limit the attempts to n, a recipient that has
  failed n times since it was queued is given up at the next check, with
  its last error, whatever the times; after fewer failures it stays
  pending.
\<close>

theorem attempts_end:
  assumes rs: "idx < length (recipients m)" and new: "inner (retry (recipients m ! idx)) = 0"
    and retry: "\<And>m r. qs_retry (strategy_of env m r) \<noteq> []"
    and limit: "\<And>m r. qs_expiry (strategy_of env m r) = Attempts n"
    and ts: "ts \<noteq> []" "length ts < 2 ^ 32"
  shows "\<exists>m'. fail_tries env idx ts m = Some m' \<and>
    rcpt_status (recipients (message (snd (has_pending_delivery now (w\<lparr>message := m'\<rparr>)))) ! idx) =
      (if unat n \<le> length ts then PermanentFailure (snd (last ts)) else TemporaryFailure (snd (last ts)))"
proof -
  from fail_tries_count [OF rs retry, where ts = ts] ts(1) new limit obtain m' where m':
    "fail_tries env idx ts m = Some m'" "length (recipients m') = length (recipients m)"
    "inner (retry (recipients m' ! idx)) = of_nat (length ts)"
    "rcpt_status (recipients m' ! idx) = TemporaryFailure (snd (last ts))"
    "rcpt_expires (recipients m' ! idx) = Attempts n" by force
  have "n \<le> of_nat (length ts) \<longleftrightarrow> unat n \<le> length ts"
    using ts(2) by (simp add: word_le_nat_alt unat_of_nat take_bit_nat_eq_self)
  with m' rs show ?thesis
    by (auto simp: has_pending_delivery_eq Let_def expire_def is_expired_def)
qed

definition sample_strategies :: smtp_env where
  "sample_strategies =
     \<lparr> unicode_lower = id, domain_to_ascii = Some, eval_queue = (\<lambda>_ _. Some ''q''),
       queue_strategies = (\<lambda>_. Some \<lparr> qs_retry = [60, 120], qs_notify = [], qs_expiry = Attempts 2,
                                       virtual_queue = DEFAULT_QUEUE_NAME \<rparr>) \<rparr>"

definition sample_queued :: message where
  "sample_queued =
     \<lparr> created = 10, blob_hash = [], return_path = ''a@a.org'', recipients = [recipient_new sample_strategies 10 ''u@b.org''],
       received_from_ip = V4 0, received_via_port = 25, msg_flags = 0, env_id = None, priority = 0, msg_size = 7,
       msg_metadata = [] \<rparr>"

definition sample_wrapper :: message_wrapper where
  "sample_wrapper =
     \<lparr> queue_id = 1, queue_name = DEFAULT_QUEUE_NAME, is_multi_queue = False, span_id = 0, message = sample_queued \<rparr>"

theorem attempts_end_witness:
  "\<exists>m'. fail_tries sample_strategies 0 [(20, rate_limited), (80, rate_limited)] sample_queued = Some m' \<and>
    rcpt_status (recipients (message (snd (has_pending_delivery 200 (sample_wrapper\<lparr>message := m'\<rparr>)))) ! 0) =
      PermanentFailure rate_limited"
proof -
  have st: "strategy_of sample_strategies m r =
      \<lparr> qs_retry = [60, 120], qs_notify = [], qs_expiry = Attempts 2, virtual_queue = DEFAULT_QUEUE_NAME \<rparr>" for m r
    by (simp add: strategy_of_def get_queue_or_default_def sample_strategies_def)
  have rs: "0 < length (recipients sample_queued)" "inner (retry (recipients sample_queued ! 0)) = 0"
    by (simp_all add: sample_queued_def recipient_new_def schedule_now_def)
  from attempts_end [OF rs, of sample_strategies 2 "[(20, rate_limited), (80, rate_limited)]" 200 sample_wrapper]
  show ?thesis by (simp add: st)
qed

end
