(* ===== verification/SmtpDsn.thy ===== *)
theory SmtpDsn
  imports SmtpQueue
begin

text \<open>
  Delivery status notifications (\<open>src/crates/smtp/src/queue/dsn.rs\<close>): which
  recipients of a message are reported, the text and the machine readable fields
  of the report, the flags and the next notification times that a report leaves
  behind, and the double bounce of a message without a sender. The notification
  flags of \<open>smtp_proto\<close>, the date format of \<open>mail_parser\<close>, the blob store and the
  values of the three settings on the sender of a report are parameters; the
  MIME message is assembled by \<open>mail_builder\<close> from the parts given here.
\<close>

record dsn_env = smtp_env +
  NOTIFY_NEVER :: u64
  NOTIFY_SUCCESS :: u64
  NOTIFY_FAILURE :: u64
  NOTIFY_DELAY :: u64
  to_rfc822 :: "u64 \<Rightarrow> bytes"
  get_blob :: "bytes \<Rightarrow> nat \<Rightarrow> bytes option"
  dsn_name :: "message \<Rightarrow> bytes option"
  dsn_address :: "message \<Rightarrow> bytes option"
  report_submitter :: "message \<Rightarrow> bytes option"

section \<open>Texts\<close>

definition CR :: char where "CR = CHR 0x0D"

definition LF :: char where "LF = CHR 0x0A"

definition CRLF :: bytes where "CRLF = [CR, LF]"

definition write_response :: "response \<Rightarrow> bytes" where
  "write_response r = filter (\<lambda>c. c \<noteq> LF \<and> c \<noteq> CR) (resp_message r)"

definition show_u16 :: "u16 \<Rightarrow> bytes" where "show_u16 n = decimal (unat n)"

definition show_u8 :: "u8 \<Rightarrow> bytes" where "show_u8 n = decimal (unat n)"

fun show_esc :: "u8 \<times> u8 \<times> u8 \<Rightarrow> bytes" where
  "show_esc (a, b, c) = show_u8 a @ ''.'' @ show_u8 b @ ''.'' @ show_u8 c"

definition response_dsn_status :: "response \<Rightarrow> bytes" where
  "response_dsn_status r =
     (if 0 < fst (esc r) then show_esc (esc r)
      else show_u16 (code r div 100) @ ''.'' @ show_u16 ((code r div 10) mod 10) @ ''.'' @ show_u16 (code r mod 10))"

definition response_dsn_diagnostic :: "response \<Rightarrow> bytes" where
  "response_dsn_diagnostic r = ''Diagnostic-Code: smtp;'' @ show_u16 (code r) @ '' '' @ write_response r @ CRLF"

definition host_dsn_text :: "host_response \<Rightarrow> bytes \<Rightarrow> bytes" where
  "host_dsn_text h addr =
     ''<'' @ addr @ ''> (delivered to '' @ [CHR 39] @ hostname h @ [CHR 39] @ '' with code '' @
     show_u16 (code (response h)) @ '' ('' @ show_esc (esc (response h)) @ '') '' @ [CHR 39] @
     write_response (response h) @ [CHR 39] @ '')'' @ CRLF"

definition unexpected_dsn_text :: "unexpected_response \<Rightarrow> bytes \<Rightarrow> bytes \<Rightarrow> bytes" where
  "unexpected_dsn_text u host addr =
     ''<'' @ addr @ ''> (host '' @ [CHR 39] @ host @ [CHR 39] @ '' rejected '' @
     (if command u \<noteq> [] then ''command '' @ [CHR 39] @ command u @ [CHR 39] else ''transaction'') @
     '' with code '' @ show_u16 (code (unexpected u)) @ '' ('' @ show_esc (esc (unexpected u)) @ '') '' @ [CHR 39] @
     write_response (unexpected u) @ [CHR 39] @ '')'' @ CRLF"

fun error_dsn_text :: "bytes \<Rightarrow> queue_error \<Rightarrow> bytes \<Rightarrow> bytes" where
  "error_dsn_text ent (UnexpectedResponse u) addr = unexpected_dsn_text u ent addr"
| "error_dsn_text ent (DnsError err) addr =
     ''<'' @ addr @ ''> (failed to lookup '' @ [CHR 39] @ ent @ [CHR 39] @ '': '' @ err @ '')'' @ CRLF"
| "error_dsn_text ent (ConnectionError err) addr =
     ''<'' @ addr @ ''> (connection to '' @ [CHR 39] @ ent @ [CHR 39] @ '' failed: '' @ err @ '')'' @ CRLF"
| "error_dsn_text ent (TlsError err) addr =
     ''<'' @ addr @ ''> (TLS error from '' @ [CHR 39] @ ent @ [CHR 39] @ '': '' @ err @ '')'' @ CRLF"
| "error_dsn_text ent (DaneError err) addr =
     ''<'' @ addr @ ''> (DANE failed to authenticate '' @ [CHR 39] @ ent @ [CHR 39] @ '': '' @ err @ '')'' @ CRLF"
| "error_dsn_text ent (MtaStsError err) addr =
     ''<'' @ addr @ ''> (MTA-STS failed to authenticate '' @ [CHR 39] @ ent @ [CHR 39] @ '': '' @ err @ '')'' @ CRLF"
| "error_dsn_text ent RateLimited addr = ''<'' @ addr @ ''> (rate limited)'' @ CRLF"
| "error_dsn_text ent ConcurrencyLimited addr =
     ''<'' @ addr @ ''> (too many concurrent connections to remote server)'' @ CRLF"
| "error_dsn_text ent (Io err) addr = ''<'' @ addr @ ''> (queue error: '' @ err @ '')'' @ CRLF"

definition details_dsn_text :: "error_details \<Rightarrow> bytes \<Rightarrow> bytes" where
  "details_dsn_text e addr = error_dsn_text (entity e) (details e) addr"

definition message_dsn_headers :: "'x dsn_env_scheme \<Rightarrow> message \<Rightarrow> bytes \<Rightarrow> bytes" where
  "message_dsn_headers env m reporting_mta =
     ''Reporting-MTA: dns;'' @ reporting_mta @ CRLF @ ''Arrival-Date: '' @ to_rfc822 env (created m) @ CRLF @
     (case env_id m of Some i \<Rightarrow> ''Original-Envelope-Id: '' @ i @ CRLF | None \<Rightarrow> []) @ CRLF"

definition rcpt_dsn :: "recipient \<Rightarrow> bytes" where
  "rcpt_dsn r =
     (case orcpt r of Some a \<Rightarrow> ''Original-Recipient: rfc822;'' @ a @ CRLF | None \<Rightarrow> []) @
     ''Final-Recipient: rfc822;'' @ address r @ CRLF"

definition will_retry_until :: "'x dsn_env_scheme \<Rightarrow> u64 \<Rightarrow> u64 \<Rightarrow> recipient \<Rightarrow> bytes" where
  "will_retry_until env now c r =
     (case expiration_time r c of
        Some e \<Rightarrow> if now < e then ''Will-Retry-Until: '' @ to_rfc822 env e @ CRLF else []
      | None \<Rightarrow> [])"

fun dsn_action :: "('t, 'e) status \<Rightarrow> bytes" where
  "dsn_action (Completed _) = ''Action: delivered'' @ CRLF"
| "dsn_action (PermanentFailure _) = ''Action: failed'' @ CRLF"
| "dsn_action _ = ''Action: delayed'' @ CRLF"

definition error_dsn_status :: "bytes \<Rightarrow> error_details \<Rightarrow> bytes" where
  "error_dsn_status dflt e =
     (case details e of UnexpectedResponse u \<Rightarrow> response_dsn_status (unexpected u) | _ \<Rightarrow> dflt)"

fun dsn_status :: "rcpt_status \<Rightarrow> bytes" where
  "dsn_status (Completed h) = ''Status: '' @ response_dsn_status (response h) @ CRLF"
| "dsn_status (TemporaryFailure e) = ''Status: '' @ error_dsn_status ''4.0.0'' e @ CRLF"
| "dsn_status (PermanentFailure e) = ''Status: '' @ error_dsn_status ''5.0.0'' e @ CRLF"
| "dsn_status Scheduled = ''Status: 4.0.0'' @ CRLF"

fun names_remote :: "queue_error \<Rightarrow> bool" where
  "names_remote (UnexpectedResponse _) \<longleftrightarrow> True"
| "names_remote (ConnectionError _) \<longleftrightarrow> True"
| "names_remote (TlsError _) \<longleftrightarrow> True"
| "names_remote (DaneError _) \<longleftrightarrow> True"
| "names_remote _ \<longleftrightarrow> False"

definition error_remote_mta :: "error_details \<Rightarrow> bytes" where
  "error_remote_mta e = (if names_remote (details e) then ''Remote-MTA: dns;'' @ entity e @ CRLF else [])"

fun dsn_remote_mta :: "rcpt_status \<Rightarrow> bytes" where
  "dsn_remote_mta (Completed h) = ''Remote-MTA: dns;'' @ hostname h @ CRLF"
| "dsn_remote_mta (TemporaryFailure e) = error_remote_mta e"
| "dsn_remote_mta (PermanentFailure e) = error_remote_mta e"
| "dsn_remote_mta Scheduled = []"

definition error_diagnostic :: "error_details \<Rightarrow> bytes" where
  "error_diagnostic e =
     (case details e of UnexpectedResponse u \<Rightarrow> response_dsn_diagnostic (unexpected u) | _ \<Rightarrow> [])"

fun dsn_diagnostic :: "rcpt_status \<Rightarrow> bytes" where
  "dsn_diagnostic (TemporaryFailure e) = error_diagnostic e"
| "dsn_diagnostic (PermanentFailure e) = error_diagnostic e"
| "dsn_diagnostic _ = []"

definition status_dsn :: "rcpt_status \<Rightarrow> bytes" where
  "status_dsn s = dsn_action s @ dsn_status s @ dsn_diagnostic s @ dsn_remote_mta s"

section \<open>Building a report\<close>

record dsn_texts =
  txt_success :: bytes
  txt_delay :: bytes
  txt_failed :: bytes
  dsn_fields :: bytes

definition no_texts :: dsn_texts where
  "no_texts = \<lparr> txt_success = [], txt_delay = [], txt_failed = [], dsn_fields = [] \<rparr>"

definition with_flag :: "u64 \<Rightarrow> recipient \<Rightarrow> recipient" where
  "with_flag f r = r\<lparr>rcpt_flags := rcpt_flags r OR f\<rparr>"

definition concurrency_limited :: error_details where
  "concurrency_limited = \<lparr> entity = ''localhost'', details = ConcurrencyLimited \<rparr>"

definition add_delay :: "'x dsn_env_scheme \<Rightarrow> u64 \<Rightarrow> u64 \<Rightarrow> recipient \<Rightarrow> error_details \<Rightarrow> dsn_texts \<Rightarrow> dsn_texts" where
  "add_delay env now c r e t =
     t\<lparr>dsn_fields := dsn_fields t @ rcpt_dsn r @ status_dsn (rcpt_status r) @ will_retry_until env now c r @ CRLF,
       txt_delay := txt_delay t @ details_dsn_text e (address r)\<rparr>"

definition build_dsn_step :: "'x dsn_env_scheme \<Rightarrow> u64 \<Rightarrow> u64 \<Rightarrow> recipient \<Rightarrow> dsn_texts \<Rightarrow> recipient \<times> dsn_texts" where
  "build_dsn_step env now c r t =
     (if has_flag r (RCPT_DSN_SENT OR NOTIFY_NEVER env) then (r, t)
      else case rcpt_status r of
        Completed h \<Rightarrow>
          (let r = with_flag RCPT_DSN_SENT r
           in if \<not> has_flag r (NOTIFY_SUCCESS env) then (r, t)
              else (r, t\<lparr>dsn_fields := dsn_fields t @ rcpt_dsn r @ status_dsn (rcpt_status r) @ CRLF,
                         txt_success := txt_success t @ host_dsn_text h (address r)\<rparr>))
      | TemporaryFailure e \<Rightarrow>
          (if due (notify r) \<le> now \<and> has_flag r (NOTIFY_DELAY env) then (r, add_delay env now c r e t) else (r, t))
      | PermanentFailure e \<Rightarrow>
          (let r = with_flag RCPT_DSN_SENT r
           in if \<not> has_flag r (NOTIFY_FAILURE env) then (r, t)
              else (r, t\<lparr>dsn_fields := dsn_fields t @ rcpt_dsn r @ status_dsn (rcpt_status r) @ CRLF,
                         txt_failed := txt_failed t @ details_dsn_text e (address r)\<rparr>))
      | Scheduled \<Rightarrow>
          (if due (notify r) \<le> now \<and> has_flag r (NOTIFY_DELAY env)
           then (r, add_delay env now c r concurrency_limited t) else (r, t)))"

fun build_dsn_loop ::
  "'x dsn_env_scheme \<Rightarrow> u64 \<Rightarrow> u64 \<Rightarrow> recipient list \<Rightarrow> dsn_texts \<Rightarrow> recipient list \<times> dsn_texts" where
  "build_dsn_loop env now c [] t = ([], t)"
| "build_dsn_loop env now c (r # rs) t =
     (let (r', t') = build_dsn_step env now c r t; (rs', t'') = build_dsn_loop env now c rs t'
      in (r' # rs', t''))"

record dsn_report =
  from_name :: bytes
  from_addr :: bytes
  report_to :: bytes
  subject :: bytes
  report_text :: bytes
  report_status :: bytes
  report_headers :: bytes

definition report_intro :: "bool \<Rightarrow> bool \<Rightarrow> bool \<Rightarrow> bytes \<times> bytes \<times> bool" where
  "report_intro has_success has_delay has_failure =
     (if has_success \<and> \<not> has_delay \<and> \<not> has_failure then
        (''Your message has been successfully delivered to the following recipients:'' @ CRLF @ CRLF,
         ''Successfully delivered message'', False)
      else if has_delay \<and> \<not> has_success \<and> \<not> has_failure then
        (''There was a temporary problem delivering your message to the following recipients:'' @ CRLF @ CRLF,
         ''Warning: Delay in message delivery'', False)
      else if has_failure \<and> \<not> has_success \<and> \<not> has_delay then
        (''Your message could not be delivered to the following recipients:'' @ CRLF @ CRLF,
         ''Failed to deliver message'', False)
      else if has_success then
        (''Your message has been partially delivered:'' @ CRLF @ CRLF, ''Partially delivered message'', True)
      else
        (''Your message could not be delivered to some recipients:'' @ CRLF @ CRLF,
         ''Warning: Temporary and permanent failures during message delivery'', True))"

definition report_section :: "bool \<Rightarrow> bytes \<Rightarrow> bytes \<Rightarrow> bytes" where
  "report_section mixed title txt =
     (if txt = [] then [] else (if mixed then title @ CRLF else []) @ txt @ CRLF)"

definition MAX_HEADER_SIZE :: nat where "MAX_HEADER_SIZE = 4096"

fun header_end_loop :: "nat \<Rightarrow> char \<Rightarrow> nat \<Rightarrow> bytes \<Rightarrow> nat" where
  "header_end_loop pos prev_ch last_lf [] = last_lf"
| "header_end_loop pos prev_ch last_lf (ch # cs) =
     (if ch = LF then
        (if prev_ch \<noteq> LF then header_end_loop (pos + 1) ch (pos + 1) cs else pos + 1)
      else if ch = CR then header_end_loop (pos + 1) prev_ch last_lf cs
      else if ch = CHR 0x00 then last_lf
      else header_end_loop (pos + 1) ch last_lf cs)"

definition original_headers :: "bytes \<Rightarrow> bytes" where
  "original_headers buf =
     (let last_lf = header_end_loop 0 (CHR 0x00) (length buf) buf;
          buf = (if last_lf < MAX_HEADER_SIZE then take last_lf buf else buf)
      in if utf8_valid buf then buf else [])"

definition build_dsn :: "'x dsn_env_scheme \<Rightarrow> u64 \<Rightarrow> message \<Rightarrow> dsn_report option \<times> message" where
  "build_dsn env now m =
     (let (rs, t) = build_dsn_loop env now (created m) (recipients m) no_texts;
          m = m\<lparr>recipients := rs\<rparr>
      in if length (txt_success t) + length (txt_delay t) + length (txt_failed t) = 0 then (None, m)
         else
           let (intro_text, subj, mixed) = report_intro (txt_success t \<noteq> []) (txt_delay t \<noteq> []) (txt_failed t \<noteq> []);
               reporting_mta = (case report_submitter env m of Some s \<Rightarrow> s | None \<Rightarrow> ''localhost'')
           in (Some \<lparr>
                from_name = (case dsn_name env m of Some s \<Rightarrow> s | None \<Rightarrow> ''Mail Delivery Subsystem''),
                from_addr = (case dsn_address env m of Some s \<Rightarrow> s | None \<Rightarrow> ''MAILER-DAEMON@localhost''),
                report_to = return_path m,
                subject = subj,
                report_text = intro_text @
                  report_section mixed ''    ----- Delivery to the following addresses was successful -----'' (txt_success t) @
                  report_section mixed ''    ----- There was a temporary problem delivering to these addresses -----'' (txt_delay t) @
                  report_section mixed ''    ----- Delivery to the following addresses failed -----'' (txt_failed t),
                report_status = message_dsn_headers env m reporting_mta @ dsn_fields t,
                report_headers =
                  (case get_blob env (blob_hash m) MAX_HEADER_SIZE of Some b \<Rightarrow> original_headers b | None \<Rightarrow> []) \<rparr>, m))"

section \<open>After a report\<close>

fun notify_changes :: "'x smtp_env_scheme \<Rightarrow> u64 \<Rightarrow> message \<Rightarrow> nat \<Rightarrow> recipient list \<Rightarrow> (nat \<times> u32 \<times> u64) list" where
  "notify_changes env now m idx [] = []"
| "notify_changes env now m idx (r # rs) =
     (if is_pending (rcpt_status r) \<and> due (notify r) \<le> now then
        (let q = strategy_of env m r; n = unat (inner (notify r) + 1)
         in [if n < length (qs_notify q) then (idx, 1, now + qs_notify q ! n) else (idx, 0, - 1)])
      else []) @ notify_changes env now m (idx + 1) rs"

fun apply_notify :: "(nat \<times> u32 \<times> u64) list \<Rightarrow> recipient list \<Rightarrow> recipient list" where
  "apply_notify [] rs = rs"
| "apply_notify ((idx, n, d) # cs) rs =
     apply_notify cs (rs[idx := (rs ! idx)\<lparr>notify := \<lparr> due = d, inner = inner (notify (rs ! idx)) + n \<rparr>\<rparr>])"

definition update_next_dsn :: "'x smtp_env_scheme \<Rightarrow> u64 \<Rightarrow> message \<Rightarrow> message" where
  "update_next_dsn env now m =
     m\<lparr>recipients := apply_notify (notify_changes env now m 0 (recipients m)) (recipients m)\<rparr>"

definition bounce_rcpt :: "'x dsn_env_scheme \<Rightarrow> u64 \<Rightarrow> u64 \<Rightarrow> recipient \<Rightarrow> recipient" where
  "bounce_rcpt env now c r =
     (let r = (if \<not> has_flag r (RCPT_DSN_SENT OR NOTIFY_NEVER env) \<and> is_permanent (rcpt_status r)
               then with_flag RCPT_DSN_SENT r else r)
      in if due (notify r) \<le> now
         then r\<lparr>notify := (notify r)\<lparr>due := (case expiration_time r c of Some d \<Rightarrow> d + 10 | None \<Rightarrow> - 1)\<rparr>\<rparr>
         else r)"

definition handle_double_bounce :: "'x dsn_env_scheme \<Rightarrow> u64 \<Rightarrow> message \<Rightarrow> message" where
  "handle_double_bounce env now m = m\<lparr>recipients := map (bounce_rcpt env now (created m)) (recipients m)\<rparr>"

text \<open>A call of \<open>send_dsn\<close>: the report that is queued, if any, and the message afterwards.\<close>

definition send_dsn :: "'x dsn_env_scheme \<Rightarrow> u64 \<Rightarrow> message \<Rightarrow> dsn_report option \<times> message" where
  "send_dsn env now m =
     (let (report, m) =
        (if return_path m \<noteq> [] then build_dsn env now m else (None, handle_double_bounce env now m))
      in (report, update_next_dsn env now m))"

section \<open>What is reported\<close>

definition report_due :: "'x dsn_env_scheme \<Rightarrow> u64 \<Rightarrow> recipient \<Rightarrow> bool" where
  "report_due env now r \<longleftrightarrow>
     \<not> has_flag r (RCPT_DSN_SENT OR NOTIFY_NEVER env) \<and>
     (case rcpt_status r of
        Completed _ \<Rightarrow> has_flag r (NOTIFY_SUCCESS env)
      | PermanentFailure _ \<Rightarrow> has_flag r (NOTIFY_FAILURE env)
      | _ \<Rightarrow> due (notify r) \<le> now \<and> has_flag r (NOTIFY_DELAY env))"

definition reported :: "'x dsn_env_scheme \<Rightarrow> recipient \<Rightarrow> recipient" where
  "reported env r =
     (if \<not> has_flag r (RCPT_DSN_SENT OR NOTIFY_NEVER env) \<and> \<not> is_pending (rcpt_status r)
      then with_flag RCPT_DSN_SENT r else r)"

definition dsn_block :: "'x dsn_env_scheme \<Rightarrow> u64 \<Rightarrow> u64 \<Rightarrow> recipient \<Rightarrow> bytes" where
  "dsn_block env now c r =
     rcpt_dsn r @ status_dsn (rcpt_status r) @
     (if is_pending (rcpt_status r) then will_retry_until env now c r else []) @ CRLF"

definition dsn_line :: "recipient \<Rightarrow> bytes" where
  "dsn_line r =
     (case rcpt_status r of
        Completed h \<Rightarrow> host_dsn_text h (address r)
      | Scheduled \<Rightarrow> details_dsn_text concurrency_limited (address r)
      | TemporaryFailure e \<Rightarrow> details_dsn_text e (address r)
      | PermanentFailure e \<Rightarrow> details_dsn_text e (address r))"

definition lines_where :: "('a \<Rightarrow> bool) \<Rightarrow> ('a \<Rightarrow> 'b list) \<Rightarrow> 'a list \<Rightarrow> 'b list" where
  "lines_where P f rs = concat (map f (filter P rs))"

lemma lines_where_simps [simp]:
  "lines_where P f [] = []"
  "lines_where P f (r # rs) = (if P r then f r @ lines_where P f rs else lines_where P f rs)"
  by (simp_all add: lines_where_def)

fun is_completed :: "('t, 'e) status \<Rightarrow> bool" where
  "is_completed (Completed _) \<longleftrightarrow> True"
| "is_completed _ \<longleftrightarrow> False"

definition separate_flags :: "'x dsn_env_scheme \<Rightarrow> bool" where
  "separate_flags env \<longleftrightarrow>
     NOTIFY_SUCCESS env AND RCPT_DSN_SENT = 0 \<and> NOTIFY_FAILURE env AND RCPT_DSN_SENT = 0"

lemma has_flag_with_flag: "f AND g = 0 \<Longrightarrow> has_flag (with_flag g r) f \<longleftrightarrow> has_flag r f"
  using and.commute [of f g] by (simp add: has_flag_def with_flag_def bit.conj_disj_distrib2)

lemma with_flag_same [simp]:
  "rcpt_status (with_flag f r) = rcpt_status r" "address (with_flag f r) = address r"
  "notify (with_flag f r) = notify r" "orcpt (with_flag f r) = orcpt r"
  "retry (with_flag f r) = retry r" "rcpt_queue (with_flag f r) = rcpt_queue r"
  "rcpt_expires (with_flag f r) = rcpt_expires r"
  by (simp_all add: with_flag_def)

lemma rcpt_dsn_with_flag [simp]: "rcpt_dsn (with_flag f r) = rcpt_dsn r"
  by (simp add: rcpt_dsn_def)

lemma build_dsn_step_eq:
  assumes "separate_flags env"
  shows "build_dsn_step env now c r t =
    (reported env r,
     if report_due env now r
     then t\<lparr>dsn_fields := dsn_fields t @ dsn_block env now c r,
            txt_success := txt_success t @ (if is_completed (rcpt_status r) then dsn_line r else []),
            txt_delay := txt_delay t @ (if is_pending (rcpt_status r) then dsn_line r else []),
            txt_failed := txt_failed t @ (if is_permanent (rcpt_status r) then dsn_line r else [])\<rparr>
     else t)"
  using assms
  by (cases "rcpt_status r")
     (simp_all add: build_dsn_step_def reported_def report_due_def separate_flags_def has_flag_with_flag
        dsn_block_def dsn_line_def add_delay_def Let_def)

lemma build_dsn_loop_eq:
  assumes "separate_flags env"
  shows "build_dsn_loop env now c rs t =
    (map (reported env) rs,
     t\<lparr>dsn_fields := dsn_fields t @ lines_where (report_due env now) (dsn_block env now c) rs,
       txt_success := txt_success t @ lines_where (\<lambda>r. report_due env now r \<and> is_completed (rcpt_status r)) dsn_line rs,
       txt_delay := txt_delay t @ lines_where (\<lambda>r. report_due env now r \<and> is_pending (rcpt_status r)) dsn_line rs,
       txt_failed := txt_failed t @ lines_where (\<lambda>r. report_due env now r \<and> is_permanent (rcpt_status r)) dsn_line rs\<rparr>)"
  by (induction rs arbitrary: t) (simp_all add: build_dsn_step_eq [OF assms] Let_def)

lemma dsn_line_nonempty: "dsn_line r \<noteq> []"
proof -
  have "error_dsn_text ent e a \<noteq> []" for ent e a
    by (cases e) (simp_all add: unexpected_dsn_text_def)
  then show ?thesis
    by (simp add: dsn_line_def host_dsn_text_def details_dsn_text_def split: status.split)
qed

lemma lines_where_Nil: "lines_where P dsn_line rs = [] \<longleftrightarrow> (\<forall>r\<in>set rs. \<not> P r)"
  by (auto simp: lines_where_def dsn_line_nonempty)

lemma status_kinds: "is_completed s \<or> is_pending s \<or> is_permanent s"
  by (cases s) simp_all

lemma no_texts_sel [simp]:
  "txt_success no_texts = []" "txt_delay no_texts = []" "txt_failed no_texts = []" "dsn_fields no_texts = []"
  by (simp_all add: no_texts_def)

lemma build_dsn_None:
  assumes "separate_flags env" "\<forall>r\<in>set (recipients m). \<not> report_due env now r"
  shows "build_dsn env now m = (None, m\<lparr>recipients := map (reported env) (recipients m)\<rparr>)"
  using assms by (simp add: build_dsn_def build_dsn_loop_eq lines_where_Nil)

lemma build_dsn_Some:
  assumes sep: "separate_flags env" and r: "r \<in> set (recipients m)" "report_due env now r"
  shows "\<exists>rep mta. build_dsn env now m = (Some rep, m\<lparr>recipients := map (reported env) (recipients m)\<rparr>) \<and>
    report_to rep = return_path m \<and>
    report_status rep = message_dsn_headers env (m\<lparr>recipients := map (reported env) (recipients m)\<rparr>) mta @
      lines_where (report_due env now) (dsn_block env now (created m)) (recipients m)"
proof -
  let ?L = "\<lambda>P. lines_where (\<lambda>r. report_due env now r \<and> P (rcpt_status r)) dsn_line (recipients m)"
  have "\<not> (?L is_completed = [] \<and> ?L is_pending = [] \<and> ?L is_permanent = [])"
    using r status_kinds [of "rcpt_status r"] by (auto simp: lines_where_Nil)
  then show ?thesis
    by (auto simp: build_dsn_def build_dsn_loop_eq [OF sep] Let_def split: prod.split)
qed

lemma update_same_message:
  "recipients (update_next_dsn env now m) = apply_notify (notify_changes env now m 0 (recipients m)) (recipients m)"
  by (simp add: update_next_dsn_def)

definition next_notify :: "'x smtp_env_scheme \<Rightarrow> u64 \<Rightarrow> message \<Rightarrow> recipient \<Rightarrow> recipient" where
  "next_notify env now m r =
     (if is_pending (rcpt_status r) \<and> due (notify r) \<le> now then
        let ns = qs_notify (strategy_of env m r); n = inner (notify r) + 1
        in r\<lparr>notify := (if unat n < length ns then \<lparr> due = now + ns ! unat n, inner = n \<rparr>
                        else \<lparr> due = - 1, inner = inner (notify r) \<rparr>)\<rparr>
      else r)"

lemma apply_notify_changes:
  "apply_notify (notify_changes env now m (length pre) rs) (pre @ rs) = pre @ map (next_notify env now m) rs"
proof (induction rs arbitrary: pre)
  case (Cons r rs)
  have "apply_notify (notify_changes env now m (length (pre @ [r'])) rs) ((pre @ [r']) @ rs) =
        (pre @ [r']) @ map (next_notify env now m) rs" for r'
    by (rule Cons.IH)
  then show ?case
    by (auto simp: next_notify_def Let_def list_update_append nth_append)
qed simp

lemma update_next_dsn_eq: "update_next_dsn env now m = m\<lparr>recipients := map (next_notify env now m) (recipients m)\<rparr>"
  using apply_notify_changes [of env now m "[]" "recipients m"] by (simp add: update_next_dsn_def)

lemma next_notify_same [simp]:
  "rcpt_status (next_notify env now m r) = rcpt_status r" "rcpt_flags (next_notify env now m r) = rcpt_flags r"
  "address (next_notify env now m r) = address r" "retry (next_notify env now m r) = retry r"
  "rcpt_queue (next_notify env now m r) = rcpt_queue r" "rcpt_expires (next_notify env now m r) = rcpt_expires r"
  "orcpt (next_notify env now m r) = orcpt r"
  by (simp_all add: next_notify_def Let_def)

lemma reported_same [simp]:
  "rcpt_status (reported env r) = rcpt_status r" "notify (reported env r) = notify r"
  "retry (reported env r) = retry r" "rcpt_queue (reported env r) = rcpt_queue r"
  "rcpt_expires (reported env r) = rcpt_expires r" "address (reported env r) = address r" "orcpt (reported env r) = orcpt r"
  by (simp_all add: reported_def)

lemma bounce_same [simp]:
  "rcpt_status (bounce_rcpt env now c r) = rcpt_status r" "retry (bounce_rcpt env now c r) = retry r"
  "rcpt_queue (bounce_rcpt env now c r) = rcpt_queue r" "rcpt_expires (bounce_rcpt env now c r) = rcpt_expires r"
  "address (bounce_rcpt env now c r) = address r" "orcpt (bounce_rcpt env now c r) = orcpt r"
  by (simp_all add: bounce_rcpt_def Let_def)

text \<open>Whatever the flags, a report changes nothing but flags and notification times.\<close>

definition rcpt_frame ::
  "recipient \<Rightarrow> rcpt_status \<times> queue_name \<times> u32 schedule \<times> queue_expiry \<times> bytes \<times> bytes option" where
  "rcpt_frame r = (rcpt_status r, rcpt_queue r, retry r, rcpt_expires r, address r, orcpt r)"

lemma build_dsn_step_frame: "rcpt_frame (fst (build_dsn_step env now c r t)) = rcpt_frame r"
  by (cases "rcpt_status r") (simp_all add: build_dsn_step_def Let_def rcpt_frame_def)

lemma build_dsn_loop_frame: "map rcpt_frame (fst (build_dsn_loop env now c rs t)) = map rcpt_frame rs"
  using build_dsn_step_frame
  by (induction rs arbitrary: t) (auto simp: Let_def case_prod_beta)

lemma frame_updates [simp]:
  "rcpt_frame (next_notify env now m r) = rcpt_frame r" "rcpt_frame (bounce_rcpt env' now c r) = rcpt_frame r"
  by (simp_all add: rcpt_frame_def)

lemma send_dsn_frame: "map rcpt_frame (recipients (snd (send_dsn env now m))) = map rcpt_frame (recipients m)"
  using build_dsn_loop_frame [of env now "created m" "recipients m" no_texts]
  by (simp add: send_dsn_def build_dsn_def handle_double_bounce_def update_next_dsn_eq Let_def case_prod_beta o_def)

lemma send_dsn_length: "length (recipients (snd (send_dsn env now m))) = length (recipients m)"
  using send_dsn_frame by (metis length_map)

lemma send_dsn_nth:
  assumes "j < length (recipients m)"
  shows "rcpt_status (recipients (snd (send_dsn env now m)) ! j) = rcpt_status (recipients m ! j)"
    "rcpt_queue (recipients (snd (send_dsn env now m)) ! j) = rcpt_queue (recipients m ! j)"
    "retry (recipients (snd (send_dsn env now m)) ! j) = retry (recipients m ! j)"
    "rcpt_frame (recipients (snd (send_dsn env now m)) ! j) = rcpt_frame (recipients m ! j)"
  using arg_cong [OF send_dsn_frame [of env now m], of "\<lambda>xs. xs ! j"] assms
  by (simp_all add: send_dsn_length rcpt_frame_def)

lemma send_dsn_status: "map rcpt_status (recipients (snd (send_dsn env now m))) = map rcpt_status (recipients m)"
  by (rule nth_equalityI) (simp_all add: send_dsn_length send_dsn_nth)






section \<open>The fields of a report\<close>

definition unbroken :: "bytes \<Rightarrow> bool" where
  "unbroken s \<longleftrightarrow> CR \<notin> set s \<and> LF \<notin> set s"

definition field_names :: "bytes list" where
  "field_names = [''Original-Recipient: rfc822;'', ''Final-Recipient: rfc822;'', ''Action: '', ''Status: '',
     ''Diagnostic-Code: smtp;'', ''Remote-MTA: dns;'', ''Will-Retry-Until: '']"

text \<open>
  What a block says of a recipient, as a list of fields: the original and the final address, what
  became of it, and for a pending recipient the time of its expiration.
\<close>

fun action_word :: "('t, 'e) status \<Rightarrow> bytes" where
  "action_word (Completed _) = ''delivered''"
| "action_word (PermanentFailure _) = ''failed''"
| "action_word _ = ''delayed''"

fun failure_reply :: "rcpt_status \<Rightarrow> response option" where
  "failure_reply (TemporaryFailure e) = (case details e of UnexpectedResponse u \<Rightarrow> Some (unexpected u) | _ \<Rightarrow> None)"
| "failure_reply (PermanentFailure e) = (case details e of UnexpectedResponse u \<Rightarrow> Some (unexpected u) | _ \<Rightarrow> None)"
| "failure_reply _ = None"

fun status_word :: "rcpt_status \<Rightarrow> bytes" where
  "status_word (Completed h) = response_dsn_status (response h)"
| "status_word s = (case failure_reply s of Some u \<Rightarrow> response_dsn_status u
     | None \<Rightarrow> if is_pending s then ''4.0.0'' else ''5.0.0'')"

fun remote_name :: "rcpt_status \<Rightarrow> bytes option" where
  "remote_name (Completed h) = Some (hostname h)"
| "remote_name (TemporaryFailure e) = (if names_remote (details e) then Some (entity e) else None)"
| "remote_name (PermanentFailure e) = (if names_remote (details e) then Some (entity e) else None)"
| "remote_name Scheduled = None"

definition optional_field :: "bytes \<Rightarrow> bytes option \<Rightarrow> (bytes \<times> bytes) list" where
  "optional_field n v = (case v of Some v \<Rightarrow> [(n, v)] | None \<Rightarrow> [])"

definition retry_date :: "'x dsn_env_scheme \<Rightarrow> u64 \<Rightarrow> u64 \<Rightarrow> recipient \<Rightarrow> bytes option" where
  "retry_date env now c r =
     (case expiration_time r c of
        Some e \<Rightarrow> if is_pending (rcpt_status r) \<and> now < e then Some (to_rfc822 env e) else None
      | None \<Rightarrow> None)"

definition block_fields :: "'x dsn_env_scheme \<Rightarrow> u64 \<Rightarrow> u64 \<Rightarrow> recipient \<Rightarrow> (bytes \<times> bytes) list" where
  "block_fields env now c r =
     optional_field ''Original-Recipient: rfc822;'' (orcpt r) @
     [(''Final-Recipient: rfc822;'', address r), (''Action: '', action_word (rcpt_status r)),
      (''Status: '', status_word (rcpt_status r))] @
     optional_field ''Diagnostic-Code: smtp;''
       (map_option (\<lambda>u. show_u16 (code u) @ '' '' @ write_response u) (failure_reply (rcpt_status r))) @
     optional_field ''Remote-MTA: dns;'' (remote_name (rcpt_status r)) @
     optional_field ''Will-Retry-Until: '' (retry_date env now c r)"

definition field_lines :: "(bytes \<times> bytes) list \<Rightarrow> bytes" where
  "field_lines fs = concat (map (\<lambda>(n, v). n @ v @ CRLF) fs)"

lemma field_lines_simps [simp]:
  "field_lines [] = []" "field_lines ((n, v) # fs) = n @ v @ CRLF @ field_lines fs"
  "field_lines (fs @ gs) = field_lines fs @ field_lines gs"
  "field_lines (optional_field n w) = (case w of Some v \<Rightarrow> n @ v @ CRLF | None \<Rightarrow> [])"
  by (simp_all add: field_lines_def optional_field_def split: option.split)

text \<open>The values that are copied from the envelope and from the routes as they are.\<close>

definition copied_names :: "recipient \<Rightarrow> bytes set" where
  "copied_names r = {address r} \<union> set_option (orcpt r) \<union> set_option (remote_name (rcpt_status r))"

lemma unbroken_simps [simp]:
  "unbroken []" "unbroken (c # s) \<longleftrightarrow> c \<noteq> CHR 0x0D \<and> c \<noteq> CHR 0x0A \<and> unbroken s"
  by (auto simp: unbroken_def CR_def LF_def)

lemma unbroken_append [simp]: "unbroken (s @ t) \<longleftrightarrow> unbroken s \<and> unbroken t"
  by (auto simp: unbroken_def)

lemma unbroken_decimal [simp]: "unbroken (decimal n)"
proof -
  have "\<not> is_ascii_digit CR" "\<not> is_ascii_digit LF"
    by (simp_all add: is_ascii_digit_def byte_in_def CR_def LF_def)
  then show ?thesis using decimal_digits(1) [of n] by (auto simp: unbroken_def list_all_iff)
qed

lemma unbroken_write_response [simp]: "unbroken (write_response r)"
  by (simp add: unbroken_def write_response_def)

lemma unbroken_response_status [simp]: "unbroken (response_dsn_status r)"
  by (cases "esc r") (simp add: response_dsn_status_def show_u16_def show_u8_def)

lemma unbroken_words [simp]: "unbroken (action_word s)" "unbroken (status_word t)"
proof -
  show "unbroken (action_word s)" by (cases s) simp_all
  show "unbroken (status_word t)"
    by (cases "failure_reply t"; cases t) simp_all
qed

lemma block_is_fields:
  "rcpt_dsn r @ status_dsn (rcpt_status r) @ (if is_pending (rcpt_status r) then will_retry_until env now c r else []) =
     field_lines (block_fields env now c r)"
proof -
  have rcpt: "rcpt_dsn r = field_lines (optional_field ''Original-Recipient: rfc822;'' (orcpt r) @
      [(''Final-Recipient: rfc822;'', address r)])"
    by (simp add: rcpt_dsn_def split: option.split)
  have action: "dsn_action s = ''Action: '' @ action_word s @ CRLF" for s :: rcpt_status
    by (cases s) simp_all
  have stat: "dsn_status s = ''Status: '' @ status_word s @ CRLF" for s
    by (cases s) (simp_all add: error_dsn_status_def split: queue_error.split)
  have diag: "dsn_diagnostic s = field_lines (optional_field ''Diagnostic-Code: smtp;''
      (map_option (\<lambda>u. show_u16 (code u) @ '' '' @ write_response u) (failure_reply s)))" for s
    by (cases s) (simp_all add: error_diagnostic_def response_dsn_diagnostic_def split: queue_error.split)
  have mta: "dsn_remote_mta s = field_lines (optional_field ''Remote-MTA: dns;'' (remote_name s))" for s
    by (cases s) (simp_all add: error_remote_mta_def)
  have retry: "(if is_pending (rcpt_status r) then will_retry_until env now c r else []) =
      field_lines (optional_field ''Will-Retry-Until: '' (retry_date env now c r))"
    by (simp add: will_retry_until_def retry_date_def split: option.split)
  show ?thesis
    unfolding status_dsn_def rcpt action stat diag mta retry block_fields_def by simp
qed

lemma block_fields_good:
  assumes "\<And>t. unbroken (to_rfc822 env t)"
  shows "distinct (map fst (block_fields env now c r))"
    "(n, v) \<in> set (block_fields env now c r) \<Longrightarrow> n \<in> set field_names \<and> (unbroken v \<or> v \<in> copied_names r)"
proof -
  show "distinct (map fst (block_fields env now c r))"
    by (simp add: block_fields_def optional_field_def split: option.split)
  have "unbroken d" if "retry_date env now c r = Some d" for d
    using that assms by (auto simp: retry_date_def split: option.splits if_splits)
  then show "n \<in> set field_names \<and> (unbroken v \<or> v \<in> copied_names r)" if "(n, v) \<in> set (block_fields env now c r)"
    using that
    by (auto simp: block_fields_def optional_field_def field_names_def copied_names_def show_u16_def split: option.splits)
qed

text \<open>
  C8: The machine readable part of a report to a sender consists of the header of the message and, in
  the order of the recipients, one block for each recipient that is reported. The block holds
  the original and final address, the action and status of that recipient, and
  each of the seven known fields at most once. Whatever the remote servers
  replied, a value takes one line, as line breaks in a reply are removed; the
  exceptions are the addresses and the name of the remote host, which are copied unchecked.
  Dates are taken to be written on one line.
\<close>

theorem dsn_fields_intact:
  assumes sep: "separate_flags env" and "return_path m \<noteq> []"
    and dates: "\<And>t. unbroken (to_rfc822 env t)"
    and report: "fst (send_dsn env now m) = Some rep"
  shows "\<exists>mta. report_status rep = message_dsn_headers env m mta @
      concat (map (\<lambda>r. field_lines (block_fields env now (created m) r) @ CRLF) (filter (report_due env now) (recipients m))) \<and>
    (\<forall>r. distinct (map fst (block_fields env now (created m) r)) \<and>
      (\<forall>(n, v)\<in>set (block_fields env now (created m) r). n \<in> set field_names \<and> (unbroken v \<or> v \<in> copied_names r)))"
proof -
  have b: "fst (build_dsn env now m) = Some rep"
    using assms by (auto simp: send_dsn_def split: prod.splits)
  with build_dsn_None [OF sep, of m now] obtain r where r: "r \<in> set (recipients m)" "report_due env now r"
    by fastforce
  with build_dsn_Some [OF sep r] b obtain mta where
    st: "report_status rep = message_dsn_headers env (m\<lparr>recipients := map (reported env) (recipients m)\<rparr>) mta @
      lines_where (report_due env now) (dsn_block env now (created m)) (recipients m)" by auto
  have "dsn_block env now c = (\<lambda>r. field_lines (block_fields env now c r) @ CRLF)" for c
    using block_is_fields [of _ env now c] by (simp add: dsn_block_def fun_eq_iff)
  moreover have "message_dsn_headers env (m\<lparr>recipients := rs\<rparr>) mta = message_dsn_headers env m mta" for rs
    by (simp add: message_dsn_headers_def)
  moreover have "\<forall>(n, v)\<in>set (block_fields env now c r). n \<in> set field_names \<and> (unbroken v \<or> v \<in> copied_names r)" for c r
    using block_fields_good(2) [OF dates] by blast
  ultimately show ?thesis
    using st block_fields_good(1) [OF dates] by (intro exI [of _ mta]) (simp add: lines_where_def)
qed

text \<open>
  The exceptions matter: an original address with a line break, as a client may send it in
  the parameter of \<open>RCPT TO\<close>, adds a field of its choice to the block.
\<close>

theorem original_recipient_adds_field:
  "field_lines (block_fields env now c (r\<lparr>orcpt := Some (a @ CRLF @ n @ v)\<rparr>)) =
     field_lines ((''Original-Recipient: rfc822;'', a) # (n, v) # block_fields env now c (r\<lparr>orcpt := None\<rparr>))"
  by (simp add: block_fields_def retry_date_def expiration_time_def split: option.split queue_expiry.split)

text \<open>A message with a refused and a delayed recipient, whose server replied with several lines.\<close>

definition sample_dsn_env :: dsn_env where
  "sample_dsn_env =
     \<lparr> unicode_lower = id, domain_to_ascii = Some, eval_queue = (\<lambda>_ _. None), queue_strategies = Map.empty,
       NOTIFY_NEVER = 1, NOTIFY_SUCCESS = 2, NOTIFY_FAILURE = 4, NOTIFY_DELAY = 8,
       to_rfc822 = (\<lambda>_. ''Thu, 1 Jan 1970''), get_blob = (\<lambda>_ _. None),
       dsn_name = (\<lambda>_. None), dsn_address = (\<lambda>_. None), report_submitter = (\<lambda>_. None) \<rparr>"

definition sample_refusal :: error_details where
  "sample_refusal = \<lparr> entity = ''mx.b.org'', details = UnexpectedResponse
     \<lparr> command = ''RCPT TO:<u@b.org>'',
       unexpected = \<lparr> code = 550, esc = (5, 1, 1), resp_message = ''No such user'' @ CRLF @ ''Action: delivered'' \<rparr> \<rparr> \<rparr>"

definition sample_rcpt :: "rcpt_status \<Rightarrow> recipient" where
  "sample_rcpt s =
     \<lparr> address = ''u@b.org'', retry = \<lparr> due = 100, inner = 1 \<rparr>, notify = \<lparr> due = 50, inner = 0 \<rparr>,
       rcpt_expires = Ttl 1000, rcpt_queue = DEFAULT_QUEUE_NAME, rcpt_status = s, rcpt_flags = 12, orcpt = None \<rparr>"

definition sample_message :: message where
  "sample_message =
     \<lparr> created = 10, blob_hash = [], return_path = ''a@a.org'',
       recipients = [sample_rcpt (PermanentFailure sample_refusal), sample_rcpt (TemporaryFailure rate_limited)],
       received_from_ip = V4 0, received_via_port = 25, msg_flags = 0, env_id = None, priority = 0, msg_size = 7,
       msg_metadata = [] \<rparr>"

lemma sample_separate: "separate_flags sample_dsn_env"
  by (simp add: separate_flags_def sample_dsn_env_def RCPT_DSN_SENT_def)



lemma sample_return_path: "return_path sample_message \<noteq> []"
  by (simp add: sample_message_def)

lemma sample_due: "report_due sample_dsn_env 60 (sample_rcpt (PermanentFailure sample_refusal))"
  "report_due sample_dsn_env 60 (sample_rcpt (TemporaryFailure rate_limited))"
  by (simp_all add: report_due_def has_flag_def sample_rcpt_def sample_dsn_env_def RCPT_DSN_SENT_def)


theorem dsn_fields_intact_witness:
  "\<exists>rep mta. fst (send_dsn sample_dsn_env 60 sample_message) = Some rep \<and>
     report_status rep = message_dsn_headers sample_dsn_env sample_message mta @
       field_lines (block_fields sample_dsn_env 60 10 (sample_rcpt (PermanentFailure sample_refusal))) @ CRLF @
       field_lines (block_fields sample_dsn_env 60 10 (sample_rcpt (TemporaryFailure rate_limited))) @ CRLF \<and>
     (''Action: '', ''failed'') \<in> set (block_fields sample_dsn_env 60 10 (sample_rcpt (PermanentFailure sample_refusal)))"
proof -
  have two: "filter (report_due sample_dsn_env 60) (recipients sample_message) =
      [sample_rcpt (PermanentFailure sample_refusal), sample_rcpt (TemporaryFailure rate_limited)]" "created sample_message = 10"
    by (simp_all add: sample_message_def sample_due)
  obtain rep where rep: "fst (send_dsn sample_dsn_env 60 sample_message) = Some rep"
    using build_dsn_Some [OF sample_separate _ sample_due(1), of sample_message]
    by (fastforce simp: send_dsn_def sample_message_def)
  have "unbroken (to_rfc822 sample_dsn_env t)" for t
    by (simp add: sample_dsn_env_def)
  moreover have "(''Action: '', ''failed'') \<in> set (block_fields sample_dsn_env 60 10 (sample_rcpt (PermanentFailure sample_refusal)))"
    by (simp add: block_fields_def sample_rcpt_def)
  ultimately show ?thesis
    using dsn_fields_intact [OF sample_separate sample_return_path _ rep] two rep by auto
qed

end
