(* ===== verification/SmtpSpool.thy ===== *)
theory SmtpSpool
  imports SmtpDsn
begin

text \<open>
  The spool of the outbound queue (\<open>src/crates/smtp/src/queue/spool.rs\<close>,
  \<open>quota.rs\<close>) and the task that delivers one queued message
  (\<open>outbound/delivery.rs\<close>): the part of the store the queue uses, the batches
  that are written to it, the quotas, queueing, saving and removing a message,
  and the decisions of a delivery. A batch is written as a whole or not at
  all, as the stores promise; whether a write succeeds is an argument. The result
  of the network conversations of a delivery, the DKIM signature, the
  hash function, the resolution of local addresses and the assembly of MIME
  messages are parameters.
\<close>

section \<open>The store\<close>

datatype blob_link = Link_Temporary u64 | Link_Id queue_id

record spam_sample =
  sample_blob :: bytes
  sample_expires :: u64
  sample_from :: bytes
  sample_is_spam :: bool
  sample_subject :: bytes

record spool =
  messages :: "queue_id \<Rightarrow> message option"
  events :: "(u64 \<times> queue_id \<times> queue_name) set"
  quota_count :: "bytes \<Rightarrow> i64"
  quota_size :: "bytes \<Rightarrow> i64"
  blob_links :: "(bytes \<times> blob_link) set"
  committed :: "bytes set"
  spam_samples :: "u64 \<Rightarrow> spam_sample option"

datatype batch_op =
    Set_Event u64 queue_id queue_name
  | Clear_Event u64 queue_id queue_name
  | Set_Message queue_id message
  | Clear_Message queue_id
  | Merge_Message queue_id "message \<Rightarrow> message option"
  | Add_Count bytes i64
  | Add_Size bytes i64
  | Set_Link bytes blob_link
  | Clear_Link bytes blob_link
  | Commit_Blob bytes
  | Set_Sample u64 spam_sample

fun apply_op :: "batch_op \<Rightarrow> spool \<Rightarrow> spool option" where
  "apply_op (Set_Event t i q) st = Some (st\<lparr>events := insert (t, i, q) (events st)\<rparr>)"
| "apply_op (Clear_Event t i q) st = Some (st\<lparr>events := events st - {(t, i, q)}\<rparr>)"
| "apply_op (Set_Message i m) st = Some (st\<lparr>messages := (messages st)(i := Some m)\<rparr>)"
| "apply_op (Clear_Message i) st = Some (st\<lparr>messages := (messages st)(i := None)\<rparr>)"
| "apply_op (Merge_Message i f) st =
     (case messages st i of
        None \<Rightarrow> None
      | Some m \<Rightarrow> (case f m of Some m' \<Rightarrow> Some (st\<lparr>messages := (messages st)(i := Some m')\<rparr>) | None \<Rightarrow> None))"
| "apply_op (Add_Count k n) st = Some (st\<lparr>quota_count := (quota_count st)(k := quota_count st k + n)\<rparr>)"
| "apply_op (Add_Size k n) st = Some (st\<lparr>quota_size := (quota_size st)(k := quota_size st k + n)\<rparr>)"
| "apply_op (Set_Link h l) st = Some (st\<lparr>blob_links := insert (h, l) (blob_links st)\<rparr>)"
| "apply_op (Clear_Link h l) st = Some (st\<lparr>blob_links := blob_links st - {(h, l)}\<rparr>)"
| "apply_op (Commit_Blob h) st = Some (st\<lparr>committed := insert h (committed st)\<rparr>)"
| "apply_op (Set_Sample i s) st = Some (st\<lparr>spam_samples := (spam_samples st)(i := Some s)\<rparr>)"

fun apply_batch :: "batch_op list \<Rightarrow> spool \<Rightarrow> spool option" where
  "apply_batch [] st = Some st"
| "apply_batch (b # bs) st = (case apply_op b st of Some st' \<Rightarrow> apply_batch bs st' | None \<Rightarrow> None)"

text \<open>A write that fails, for itself or for a merge function, changes nothing.\<close>

definition store_write :: "bool \<Rightarrow> batch_op list \<Rightarrow> spool \<Rightarrow> bool \<times> spool" where
  "store_write io bs st =
     (case apply_batch bs st of Some st' \<Rightarrow> if io then (True, st') else (False, st) | None \<Rightarrow> (False, st))"

section \<open>Quotas\<close>

record queue_quota =
  quota_expr_empty :: bool
  quota_match :: "message \<Rightarrow> recipient option \<Rightarrow> bool option"
  quota_keys :: u16
  quota_max_size :: "u64 option"
  quota_max_messages :: "u64 option"

datatype rcpt_resolution = Accept | Expand "bytes list" | Rewrite bytes | UnknownRecipient | UnknownDomain

record spool_env = dsn_env +
  hash_of :: "bytes \<Rightarrow> bytes"
  ne_bytes :: "u64 \<Rightarrow> bytes"
  quota_sender :: "queue_quota list"
  quota_rcpt :: "queue_quota list"
  quota_rcpt_domain :: "queue_quota list"
  rcpt_resolve :: "bytes \<Rightarrow> rcpt_resolution option"
  hold_samples_for :: "u64 option"

definition THROTTLE_RCPT :: u16 where "THROTTLE_RCPT = 1"

definition THROTTLE_RCPT_DOMAIN :: u16 where "THROTTLE_RCPT_DOMAIN = push_bit 1 1"

definition THROTTLE_SENDER :: u16 where "THROTTLE_SENDER = push_bit 2 1"

definition THROTTLE_SENDER_DOMAIN :: u16 where "THROTTLE_SENDER_DOMAIN = push_bit 3 1"

definition or_null_sender :: "bytes \<Rightarrow> bytes" where
  "or_null_sender s = (if s \<noteq> [] then s else ''<>'')"

definition quota_new_key :: "'x spool_env_scheme \<Rightarrow> queue_quota \<Rightarrow> message \<Rightarrow> recipient option \<Rightarrow> bytes" where
  "quota_new_key env q m r =
     hash_of env (
       (if quota_keys q AND THROTTLE_RCPT \<noteq> 0 then (case r of Some r \<Rightarrow> address r | None \<Rightarrow> []) else []) @
       (if quota_keys q AND THROTTLE_RCPT_DOMAIN \<noteq> 0 then (case r of Some r \<Rightarrow> domain_part (address r) | None \<Rightarrow> []) else []) @
       (if quota_keys q AND THROTTLE_SENDER \<noteq> 0 then or_null_sender (return_path m) else []) @
       (if quota_keys q AND THROTTLE_SENDER_DOMAIN \<noteq> 0 then or_null_sender (domain_part (return_path m)) else []) @
       (case quota_max_messages q of Some n \<Rightarrow> ne_bytes env n | None \<Rightarrow> []) @
       (case quota_max_size q of Some n \<Rightarrow> ne_bytes env n | None \<Rightarrow> []))"

definition quota_applies :: "queue_quota \<Rightarrow> message \<Rightarrow> recipient option \<Rightarrow> bool" where
  "quota_applies q m r \<longleftrightarrow> \<not> quota_expr_empty q \<and> (case quota_match q m r of Some b \<Rightarrow> b | None \<Rightarrow> False)"

definition check_quota ::
  "'x spool_env_scheme \<Rightarrow> spool \<Rightarrow> queue_quota \<Rightarrow> message \<Rightarrow> recipient option \<Rightarrow> u64 \<Rightarrow> metadata list \<Rightarrow> metadata list option" where
  "check_quota env st q m r i refs =
     (if quota_applies q m r then
        (let key = quota_new_key env q m r
         in case (case quota_max_size q of
                    Some max_size \<Rightarrow>
                      (if quota_size st key + msg_size m > max_size then None else Some (refs @ [QueueSize key i]))
                  | None \<Rightarrow> Some refs) of
              None \<Rightarrow> None
            | Some refs \<Rightarrow>
                (case quota_max_messages q of
                   Some max_messages \<Rightarrow>
                     (if quota_count st key + 1 > max_messages then None else Some (refs @ [QueueCount key i]))
                 | None \<Rightarrow> Some refs))
      else Some refs)"

fun sender_quotas_loop ::
  "'x spool_env_scheme \<Rightarrow> spool \<Rightarrow> message \<Rightarrow> queue_quota list \<Rightarrow> metadata list \<Rightarrow> metadata list option" where
  "sender_quotas_loop env st m [] refs = Some refs"
| "sender_quotas_loop env st m (q # qs) refs =
     (case check_quota env st q m None 0 refs of
        Some refs \<Rightarrow> sender_quotas_loop env st m qs refs
      | None \<Rightarrow> None)"

fun domain_rcpts_loop ::
  "'x spool_env_scheme \<Rightarrow> spool \<Rightarrow> message \<Rightarrow> queue_quota \<Rightarrow> nat \<Rightarrow> recipient list \<Rightarrow> bytes set \<Rightarrow> metadata list \<Rightarrow>
   (bytes set \<times> metadata list) option" where
  "domain_rcpts_loop env st m q idx [] seen refs = Some (seen, refs)"
| "domain_rcpts_loop env st m q idx (r # rs) seen refs =
     (if domain_part (address r) \<in> seen then domain_rcpts_loop env st m q (idx + 1) rs seen refs
      else
        case check_quota env st q m (Some r) (push_bit 32 (of_nat (idx + 1))) refs of
          Some refs \<Rightarrow> domain_rcpts_loop env st m q (idx + 1) rs (insert (domain_part (address r)) seen) refs
        | None \<Rightarrow> None)"

fun domain_quotas_loop ::
  "'x spool_env_scheme \<Rightarrow> spool \<Rightarrow> message \<Rightarrow> queue_quota list \<Rightarrow> bytes set \<Rightarrow> metadata list \<Rightarrow> metadata list option" where
  "domain_quotas_loop env st m [] seen refs = Some refs"
| "domain_quotas_loop env st m (q # qs) seen refs =
     (case domain_rcpts_loop env st m q 0 (recipients m) seen refs of
        Some (seen, refs) \<Rightarrow> domain_quotas_loop env st m qs seen refs
      | None \<Rightarrow> None)"

fun rcpts_loop ::
  "'x spool_env_scheme \<Rightarrow> spool \<Rightarrow> message \<Rightarrow> queue_quota \<Rightarrow> nat \<Rightarrow> recipient list \<Rightarrow> metadata list \<Rightarrow> metadata list option" where
  "rcpts_loop env st m q idx [] refs = Some refs"
| "rcpts_loop env st m q idx (r # rs) refs =
     (case check_quota env st q m (Some r) (of_nat (idx + 1)) refs of
        Some refs \<Rightarrow> rcpts_loop env st m q (idx + 1) rs refs
      | None \<Rightarrow> None)"

fun rcpt_quotas_loop ::
  "'x spool_env_scheme \<Rightarrow> spool \<Rightarrow> message \<Rightarrow> queue_quota list \<Rightarrow> metadata list \<Rightarrow> metadata list option" where
  "rcpt_quotas_loop env st m [] refs = Some refs"
| "rcpt_quotas_loop env st m (q # qs) refs =
     (case rcpts_loop env st m q 0 (recipients m) refs of
        Some refs \<Rightarrow> rcpt_quotas_loop env st m qs refs
      | None \<Rightarrow> None)"

definition has_quota :: "'x spool_env_scheme \<Rightarrow> spool \<Rightarrow> message \<Rightarrow> metadata list option" where
  "has_quota env st m =
     (case sender_quotas_loop env st m (quota_sender env) [] of
        None \<Rightarrow> None
      | Some refs \<Rightarrow>
          (case domain_quotas_loop env st m (quota_rcpt_domain env) {} refs of
             None \<Rightarrow> None
           | Some refs \<Rightarrow> rcpt_quotas_loop env st m (quota_rcpt env) refs))"

fun is_quota :: "metadata \<Rightarrow> bool" where
  "is_quota (Headers _ _) \<longleftrightarrow> False"
| "is_quota _ \<longleftrightarrow> True"

fun quota_ids_loop :: "nat \<Rightarrow> recipient list \<Rightarrow> bytes set \<Rightarrow> u64 list" where
  "quota_ids_loop pos [] seen = []"
| "quota_ids_loop pos (r # rs) seen =
     (case rcpt_status r of
        Scheduled \<Rightarrow> quota_ids_loop (pos + 1) rs seen
      | TemporaryFailure _ \<Rightarrow> quota_ids_loop (pos + 1) rs seen
      | _ \<Rightarrow>
          (if domain_part (address r) \<in> seen then [] else [push_bit 32 (of_nat (pos + 1))]) @
          of_nat (pos + 1) # quota_ids_loop (pos + 1) rs (insert (domain_part (address r)) seen))"

fun release_loop :: "u64 list \<Rightarrow> u64 \<Rightarrow> metadata list \<Rightarrow> metadata list \<times> batch_op list" where
  "release_loop ids sz [] = ([], [])"
| "release_loop ids sz (e # es) =
     (let (kept, ops) = release_loop ids sz es
      in case e of
           QueueCount key i \<Rightarrow> if i \<in> set ids then (kept, Add_Count key (- 1) # ops) else (e # kept, ops)
         | QueueSize key i \<Rightarrow> if i \<in> set ids then (kept, Add_Size key (- sz) # ops) else (e # kept, ops)
         | Headers _ _ \<Rightarrow> (e # kept, ops))"

definition release_quota :: "message \<Rightarrow> message \<times> batch_op list" where
  "release_quota m =
     (if \<not> list_ex is_quota (msg_metadata m) then (m, [])
      else
        let ids = quota_ids_loop 0 (recipients m) {}
        in if ids = [] then (m, [])
           else
             let (kept, ops) = release_loop ids (msg_size m) (msg_metadata m)
             in (m\<lparr>msg_metadata := kept\<rparr>, ops))"

fun release_all :: "u64 \<Rightarrow> metadata list \<Rightarrow> batch_op list" where
  "release_all sz [] = []"
| "release_all sz (QueueCount key _ # es) = Add_Count key (- 1) # release_all sz es"
| "release_all sz (QueueSize key _ # es) = Add_Size key (- sz) # release_all sz es"
| "release_all sz (Headers _ _ # es) = release_all sz es"

fun reserve_all :: "u64 \<Rightarrow> metadata list \<Rightarrow> batch_op list" where
  "reserve_all sz [] = []"
| "reserve_all sz (QueueCount key _ # es) = Add_Count key 1 # reserve_all sz es"
| "reserve_all sz (QueueSize key _ # es) = Add_Size key sz # reserve_all sz es"
| "reserve_all sz (Headers _ _ # es) = reserve_all sz es"

section \<open>Messages of the spool\<close>

definition message_wrapper_new :: "message \<Rightarrow> queue_id \<Rightarrow> queue_name \<Rightarrow> message_wrapper" where
  "message_wrapper_new m i q =
     \<lparr> queue_id = i, queue_name = q,
       is_multi_queue = list_ex (\<lambda>r. is_pending (rcpt_status r) \<and> rcpt_queue r \<noteq> q) (recipients m),
       span_id = 0, message = m \<rparr>"

definition new_message :: "'x smtp_env_scheme \<Rightarrow> u64 \<Rightarrow> queue_id \<Rightarrow> bytes \<Rightarrow> u64 \<Rightarrow> message_wrapper" where
  "new_message env now i rp span =
     \<lparr> queue_id = i, queue_name = DEFAULT_QUEUE_NAME, is_multi_queue = False, span_id = span,
       message =
         \<lparr> created = now, blob_hash = replicate 32 (CHR 0x00), return_path = to_lowercase_address env False rp,
           recipients = [], received_from_ip = V4 0x7F000001, received_via_port = 0, msg_flags = 0,
           env_id = None, priority = 0, msg_size = 0, msg_metadata = [] \<rparr> \<rparr>"

text \<open>
  Reading a message: \<open>reads\<close> tells whether the store answers and the archive can be
  decoded. A failure is logged and then looks like a message that is gone.
\<close>

definition read_message :: "bool \<Rightarrow> spool \<Rightarrow> queue_id \<Rightarrow> queue_name \<Rightarrow> message_wrapper option" where
  "read_message reads st i q =
     (case (if reads then Inr (messages st i) else Inl ()) of
        Inr (Some m) \<Rightarrow> Some (message_wrapper_new m i q)
      | Inr None \<Rightarrow> None
      | Inl _ \<Rightarrow> None)"

fun be_bytes :: "nat \<Rightarrow> u64 \<Rightarrow> bytes" where
  "be_bytes 0 v = []"
| "be_bytes (Suc n) v = be_bytes n (drop_bit 8 v) @ [char_of (unat (take_bit 8 v))]"

definition lock_id :: "queue_id \<Rightarrow> queue_name \<Rightarrow> bytes" where
  "lock_id i q = be_bytes 8 i @ q"

datatype message_source =
    Authenticated
  | Unauthenticated bool "(bool \<times> bytes) option"
  | Dsn
  | Report
  | Autogenerated

fun source_flags :: "message_source \<Rightarrow> u64" where
  "source_flags Authenticated = FROM_AUTHENTICATED"
| "source_flags (Unauthenticated True _) = FROM_UNAUTHENTICATED_DMARC"
| "source_flags (Unauthenticated False _) = FROM_UNAUTHENTICATED"
| "source_flags Dsn = FROM_DSN"
| "source_flags Report = FROM_REPORT"
| "source_flags Autogenerated = FROM_AUTOGENERATED"

fun train_spam :: "message_source \<Rightarrow> (bool \<times> bytes) option" where
  "train_spam (Unauthenticated _ s) = s"
| "train_spam _ = None"

record queue_params =
  raw_message :: bytes
  raw_headers :: "bytes option"
  dkim_headers :: "bytes option"
  qp_metadata :: "metadata list"
  qp_source :: message_source

text \<open>Whether the three writes of a call succeed, and the number drawn for a training sample.\<close>

record queue_io =
  io_reserve :: bool
  io_blob :: bool
  io_commit :: bool
  sample_id :: u64

definition set_events :: "queue_id \<Rightarrow> message \<Rightarrow> batch_op list" where
  "set_events i m = map (\<lambda>(q, t). Set_Event t i q) (next_events m)"

definition clear_events :: "queue_id \<Rightarrow> (queue_name \<times> u64) list \<Rightarrow> batch_op list" where
  "clear_events i es = map (\<lambda>(q, t). Clear_Event t i q) es"

definition queued_form :: "'x spool_env_scheme \<Rightarrow> queue_params \<Rightarrow> message \<Rightarrow> message" where
  "queued_form env p m =
     (let hs = (case raw_headers p of Some h \<Rightarrow> h | None \<Rightarrow> []);
          dkim = (case dkim_headers p of Some h \<Rightarrow> h | None \<Rightarrow> []);
          content = (if hs \<noteq> [] \<or> dkim \<noteq> [] then dkim @ hs @ raw_message p else raw_message p)
      in m\<lparr>msg_flags := msg_flags m OR source_flags (qp_source p),
           blob_hash := hash_of env content,
           msg_size := (if msg_size m = 0 then of_nat (length content) else msg_size m),
           msg_metadata := qp_metadata p\<rparr>)"

definition queue_batch ::
  "'x spool_env_scheme \<Rightarrow> u64 \<Rightarrow> queue_io \<Rightarrow> queue_params \<Rightarrow> queue_id \<Rightarrow> message \<Rightarrow> batch_op list" where
  "queue_batch env now io p i m =
     reserve_all (msg_size m) (msg_metadata m) @ set_events i m @
     (case (train_spam (qp_source p), hold_samples_for env) of
        (Some (is_spam, subj), Some hold) \<Rightarrow>
          [Set_Link (blob_hash m) (Link_Temporary (now + hold)),
           Set_Sample (sample_id io)
             \<lparr> sample_blob = blob_hash m, sample_expires = now + hold, sample_from = return_path m,
               sample_is_spam = is_spam, sample_subject = subj \<rparr>]
      | _ \<Rightarrow> []) @
     [Clear_Link (blob_hash m) (Link_Temporary (now + 120)), Set_Link (blob_hash m) (Link_Id i),
      Commit_Blob (blob_hash m), Set_Message i m]"

definition queue_message ::
  "'x spool_env_scheme \<Rightarrow> u64 \<Rightarrow> queue_io \<Rightarrow> queue_params \<Rightarrow> message_wrapper \<Rightarrow> spool \<Rightarrow> bool \<times> spool" where
  "queue_message env now io p w st =
     (let m = queued_form env p (message w);
          (ok, st) = store_write (io_reserve io) [Set_Link (blob_hash m) (Link_Temporary (now + 120))] st
      in if \<not> ok \<or> \<not> io_blob io then (False, st)
         else store_write (io_commit io) (queue_batch env now io p (queue_id w) m) st)"

definition add_expanded_recipient ::
  "'x smtp_env_scheme \<Rightarrow> u64 \<Rightarrow> bytes \<Rightarrow> message_wrapper \<Rightarrow> message_wrapper" where
  "add_expanded_recipient env now a w =
     (let r = recipient_new env now a;
          m = (message w)\<lparr>recipients := recipients (message w) @ [r]\<rparr>;
          q = strategy_of env m r;
          first = (case qs_notify q of n # _ \<Rightarrow> n | [] \<Rightarrow> 86400)
      in w\<lparr>message := m\<lparr>recipients := recipients (message w) @
             [r\<lparr>notify := schedule_later now (first + now), rcpt_expires := qs_expiry q, rcpt_queue := virtual_queue q\<rparr>]\<rparr>\<rparr>)"

definition expand_and_add_recipient ::
  "'x spool_env_scheme \<Rightarrow> u64 \<Rightarrow> bytes \<Rightarrow> message_wrapper \<Rightarrow> message_wrapper" where
  "expand_and_add_recipient env now a w =
     (case rcpt_resolve env (unicode_lower env a) of
        Some (Rewrite a') \<Rightarrow> add_expanded_recipient env now a' w
      | Some (Expand as) \<Rightarrow> fold (add_expanded_recipient env now) as w
      | _ \<Rightarrow> add_expanded_recipient env now a w)"

fun merge_rcpts :: "(recipient \<Rightarrow> bool) \<Rightarrow> recipient list \<Rightarrow> recipient list \<Rightarrow> recipient list" where
  "merge_rcpts P (n # ns) (c # cs) = (if P n then n else c) # merge_rcpts P ns cs"
| "merge_rcpts P _ cs = cs"

definition merge_queue :: "queue_name \<Rightarrow> message \<Rightarrow> message \<Rightarrow> message option" where
  "merge_queue q new cur =
     (if blob_hash cur = blob_hash new \<and> length (recipients cur) = length (recipients new)
      then Some (cur\<lparr>recipients := merge_rcpts (\<lambda>r. rcpt_queue r = q) (recipients new) (recipients cur)\<rparr>)
      else None)"

definition save_batch :: "u64 option \<Rightarrow> message_wrapper \<Rightarrow> batch_op list" where
  "save_batch prev w =
     (let (m, ops) = release_quota (message w)
      in ops @
         (case prev of Some t \<Rightarrow> [Clear_Event t (queue_id w) (queue_name w)] | None \<Rightarrow> []) @
         set_events (queue_id w) m @
         [if is_multi_queue w then Merge_Message (queue_id w) (merge_queue (queue_name w) m)
          else Set_Message (queue_id w) m])"

definition save_changes :: "bool \<Rightarrow> u64 option \<Rightarrow> message_wrapper \<Rightarrow> spool \<Rightarrow> bool \<times> spool" where
  "save_changes io prev w = store_write io (save_batch prev w)"

definition remove_batch :: "u64 option \<Rightarrow> message_wrapper \<Rightarrow> batch_op list" where
  "remove_batch prev w =
     (case prev of
        Some t \<Rightarrow> [Clear_Event t (queue_id w) (queue_name w)]
      | None \<Rightarrow> clear_events (queue_id w) (next_events (message w))) @
     release_all (msg_size (message w)) (msg_metadata (message w)) @
     [Clear_Link (blob_hash (message w)) (Link_Id (queue_id w)), Clear_Message (queue_id w)]"

definition spool_remove :: "bool \<Rightarrow> u64 option \<Rightarrow> message_wrapper \<Rightarrow> spool \<Rightarrow> bool \<times> spool" where
  "spool_remove io prev w = store_write io (remove_batch prev w)"

fun merge_indices :: "nat list \<Rightarrow> recipient list \<Rightarrow> recipient list \<Rightarrow> recipient list" where
  "merge_indices [] new cur = cur"
| "merge_indices (i # is) new cur = merge_indices is new (if i < length new then cur[i := new ! i] else cur)"

definition merge_registry :: "nat list \<Rightarrow> message \<Rightarrow> message \<Rightarrow> message option" where
  "merge_registry idxs new cur =
     (if blob_hash cur = blob_hash new \<and> length (recipients cur) = length (recipients new)
      then Some (cur\<lparr>priority := priority new, env_id := env_id new,
                     recipients := merge_indices idxs (recipients new) (recipients cur)\<rparr>)
      else None)"

definition save_registry_changes ::
  "bool \<Rightarrow> (queue_name \<times> u64) list \<Rightarrow> nat list \<Rightarrow> message_wrapper \<Rightarrow> spool \<Rightarrow> bool \<times> spool" where
  "save_registry_changes io prev modified w =
     (let (m, ops) = release_quota (message w)
      in store_write io
           (ops @ clear_events (queue_id w) prev @ set_events (queue_id w) m @
            [Merge_Message (queue_id w) (merge_registry modified m)]))"

definition remove_registry :: "bool \<Rightarrow> (queue_name \<times> u64) list \<Rightarrow> message_wrapper \<Rightarrow> spool \<Rightarrow> bool \<times> spool" where
  "remove_registry io prev w =
     store_write io
       (clear_events (queue_id w) prev @
        release_all (msg_size (message w)) (msg_metadata (message w)) @
        [Clear_Link (blob_hash (message w)) (Link_Id (queue_id w)), Clear_Message (queue_id w)])"

definition has_domain :: "message \<Rightarrow> bytes list \<Rightarrow> bool" where
  "has_domain m domains \<longleftrightarrow>
     list_ex (\<lambda>r. domain_part (address r) \<in> set domains) (recipients m) \<or>
     (case split_at (return_path m) of Some (_, d) \<Rightarrow> d \<in> set domains | None \<Rightarrow> False)"

section \<open>Delivering a message\<close>

text \<open>
  What a delivery takes from its surroundings: readings of the clock, the answer
  of the rate limiters on the sender (the time to wait for), the route of each
  recipient and the results of the conversations with the next hops.
\<close>

record 'g delivery_env =
  now_check :: u64
  now_dsn :: u64
  now_due :: u64
  now_throttle :: u64
  now_route :: u64
  now_result :: u64
  now_dsn_end :: u64
  sender_limits :: "message_wrapper \<Rightarrow> u64 option list"
  route_of :: "message \<Rightarrow> recipient \<Rightarrow> 'g"
  attempt :: "message \<Rightarrow> ((bytes \<times> 'g \<times> bytes option) \<times> nat list) list \<Rightarrow> delivery_result list"

fun first_limit :: "u64 option list \<Rightarrow> u64 option" where
  "first_limit [] = None"
| "first_limit (Some t # ls) = Some t"
| "first_limit (None # ls) = first_limit ls"

definition throttle_sender :: "u64 \<Rightarrow> u64 \<Rightarrow> message_wrapper \<Rightarrow> message_wrapper" where
  "throttle_sender now retry_at w =
     w\<lparr>message := (message w)\<lparr>recipients := map (\<lambda>r.
         if is_pending (rcpt_status r) \<and> due (retry r) \<le> now \<and> rcpt_queue r = queue_name w
         then r\<lparr>retry := (retry r)\<lparr>due := retry_at\<rparr>, rcpt_status := TemporaryFailure rate_limited\<rparr>
         else r) (recipients (message w))\<rparr>\<rparr>"

fun default_header :: "metadata list \<Rightarrow> bytes option" where
  "default_header [] = None"
| "default_header (Headers v i # es) = (if i = - 1 then Some v else default_header es)"
| "default_header (_ # es) = default_header es"

fun header_of :: "u64 \<Rightarrow> metadata list \<Rightarrow> bytes option \<Rightarrow> bytes option" where
  "header_of idx [] d = d"
| "header_of idx (Headers v i # es) d = (if i = idx then Some v else header_of idx es d)"
| "header_of idx (_ # es) d = header_of idx es d"

definition add_route :: "'k \<Rightarrow> nat \<Rightarrow> ('k \<times> nat list) list \<Rightarrow> ('k \<times> nat list) list" where
  "add_route k idx routes =
     (case map_of routes k of
        Some is \<Rightarrow> AList.update k (is @ [idx]) routes
      | None \<Rightarrow> AList.update k [idx] routes)"

fun routes_loop ::
  "'g delivery_env \<Rightarrow> message_wrapper \<Rightarrow> nat \<Rightarrow> recipient list \<Rightarrow> ((bytes \<times> 'g \<times> bytes option) \<times> nat list) list \<Rightarrow>
   ((bytes \<times> 'g \<times> bytes option) \<times> nat list) list" where
  "routes_loop d w idx [] routes = routes"
| "routes_loop d w idx (r # rs) routes =
     routes_loop d w (idx + 1) rs
       (if is_pending (rcpt_status r) \<and> due (retry r) \<le> now_route d \<and> rcpt_queue r = queue_name w
        then add_route (domain_part (address r), route_of d (message w) r,
               header_of (of_nat idx) (msg_metadata (message w)) (default_header (msg_metadata (message w)))) idx routes
        else routes)"

definition delivery_routes ::
  "'g delivery_env \<Rightarrow> message_wrapper \<Rightarrow> ((bytes \<times> 'g \<times> bytes option) \<times> nat list) list" where
  "delivery_routes d w = routes_loop d w 0 (recipients (message w)) []"

datatype delivery_outcome = Outcome_Removed | Outcome_Saved

text \<open>
  The decisions of \<open>deliver_task\<close>: the reports to be queued, and whether the
  message, in the given final form, is removed or saved. A panic is \<open>None\<close>.
\<close>

definition after_attempt ::
  "'x dsn_env_scheme \<Rightarrow> 'g delivery_env \<Rightarrow> message_wrapper \<Rightarrow> dsn_report option \<Rightarrow>
   (dsn_report list \<times> delivery_outcome \<times> message_wrapper) option" where
  "after_attempt env d w rep =
     (case apply_results env (now_result d) (attempt d (message w) (delivery_routes d w)) (message w) of
        None \<Rightarrow> None
      | Some m \<Rightarrow>
          (let (rep', m) = send_dsn env (now_dsn_end d) m;
               w = w\<lparr>message := m\<rparr>
           in Some (List.map_filter id [rep, rep'],
                    if next_event m None \<noteq> None then Outcome_Saved else Outcome_Removed, w)))"

definition deliver_decide ::
  "'x dsn_env_scheme \<Rightarrow> 'g delivery_env \<Rightarrow> message_wrapper \<Rightarrow>
   (dsn_report list \<times> delivery_outcome \<times> message_wrapper) option" where
  "deliver_decide env d w =
     (let (p, w) = has_pending_delivery (now_check d) w;
          (rep, m) = send_dsn env (now_dsn d) (message w);
          w = w\<lparr>message := m\<rparr>
      in case p of
           NotPending \<Rightarrow> Some (List.map_filter id [rep], Outcome_Removed, w)
         | Pending here \<Rightarrow>
             (if here \<and> (case next_delivery_event m (Some (queue_name w)) of Some t \<Rightarrow> t \<le> now_due d | None \<Rightarrow> False) then
                (case first_limit (sender_limits d w) of
                   Some retry_at \<Rightarrow>
                     Some (List.map_filter id [rep], Outcome_Saved, throttle_sender (now_throttle d) retry_at w)
                 | None \<Rightarrow> after_attempt env d w rep)
              else Some (List.map_filter id [rep], Outcome_Saved, w)))"

datatype queue_event_status = Ev_Completed | Ev_Locked | Ev_Deferred

definition deliver_commit ::
  "bool \<Rightarrow> u64 \<Rightarrow> delivery_outcome \<Rightarrow> message_wrapper \<Rightarrow> spool \<Rightarrow> queue_event_status \<times> spool" where
  "deliver_commit io t oc w st =
     (case oc of
        Outcome_Removed \<Rightarrow> (Ev_Completed, snd (spool_remove io (Some t) w st))
      | Outcome_Saved \<Rightarrow> (Ev_Deferred, snd (save_changes io (Some t) w st)))"

text \<open>An event whose message is gone is deleted.\<close>

definition drop_event :: "bool \<Rightarrow> u64 \<times> queue_id \<times> queue_name \<Rightarrow> spool \<Rightarrow> spool" where
  "drop_event io e st = (case e of (t, i, q) \<Rightarrow> snd (store_write io [Clear_Event t i q] st))"

text \<open>
  The reports of a delivery are queued as messages without a sender. One
  call of \<open>try_deliver\<close>, run without interference: the lock of the event may be
  refused, the message may be gone or its reading fail, which deletes the event, or the
  delivery runs and its outcome is written.
\<close>

record report_io =
  report_id :: queue_id
  report_now :: u64
  report_span :: u64
  report_mime :: "dsn_report \<Rightarrow> bytes"
  report_dkim :: "bytes option"
  report_writes :: queue_io

definition queue_report :: "'x spool_env_scheme \<Rightarrow> report_io \<Rightarrow> bytes \<Rightarrow> dsn_report \<Rightarrow> spool \<Rightarrow> spool" where
  "queue_report env rio sender rep st =
     snd (queue_message env (report_now rio) (report_writes rio)
       \<lparr> raw_message = report_mime rio rep, raw_headers = None, dkim_headers = report_dkim rio,
         qp_metadata = [], qp_source = Dsn \<rparr>
       (expand_and_add_recipient env (report_now rio) sender
         (new_message env (report_now rio) (report_id rio) [] (report_span rio))) st)"

fun queue_reports :: "'x spool_env_scheme \<Rightarrow> report_io list \<Rightarrow> bytes \<Rightarrow> dsn_report list \<Rightarrow> spool \<Rightarrow> spool" where
  "queue_reports env (rio # rios) sender (rep # reps) st =
     queue_reports env rios sender reps (queue_report env rio sender rep st)"
| "queue_reports env _ sender _ st = st"

definition try_deliver ::
  "'x spool_env_scheme \<Rightarrow> 'g delivery_env \<Rightarrow> bool \<Rightarrow> bool \<Rightarrow> bool \<Rightarrow> report_io list \<Rightarrow> u64 \<times> queue_id \<times> queue_name \<Rightarrow> spool \<Rightarrow>
   (queue_event_status \<times> spool) option" where
  "try_deliver env d lock reads io rios e st =
     (case e of (t, i, q) \<Rightarrow>
        if \<not> lock then Some (Ev_Locked, st)
        else case read_message reads st i q of
          None \<Rightarrow> Some (Ev_Completed, drop_event io e st)
        | Some w \<Rightarrow>
            (case deliver_decide env d w of
               None \<Rightarrow> None
             | Some (reps, oc, w') \<Rightarrow>
                 Some (deliver_commit io t oc w' (queue_reports env rios (return_path (message w)) reps st))))"

section \<open>Effects of a batch\<close>

lemma apply_batch_append:
  "apply_batch (as @ bs) st = (case apply_batch as st of Some st' \<Rightarrow> apply_batch bs st' | None \<Rightarrow> None)"
  by (induction as arbitrary: st) (simp_all split: option.split)

fun is_add :: "batch_op \<Rightarrow> bool" where
  "is_add (Add_Count _ _) \<longleftrightarrow> True"
| "is_add (Add_Size _ _) \<longleftrightarrow> True"
| "is_add _ \<longleftrightarrow> False"

fun added_count :: "bytes \<Rightarrow> batch_op list \<Rightarrow> i64" where
  "added_count k [] = 0"
| "added_count k (Add_Count k' n # bs) = (if k' = k then n else 0) + added_count k bs"
| "added_count k (_ # bs) = added_count k bs"

fun added_size :: "bytes \<Rightarrow> batch_op list \<Rightarrow> i64" where
  "added_size k [] = 0"
| "added_size k (Add_Size k' n # bs) = (if k' = k then n else 0) + added_size k bs"
| "added_size k (_ # bs) = added_size k bs"

lemma apply_adds:
  "list_all is_add bs \<Longrightarrow> apply_batch bs st =
     Some (st\<lparr>quota_count := \<lambda>k. quota_count st k + added_count k bs, quota_size := \<lambda>k. quota_size st k + added_size k bs\<rparr>)"
proof (induction bs arbitrary: st)
  case (Cons b bs)
  from Cons.prems have *: "list_all is_add bs" by simp
  show ?case
    using Cons.prems by (cases b) (simp_all add: Cons.IH [OF *] fun_eq_iff)
qed simp

text \<open>The keys of the next events of a message.\<close>

definition event_keys :: "queue_id \<Rightarrow> message \<Rightarrow> (u64 \<times> queue_id \<times> queue_name) set" where
  "event_keys i m = (\<lambda>(q, t). (t, i, q)) ` set (next_events m)"

lemma event_keysI: "(q, t) \<in> set (next_events m) \<Longrightarrow> (t, i, q) \<in> event_keys i m"
  by (force simp: event_keys_def)

lemma apply_set_events: "apply_batch (set_events i m) st = Some (st\<lparr>events := events st \<union> event_keys i m\<rparr>)"
proof -
  have "apply_batch (map (\<lambda>(q, t). Set_Event t i q) es) st =
      Some (st\<lparr>events := events st \<union> (\<lambda>(q, t). (t, i, q)) ` set es\<rparr>)" for es st
    by (induction es arbitrary: st) auto
  then show ?thesis by (simp add: set_events_def event_keys_def)
qed

lemma apply_clear_events:
  "apply_batch (clear_events i es) st = Some (st\<lparr>events := events st - (\<lambda>(q, t). (t, i, q)) ` set es\<rparr>)"
proof (induction es arbitrary: st)
  case (Cons e es)
  obtain q t where "e = (q, t)" by force
  then show ?case using Cons.IH by (simp add: clear_events_def Diff_insert2 [symmetric])
qed (simp add: clear_events_def)

lemma adds_release_loop: "list_all is_add (snd (release_loop ids sz es))"
  by (induction es) (auto simp: Let_def split: prod.splits metadata.splits)

lemma adds_release_quota: "list_all is_add (snd (release_quota m))"
  using adds_release_loop [of "quota_ids_loop 0 (recipients m) {}" "msg_size m" "msg_metadata m"]
  by (simp add: release_quota_def Let_def case_prod_beta)

lemma adds_release_all: "list_all is_add (release_all sz es)"
  by (induction sz es rule: release_all.induct) simp_all

lemma adds_reserve_all: "list_all is_add (reserve_all sz es)"
  by (induction sz es rule: reserve_all.induct) simp_all

lemma release_quota_same [simp]:
  "recipients (fst (release_quota m)) = recipients m" "created (fst (release_quota m)) = created m"
  "blob_hash (fst (release_quota m)) = blob_hash m" "msg_size (fst (release_quota m)) = msg_size m"
  by (simp_all add: release_quota_def Let_def case_prod_beta)

lemma next_events_cong: "recipients m = recipients m' \<Longrightarrow> created m = created m' \<Longrightarrow> next_events m = next_events m'"
  by (simp add: next_events_def)

lemma event_keys_release [simp]: "event_keys i (fst (release_quota m)) = event_keys i m"
  unfolding event_keys_def by (subst next_events_cong [of "fst (release_quota m)" m]) simp_all

lemma save_batch_eq:
  "save_batch prev w =
     snd (release_quota (message w)) @
     (case prev of Some t \<Rightarrow> [Clear_Event t (queue_id w) (queue_name w)] | None \<Rightarrow> []) @
     set_events (queue_id w) (fst (release_quota (message w))) @
     [if is_multi_queue w then Merge_Message (queue_id w) (merge_queue (queue_name w) (fst (release_quota (message w))))
      else Set_Message (queue_id w) (fst (release_quota (message w)))]"
  by (simp add: save_batch_def case_prod_beta)

text \<open>What concerns other messages is not touched by a write for one message.\<close>

definition keeps_others :: "queue_id \<Rightarrow> spool \<Rightarrow> spool \<Rightarrow> bool" where
  "keeps_others i st st' \<longleftrightarrow>
     (\<forall>j. j \<noteq> i \<longrightarrow> messages st' j = messages st j \<and> (\<forall>t q. (t, j, q) \<in> events st' \<longleftrightarrow> (t, j, q) \<in> events st))"

fun op_about :: "queue_id \<Rightarrow> batch_op \<Rightarrow> bool" where
  "op_about i (Set_Event _ j _) \<longleftrightarrow> j = i"
| "op_about i (Clear_Event _ j _) \<longleftrightarrow> j = i"
| "op_about i (Set_Message j _) \<longleftrightarrow> j = i"
| "op_about i (Clear_Message j) \<longleftrightarrow> j = i"
| "op_about i (Merge_Message j _) \<longleftrightarrow> j = i"
| "op_about i _ \<longleftrightarrow> True"

lemma keeps_others_op: "op_about i b \<Longrightarrow> apply_op b st = Some st' \<Longrightarrow> keeps_others i st st'"
  by (cases b) (auto simp: keeps_others_def split: option.splits)

lemma keeps_others_batch: "list_all (op_about i) bs \<Longrightarrow> apply_batch bs st = Some st' \<Longrightarrow> keeps_others i st st'"
proof (induction bs arbitrary: st)
  case (Cons b bs)
  then obtain st1 where st1: "apply_op b st = Some st1" "apply_batch bs st1 = Some st'"
    by (auto split: option.splits)
  with Cons have "keeps_others i st st1" "keeps_others i st1 st'" using keeps_others_op by auto
  then show ?case by (simp add: keeps_others_def)
qed (simp add: keeps_others_def)

lemma keeps_others_write: "list_all (op_about i) bs \<Longrightarrow> keeps_others i st (snd (store_write io bs st))"
  using keeps_others_batch [of i bs st] by (auto simp: store_write_def keeps_others_def split: option.split)

lemma about_adds: "list_all is_add bs \<Longrightarrow> list_all (op_about i) bs"
  by (rule list.pred_mono_strong [of is_add]) (auto elim: is_add.elims)

lemma about_events: "list_all (op_about i) (set_events i m)" "list_all (op_about i) (clear_events i es)"
  by (auto simp: set_events_def clear_events_def list_all_iff)

lemma about_save: "list_all (op_about (queue_id w)) (save_batch prev w)"
  by (simp add: save_batch_eq about_adds adds_release_quota about_events split: option.split)

lemma about_remove: "list_all (op_about (queue_id w)) (remove_batch prev w)"
  by (simp add: remove_batch_def about_adds adds_release_all about_events split: option.split)

lemma about_queue: "list_all (op_about i) (queue_batch env now io p i m)"
  by (simp add: queue_batch_def about_adds adds_reserve_all about_events split: option.split prod.split)

end
