(* ===== verification/SmtpSystem.thy ===== *)
theory SmtpSystem
  imports SmtpSpool
begin

text \<open>
  The spool under concurrent deliveries (\<open>src/crates/smtp/src/outbound/delivery.rs\<close>
  and the administration of the queue in \<open>jmap/src/registry/mapping/queued_message.rs\<close>):
  a step relation whose steps are the atomic writes of the functions modelled in
  \<open>SmtpSpool\<close>, and the invariant that no message of the spool that waits for a delivery is
  left without an event, unless reading it failed. Reading a message and deleting its
  event when the reading gives nothing is one step.
\<close>

section \<open>No message is forgotten\<close>

text \<open>
  The spool with the deliveries that run on it. A delivery holds the copy of
  the message it has read, which may be stale when it writes; deliveries of
  different queues and changes made by an administrator interleave in any
  order, and any read and any write may fail; \<open>ds\<close> holds the surroundings a delivery may meet.
  A call that queues a message draws an identifier that was never used. Deliveries do
  not wait for the lock of their event here, so that every order the lock allows is
  among the runs. The set \<open>unread\<close> is history: the messages of which an event was deleted
  because their reading failed.
\<close>

record system =
  sys_spool :: spool
  running :: "(u64 \<times> message_wrapper) list"
  used :: "queue_id set"
  unread :: "queue_id set"

inductive sys_step :: "'x spool_env_scheme \<Rightarrow> 'g delivery_env set \<Rightarrow> system \<Rightarrow> system \<Rightarrow> bool" for env ds where
  enqueue: "queue_id w \<notin> used s \<Longrightarrow>
    sys_step env ds s (s\<lparr>sys_spool := snd (queue_message env now io p w (sys_spool s)), used := insert (queue_id w) (used s)\<rparr>)"
| start: "(t, i, q) \<in> events (sys_spool s) \<Longrightarrow> read_message reads (sys_spool s) i q = Some w \<Longrightarrow>
    sys_step env ds s (s\<lparr>running := (t, w\<lparr>span_id := span\<rparr>) # running s\<rparr>)"
| vanished: "(t, i, q) \<in> events (sys_spool s) \<Longrightarrow> read_message reads (sys_spool s) i q = None \<Longrightarrow>
    sys_step env ds s (s\<lparr>sys_spool := drop_event ok (t, i, q) (sys_spool s),
      unread := (if reads \<or> \<not> ok then unread s else insert i (unread s))\<rparr>)"
| finish: "(t, w) \<in> set (running s) \<Longrightarrow> d \<in> ds \<Longrightarrow> deliver_decide env d w = Some (reps, oc, w') \<Longrightarrow>
    sys_step env ds s (s\<lparr>sys_spool := snd (deliver_commit ok t oc w' (sys_spool s)), running := remove1 (t, w) (running s)\<rparr>)"
| die: "sys_step env ds s (s\<lparr>running := remove1 tw (running s)\<rparr>)"
| admin_save: "queue_id w \<in> used s \<Longrightarrow> next_event (message w) None \<noteq> None \<Longrightarrow>
    sys_step env ds s (s\<lparr>sys_spool := snd (save_registry_changes ok prev idxs w (sys_spool s))\<rparr>)"
| admin_remove: "queue_id w \<in> used s \<Longrightarrow>
    sys_step env ds s (s\<lparr>sys_spool := snd (remove_registry ok prev w (sys_spool s))\<rparr>)"
| admin_destroy: "queue_id w \<in> used s \<Longrightarrow>
    sys_step env ds s (s\<lparr>sys_spool := snd (spool_remove ok None w (sys_spool s))\<rparr>)"

definition empty_system :: system where
  "empty_system =
     \<lparr> sys_spool = \<lparr> messages = \<lambda>_. None, events = {}, quota_count = \<lambda>_. 0, quota_size = \<lambda>_. 0, blob_links = {},
                     committed = {}, spam_samples = \<lambda>_. None \<rparr>,
        running = [], used = {}, unread = {} \<rparr>"

definition covered :: "queue_id \<Rightarrow> spool \<Rightarrow> bool" where
  "covered i st \<longleftrightarrow> (\<forall>m. messages st i = Some m \<longrightarrow> next_event m None \<noteq> None \<longrightarrow> (\<exists>t q. (t, i, q) \<in> events st))"

definition sys_inv :: "system \<Rightarrow> bool" where
  "sys_inv s \<longleftrightarrow>
     (\<forall>i. i \<notin> unread s \<longrightarrow> covered i (sys_spool s)) \<and> (\<forall>(t, w)\<in>set (running s). queue_id w \<in> used s) \<and>
     (\<forall>i. messages (sys_spool s) i \<noteq> None \<longrightarrow> i \<in> used s)"

lemma covered_others: "keeps_others i st st' \<Longrightarrow> j \<noteq> i \<Longrightarrow> covered j st \<Longrightarrow> covered j st'"
  by (auto simp: keeps_others_def covered_def)

lemma write_cases:
  "(\<And>st'. apply_batch bs st = Some st' \<Longrightarrow> P st') \<Longrightarrow> P st \<Longrightarrow> P (snd (store_write io bs st))"
  by (simp add: store_write_def split: option.split)

lemma next_event_some: "next_event m None \<noteq> None \<Longrightarrow> \<exists>q t. (q, t) \<in> set (next_events m)"
  using next_events_Nil [of m] by (cases "next_events m") auto

text \<open>A batch that sets the next events of a pending message and then only writes the message leaves an event.\<close>

lemma covered_set_events:
  assumes "apply_batch (as @ set_events i m @ [b]) st = Some st'" "next_event m None \<noteq> None"
    and b: "\<And>s s'. apply_op b s = Some s' \<Longrightarrow> events s' = events s"
  shows "covered i st'"
proof -
  obtain q t where qt: "(q, t) \<in> set (next_events m)" using next_event_some assms(2) by blast
  from assms(1) obtain s where "apply_op b (s\<lparr>events := events s \<union> event_keys i m\<rparr>) = Some st'"
    by (cases "apply_batch as st") (simp_all add: apply_batch_append apply_set_events split: option.splits)
  from b [OF this] event_keysI [OF qt] show ?thesis by (auto simp: covered_def)
qed

lemma next_event_release [simp]: "next_event (fst (release_quota m)) q = next_event m q"
  by (simp add: next_event_def)

lemma covered_save:
  assumes "next_event (message w) None \<noteq> None" "covered (queue_id w) st"
  shows "covered (queue_id w) (snd (save_changes io prev w st))"
  unfolding save_changes_def
proof (rule write_cases)
  fix st'
  let ?b = "if is_multi_queue w then Merge_Message (queue_id w) (merge_queue (queue_name w) (fst (release_quota (message w))))
     else Set_Message (queue_id w) (fst (release_quota (message w)))"
  assume "apply_batch (save_batch prev w) st = Some st'"
  then have "apply_batch ((snd (release_quota (message w)) @
      (case prev of Some t \<Rightarrow> [Clear_Event t (queue_id w) (queue_name w)] | None \<Rightarrow> [])) @
      set_events (queue_id w) (fst (release_quota (message w))) @ [?b]) st = Some st'"
    by (simp add: save_batch_eq)
  then show "covered (queue_id w) st'"
    by (rule covered_set_events) (auto simp: assms split: if_splits option.splits)
qed (fact assms)

lemma covered_save_registry:
  assumes "next_event (message w) None \<noteq> None" "covered (queue_id w) st"
  shows "covered (queue_id w) (snd (save_registry_changes io prev idxs w st))"
  unfolding save_registry_changes_def Let_def case_prod_beta
proof (rule write_cases)
  fix st'
  assume "apply_batch (snd (release_quota (message w)) @ clear_events (queue_id w) prev @
    set_events (queue_id w) (fst (release_quota (message w))) @
    [Merge_Message (queue_id w) (merge_registry idxs (fst (release_quota (message w))))]) st = Some st'"
  then have "apply_batch ((snd (release_quota (message w)) @ clear_events (queue_id w) prev) @
    set_events (queue_id w) (fst (release_quota (message w))) @
    [Merge_Message (queue_id w) (merge_registry idxs (fst (release_quota (message w))))]) st = Some st'"
    by simp
  then show "covered (queue_id w) st'"
    by (rule covered_set_events) (auto simp: assms split: option.splits)
qed (fact assms)

lemma removed_write:
  "covered i st \<Longrightarrow> covered i (snd (store_write io (bs @ [Clear_Message i]) st))"
  by (rule write_cases) (auto simp: apply_batch_append covered_def split: option.splits)

lemma covered_remove: "covered (queue_id w) st \<Longrightarrow> covered (queue_id w) (snd (spool_remove io prev w st))"
  using removed_write [of "queue_id w" st io "butlast (remove_batch prev w)"]
  by (simp add: spool_remove_def remove_batch_def butlast_append)

lemma covered_remove_registry: "covered (queue_id w) st \<Longrightarrow> covered (queue_id w) (snd (remove_registry io prev w st))"
  using removed_write [of "queue_id w" st io
      "clear_events (queue_id w) prev @ release_all (msg_size (message w)) (msg_metadata (message w)) @
       [Clear_Link (blob_hash (message w)) (Link_Id (queue_id w))]"]
  by (simp add: remove_registry_def)

lemma next_event_pending: "next_event m None = None \<longleftrightarrow> (\<forall>s\<in>set (map rcpt_status (recipients m)). \<not> is_pending s)"
  by (auto simp: event.view_None_iff in_queue_def)

lemma next_event_send_dsn: "next_event (snd (send_dsn env now m)) None = None \<longleftrightarrow> next_event m None = None"
  by (simp only: next_event_pending send_dsn_status)

lemma throttle_sender_pending:
  "next_event (message (throttle_sender now t w)) None = None \<longleftrightarrow> next_event (message w) None = None"
  unfolding next_event_pending by (auto simp: throttle_sender_def)

lemma throttle_sender_some:
  "next_event (message w) None = Some y \<Longrightarrow> \<exists>y. next_event (message (throttle_sender now t w)) None = Some y"
  using throttle_sender_pending [of now t w] by (cases "next_event (message (throttle_sender now t w)) None") auto

text \<open>A message is saved only if a recipient is pending.\<close>

lemma deliver_decide_saved:
  assumes "deliver_decide env d w = Some (reps, oc, w')"
  shows "queue_id w' = queue_id w" "queue_name w' = queue_name w"
    "oc = Outcome_Saved \<Longrightarrow> next_event (message w') None \<noteq> None"
    "oc = Outcome_Removed \<Longrightarrow> next_event (message w') None = None"
proof -
  obtain p w1 where p: "has_pending_delivery (now_check d) w = (p, w1)" by force
  obtain rep m where m: "send_dsn env (now_dsn d) (message w1) = (rep, m)" by force
  have w1: "queue_id w1 = queue_id w" "queue_name w1 = queue_name w"
    using p by (auto simp: has_pending_delivery_eq Let_def)
  have pending: "p = NotPending \<longleftrightarrow> next_event m None = None"
    using has_pending_none [of "now_check d" w] next_event_send_dsn [of env "now_dsn d" "message w1"] p m by simp
  show "queue_id w' = queue_id w" "queue_name w' = queue_name w"
    using assms w1
    by (auto simp: deliver_decide_def after_attempt_def p m Let_def throttle_sender_def
        split: pending_delivery.splits if_splits option.splits prod.splits)
  show "next_event (message w') None \<noteq> None" if "oc = Outcome_Saved"
    using assms that pending
    by (auto simp: deliver_decide_def after_attempt_def p m Let_def intro!: throttle_sender_some
        split: pending_delivery.splits if_splits option.splits prod.splits)
  show "next_event (message w') None = None" if "oc = Outcome_Removed"
    using assms that pending
    by (auto simp: deliver_decide_def after_attempt_def p m Let_def
        split: pending_delivery.splits if_splits option.splits prod.splits)
qed

lemma covered_commit:
  assumes "deliver_decide env d w = Some (reps, oc, w')" "covered i st"
  shows "covered i (snd (deliver_commit io t oc w' st))"
proof (cases "i = queue_id w'")
  case True
  then show ?thesis
    using deliver_decide_saved(3) [OF assms(1)] assms(2)
    by (cases oc) (auto simp: deliver_commit_def covered_save covered_remove)
next
  case False
  then show ?thesis
    using covered_others [OF keeps_others_write [OF about_save] False assms(2)]
      covered_others [OF keeps_others_write [OF about_remove] False assms(2)]
    by (cases oc) (simp_all add: deliver_commit_def save_changes_def spool_remove_def)
qed

lemma messages_commit:
  "messages (snd (deliver_commit io t oc w st)) j \<noteq> None \<Longrightarrow> messages st j \<noteq> None \<or> j = queue_id w"
  using keeps_others_write [OF about_save [of w "Some t"], of st io]
    keeps_others_write [OF about_remove [of w "Some t"], of st io]
  by (cases oc) (auto simp: deliver_commit_def save_changes_def spool_remove_def keeps_others_def)

text \<open>Queueing a message leaves the others alone and gives the message an event.\<close>

lemma queued_form_same [simp]:
  "recipients (queued_form env p m) = recipients m" "created (queued_form env p m) = created m"
  by (simp_all add: queued_form_def Let_def)

lemma event_keys_queued [simp]: "event_keys i (queued_form env p m) = event_keys i m"
  unfolding event_keys_def by (subst next_events_cong [of "queued_form env p m" m]) simp_all

lemma keeps_others_trans: "keeps_others i st st1 \<Longrightarrow> keeps_others i st1 st2 \<Longrightarrow> keeps_others i st st2"
  by (simp add: keeps_others_def)

lemma keeps_others_queue: "keeps_others (queue_id w) st (snd (queue_message env now io p w st))"
proof -
  have link: "keeps_others i st (snd (store_write ok [Set_Link h l] st))" for i ok h l
    by (rule keeps_others_write) simp
  show ?thesis
    using keeps_others_trans [OF link keeps_others_write [OF about_queue]] link
    by (auto simp: queue_message_def Let_def case_prod_beta)
qed

lemma queue_batch_writes:
  "apply_batch (queue_batch env now io p i m) st = Some st' \<Longrightarrow> messages st' i = Some m \<and> event_keys i m \<subseteq> events st'"
  by (auto simp: queue_batch_def apply_batch_append apply_set_events apply_adds [OF adds_reserve_all]
      split: option.splits prod.splits)

lemma covered_queue:
  assumes "messages st (queue_id w) = None"
  shows "covered (queue_id w) (snd (queue_message env now io p w st))"
proof -
  let ?i = "queue_id w" and ?m = "queued_form env p (message w)"
  have *: "covered ?i (snd (store_write ok (queue_batch env now io p ?i ?m) s))" if "covered ?i s" for ok s
  proof (rule write_cases)
    fix s'
    assume "apply_batch (queue_batch env now io p ?i ?m) s = Some s'"
    from queue_batch_writes [OF this] next_event_some [of ?m] show "covered ?i s'"
      by (fastforce simp: covered_def intro: event_keysI simp del: event_keys_queued)
  qed (fact that)
  have link: "covered ?i (snd (store_write ok [Set_Link h l] st))" for ok h l
    using assms by (simp add: store_write_def covered_def)
  show ?thesis
    using * link by (simp add: queue_message_def Let_def case_prod_beta)
qed

lemma messages_of_keeps:
  "keeps_others i st st' \<Longrightarrow> messages st' j \<noteq> None \<Longrightarrow> messages st j \<noteq> None \<or> j = i"
  by (auto simp: keeps_others_def)

text \<open>Every step keeps the invariant: a write for one message covers it and leaves the others covered.\<close>

lemma sys_inv_write:
  assumes inv: "sys_inv s" and keeps: "keeps_others i (sys_spool s) (sys_spool s')"
    and i: "i \<notin> unread s \<Longrightarrow> covered i (sys_spool s')" "i \<in> used s'"
    and u: "used s \<subseteq> used s'" "unread s' = unread s" and r: "set (running s') \<subseteq> set (running s)"
  shows "sys_inv s'"
proof -
  have "covered j (sys_spool s')" if "j \<notin> unread s" for j
    using inv that i covered_others [OF keeps, of j] by (cases "j = i") (auto simp: sys_inv_def)
  moreover have "j \<in> used s'" if "messages (sys_spool s') j \<noteq> None" for j
    using messages_of_keeps [OF keeps that] inv i u by (auto simp: sys_inv_def)
  moreover have "\<forall>(t, w)\<in>set (running s'). queue_id w \<in> used s'"
    using inv u r by (fastforce simp: sys_inv_def)
  ultimately show ?thesis by (simp add: sys_inv_def u)
qed

lemma keeps_others_registry:
  "keeps_others (queue_id w) st (snd (save_registry_changes io prev idxs w st))"
  "keeps_others (queue_id w) st (snd (remove_registry io prev w st))"
  by (auto simp: save_registry_changes_def remove_registry_def case_prod_beta about_adds adds_release_quota
      adds_release_all about_events intro!: keeps_others_write)

lemma messages_drop_event [simp]: "messages (drop_event ok e st) = messages st"
  by (cases e) (simp add: drop_event_def store_write_def)

lemma events_drop_event: "events (drop_event ok (t, i, q) st) = (if ok then events st - {(t, i, q)} else events st)"
  by (simp add: drop_event_def store_write_def)

lemma read_message_Some: "read_message reads st i q = Some w \<Longrightarrow> reads \<and> queue_id w = i \<and> messages st i = Some (message w)"
  by (auto simp: read_message_def message_wrapper_new_def split: if_splits option.splits)

lemma read_message_None: "read_message reads st i q = None \<longleftrightarrow> \<not> reads \<or> messages st i = None"
  by (auto simp: read_message_def split: option.splits)

text \<open>Deleting an event leaves a message uncovered only if the message is there and is not read.\<close>

lemma sys_inv_vanished:
  assumes inv: "sys_inv s" and none: "read_message reads (sys_spool s) i q = None"
  shows "sys_inv (s\<lparr>sys_spool := drop_event ok (t, i, q) (sys_spool s),
    unread := (if reads \<or> \<not> ok then unread s else insert i (unread s))\<rparr>)"
proof -
  have "covered j (drop_event ok (t, i, q) (sys_spool s))"
    if "j \<notin> (if reads \<or> \<not> ok then unread s else insert i (unread s))" for j
  proof -
    from that have "j \<noteq> i \<or> \<not> ok \<or> messages (sys_spool s) i = None"
      using none by (auto simp: read_message_None split: if_splits)
    moreover have "covered j (sys_spool s)" using that inv by (auto simp: sys_inv_def split: if_splits)
    ultimately show ?thesis by (cases "j = i") (auto simp: covered_def events_drop_event)
  qed
  with inv show ?thesis by (auto simp: sys_inv_def)
qed

lemma sys_inv_step: "sys_step env ds s s' \<Longrightarrow> sys_inv s \<Longrightarrow> sys_inv s'"
proof (induction rule: sys_step.induct)
  case (enqueue w s now io p)
  then have "messages (sys_spool s) (queue_id w) = None" by (auto simp: sys_inv_def)
  with enqueue show ?case
    by (intro sys_inv_write [OF enqueue(2), of "queue_id w"]) (auto simp: keeps_others_queue covered_queue)
next
  case (start t i q s reads w span)
  then have "queue_id w = i" "i \<in> used s" using read_message_Some [OF start(2)] by (auto simp: sys_inv_def)
  with start show ?case by (auto simp: sys_inv_def)
next
  case (vanished t i q s reads ok)
  then show ?case using sys_inv_vanished by blast
next
  case (finish t w s d reps oc w' ok)
  have "keeps_others (queue_id w') (sys_spool s) (snd (deliver_commit ok t oc w' (sys_spool s)))"
    using keeps_others_write [OF about_save] keeps_others_write [OF about_remove]
    by (cases oc) (simp_all add: deliver_commit_def save_changes_def spool_remove_def)
  moreover have "queue_id w' \<in> used s"
    using finish deliver_decide_saved(1) [OF finish(3)] by (auto simp: sys_inv_def)
  moreover have "covered (queue_id w') (snd (deliver_commit ok t oc w' (sys_spool s)))" if "queue_id w' \<notin> unread s"
    using finish that by (intro covered_commit [OF finish(3)]) (auto simp: sys_inv_def)
  ultimately show ?case
    by (intro sys_inv_write [OF finish(4), of "queue_id w'"]) (auto dest: set_remove1_subset [THEN subsetD])
next
  case (die s tw)
  then show ?case by (auto simp: sys_inv_def dest: set_remove1_subset [THEN subsetD])
next
  case (admin_save w s ok prev idxs)
  then have "queue_id w \<notin> unread s \<Longrightarrow> covered (queue_id w) (sys_spool s)" by (simp add: sys_inv_def)
  with admin_save show ?case
    by (intro sys_inv_write [OF admin_save(3), of "queue_id w"]) (auto simp: keeps_others_registry covered_save_registry)
next
  case (admin_remove w s ok prev)
  then have "queue_id w \<notin> unread s \<Longrightarrow> covered (queue_id w) (sys_spool s)" by (simp add: sys_inv_def)
  with admin_remove show ?case
    by (intro sys_inv_write [OF admin_remove(2), of "queue_id w"]) (auto simp: keeps_others_registry covered_remove_registry)
next
  case (admin_destroy w s ok)
  then have "queue_id w \<notin> unread s \<Longrightarrow> covered (queue_id w) (sys_spool s)" by (simp add: sys_inv_def)
  moreover have "keeps_others (queue_id w) (sys_spool s) (snd (spool_remove ok None w (sys_spool s)))"
    by (simp add: spool_remove_def keeps_others_write about_remove)
  ultimately show ?case
    using admin_destroy by (intro sys_inv_write [OF admin_destroy(2), of "queue_id w"]) (auto simp: covered_remove)
qed

lemma sys_inv_reachable: "(sys_step env ds)\<^sup>*\<^sup>* empty_system s \<Longrightarrow> sys_inv s"
proof (induction rule: rtranclp_induct)
  case base
  then show ?case by (simp add: sys_inv_def empty_system_def covered_def)
next
  case (step s s')
  then show ?case using sys_inv_step by blast
qed

text \<open>
  C2: No message is forgotten but through a failed read. However deliveries with stale copies,
  changes by an administrator, new messages, failing writes and dying deliveries interleave,
  a message in the spool with a recipient that waits for a delivery has an event that will
  bring it up again, unless a delivery failed to read the message and deleted its event.
\<close>

theorem no_message_forgotten:
  assumes "(sys_step env ds)\<^sup>*\<^sup>* empty_system s" "messages (sys_spool s) i = Some m"
    "r \<in> set (recipients m)" "is_pending (rcpt_status r)"
  shows "(\<exists>t q. (t, i, q) \<in> events (sys_spool s)) \<or> i \<in> unread s"
proof -
  from assms(3,4) have "next_event m None \<noteq> None" by (auto simp: next_event_pending)
  with sys_inv_reachable [OF assms(1)] assms(2) show ?thesis by (auto simp: sys_inv_def covered_def)
qed

text \<open>
  The exception is real: a delivery whose reading of a stored message fails deletes the event
  and reports the message as completed, and the message stays in the spool.
\<close>

theorem failed_read_forgets:
  assumes "messages st i = Some m" "events st = {(t, i, q)}"
  shows "\<exists>st'. try_deliver env d True False True rios (t, i, q) st = Some (Ev_Completed, st') \<and>
    messages st' i = Some m \<and> events st' = {}"
  using assms by (simp add: try_deliver_def read_message_def events_drop_event)

section \<open>Examples\<close>

definition sample_spool_env :: spool_env where
  "sample_spool_env =
     \<lparr> unicode_lower = id, domain_to_ascii = Some, eval_queue = (\<lambda>_ _. None), queue_strategies = Map.empty,
       NOTIFY_NEVER = 1, NOTIFY_SUCCESS = 2, NOTIFY_FAILURE = 4, NOTIFY_DELAY = 8,
       to_rfc822 = (\<lambda>_. []), get_blob = (\<lambda>_ _. None),
       dsn_name = (\<lambda>_. None), dsn_address = (\<lambda>_. None), report_submitter = (\<lambda>_. None),
       hash_of = id, ne_bytes = (\<lambda>_. []), quota_sender = [], quota_rcpt = [], quota_rcpt_domain = [],
       rcpt_resolve = (\<lambda>_. None), hold_samples_for = None \<rparr>"

definition sample_params :: queue_params where
  "sample_params =
     \<lparr> raw_message = ''hi'', raw_headers = None, dkim_headers = None, qp_metadata = [QueueCount ''k'' 1], qp_source = Dsn \<rparr>"

definition sample_io :: queue_io where
  "sample_io = \<lparr> io_reserve = True, io_blob = True, io_commit = True, sample_id = 0 \<rparr>"

lemma sample_next_event: "next_event (message sample_wrapper) None = Some 10"
  by (simp add: sample_wrapper_def sample_queued_def next_event_def recipient_new_def schedule_now_def in_queue_def
      earlier_event_def expiration_time_def)

lemma sample_queue_result:
  "queue_message sample_spool_env 10 sample_io sample_params sample_wrapper (sys_spool empty_system) =
     (True, snd (queue_message sample_spool_env 10 sample_io sample_params sample_wrapper (sys_spool empty_system)))"
  "messages (snd (queue_message sample_spool_env 10 sample_io sample_params sample_wrapper (sys_spool empty_system))) 1 =
     Some (queued_form sample_spool_env sample_params sample_queued)"
  "quota_count (snd (queue_message sample_spool_env 10 sample_io sample_params sample_wrapper (sys_spool empty_system))) ''k'' = 1"
  by (simp_all add: queue_message_def store_write_def queue_batch_def apply_batch_append apply_set_events
      apply_adds [OF adds_reserve_all] sample_params_def sample_io_def empty_system_def sample_wrapper_def
      queued_form_def [of _ "\<lparr> raw_message = _, raw_headers = _, dkim_headers = _, qp_metadata = _, qp_source = _ \<rparr>"] Let_def)

theorem no_message_forgotten_witness:
  "\<exists>s m r t q. (sys_step sample_spool_env ({} :: unit delivery_env set))\<^sup>*\<^sup>* empty_system s \<and>
     messages (sys_spool s) 1 = Some m \<and> r \<in> set (recipients m) \<and> is_pending (rcpt_status r) \<and>
     (t, 1, q) \<in> events (sys_spool s)"
proof -
  let ?s = "empty_system\<lparr>sys_spool := snd (queue_message sample_spool_env 10 sample_io sample_params sample_wrapper (sys_spool empty_system)),
    used := insert (queue_id sample_wrapper) (used empty_system)\<rparr>"
  have "sys_step sample_spool_env ({} :: unit delivery_env set) empty_system ?s"
    by (rule sys_step.enqueue) (simp add: empty_system_def)
  then have reach: "(sys_step sample_spool_env ({} :: unit delivery_env set))\<^sup>*\<^sup>* empty_system ?s" by blast
  have m: "messages (sys_spool ?s) 1 = Some (queued_form sample_spool_env sample_params sample_queued)"
    using sample_queue_result(2) by simp
  have "next_event sample_queued None \<noteq> None" using sample_next_event by (simp add: sample_wrapper_def)
  then obtain r where r: "r \<in> set (recipients (queued_form sample_spool_env sample_params sample_queued))"
    "is_pending (rcpt_status r)"
    by (auto simp: next_event_pending)
  from no_message_forgotten [OF reach m r] obtain t q where "(t, 1, q) \<in> events (sys_spool ?s)"
    by (auto simp: empty_system_def)
  with reach m r show ?thesis by blast
qed

end
