(* ===== verification/SmtpDelivery.thy ===== *)
theory SmtpDelivery
  imports SmtpSystem
begin

text \<open>
  What the writes and decisions of the outbound queue guarantee: quotas are
  balanced, saved recipients are scheduled, a delivery changes its own
  recipients only; and where they do not, for messages spread over several queues and for
  several quotas on domains.
\<close>

section \<open>Quotas are balanced\<close>

definition held_count :: "bytes \<Rightarrow> metadata list \<Rightarrow> i64" where
  "held_count k es = of_nat (length (filter (\<lambda>e. case e of QueueCount k' _ \<Rightarrow> k' = k | _ \<Rightarrow> False) es))"

definition held_size :: "bytes \<Rightarrow> u64 \<Rightarrow> metadata list \<Rightarrow> i64" where
  "held_size k sz es = of_nat (length (filter (\<lambda>e. case e of QueueSize k' _ \<Rightarrow> k' = k | _ \<Rightarrow> False) es)) * sz"

lemma held_simps [simp]:
  "held_count k [] = 0" "held_size k sz [] = 0"
  "held_count k (QueueCount k' i # es) = (if k' = k then 1 else 0) + held_count k es"
  "held_count k (QueueSize k' i # es) = held_count k es" "held_count k (Headers v i # es) = held_count k es"
  "held_size k sz (QueueSize k' i # es) = (if k' = k then sz else 0) + held_size k sz es"
  "held_size k sz (QueueCount k' i # es) = held_size k sz es" "held_size k sz (Headers v i # es) = held_size k sz es"
  by (simp_all add: held_count_def held_size_def distrib_right)



lemma added_release_loop:
  "added_count k (snd (release_loop ids sz es)) = held_count k (fst (release_loop ids sz es)) - held_count k es"
  "added_size k (snd (release_loop ids sz es)) = held_size k sz (fst (release_loop ids sz es)) - held_size k sz es"
proof (induction es)
  case (Cons e es)
  {
    case 1
    from Cons show ?case by (cases e) (auto simp: case_prod_beta)
  next
    case 2
    from Cons show ?case by (cases e) (auto simp: case_prod_beta)
  }
qed simp_all

lemma added_release_quota:
  "added_count k (snd (release_quota m)) = held_count k (msg_metadata (fst (release_quota m))) - held_count k (msg_metadata m)"
  "added_size k (snd (release_quota m)) =
     held_size k (msg_size m) (msg_metadata (fst (release_quota m))) - held_size k (msg_size m) (msg_metadata m)"
  by (simp_all add: release_quota_def Let_def case_prod_beta added_release_loop)









section \<open>Saving one of several queues\<close>

lemma length_merge_rcpts: "length ns = length cs \<Longrightarrow> length (merge_rcpts P ns cs) = length cs"
  by (induction P ns cs rule: merge_rcpts.induct) simp_all

lemma nth_merge_rcpts:
  "length ns = length cs \<Longrightarrow> i < length cs \<Longrightarrow> merge_rcpts P ns cs ! i = (if P (ns ! i) then ns ! i else cs ! i)"
  by (induction P ns cs arbitrary: i rule: merge_rcpts.induct) (auto simp: nth_Cons split: nat.split)

lemma save_multi:
  assumes "is_multi_queue w" "save_changes ok prev w st = (True, st')"
  shows "\<exists>cur. messages st (queue_id w) = Some cur \<and> blob_hash cur = blob_hash (message w) \<and>
    length (recipients cur) = length (recipients (message w)) \<and>
    messages st' (queue_id w) = Some (cur\<lparr>recipients :=
      merge_rcpts (\<lambda>r. rcpt_queue r = queue_name w) (recipients (message w)) (recipients cur)\<rparr>) \<and>
    events st' = (events st - (case prev of Some t \<Rightarrow> {(t, queue_id w, queue_name w)} | None \<Rightarrow> {})) \<union>
      event_keys (queue_id w) (message w) \<and>
    (\<forall>k. quota_count st' k = quota_count st k + added_count k (snd (release_quota (message w))))"
  using assms
  by (cases prev)
     (auto simp: save_changes_def store_write_def save_batch_eq apply_batch_append apply_set_events
       apply_adds [OF adds_release_quota] merge_queue_def split: option.splits if_splits)

lemma save_single:
  assumes "\<not> is_multi_queue w" "save_changes ok prev w st = (True, st')"
  shows "messages st' (queue_id w) = Some (fst (release_quota (message w)))"
    "events st' = (events st - (case prev of Some t \<Rightarrow> {(t, queue_id w, queue_name w)} | None \<Rightarrow> {})) \<union>
      event_keys (queue_id w) (message w)"
  using assms
  by (cases prev;
      auto simp: save_changes_def store_write_def save_batch_eq apply_batch_append apply_set_events
        apply_adds [OF adds_release_quota] split: option.splits if_splits)+

text \<open>A pending recipient of a stored message is scheduled when its queue has an event that is not too late.\<close>

definition scheduled :: "spool \<Rightarrow> queue_id \<Rightarrow> u64 \<Rightarrow> recipient \<Rightarrow> bool" where
  "scheduled st i c r \<longleftrightarrow>
     (is_pending (rcpt_status r) \<longrightarrow> (\<exists>t. (t, i, rcpt_queue r) \<in> events st \<and> t \<le> earlier_event c r))"

lemma scheduled_next_events:
  assumes "event_keys i m \<subseteq> events st" "r \<in> set (recipients m)"
  shows "scheduled st i (created m) r"
  unfolding scheduled_def
proof
  assume "is_pending (rcpt_status r)"
  with assms(2) have r: "r \<in> set (pending_in m (Some (rcpt_queue r)))" by (simp add: pending_in_def in_queue_def)
  then obtain t where t: "next_event m (Some (rcpt_queue r)) = Some t"
    by (cases "next_event m (Some (rcpt_queue r))") (auto simp: event.view_eq split: if_splits)
  then have "(t, i, rcpt_queue r) \<in> events st"
    using assms(1) event_keysI [of "rcpt_queue r" t m i] by (auto simp: next_events_member)
  with event.view_le [OF t r] show "\<exists>t. (t, i, rcpt_queue r) \<in> events st \<and> t \<le> earlier_event (created m) r" by blast
qed

text \<open>
  C6: A save keeps recipients scheduled. A recipient that the delivery leaves in its
  own queue, and every recipient of a message that waits in one queue only, is stored as the
  delivery left it, and if it is pending there is an event of its queue that is not later than
  its retry, notification and expiration time. A recipient of another queue stays
  scheduled if it was. Nothing is said of a recipient that is moved to another queue by the
  delivery of a message in several queues.
\<close>

theorem saved_recipients_scheduled:
  assumes save: "save_changes ok (Some t) w st = (True, st')" and j: "j < length (recipients (message w))"
  shows "\<exists>m. messages st' (queue_id w) = Some m \<and> length (recipients m) = length (recipients (message w)) \<and>
    (if \<not> is_multi_queue w \<or> rcpt_queue (recipients (message w) ! j) = queue_name w
     then recipients m ! j = recipients (message w) ! j \<and>
       scheduled st' (queue_id w) (created (message w)) (recipients m ! j)
     else rcpt_queue (recipients m ! j) \<noteq> queue_name w \<and> scheduled st (queue_id w) (created m) (recipients m ! j) \<longrightarrow>
       scheduled st' (queue_id w) (created m) (recipients m ! j))"
proof (cases "is_multi_queue w")
  case False
  from save_single [OF this save] j False show ?thesis
    using scheduled_next_events [of "queue_id w" "message w" st'] by auto
next
  case True
  from save_multi [OF this save] obtain cur where cur: "messages st (queue_id w) = Some cur"
    "length (recipients cur) = length (recipients (message w))"
    "messages st' (queue_id w) = Some (cur\<lparr>recipients :=
      merge_rcpts (\<lambda>r. rcpt_queue r = queue_name w) (recipients (message w)) (recipients cur)\<rparr>)"
    and ev: "events st' = (events st - {(t, queue_id w, queue_name w)}) \<union>
      event_keys (queue_id w) (message w)" by auto
  have "scheduled st' (queue_id w) (created (message w)) (recipients (message w) ! j)"
    using scheduled_next_events [of "queue_id w" "message w" st'] ev j by simp
  moreover have "rcpt_queue r \<noteq> queue_name w \<Longrightarrow> scheduled st (queue_id w) c r \<Longrightarrow> scheduled st' (queue_id w) c r" for c r
    by (auto simp: scheduled_def ev)
  ultimately show ?thesis using cur j True by (simp add: length_merge_rcpts nth_merge_rcpts)
qed

text \<open>
  C36: In a message of several queues, a recipient whose queue changes with a failed
  attempt is not saved: the stored recipient keeps its old retry count, status and
  queue. The quota of the finished recipients is given back at every save,
  since the reservations in the stored message stay.
\<close>

theorem multi_queue_save_loses:
  assumes "is_multi_queue w" "save_changes ok prev w st = (True, st')"
  shows "\<exists>cur m. messages st (queue_id w) = Some cur \<and> messages st' (queue_id w) = Some m \<and>
    (\<forall>j < length (recipients cur). rcpt_queue (recipients (message w) ! j) \<noteq> queue_name w \<longrightarrow>
       recipients m ! j = recipients cur ! j) \<and>
    msg_metadata m = msg_metadata cur \<and>
    quota_count st' k = quota_count st k -
      (held_count k (msg_metadata (message w)) - held_count k (msg_metadata (fst (release_quota (message w)))))"
  using save_multi [OF assms] by (auto simp: nth_merge_rcpts added_release_quota)

section \<open>A delivery changes its own recipients only\<close>

definition changes_only :: "nat set \<Rightarrow> message \<Rightarrow> message \<Rightarrow> bool" where
  "changes_only I m m' \<longleftrightarrow>
     length (recipients m') = length (recipients m) \<and> created m' = created m \<and>
     (\<forall>j < length (recipients m). j \<notin> I \<longrightarrow> recipients m' ! j = recipients m ! j)"

definition retries_set :: "'x smtp_env_scheme \<Rightarrow> bool" where
  "retries_set env \<longleftrightarrow> (\<forall>m r. qs_retry (strategy_of env m r) \<noteq> [])"

lemma set_rcpt_status_total:
  "idx < length (recipients m) \<Longrightarrow> retries_set env \<Longrightarrow>
   \<exists>m'. set_rcpt_status env now s idx m = Some m' \<and> changes_only {idx} m m'"
  by (auto simp: set_rcpt_status_def Let_def changes_only_def retries_set_def)

lemma set_rcpt_rate_limit_total:
  "idx < length (recipients m) \<Longrightarrow> \<exists>m'. set_rcpt_rate_limit idx t m = Some m' \<and> changes_only {idx} m m'"
  by (auto simp: set_rcpt_rate_limit_def changes_only_def)

lemma set_each_total:
  assumes "\<And>x m. x \<in> set xs \<Longrightarrow> I x \<subseteq> {..<length (recipients m)} \<Longrightarrow> \<exists>m'. f x m = Some m' \<and> changes_only (I x) m m'"
    and "\<And>x. x \<in> set xs \<Longrightarrow> I x \<subseteq> {..<length (recipients m)}"
  shows "\<exists>m'. set_each f xs m = Some m' \<and> changes_only (\<Union>x\<in>set xs. I x) m m'"
  using assms
proof (induction xs arbitrary: m)
  case Nil
  then show ?case by (simp add: changes_only_def)
next
  case (Cons x xs)
  obtain m1 where m1: "f x m = Some m1" "changes_only (I x) m m1"
    using Cons.prems(1) [of x m] Cons.prems(2) [of x] by auto
  have "\<exists>m'. set_each f xs m1 = Some m' \<and> changes_only (\<Union>x\<in>set xs. I x) m1 m'"
  proof (rule Cons.IH)
    show "\<exists>m'. f y m = Some m' \<and> changes_only (I y) m m'" if "y \<in> set xs" "I y \<subseteq> {..<length (recipients m)}" for y m
      using Cons.prems(1) that by simp
    show "I y \<subseteq> {..<length (recipients m1)}" if "y \<in> set xs" for y
      using Cons.prems(2) [of y] that m1(2) by (simp add: changes_only_def)
  qed
  with m1 show ?case by (fastforce simp: changes_only_def)
qed

fun result_indices :: "delivery_result \<Rightarrow> nat set" where
  "result_indices (Domain_result _ is) = set is"
| "result_indices (Account_result _ i) = {i}"
| "result_indices (RateLimited_result is _) = set is"

lemma apply_result_total:
  assumes "retries_set env" "result_indices x \<subseteq> {..<length (recipients m)}"
  shows "\<exists>m'. apply_result env now x m = Some m' \<and> changes_only (result_indices x) m m'"
proof (cases x)
  case (Domain_result s "is")
  have "\<exists>m'. set_each (set_rcpt_status env now s) is m = Some m' \<and> changes_only (\<Union>x\<in>set is. {x}) m m'"
    using assms Domain_result set_rcpt_status_total by (intro set_each_total) (auto simp: subset_iff)
  with Domain_result show ?thesis by simp
next
  case (Account_result s i)
  with assms set_rcpt_status_total show ?thesis by simp
next
  case (RateLimited_result "is" t)
  have "\<exists>m'. set_each (\<lambda>i. set_rcpt_rate_limit i t) is m = Some m' \<and> changes_only (\<Union>x\<in>set is. {x}) m m'"
    using assms RateLimited_result set_rcpt_rate_limit_total by (intro set_each_total) (auto simp: subset_iff)
  with RateLimited_result show ?thesis by simp
qed

definition route_indices :: "('k \<times> nat list) list \<Rightarrow> nat set" where
  "route_indices routes = (\<Union>(k, is)\<in>set routes. set is)"

lemma route_indices_simps [simp]:
  "route_indices [] = {}" "route_indices (x # xs) = set (snd x) \<union> route_indices xs"
  by (auto simp: route_indices_def)

lemma add_route_indices: "route_indices (add_route k i routes) = insert i (route_indices routes)"
proof -
  have "map_of routes k = Some is \<Longrightarrow> route_indices (AList.update k (is @ [i]) routes) = insert i (route_indices routes)" for "is"
    by (induction routes) auto
  moreover have "map_of routes k = None \<Longrightarrow> route_indices (AList.update k [i] routes) = insert i (route_indices routes)"
    by (induction routes) (auto split: if_splits)
  ultimately show ?thesis by (simp add: add_route_def split: option.split)
qed

definition due_here :: "u64 \<Rightarrow> queue_name \<Rightarrow> recipient \<Rightarrow> bool" where
  "due_here now q r \<longleftrightarrow> is_pending (rcpt_status r) \<and> due (retry r) \<le> now \<and> rcpt_queue r = q"

lemma routes_loop_indices:
  "route_indices (routes_loop d w idx rs routes) =
     route_indices routes \<union> {j. idx \<le> j \<and> j < idx + length rs \<and> due_here (now_route d) (queue_name w) (rs ! (j - idx))}"
proof (induction rs arbitrary: idx routes)
  case (Cons r rs)
  have *: "{j. idx \<le> j \<and> j < idx + length (r # rs) \<and> P ((r # rs) ! (j - idx))} =
      (if P r then {idx} else {}) \<union> {j. idx + 1 \<le> j \<and> j < idx + 1 + length rs \<and> P (rs ! (j - (idx + 1)))}" for P
    by (auto simp: nth_Cons' less_Suc_eq_le)
  show ?case
    by (simp only: routes_loop.simps Cons.IH *) (simp add: add_route_indices due_here_def)
qed auto

lemma delivery_routes_exact:
  "route_indices (delivery_routes d w) =
     {j. j < length (recipients (message w)) \<and> due_here (now_route d) (queue_name w) (recipients (message w) ! j)}"
  by (simp add: delivery_routes_def routes_loop_indices)

text \<open>The surroundings of a delivery: the next hops report on the recipients they were given.\<close>

definition honest :: "'g delivery_env \<Rightarrow> bool" where
  "honest d \<longleftrightarrow> (\<forall>m routes. \<forall>x\<in>set (attempt d m routes). result_indices x \<subseteq> route_indices routes)"

lemma apply_attempt_total:
  assumes "retries_set env" "honest d"
  shows "\<exists>m'. apply_results env now (attempt d (message w) (delivery_routes d w)) (message w) = Some m' \<and>
    changes_only (route_indices (delivery_routes d w)) (message w) m'"
proof -
  let ?xs = "attempt d (message w) (delivery_routes d w)"
  have sub: "result_indices x \<subseteq> route_indices (delivery_routes d w)" if "x \<in> set ?xs" for x
    using assms(2) that by (auto simp: honest_def)
  have "route_indices (delivery_routes d w) \<subseteq> {..<length (recipients (message w))}"
    by (auto simp: delivery_routes_exact)
  with sub have "result_indices x \<subseteq> {..<length (recipients (message w))}" if "x \<in> set ?xs" for x
    using that by blast
  with set_each_total [of ?xs result_indices "apply_result env now" "message w"] apply_result_total [OF assms(1)]
  obtain m' where m': "apply_results env now ?xs (message w) = Some m'"
    "changes_only (\<Union>x\<in>set ?xs. result_indices x) (message w) m'" unfolding apply_results_def by blast
  with sub have "changes_only (route_indices (delivery_routes d w)) (message w) m'"
    unfolding changes_only_def by blast
  with m'(1) show ?thesis by blast
qed

lemma send_dsn_created: "created (snd (send_dsn env now m)) = created m"
  by (simp add: send_dsn_def build_dsn_def handle_double_bounce_def update_next_dsn_eq Let_def case_prod_beta)

text \<open>
  C4: If every queueing strategy has a retry interval and the conversations with the next hops
  report only on recipients they were given, then the decisions of a delivery do not
  panic. It first gives up the expired recipients; of all others it changes, apart from
  the flags and notification times that its reports set, only pending ones in its own queue.
  The message is removed exactly when no recipient is pending any more. The
  conversations themselves are not part of this.
\<close>

theorem delivery_own_recipients:
  assumes env: "retries_set env" and d: "honest d"
  shows "\<exists>reps oc w'. deliver_decide env d w = Some (reps, oc, w') \<and>
    length (recipients (message w')) = length (recipients (message w)) \<and>
    (\<forall>j < length (recipients (message w)).
       let r = expire (created (message w)) (now_check d) (recipients (message w) ! j)
       in is_pending (rcpt_status r) \<and> rcpt_queue r = queue_name w \<or> rcpt_frame (recipients (message w') ! j) = rcpt_frame r) \<and>
    (oc = Outcome_Removed \<longleftrightarrow> (\<forall>r\<in>set (recipients (message w')). \<not> is_pending (rcpt_status r)))"
proof -
  let ?rs = "map (expire (created (message w)) (now_check d)) (recipients (message w))"
  obtain p w1 where p: "has_pending_delivery (now_check d) w = (p, w1)" by force
  have w1: "queue_name w1 = queue_name w" "recipients (message w1) = ?rs"
    using p by (auto simp: has_pending_delivery_eq Let_def)
  obtain rep m where m: "send_dsn env (now_dsn d) (message w1) = (rep, m)" by force
  define w2 where "w2 = w1\<lparr>message := m\<rparr>"
  have len: "length (recipients m) = length (recipients (message w))"
    using send_dsn_length [of env "now_dsn d" "message w1"] m w1(2) by simp
  have at: "rcpt_frame (recipients m ! j) = rcpt_frame (?rs ! j)" if "j < length (recipients (message w))" for j
    using send_dsn_nth(4) [of j "message w1" env "now_dsn d"] m w1(2) that by simp
  then have at': "rcpt_status (recipients m ! j) = rcpt_status (?rs ! j)" "rcpt_queue (recipients m ! j) = rcpt_queue (?rs ! j)"
    if "j < length (recipients (message w))" for j
    using that by (simp_all add: rcpt_frame_def)
  from apply_attempt_total [OF env d, of "now_result d" w2] obtain m3 where
    m3: "apply_results env (now_result d) (attempt d m (delivery_routes d w2)) m = Some m3"
      "changes_only (route_indices (delivery_routes d w2)) m m3" by (auto simp: w2_def)
  obtain rep' m4 where m4: "send_dsn env (now_dsn_end d) m3 = (rep', m4)" by force
  define own where "own j \<longleftrightarrow> is_pending (rcpt_status (?rs ! j)) \<and> rcpt_queue (?rs ! j) = queue_name w" for j
  define kept where "kept m' \<longleftrightarrow> length (recipients m') = length (recipients (message w)) \<and>
    (\<forall>j < length (recipients (message w)). own j \<or> rcpt_frame (recipients m' ! j) = rcpt_frame (?rs ! j))" for m' :: message
  have "kept m4"
    using m3(2) send_dsn_nth(4) [of _ m3 env "now_dsn_end d"] send_dsn_length [of env "now_dsn_end d" m3] m4 at at' len
    by (auto simp: kept_def own_def changes_only_def delivery_routes_exact due_here_def w2_def w1)
  moreover have "kept m" using at len by (simp add: kept_def)
  moreover have "kept (message (throttle_sender now t w2))" for now t
    using at at' len by (auto simp: kept_def own_def throttle_sender_def w2_def w1)
  ultimately have "\<exists>reps oc w'. deliver_decide env d w = Some (reps, oc, w') \<and> kept (message w')"
    by (auto simp: deliver_decide_def after_attempt_def p m m3(1) [unfolded w2_def] m4 w2_def Let_def
        split: pending_delivery.split option.split)
  then obtain reps oc w' where w': "deliver_decide env d w = Some (reps, oc, w')" "kept (message w')" by blast
  have "oc = Outcome_Removed \<longleftrightarrow> next_event (message w') None = None"
    using deliver_decide_saved(3,4) [OF w'(1)] by (cases oc) auto
  then have "oc = Outcome_Removed \<longleftrightarrow> (\<forall>r\<in>set (recipients (message w')). \<not> is_pending (rcpt_status r))"
    by (simp add: next_event_pending)
  with w' show ?thesis by (auto simp: kept_def own_def Let_def)
qed

section \<open>Quotas of domains\<close>

lemma quota_new_key_domains: "quota_new_key (env\<lparr>quota_rcpt_domain := x\<rparr>) q m r = quota_new_key env q m r"
  by (simp add: quota_new_key_def split: option.split)

lemma check_quota_domains [simp]:
  "check_quota (env\<lparr>quota_rcpt_domain := x\<rparr>) = check_quota env"
  by (intro ext) (simp add: check_quota_def quota_new_key_domains cong: if_cong)

lemma quota_loops_domains [simp]:
  "sender_quotas_loop (env\<lparr>quota_rcpt_domain := x\<rparr>) st m qs refs = sender_quotas_loop env st m qs refs"
  "domain_rcpts_loop (env\<lparr>quota_rcpt_domain := x\<rparr>) st m q idx rs seen refs = domain_rcpts_loop env st m q idx rs seen refs"
  "rcpts_loop (env\<lparr>quota_rcpt_domain := x\<rparr>) st m q idx rs refs = rcpts_loop env st m q idx rs refs"
proof -
  show "sender_quotas_loop (env\<lparr>quota_rcpt_domain := x\<rparr>) st m qs refs = sender_quotas_loop env st m qs refs"
    by (induction qs arbitrary: refs) (simp_all split: option.split)
  show "domain_rcpts_loop (env\<lparr>quota_rcpt_domain := x\<rparr>) st m q idx rs seen refs = domain_rcpts_loop env st m q idx rs seen refs"
    by (induction rs arbitrary: idx seen refs) (simp_all split: option.split)
  show "rcpts_loop (env\<lparr>quota_rcpt_domain := x\<rparr>) st m q idx rs refs = rcpts_loop env st m q idx rs refs"
    by (induction rs arbitrary: idx refs) (simp_all split: option.split)
qed

lemma quota_outer_loops_domains [simp]:
  "domain_quotas_loop (env\<lparr>quota_rcpt_domain := x\<rparr>) st m qs seen refs = domain_quotas_loop env st m qs seen refs"
  "rcpt_quotas_loop (env\<lparr>quota_rcpt_domain := x\<rparr>) st m qs refs = rcpt_quotas_loop env st m qs refs"
proof -
  show "domain_quotas_loop (env\<lparr>quota_rcpt_domain := x\<rparr>) st m qs seen refs = domain_quotas_loop env st m qs seen refs"
    by (induction qs arbitrary: seen refs) (simp_all split: option.split)
  show "rcpt_quotas_loop (env\<lparr>quota_rcpt_domain := x\<rparr>) st m qs refs = rcpt_quotas_loop env st m qs refs"
    by (induction qs arbitrary: refs) (simp_all split: option.split)
qed

lemma domain_rcpts_loop_seen:
  "domain_rcpts_loop env st m q idx rs seen refs = Some (seen', refs') \<Longrightarrow>
   seen' = seen \<union> (\<lambda>r. domain_part (address r)) ` set rs"
  by (induction rs arbitrary: idx seen refs) (auto split: if_splits option.splits)

lemma domain_rcpts_loop_all_seen:
  "(\<lambda>r. domain_part (address r)) ` set rs \<subseteq> seen \<Longrightarrow> domain_rcpts_loop env st m q idx rs seen refs = Some (seen, refs)"
  by (induction rs arbitrary: idx) simp_all

lemma domain_quotas_loop_all_seen:
  "(\<lambda>r. domain_part (address r)) ` set (recipients m) \<subseteq> seen \<Longrightarrow> domain_quotas_loop env st m qs seen refs = Some refs"
  by (induction qs) (simp_all add: domain_rcpts_loop_all_seen)

text \<open>
  Of the quotas on recipient domains only the first is enforced: the set of the
  domains already seen is shared by all quotas, so that every further quota
  finds all domains seen and changes nothing.
\<close>

theorem second_domain_quota_ignored:
  "has_quota (env\<lparr>quota_rcpt_domain := q # qs\<rparr>) st m = has_quota (env\<lparr>quota_rcpt_domain := [q]\<rparr>) st m"
proof -
  have "domain_quotas_loop env st m (q # qs) {} refs = domain_quotas_loop env st m [q] {} refs" for refs
    using domain_rcpts_loop_seen [of env st m q 0 "recipients m" "{}" refs]
    by (auto simp: domain_quotas_loop_all_seen split: option.split)
  then show ?thesis by (simp add: has_quota_def del: domain_quotas_loop.simps cong: option.case_cong)
qed

section \<open>Notifications of expanded recipients\<close>

text \<open>The first notification of an expanded recipient is due at twice the time of day, counted from the epoch.\<close>

lemma expanded_notify_far:
  "notify (last (recipients (message (add_expanded_recipient env now a w)))) =
     \<lparr> due = now + ((case qs_notify (strategy_of env
        ((message w)\<lparr>recipients := recipients (message w) @ [recipient_new env now a]\<rparr>) (recipient_new env now a)) of
        n # _ \<Rightarrow> n | [] \<Rightarrow> 86400) + now), inner = 0 \<rparr>"
  by (simp add: add_expanded_recipient_def Let_def schedule_later_def)

section \<open>Applications\<close>


lemma store_write_True: "apply_batch bs st = Some st' \<Longrightarrow> store_write True bs st = (True, st')"
  by (simp add: store_write_def)

lemma save_single_succeeds:
  "\<not> is_multi_queue w \<Longrightarrow> save_changes True prev w st = (True, snd (save_changes True prev w st))"
  by (cases prev)
     (simp_all add: save_changes_def store_write_def save_batch_eq apply_batch_append apply_set_events
       apply_adds [OF adds_release_quota])

text \<open>
  A message in two queues: the delivery of the first queue moves one recipient to
  the second queue after a failure and completes another.
\<close>

definition queue_rcpt :: "queue_name \<Rightarrow> u32 \<Rightarrow> rcpt_status \<Rightarrow> recipient" where
  "queue_rcpt q n s =
     \<lparr> address = ''u@b.org'', retry = \<lparr> due = 100, inner = n \<rparr>, notify = \<lparr> due = - 1, inner = 0 \<rparr>,
       rcpt_expires = Attempts 9, rcpt_queue = q, rcpt_status = s, rcpt_flags = 0, orcpt = None \<rparr>"

definition accepted :: host_response where
  "accepted = \<lparr> hostname = ''mx'', response = \<lparr> code = 250, esc = (2, 0, 0), resp_message = [] \<rparr> \<rparr>"

definition two_queues :: "recipient list \<Rightarrow> message" where
  "two_queues rs = sample_queued\<lparr>recipients := rs, msg_metadata := [QueueCount ''k'' 2]\<rparr>"

definition stored_rcpts :: "recipient list" where
  "stored_rcpts = [queue_rcpt ''local'' 0 Scheduled, queue_rcpt ''local'' 0 Scheduled, queue_rcpt ''remote'' 0 Scheduled]"

definition tried_rcpts :: "recipient list" where
  "tried_rcpts = [queue_rcpt ''remote'' 1 (TemporaryFailure rate_limited), queue_rcpt ''local'' 0 (Completed accepted),
     queue_rcpt ''remote'' 0 Scheduled]"

definition two_queue_spool :: spool where
  "two_queue_spool = (sys_spool empty_system)\<lparr>messages := (\<lambda>_. None)(1 := Some (two_queues stored_rcpts)),
     events := {(100, 1, ''local''), (100, 1, ''remote'')}\<rparr>"

definition tried_wrapper :: message_wrapper where
  "tried_wrapper =
     \<lparr> queue_id = 1, queue_name = ''local'', is_multi_queue = True, span_id = 0, message = two_queues tried_rcpts \<rparr>"

lemma tried_save:
  "save_changes True (Some 100) tried_wrapper two_queue_spool =
     (True, snd (save_changes True (Some 100) tried_wrapper two_queue_spool))"
  by (simp add: save_changes_def store_write_def save_batch_eq apply_batch_append apply_set_events
      apply_adds [OF adds_release_quota] tried_wrapper_def two_queue_spool_def merge_queue_def two_queues_def
      stored_rcpts_def tried_rcpts_def)

lemma tried_release: "msg_metadata (fst (release_quota (two_queues tried_rcpts))) = []"
  by (simp add: release_quota_def two_queues_def tried_rcpts_def queue_rcpt_def domain_part_def)

lemma tried_wrapper_same [simp]:
  "is_multi_queue tried_wrapper" "queue_id tried_wrapper = 1" "queue_name tried_wrapper = ''local''"
  "message tried_wrapper = two_queues tried_rcpts"
  by (simp_all add: tried_wrapper_def)

text \<open>
  The stored form of the message in two queues after the save: of the two recipients of the first
  queue, the one that was completed is stored; the one of the other queue is
  scheduled as it was. For a message in one queue the recipient is scheduled.
\<close>

theorem saved_recipients_scheduled_witness:
  "(\<exists>m. messages (snd (save_changes True (Some 100) tried_wrapper two_queue_spool)) 1 = Some m \<and>
      recipients m ! 1 = queue_rcpt ''local'' 0 (Completed accepted) \<and>
      recipients m ! 2 = queue_rcpt ''remote'' 0 Scheduled \<and>
      scheduled (snd (save_changes True (Some 100) tried_wrapper two_queue_spool)) 1 (created m) (recipients m ! 2)) \<and>
   scheduled (snd (save_changes True (Some 5) sample_wrapper (sys_spool empty_system))) 1 (created (message sample_wrapper))
     (recipients (message sample_wrapper) ! 0)"
proof (rule conjI)
  let ?st = "snd (save_changes True (Some 100) tried_wrapper two_queue_spool)"
  have len: "1 < length (recipients (message tried_wrapper))" "2 < length (recipients (message tried_wrapper))"
    by (simp_all add: two_queues_def tried_rcpts_def)
  have r: "recipients (two_queues tried_rcpts) ! 1 = queue_rcpt ''local'' 0 (Completed accepted)"
    "rcpt_queue (recipients (two_queues tried_rcpts) ! 1) = ''local''"
    "rcpt_queue (recipients (two_queues tried_rcpts) ! 2) = ''remote''"
    by (simp_all add: two_queues_def tried_rcpts_def queue_rcpt_def)
  have was: "scheduled two_queue_spool 1 c (queue_rcpt ''remote'' 0 Scheduled)" for c
    by (simp add: scheduled_def two_queue_spool_def queue_rcpt_def earlier_event_def expiration_time_def)
  obtain m where m: "messages ?st 1 = Some m" "recipients m ! 1 = queue_rcpt ''local'' 0 (Completed accepted)"
    using saved_recipients_scheduled [OF tried_save len(1)] r by auto
  have rest: "recipients m ! 2 = queue_rcpt ''remote'' 0 Scheduled"
    using save_multi [OF tried_wrapper_same(1) tried_save] m(1)
    by (auto simp: two_queue_spool_def two_queues_def stored_rcpts_def tried_rcpts_def queue_rcpt_def)
  then have "rcpt_queue (recipients m ! 2) \<noteq> ''local''" by (simp add: queue_rcpt_def)
  with saved_recipients_scheduled [OF tried_save len(2)] m(1) r(3) rest was
  have "scheduled ?st 1 (created m) (recipients m ! 2)" by auto
  with m rest show "\<exists>m. messages ?st 1 = Some m \<and> recipients m ! 1 = queue_rcpt ''local'' 0 (Completed accepted) \<and>
      recipients m ! 2 = queue_rcpt ''remote'' 0 Scheduled \<and> scheduled ?st 1 (created m) (recipients m ! 2)" by blast
next
  have one: "queue_id sample_wrapper = 1" "\<not> is_multi_queue sample_wrapper" "0 < length (recipients (message sample_wrapper))"
    by (simp_all add: sample_wrapper_def sample_queued_def)
  from saved_recipients_scheduled [OF save_single_succeeds [OF one(2), of "Some 5" "sys_spool empty_system"] one(3)] one(1,2)
  show "scheduled (snd (save_changes True (Some 5) sample_wrapper (sys_spool empty_system))) 1 (created (message sample_wrapper))
     (recipients (message sample_wrapper) ! 0)" by auto
qed

theorem multi_queue_save_loses_witness:
  "\<exists>m. messages (snd (save_changes True (Some 100) tried_wrapper two_queue_spool)) 1 = Some m \<and>
     recipients m ! 0 = queue_rcpt ''local'' 0 Scheduled \<and> msg_metadata m = [QueueCount ''k'' 2] \<and>
     quota_count (snd (save_changes True (Some 100) tried_wrapper two_queue_spool)) ''k'' = - 1"
proof -
  note w = tried_wrapper_same
  have cur: "messages two_queue_spool 1 = Some (two_queues stored_rcpts)" "quota_count two_queue_spool ''k'' = 0"
    by (simp_all add: two_queue_spool_def empty_system_def)
  from multi_queue_save_loses [OF w(1) tried_save, of "''k''"] cur show ?thesis
    by (simp add: w tried_release) (auto simp: two_queues_def stored_rcpts_def tried_rcpts_def queue_rcpt_def)
qed

definition quiet_delivery :: "unit delivery_env" where
  "quiet_delivery =
     \<lparr> now_check = 20, now_dsn = 20, now_due = 20, now_throttle = 20, now_route = 20, now_result = 21, now_dsn_end = 22,
       sender_limits = (\<lambda>_. []), route_of = (\<lambda>_ _. ()),
       attempt = (\<lambda>_. map (\<lambda>(_, is). Domain_result (Completed accepted) is)) \<rparr>"

theorem delivery_own_recipients_witness:
  "\<exists>reps oc w'. deliver_decide sample_spool_env quiet_delivery tried_wrapper = Some (reps, oc, w') \<and>
     rcpt_frame (recipients (message w') ! 0) = rcpt_frame (queue_rcpt ''remote'' 1 (TemporaryFailure rate_limited))"
proof -
  have env: "retries_set sample_spool_env"
    by (simp add: retries_set_def strategy_of_def get_queue_or_default_def sample_spool_env_def default_schedule_def)
  have d: "honest quiet_delivery"
    by (fastforce simp: honest_def quiet_delivery_def route_indices_def)
  have w: "0 < length (recipients (message tried_wrapper))" "queue_name tried_wrapper = ''local''"
    "recipients (message tried_wrapper) ! 0 = queue_rcpt ''remote'' 1 (TemporaryFailure rate_limited)"
    by (simp_all add: tried_wrapper_def two_queues_def tried_rcpts_def)
  have e: "expire c t (queue_rcpt ''remote'' 1 (TemporaryFailure rate_limited)) =
      queue_rcpt ''remote'' 1 (TemporaryFailure rate_limited)" for c t
    by (simp add: expire_def is_expired_def queue_rcpt_def word_le_nat_alt)
  from delivery_own_recipients [OF env d, of tried_wrapper] obtain reps oc w' where
    w': "deliver_decide sample_spool_env quiet_delivery tried_wrapper = Some (reps, oc, w')"
    and st: "\<forall>j < length (recipients (message tried_wrapper)).
       let r = expire (created (message tried_wrapper)) (now_check quiet_delivery) (recipients (message tried_wrapper) ! j)
       in is_pending (rcpt_status r) \<and> rcpt_queue r = queue_name tried_wrapper \<or>
          rcpt_frame (recipients (message w') ! j) = rcpt_frame r" by blast
  have "rcpt_queue (queue_rcpt ''remote'' 1 (TemporaryFailure rate_limited)) \<noteq> ''local''" by (simp add: queue_rcpt_def)
  with st [rule_format, OF w(1)]
  have "rcpt_frame (recipients (message w') ! 0) = rcpt_frame (queue_rcpt ''remote'' 1 (TemporaryFailure rate_limited))"
    by (simp only: w e Let_def) simp
  with w' show ?thesis by blast
qed

end
