(* ===== verification/SmtpManager.thy ===== *)
theory SmtpManager
  imports SmtpSpool "HOL-Library.Multiset"
begin

text \<open>
  The manager of the outbound queue (\<open>src/crates/smtp/src/queue/manager.rs\<close> and
  \<open>next_event\<close> of \<open>spool.rs\<close>): it scans the events of the spool, keeps a table
  of the events it has handed out, limits the deliveries of each virtual queue and
  handles the messages that deliveries and other parts send it; a delivery task
  takes a lock in the in-memory store first (\<open>try_lock_event\<close> of \<open>spool.rs\<close>). Instants are
  seconds; the table is an association list; the events of the store are given
  as the list that the scan of the store delivers, in ascending order of time.
  The random delay of a lock and the random order of the deliveries are
  arguments. A panic is \<open>None\<close>.
\<close>

section \<open>State\<close>

record locked_message =
  lock_expires :: u64
  lock_revision :: u64

record queue_stats =
  in_flight :: nat
  max_in_flight :: nat
  last_warning :: u64

type_synonym lock_table = "((queue_id \<times> queue_name) \<times> locked_message) list"

record manager =
  locked :: lock_table
  locked_revision :: u64
  stats :: "queue_name \<Rightarrow> queue_stats option"
  next_refresh :: u64
  is_paused :: bool
  rx_closed :: bool
  queue_status :: bool

definition LOCK_EXPIRY :: u64 where "LOCK_EXPIRY = 600"

definition QUEUE_REFRESH :: u64 where "QUEUE_REFRESH = 300"

definition INFINITE_LOCK :: u64 where "INFINITE_LOCK = 31536000"

definition BACK_PRESSURE_WARN_INTERVAL :: u64 where "BACK_PRESSURE_WARN_INTERVAL = 60"

definition manager_new :: "u64 \<Rightarrow> manager" where
  "manager_new now =
     \<lparr> locked = [], locked_revision = 0, stats = Map.empty, next_refresh = now + 1, is_paused = False,
       rx_closed = False, queue_status = True \<rparr>"

definition queue_stats_new :: "u64 \<Rightarrow> nat \<Rightarrow> queue_stats" where
  "queue_stats_new now threads =
     \<lparr> in_flight = 0, max_in_flight = threads, last_warning = now - BACK_PRESSURE_WARN_INTERVAL \<rparr>"

definition has_capacity :: "queue_stats \<Rightarrow> bool" where
  "has_capacity s \<longleftrightarrow> in_flight s < max_in_flight s"

section \<open>Scanning the events\<close>

record queued_message =
  qm_due :: u64
  qm_queue_id :: queue_id
  qm_queue_name :: queue_name

definition queue_open :: "manager \<Rightarrow> queue_name \<Rightarrow> bool" where
  "queue_open m q \<longleftrightarrow> (case stats m q of Some s \<Rightarrow> has_capacity s | None \<Rightarrow> True)"

type_synonym scan_state = "lock_table \<times> queued_message list \<times> u64"

definition scan_due :: "manager \<Rightarrow> u64 \<Rightarrow> u64 \<Rightarrow> u64 \<Rightarrow> queue_id \<Rightarrow> queue_name \<Rightarrow> scan_state \<Rightarrow> scan_state" where
  "scan_due m now rv t i q = (\<lambda>(lt, msgs, refresh).
     let handed = (AList.update (i, q) \<lparr> lock_expires = now + INFINITE_LOCK, lock_revision = rv \<rparr> lt,
                   msgs @ [\<lparr> qm_due = t, qm_queue_id = i, qm_queue_name = q \<rparr>], refresh)
     in if queue_open m q then
          (case map_of lt (i, q) of
             Some l \<Rightarrow>
               (if lock_expires l \<le> now then handed
                else (AList.update (i, q) (l\<lparr>lock_revision := rv\<rparr>) lt, msgs,
                      if lock_expires l < refresh then lock_expires l else refresh))
           | None \<Rightarrow> handed)
        else (lt, msgs, refresh))"

fun scan_loop :: "manager \<Rightarrow> u64 \<Rightarrow> u64 \<Rightarrow> (u64 \<times> queue_id \<times> bytes) list \<Rightarrow> scan_state \<Rightarrow> scan_state" where
  "scan_loop m now rv [] s = s"
| "scan_loop m now rv ((t, i, qb) # es) s =
     (if t \<le> now then
        (case queue_name_from_bytes qb of
           None \<Rightarrow> s
         | Some q \<Rightarrow> scan_loop m now rv es (scan_due m now rv t i q s))
      else (case s of (lt, msgs, refresh) \<Rightarrow> (lt, msgs, if t < refresh then t else refresh)))"

definition manager_next_event ::
  "u64 \<Rightarrow> (u64 \<times> queue_id \<times> bytes) list \<Rightarrow> manager \<Rightarrow> manager \<times> queued_message list \<times> u64" where
  "manager_next_event now es m =
     (let rv = locked_revision m + 1;
          (lt, msgs, refresh) = scan_loop m now rv es (locked m, [], now + QUEUE_REFRESH)
      in (m\<lparr>locked := lt, locked_revision := rv\<rparr>, msgs, refresh))"

section \<open>Starting deliveries\<close>

definition start_one :: "(queue_name \<Rightarrow> nat) \<Rightarrow> u64 \<Rightarrow> queued_message \<Rightarrow> manager \<Rightarrow> manager \<times> queued_message list" where
  "start_one threads now e m =
     (let q = qm_queue_name e;
          s = (case stats m q of Some s \<Rightarrow> s | None \<Rightarrow> queue_stats_new now (threads q))
      in if has_capacity s
         then (m\<lparr>stats := (stats m)(q := Some (s\<lparr>in_flight := in_flight s + 1\<rparr>))\<rparr>, [e])
         else
           (m\<lparr>stats := (stats m)(q :=
                Some (if BACK_PRESSURE_WARN_INTERVAL \<le> now - last_warning s then s\<lparr>last_warning := now\<rparr> else s)),
              locked := AList.delete (qm_queue_id e, q) (locked m)\<rparr>, []))"

fun start_all :: "(queue_name \<Rightarrow> nat) \<Rightarrow> u64 \<Rightarrow> queued_message list \<Rightarrow> manager \<Rightarrow> manager \<times> queued_message list" where
  "start_all threads now [] m = (m, [])"
| "start_all threads now (e # es) m =
     (let (m, a) = start_one threads now e m; (m, b) = start_all threads now es m in (m, a @ b))"

text \<open>
  One round of the manager's loop: \<open>order\<close> is the random order in which more than three
  messages are started, \<open>now\<close> and \<open>now'\<close> the times before and after.
\<close>

definition deliver_round ::
  "(queue_name \<Rightarrow> nat) \<Rightarrow> u64 \<Rightarrow> u64 \<Rightarrow> (queued_message list \<Rightarrow> queued_message list) \<Rightarrow> (u64 \<times> queue_id \<times> bytes) list \<Rightarrow>
   manager \<Rightarrow> manager \<times> queued_message list" where
  "deliver_round threads now now' order es m =
     (let (m, msgs, refresh) = manager_next_event now es m;
          (m, started) = start_all threads now' (if 3 < length msgs then order msgs else msgs) m;
          lt = filter (\<lambda>(k, l). now' < lock_expires l \<and> lock_revision l = locked_revision m) (locked m)
      in (m\<lparr>locked := lt, next_refresh := now' + (if now' \<le> refresh then refresh - now' else 0)\<rparr>, started))"

definition manager_round ::
  "(queue_name \<Rightarrow> nat) \<Rightarrow> u64 \<Rightarrow> u64 \<Rightarrow> (queued_message list \<Rightarrow> queued_message list) \<Rightarrow> (u64 \<times> queue_id \<times> bytes) list \<Rightarrow>
   bool \<Rightarrow> manager \<Rightarrow> manager \<times> queued_message list" where
  "manager_round threads now now' order es refresh_queue m =
     (if \<not> is_paused m then
        (if refresh_queue \<or> next_refresh m \<le> now then deliver_round threads now now' order es m else (m, []))
      else (m\<lparr>next_refresh := now' + 86400\<rparr>, []))"

section \<open>Handling messages\<close>

datatype queue_event =
    Ev_Refresh
  | Ev_WorkerDone queue_id queue_name queue_event_status
  | Ev_Paused bool
  | Ev_ReloadSettings
  | Ev_Stop

fun reload_stats :: "u64 \<Rightarrow> (queue_name \<times> nat) list \<Rightarrow> (queue_name \<Rightarrow> queue_stats option) \<Rightarrow> (queue_name \<Rightarrow> queue_stats option)" where
  "reload_stats now [] st = st"
| "reload_stats now ((q, n) # qs) st =
     reload_stats now qs (st(q := Some (case st q of Some s \<Rightarrow> s\<lparr>max_in_flight := n\<rparr> | None \<Rightarrow> queue_stats_new now n)))"

definition worker_done ::
  "u64 \<Rightarrow> u64 \<Rightarrow> queue_id \<Rightarrow> queue_name \<Rightarrow> queue_event_status \<Rightarrow> manager \<Rightarrow> (manager \<times> bool) option" where
  "worker_done now rnd i q status m =
     (case stats m q of
        None \<Rightarrow> None
      | Some s \<Rightarrow>
          (if in_flight s = 0 then None
           else
             let s = s\<lparr>in_flight := in_flight s - 1\<rparr>;
                 m = m\<lparr>stats := (stats m)(q := Some s)\<rparr>
             in Some (case status of
                  Ev_Completed \<Rightarrow>
                    (let m = m\<lparr>locked := AList.delete (i, q) (locked m)\<rparr>
                     in (m, locked m \<noteq> [] \<or> \<not> has_capacity s))
                | Ev_Locked \<Rightarrow>
                    (let e = LOCK_EXPIRY + rnd;
                         m = m\<lparr>next_refresh := (if now + e < next_refresh m then now + e else next_refresh m),
                               locked := AList.update (i, q) \<lparr> lock_expires = now + e, lock_revision = locked_revision m \<rparr> (locked m)\<rparr>
                     in (m, 1 < length (locked m) \<or> \<not> has_capacity s))
                | Ev_Deferred \<Rightarrow> (m\<lparr>locked := AList.delete (i, q) (locked m)\<rparr>, True))))"

fun handle_event ::
  "(queue_name \<times> nat) list \<Rightarrow> u64 \<Rightarrow> u64 \<Rightarrow> queue_event \<Rightarrow> manager \<Rightarrow> (manager \<times> bool) option" where
  "handle_event vqs now rnd (Ev_WorkerDone i q status) m = worker_done now rnd i q status m"
| "handle_event vqs now rnd Ev_Refresh m = Some (m, True)"
| "handle_event vqs now rnd (Ev_Paused paused) m = Some (m\<lparr>queue_status := \<not> paused, is_paused := paused\<rparr>, \<not> paused)"
| "handle_event vqs now rnd Ev_ReloadSettings m = Some (m\<lparr>stats := reload_stats now vqs (stats m)\<rparr>, False)"
| "handle_event vqs now rnd Ev_Stop m = Some (m\<lparr>rx_closed := True, is_paused := True\<rparr>, False)"

section \<open>Locks of the deliveries\<close>

text \<open>
  The lock a delivery takes in the in-memory store before it reads its message, in the
  form for a store of the server: a key whose value is the time at which the lock ends. The
  key is read, and written on condition that its value is still the one that was read; the
  two are one operation here. \<open>io\<close> is false if the store fails or the condition does
  not hold.
\<close>

type_synonym lock_store = "bytes \<Rightarrow> u64 option"

definition try_lock :: "bool \<Rightarrow> u64 \<Rightarrow> bytes \<Rightarrow> u64 \<Rightarrow> lock_store \<Rightarrow> bool \<times> lock_store" where
  "try_lock io now key duration ls =
     (if (case ls key of Some expiry \<Rightarrow> now < expiry | None \<Rightarrow> False) then (False, ls)
      else if io then (True, ls(key \<mapsto> now + duration))
      else (False, ls))"

definition try_lock_event :: "bool \<Rightarrow> u64 \<Rightarrow> queue_id \<Rightarrow> queue_name \<Rightarrow> lock_store \<Rightarrow> bool \<times> lock_store" where
  "try_lock_event io now i q = try_lock io now (lock_id i q) LOCK_EXPIRY"

definition unlock_event :: "bool \<Rightarrow> queue_id \<Rightarrow> queue_name \<Rightarrow> lock_store \<Rightarrow> lock_store" where
  "unlock_event io i q ls = (if io then ls(lock_id i q := None) else ls)"

definition be_value :: "bytes \<Rightarrow> nat" where
  "be_value bs = foldl (\<lambda>v c. v * 256 + of_char c) 0 bs"

lemma be_value_be_bytes: "be_value (be_bytes n v) = unat v mod 256 ^ n"
proof (induction n arbitrary: v)
  case (Suc n)
  have "unat (take_bit 8 v) = unat v mod 256" by (simp only: unsigned_take_bit_eq) (simp add: take_bit_eq_mod)
  moreover have "unat (drop_bit 8 v) = unat v div 256" using unsigned_less [of v, where 'a = nat]
    by (simp only: unsigned_drop_bit_eq) (simp add: take_bit_nat_eq_self drop_bit_eq_div)
  ultimately have "be_value (be_bytes (Suc n) v) = unat v div 256 mod 256 ^ n * 256 + unat v mod 256"
    using Suc.IH [of "drop_bit 8 v"] by (simp add: be_value_def of_char_of)
  also have "\<dots> = unat v mod 256 ^ Suc n" by (simp add: mod_mult2_eq)
  finally show ?case .
qed (simp add: be_value_def)

lemma length_be_bytes: "length (be_bytes n v) = n"
  by (induction n arbitrary: v) simp_all

text \<open>Different events have different locks.\<close>

lemma lock_id_inj: "lock_id i q = lock_id j r \<longleftrightarrow> i = j \<and> q = r"
proof
  assume "lock_id i q = lock_id j r"
  then have "be_bytes 8 i = be_bytes 8 j" and qr: "q = r" by (simp_all add: lock_id_def length_be_bytes)
  then have "unat i mod 256 ^ 8 = unat j mod 256 ^ 8" by (metis be_value_be_bytes)
  then have "unat i = unat j" using unsigned_less [of i, where 'a = nat] unsigned_less [of j, where 'a = nat] by simp
  with qr show "i = j \<and> q = r" by (simp add: unsigned_word_eqI [where 'a = nat])
qed simp

section \<open>Deliveries are counted\<close>

text \<open>
  The manager with the tasks it has started. A task first tries to lock its event; if it
  gets the lock, it delivers and then gives the lock back; in the end it sends its
  status to the manager, which handles it in a later step. The times of a step are those
  read at its beginning and at its end; \<open>limit\<close> bounds the threads that the settings
  ever allow for a queue.
\<close>

datatype worker_phase = Spawned | Delivering | Ended queue_event_status

type_synonym worker = "queue_id \<times> queue_name \<times> worker_phase"

record mgr_system =
  mgr :: manager
  workers :: "worker multiset"
  lock_keys :: lock_store

definition mgr_start :: "u64 \<Rightarrow> mgr_system" where
  "mgr_start t = \<lparr> mgr = manager_new t, workers = {#}, lock_keys = Map.empty \<rparr>"

definition spawned :: "queued_message list \<Rightarrow> worker multiset" where
  "spawned es = mset (map (\<lambda>e. (qm_queue_id e, qm_queue_name e, Spawned)) es)"

definition advance :: "worker \<Rightarrow> worker_phase \<Rightarrow> worker multiset \<Rightarrow> worker multiset" where
  "advance x ph r = r - {#x#} + {#(fst x, fst (snd x), ph)#}"

inductive mgr_step :: "(queue_name \<Rightarrow> nat) \<Rightarrow> u64 \<Rightarrow> u64 \<Rightarrow> mgr_system \<Rightarrow> mgr_system \<Rightarrow> bool" for limit where
  round: "(\<And>q. threads q \<le> limit q) \<Longrightarrow> (\<And>xs. mset (order xs) = mset xs) \<Longrightarrow>
    manager_round threads now now' order es refresh (mgr s) = (m', started) \<Longrightarrow>
    mgr_step limit now now' s (s\<lparr>mgr := m', workers := workers s + spawned started\<rparr>)"
| lock: "(i, q, Spawned) \<in># workers s \<Longrightarrow> try_lock_event io now i q (lock_keys s) = (got, ls) \<Longrightarrow>
    mgr_step limit now now s (s\<lparr>lock_keys := ls,
      workers := advance (i, q, Spawned) (if got then Delivering else Ended Ev_Locked) (workers s)\<rparr>)"
| unlock: "(i, q, Delivering) \<in># workers s \<Longrightarrow> status \<in> {Ev_Completed, Ev_Deferred} \<Longrightarrow>
    mgr_step limit now now s (s\<lparr>lock_keys := unlock_event io i q (lock_keys s),
      workers := advance (i, q, Delivering) (Ended status) (workers s)\<rparr>)"
| ended: "(i, q, Ended status) \<in># workers s \<Longrightarrow>
    handle_event vqs now rnd (Ev_WorkerDone i q status) (mgr s) = Some (m', b) \<Longrightarrow>
    mgr_step limit now now s (s\<lparr>mgr := m', workers := workers s - {#(i, q, Ended status)#}\<rparr>)"
| other: "ev \<in> {Ev_Refresh, Ev_Paused p, Ev_ReloadSettings, Ev_Stop} \<Longrightarrow> \<forall>(q, n)\<in>set vqs. n \<le> limit q \<Longrightarrow>
    handle_event vqs now rnd ev (mgr s) = Some (m', b) \<Longrightarrow> mgr_step limit now now s (s\<lparr>mgr := m'\<rparr>)"

abbreviation mgr_move :: "(queue_name \<Rightarrow> nat) \<Rightarrow> mgr_system \<Rightarrow> mgr_system \<Rightarrow> bool" where
  "mgr_move limit s s' \<equiv> \<exists>now now'. mgr_step limit now now' s s'"

text \<open>A run with a clock that does not go back, with the time of its last step.\<close>

inductive mgr_run :: "(queue_name \<Rightarrow> nat) \<Rightarrow> mgr_system \<Rightarrow> u64 \<Rightarrow> mgr_system \<Rightarrow> bool" for limit s where
  begin_run: "mgr_run limit s t s"
| step_run: "mgr_run limit s t s1 \<Longrightarrow> t \<le> now \<Longrightarrow> now \<le> now' \<Longrightarrow> mgr_step limit now now' s1 s2 \<Longrightarrow> mgr_run limit s now' s2"

definition worker_queue :: "worker \<Rightarrow> queue_name" where
  "worker_queue x = fst (snd x)"

definition in_flight_of :: "queue_stats option \<Rightarrow> nat" where
  "in_flight_of st = (case st of Some s \<Rightarrow> in_flight s | None \<Rightarrow> 0)"

definition flying :: "manager \<Rightarrow> queue_name \<Rightarrow> nat" where
  "flying m q = in_flight_of (stats m q)"

definition mgr_inv :: "(queue_name \<Rightarrow> nat) \<Rightarrow> mgr_system \<Rightarrow> bool" where
  "mgr_inv limit s \<longleftrightarrow> (\<forall>q. flying (mgr s) q = count (image_mset worker_queue (workers s)) q \<and>
     flying (mgr s) q \<le> limit q \<and> (\<forall>st. stats (mgr s) q = Some st \<longrightarrow> max_in_flight st \<le> limit q))"

definition stats_ok :: "(queue_name \<Rightarrow> nat) \<Rightarrow> manager \<Rightarrow> bool" where
  "stats_ok limit m \<longleftrightarrow> (\<forall>q. flying m q \<le> limit q \<and> (\<forall>s. stats m q = Some s \<longrightarrow> max_in_flight s \<le> limit q))"

lemma mgr_inv_eq:
  "mgr_inv limit s \<longleftrightarrow> stats_ok limit (mgr s) \<and> (\<forall>q. flying (mgr s) q = count (image_mset worker_queue (workers s)) q)"
  by (auto simp: mgr_inv_def stats_ok_def)

lemma flying_cong: "stats m' = stats m \<Longrightarrow> flying m' = flying m"
  by (simp add: fun_eq_iff flying_def)

lemma stats_ok_cong: "stats m' = stats m \<Longrightarrow> stats_ok limit m' \<longleftrightarrow> stats_ok limit m"
  by (simp add: stats_ok_def flying_def)

lemma start_one_counts:
  assumes "start_one threads now e m = (m', started)" "\<And>q. threads q \<le> limit q" "stats_ok limit m"
  shows "stats_ok limit m' \<and> (\<forall>q. flying m' q = flying m q + length (filter (\<lambda>x. qm_queue_name x = q) started))"
  using assms
  by (auto simp: start_one_def Let_def stats_ok_def flying_def has_capacity_def queue_stats_new_def in_flight_of_def
      split: if_splits option.splits) (metis Suc_le_eq order.strict_trans2)+

lemma start_all_counts:
  assumes "\<And>q. threads q \<le> limit q"
  shows "start_all threads now es m = (m', started) \<Longrightarrow> stats_ok limit m \<Longrightarrow>
    stats_ok limit m' \<and> (\<forall>q. flying m' q = flying m q + length (filter (\<lambda>x. qm_queue_name x = q) started))"
proof (induction es arbitrary: m m' started)
  case (Cons e es)
  obtain m1 a where a: "start_one threads now e m = (m1, a)" by force
  obtain m2 b where b: "start_all threads now es m1 = (m2, b)" by force
  from start_one_counts [OF a assms Cons.prems(2)] Cons.IH [OF b] Cons.prems(1) show ?case
    by (auto simp: a b)
qed simp

lemma count_spawned: "count (image_mset worker_queue (spawned xs)) q = length (filter (\<lambda>x. qm_queue_name x = q) xs)"
  by (induction xs) (auto simp: spawned_def worker_queue_def)

lemma queues_advance:
  "x \<in># r \<Longrightarrow> image_mset worker_queue (advance x ph r) = image_mset worker_queue r"
  by (auto simp: advance_def worker_queue_def image_mset_Diff dest!: multi_member_split)

lemma deliver_round_counts:
  assumes "deliver_round threads now now' order es m = (m', started)" "\<And>q. threads q \<le> limit q" "stats_ok limit m"
  shows "stats_ok limit m' \<and> (\<forall>q. flying m' q = flying m q + length (filter (\<lambda>x. qm_queue_name x = q) started))"
proof -
  obtain m1 msgs refresh where n: "manager_next_event now es m = (m1, msgs, refresh)" by (metis prod_cases3)
  then have m1: "stats m1 = stats m" by (auto simp: manager_next_event_def Let_def split: prod.splits)
  let ?msgs = "if 3 < length msgs then order msgs else msgs"
  obtain m2 where s: "start_all threads now' ?msgs m1 = (m2, started)" and m': "stats m' = stats m2"
    using assms(1) by (auto simp: deliver_round_def n Let_def split: prod.splits if_splits)
  from start_all_counts [of threads, OF assms(2) s] assms(3) show ?thesis
    by (simp add: stats_ok_cong [OF m1] stats_ok_cong [OF m'] flying_cong [OF m1] flying_cong [OF m'])
qed

lemma manager_round_counts:
  assumes "manager_round threads now now' order es refresh m = (m', started)" "\<And>q. threads q \<le> limit q" "stats_ok limit m"
  shows "stats_ok limit m' \<and> (\<forall>q. flying m' q = flying m q + length (filter (\<lambda>x. qm_queue_name x = q) started))"
proof (cases "deliver_round threads now now' order es m = (m', started)")
  case True
  then show ?thesis using assms(2,3) by (rule deliver_round_counts)
next
  case False
  with assms(1) have "stats m' = stats m \<and> started = []"
    by (cases "is_paused m"; cases "refresh \<or> next_refresh m \<le> now") (auto simp: manager_round_def)
  with assms(3) show ?thesis by (simp add: stats_ok_cong [of m' m] flying_def)
qed

lemma reload_stats_ok:
  assumes "\<forall>(q, n)\<in>set vqs. n \<le> limit q" "\<forall>q s. st q = Some s \<longrightarrow> max_in_flight s \<le> limit q"
  shows "\<forall>q. in_flight_of (reload_stats now vqs st q) = in_flight_of (st q) \<and>
    (\<forall>s. reload_stats now vqs st q = Some s \<longrightarrow> max_in_flight s \<le> limit q)"
  using assms
proof (induction vqs arbitrary: st)
  case (Cons x vqs)
  obtain q' n where x: "x = (q', n)" by force
  let ?st = "st(q' := Some (case st q' of Some s \<Rightarrow> s\<lparr>max_in_flight := n\<rparr> | None \<Rightarrow> queue_stats_new now n))"
  have st: "\<forall>p s'. ?st p = Some s' \<longrightarrow> max_in_flight s' \<le> limit p"
    using Cons.prems by (auto simp: x queue_stats_new_def split: option.splits)
  have "in_flight_of (?st p) = in_flight_of (st p)" for p
    by (simp add: in_flight_of_def queue_stats_new_def split: option.split)
  moreover have "\<forall>(q, n)\<in>set vqs. n \<le> limit q" using Cons.prems(1) by simp
  ultimately show ?case using Cons.IH [OF _ st] by (simp only: x reload_stats.simps) blast
qed simp

lemma worker_done_stats:
  assumes "worker_done now rnd i q status m = Some (m', b)"
  shows "\<exists>s. stats m q = Some s \<and> 0 < in_flight s \<and> stats m' = (stats m)(q := Some (s\<lparr>in_flight := in_flight s - 1\<rparr>))"
proof -
  obtain s where s: "stats m q = Some s" "0 < in_flight s"
    using assms by (cases "stats m q") (auto simp: worker_done_def split: if_splits)
  have "stats m' = (stats m)(q := Some (s\<lparr>in_flight := in_flight s - 1\<rparr>))"
    using assms by (cases status) (auto simp: worker_done_def Let_def s split: if_splits)
  with s show ?thesis by blast
qed

lemma worker_done_counts:
  assumes "worker_done now rnd i q status m = Some (m', b)" "stats_ok limit m"
  shows "stats_ok limit m' \<and> (\<forall>q'. flying m' q' = (if q' = q then flying m q - 1 else flying m q'))"
proof -
  from worker_done_stats [OF assms(1)] obtain s where s: "stats m q = Some s"
    "stats m' = (stats m)(q := Some (s\<lparr>in_flight := in_flight s - 1\<rparr>))" by blast
  then have "flying m' q' = (if q' = q then flying m q - 1 else flying m q')" for q'
    by (simp add: flying_def in_flight_of_def)
  moreover have "stats_ok limit m'"
    using assms(2) s calculation unfolding stats_ok_def by (auto intro: le_trans [OF diff_le_self])
  ultimately show ?thesis by blast
qed

lemma mgr_inv_step: "mgr_step limit now now' s s' \<Longrightarrow> mgr_inv limit s \<Longrightarrow> mgr_inv limit s'"
proof (induction rule: mgr_step.induct)
  case (round threads order now now' es refresh s m' started)
  from manager_round_counts [OF round(3,1)] round(4) show ?case
    by (simp add: mgr_inv_eq count_spawned)
next
  case (ended i q status s vqs now rnd m' b)
  from ended(2) worker_done_counts [of now rnd i q status "mgr s" m' b limit] ended(3)
  have "stats_ok limit m'" "\<And>q'. flying m' q' = (if q' = q then flying (mgr s) q - 1 else flying (mgr s) q')"
    by (auto simp: mgr_inv_eq)
  moreover have "image_mset worker_queue (workers s - {#(i, q, Ended status)#}) = image_mset worker_queue (workers s) - {#q#}"
    using ended(1) by (simp add: image_mset_Diff worker_queue_def)
  ultimately show ?case using ended(3) by (auto simp: mgr_inv_eq)
next
  case (other ev p vqs now rnd s m' b)
  from other(4) have ok: "stats_ok limit (mgr s)" by (simp add: mgr_inv_eq)
  then have "\<forall>q st. stats (mgr s) q = Some st \<longrightarrow> max_in_flight st \<le> limit q" by (auto simp: stats_ok_def)
  note reload = reload_stats_ok [OF other(2) this]
  from other(1,3) have "stats m' = stats (mgr s) \<or> stats m' = reload_stats now vqs (stats (mgr s))" by auto
  with ok reload have "stats_ok limit m'" "flying m' = flying (mgr s)"
    by (auto simp: stats_ok_def flying_def fun_eq_iff)
  with other(4) show ?case by (simp add: mgr_inv_eq)
qed (simp_all add: mgr_inv_eq queues_advance)

text \<open>
  C3: The manager counts its deliveries right. In every state it can reach, the counter
  of a queue is the number of delivery tasks of that queue that were started and whose end the
  manager has not handled, so that handling the end of a task never fails, and it never exceeds
  the threads allowed for the queue, whatever the order of events, refreshes,
  pauses and changes of the settings and whether the tasks get their locks.
\<close>

theorem manager_counts_deliveries:
  assumes "(mgr_move limit)\<^sup>*\<^sup>* (mgr_start t) s"
  shows "size (filter_mset (\<lambda>x. worker_queue x = q) (workers s)) = flying (mgr s) q \<and> flying (mgr s) q \<le> limit q \<and>
    (\<forall>i ph status now rnd vqs. (i, q, ph) \<in># workers s \<longrightarrow>
       handle_event vqs now rnd (Ev_WorkerDone i q status) (mgr s) \<noteq> None)"
proof -
  have "mgr_inv limit s"
    using assms
  proof (induction rule: rtranclp_induct)
    case base
    then show ?case by (simp add: mgr_inv_def mgr_start_def manager_new_def flying_def in_flight_of_def)
  next
    case (step y z)
    then show ?case using mgr_inv_step by blast
  qed
  then have inv: "flying (mgr s) q = count (image_mset worker_queue (workers s)) q" "flying (mgr s) q \<le> limit q"
    by (auto simp: mgr_inv_eq stats_ok_def)
  moreover have "worker_done now rnd i q status (mgr s) \<noteq> None" if "(i, q, ph) \<in># workers s" for i ph status now rnd
  proof -
    from that have "q \<in># image_mset worker_queue (workers s)" by (force simp: worker_queue_def)
    then have "0 < flying (mgr s) q" using inv(1) by simp
    then show ?thesis by (auto simp: worker_done_def flying_def in_flight_of_def Let_def split: option.splits)
  qed
  moreover have "count (image_mset worker_queue (workers s)) q = size (filter_mset (\<lambda>x. worker_queue x = q) (workers s))"
    by (simp add: count_conv_size_mset filter_mset_image_mset eq_commute)
  ultimately show ?thesis by simp
qed

section \<open>Locks of the manager\<close>

definition qm_key :: "queued_message \<Rightarrow> queue_id \<times> queue_name" where
  "qm_key e = (qm_queue_id e, qm_queue_name e)"

text \<open>A lock that is not expired is kept by the scan, and its event is not handed out.\<close>

definition holds_lock :: "queue_id \<times> queue_name \<Rightarrow> u64 \<Rightarrow> u64 set \<Rightarrow> scan_state \<Rightarrow> bool" where
  "holds_lock k e rvs = (\<lambda>(lt, msgs, refresh).
     (\<exists>l. map_of lt k = Some l \<and> lock_expires l = e \<and> lock_revision l \<in> rvs) \<and> k \<notin> qm_key ` set msgs)"

lemma holds_lock_scan_due:
  assumes "holds_lock k e rvs s" "now < e" "rv \<in> rvs"
  shows "holds_lock k e rvs (scan_due m now rv t i q s)"
    "(i, q) = k \<Longrightarrow> queue_open m q \<Longrightarrow> holds_lock k e {rv} (scan_due m now rv t i q s)"
  using assms
  by (auto simp: holds_lock_def scan_due_def Let_def update_conv' qm_key_def split: option.splits if_splits)

lemma holds_lock_refresh: "holds_lock k e rvs (lt, msgs, refresh) \<longleftrightarrow> holds_lock k e rvs (lt, msgs, refresh')"
  by (simp add: holds_lock_def)

lemma holds_lock_scan:
  "holds_lock k e rvs s \<Longrightarrow> now < e \<Longrightarrow> rv \<in> rvs \<Longrightarrow> holds_lock k e rvs (scan_loop m now rv es s)"
proof (induction es arbitrary: s)
  case (Cons x es)
  then show ?case
    by (cases x; cases s) (auto simp: holds_lock_scan_due intro: holds_lock_refresh [THEN iffD1] split: option.split)
qed simp

lemma holds_lock_marked:
  assumes "holds_lock (i, q) e rvs s" "now < e" "rv \<in> rvs" "queue_open m q" "(t, i, q) \<in> set es" "t \<le> now"
    "sorted (map fst es)" "\<forall>(t, i, q)\<in>set es. length q = 8"
  shows "holds_lock (i, q) e {rv} (scan_loop m now rv es s)"
  using assms
proof (induction es arbitrary: s)
  case (Cons x es)
  obtain t' i' q' where x: "x = (t', i', q')" by (metis prod_cases3)
  have x': "queue_name_from_bytes q' = Some q'" "t' \<le> now"
    using Cons.prems by (auto simp: x queue_name_from_bytes_def)
  show ?case
  proof (cases "(i', q') = (i, q)")
    case True
    then have "holds_lock (i, q) e {rv} (scan_due m now rv t' i' q' s)"
      using Cons.prems(1-4) holds_lock_scan_due(2) by blast
    with Cons.prems(2) show ?thesis by (simp add: x x' holds_lock_scan)
  next
    case False
    with Cons.prems Cons.IH [OF holds_lock_scan_due(1) [OF Cons.prems(1-3)]] show ?thesis
      by (auto simp: x x')
  qed
qed simp

lemma start_all_locked:
  "start_all threads now es m = (m', started) \<Longrightarrow> k \<notin> qm_key ` set es \<Longrightarrow>
   map_of (locked m') k = map_of (locked m) k \<and> locked_revision m' = locked_revision m \<and> set started \<subseteq> set es"
proof (induction es arbitrary: m started)
  case (Cons e es)
  obtain m1 a where a: "start_one threads now e m = (m1, a)" by force
  then have m1: "map_of (locked m1) k = map_of (locked m) k" "locked_revision m1 = locked_revision m" "set a \<subseteq> {e}"
    using Cons.prems(2) by (auto simp: start_one_def Let_def qm_key_def delete_conv' split: if_splits)
  obtain m2 b where b: "start_all threads now es m1 = (m2, b)" by force
  with Cons.prems a have "m' = m2" "started = a @ b" by auto
  with Cons.IH [of m1 b] b m1 Cons.prems(2) show ?case by auto
qed simp

lemma map_of_filter_kept: "map_of xs k = Some v \<Longrightarrow> P (k, v) \<Longrightarrow> map_of (filter P xs) k = Some v"
  by (induction xs) (auto split: if_splits)

lemma deliver_roundE:
  assumes "deliver_round threads now now' order es m = (m', started)"
  obtains lt msgs refresh m2 where
    "scan_loop m now (locked_revision m + 1) es (locked m, [], now + QUEUE_REFRESH) = (lt, msgs, refresh)"
    "start_all threads now' (if 3 < length msgs then order msgs else msgs)
       (m\<lparr>locked := lt, locked_revision := locked_revision m + 1\<rparr>) = (m2, started)"
    "locked m' = filter (\<lambda>(k, l). now' < lock_expires l \<and> lock_revision l = locked_revision m2) (locked m2)"
  using assms by (auto simp: deliver_round_def manager_next_event_def Let_def split: prod.splits)

text \<open>
  C29: An event that was handed out and is still in the spool is not handed out again:
  as long as its queue has a free thread, a round of the manager keeps
  the lock and starts no second delivery for it.
\<close>

theorem locked_event_skipped:
  assumes round: "deliver_round threads now now' order es m = (m', started)" and ord: "\<And>xs. mset (order xs) = mset xs"
    and es: "sorted (map fst es)" "\<forall>(t, i, q)\<in>set es. length q = 8" "(t, i, q) \<in> set es" "t \<le> now"
    and lock: "map_of (locked m) (i, q) = Some l" "now < lock_expires l" "now' < lock_expires l" "queue_open m q"
  shows "(\<forall>e\<in>set started. (qm_queue_id e, qm_queue_name e) \<noteq> (i, q)) \<and>
    map_of (locked m') (i, q) = Some \<lparr> lock_expires = lock_expires l, lock_revision = locked_revision m + 1 \<rparr>"
proof -
  let ?rv = "locked_revision m + 1"
  obtain lt msgs refresh m2 where
    scan: "scan_loop m now ?rv es (locked m, [], now + QUEUE_REFRESH) = (lt, msgs, refresh)"
    and st: "start_all threads now' (if 3 < length msgs then order msgs else msgs)
       (m\<lparr>locked := lt, locked_revision := ?rv\<rparr>) = (m2, started)"
    and l': "locked m' = filter (\<lambda>(k, l). now' < lock_expires l \<and> lock_revision l = locked_revision m2) (locked m2)"
    using round by (rule deliver_roundE)
  have "holds_lock (i, q) (lock_expires l) {lock_revision l, ?rv} (locked m, [], now + QUEUE_REFRESH)"
    using lock(1) by (simp add: holds_lock_def)
  from holds_lock_marked [OF this lock(2) _ lock(4) es(3,4,1,2), where rv = ?rv] scan
  have h: "holds_lock (i, q) (lock_expires l) {?rv} (lt, msgs, refresh)" by simp
  have same: "set (if 3 < length msgs then order msgs else msgs) = set msgs"
    using ord [of msgs] by (metis set_mset_mset)
  with h have "(i, q) \<notin> qm_key ` set (if 3 < length msgs then order msgs else msgs)" by (simp add: holds_lock_def)
  from start_all_locked [OF st this] h same
  have m2: "map_of (locked m2) (i, q) = Some \<lparr> lock_expires = lock_expires l, lock_revision = ?rv \<rparr>"
    "locked_revision m2 = ?rv" "set started \<subseteq> set msgs"
    by (auto simp: holds_lock_def)
  have "map_of (locked m') (i, q) = Some \<lparr> lock_expires = lock_expires l, lock_revision = ?rv \<rparr>"
    unfolding l' using m2(1) by (rule map_of_filter_kept) (simp add: m2(2) lock(3))
  moreover have "\<forall>e\<in>set started. (qm_queue_id e, qm_queue_name e) \<noteq> (i, q)"
    using h m2(3) by (auto simp: holds_lock_def qm_key_def)
  ultimately show ?thesis by blast
qed

text \<open>
  Two deliveries fill a queue of two threads. A round then marks no lock of the
  queue and drops them all; when one delivery ends, a task is started for the event of the other
  again. The lock of the other is of no help once it is ten minutes old.
\<close>

definition two_events :: "(u64 \<times> queue_id \<times> bytes) list" where
  "two_events = [(1, 1, DEFAULT_QUEUE_NAME), (1, 2, DEFAULT_QUEUE_NAME)]"

definition full_manager :: "u64 \<Rightarrow> nat \<Rightarrow> lock_table \<Rightarrow> u64 \<Rightarrow> manager" where
  "full_manager refresh n lt rv =
     \<lparr> locked = lt, locked_revision = rv,
       stats = [DEFAULT_QUEUE_NAME \<mapsto> \<lparr> in_flight = n, max_in_flight = 2, last_warning = - 50 \<rparr>],
       next_refresh = refresh, is_paused = False, rx_closed = False, queue_status = True \<rparr>"

definition handed_lock :: "u64 \<Rightarrow> u64 \<Rightarrow> locked_message" where
  "handed_lock now rv = \<lparr> lock_expires = now + INFINITE_LOCK, lock_revision = rv \<rparr>"

lemmas round_simps = manager_round_def deliver_round_def manager_next_event_def scan_due_def start_one_def
  queue_name_from_bytes_def queue_open_def has_capacity_def queue_stats_new_def two_events_def full_manager_def
  handed_lock_def manager_new_def DEFAULT_QUEUE_NAME_def Let_def QUEUE_REFRESH_def INFINITE_LOCK_def
  BACK_PRESSURE_WARN_INTERVAL_def

lemma first_round:
  "manager_round (\<lambda>_. 2) 10 10 id two_events True (manager_new 0) =
     (full_manager 310 2 [((1, DEFAULT_QUEUE_NAME), handed_lock 10 1), ((2, DEFAULT_QUEUE_NAME), handed_lock 10 1)] 1,
      [\<lparr> qm_due = 1, qm_queue_id = 1, qm_queue_name = DEFAULT_QUEUE_NAME \<rparr>,
       \<lparr> qm_due = 1, qm_queue_id = 2, qm_queue_name = DEFAULT_QUEUE_NAME \<rparr>])"
  by (simp add: round_simps) (simp add: numeral_2_eq_2)

lemma second_round:
  "manager_round (\<lambda>_. 2) 11 11 id two_events True
     (full_manager 310 2 [((1, DEFAULT_QUEUE_NAME), handed_lock 10 1), ((2, DEFAULT_QUEUE_NAME), handed_lock 10 1)] 1) =
     (full_manager 311 2 [] 2, [])"
  by (simp add: round_simps)

lemma full_round:
  "manager_round (\<lambda>_. 2) 311 311 id two_events True (full_manager 311 2 [] 2) = (full_manager 611 2 [] 3, [])"
  "manager_round (\<lambda>_. 2) 611 611 id two_events True (full_manager 611 2 [] 3) = (full_manager 911 2 [] 4, [])"
  by (simp_all add: round_simps)

lemma second_ends:
  "handle_event [] 700 5 (Ev_WorkerDone 2 DEFAULT_QUEUE_NAME Ev_Deferred) (full_manager 911 2 [] 4) =
     Some (full_manager 911 1 [] 4, True)"
  by (simp add: worker_done_def full_manager_def Let_def)

lemma third_round:
  "manager_round (\<lambda>_. 2) 700 700 id [(1, 1, DEFAULT_QUEUE_NAME)] True (full_manager 911 1 [] 4) =
     (full_manager 1000 2 [((1, DEFAULT_QUEUE_NAME), handed_lock 700 5)] 5,
      [\<lparr> qm_due = 1, qm_queue_id = 1, qm_queue_name = DEFAULT_QUEUE_NAME \<rparr>])"
  by (simp add: round_simps) (simp add: numeral_2_eq_2)

lemma round_run:
  assumes "mgr_run (\<lambda>_. 2) s0 t \<lparr> mgr = m, workers = r, lock_keys = ls \<rparr>"
    "manager_round (\<lambda>_. 2) now now' id es refresh m = (m', started)" "t \<le> now" "now \<le> now'"
  shows "mgr_run (\<lambda>_. 2) s0 now' \<lparr> mgr = m', workers = r + spawned started, lock_keys = ls \<rparr>"
  using mgr_run.step_run [OF assms(1,3,4) mgr_step.round, of "\<lambda>_. 2" id es refresh m' started] assms(2) by simp

lemma lock_run:
  assumes "mgr_run limit s0 t \<lparr> mgr = m, workers = add_mset (i, q, Spawned) r, lock_keys = ls \<rparr>" "t \<le> now"
    and "\<And>expiry. ls (lock_id i q) = Some expiry \<Longrightarrow> expiry \<le> now"
  shows "mgr_run limit s0 now
    \<lparr> mgr = m, workers = add_mset (i, q, Delivering) r, lock_keys = ls(lock_id i q \<mapsto> now + LOCK_EXPIRY) \<rparr>"
  using mgr_run.step_run [OF assms(1,2) order_refl mgr_step.lock, of i q True True "ls(lock_id i q \<mapsto> now + LOCK_EXPIRY)"] assms(3)
  by (auto simp: try_lock_event_def try_lock_def advance_def not_less split: option.splits)

lemma end_run:
  assumes "mgr_run limit s0 t \<lparr> mgr = m, workers = add_mset (i, q, Delivering) r, lock_keys = ls \<rparr>" "t \<le> now"
    and "handle_event [] now 5 (Ev_WorkerDone i q Ev_Deferred) m = Some (m', b)"
  shows "mgr_run limit s0 now \<lparr> mgr = m', workers = r, lock_keys = ls(lock_id i q := None) \<rparr>"
proof -
  have "mgr_run limit s0 now
    \<lparr> mgr = m, workers = add_mset (i, q, Ended Ev_Deferred) r, lock_keys = ls(lock_id i q := None) \<rparr>"
    using mgr_run.step_run [OF assms(1,2) order_refl mgr_step.unlock, of i q Ev_Deferred True]
    by (simp add: advance_def unlock_event_def)
  from mgr_run.step_run [OF this order_refl order_refl mgr_step.ended, of i q Ev_Deferred "[]" 5 m' b] assms(3)
  show ?thesis by simp
qed

lemma first_run:
  "mgr_run (\<lambda>_. 2) (mgr_start 0) 10
     \<lparr> mgr = full_manager 310 2 [((1, DEFAULT_QUEUE_NAME), handed_lock 10 1), ((2, DEFAULT_QUEUE_NAME), handed_lock 10 1)] 1,
       workers = {#(1, DEFAULT_QUEUE_NAME, Spawned), (2, DEFAULT_QUEUE_NAME, Spawned)#}, lock_keys = Map.empty \<rparr>"
proof -
  have "mgr_run (\<lambda>_. 2) (mgr_start 0) 0 \<lparr> mgr = manager_new 0, workers = {#}, lock_keys = Map.empty \<rparr>"
    using mgr_run.begin_run [of "\<lambda>_. 2" "mgr_start 0" 0] by (simp add: mgr_start_def)
  from round_run [OF this first_round] show ?thesis by (simp add: spawned_def add_mset_commute)
qed

lemma mgr_run_moves: "mgr_run limit s t s' \<Longrightarrow> (mgr_move limit)\<^sup>*\<^sup>* s s'"
proof (induction rule: mgr_run.induct)
  case (step_run t s1 now now' s2)
  then show ?case by (auto intro: rtranclp.rtrancl_into_rtrancl)
qed simp

text \<open>
  C35: A message can be delivered twice at the same time. The manager forgets its locks of a
  queue whose threads are all busy, and the lock of a delivery ends after ten minutes, so
  that there is a run, of 700 seconds and with a clock that does not go back, after which
  two deliveries of one message in one queue are under way, both with the lock.
\<close>

theorem full_queue_delivers_twice:
  "\<exists>s. mgr_run (\<lambda>_. 2) (mgr_start 0) 700 s \<and>
     workers s = {#(1, DEFAULT_QUEUE_NAME, Delivering), (1, DEFAULT_QUEUE_NAME, Delivering)#}"
proof -
  let ?q = DEFAULT_QUEUE_NAME and ?r = "mgr_run (\<lambda>_. 2) (mgr_start 0)"
  let ?m = "full_manager 310 2 [((1, ?q), handed_lock 10 1), ((2, ?q), handed_lock 10 1)] 1"
  let ?ls1 = "Map.empty(lock_id 1 ?q \<mapsto> 10 + LOCK_EXPIRY)"
  let ?ls2 = "?ls1(lock_id 2 ?q \<mapsto> 10 + LOCK_EXPIRY)"
  let ?both = "{#(2, ?q, Delivering), (1, ?q, Delivering)#}"
  have key: "lock_id 1 ?q \<noteq> lock_id 2 ?q" by (simp add: lock_id_inj)
  from lock_run [OF first_run]
  have 2: "?r 10 \<lparr> mgr = ?m, workers = {#(2, ?q, Spawned), (1, ?q, Delivering)#}, lock_keys = ?ls1 \<rparr>"
    by (simp add: add_mset_commute)
  from lock_run [OF 2] have 3: "?r 10 \<lparr> mgr = ?m, workers = ?both, lock_keys = ?ls2 \<rparr>" using key by simp
  from round_run [OF 3 second_round] have 4: "?r 11 \<lparr> mgr = full_manager 311 2 [] 2, workers = ?both, lock_keys = ?ls2 \<rparr>"
    by (simp add: spawned_def)
  from round_run [OF 4 full_round(1)] have 5: "?r 311 \<lparr> mgr = full_manager 611 2 [] 3, workers = ?both, lock_keys = ?ls2 \<rparr>"
    by (simp add: spawned_def)
  from round_run [OF 5 full_round(2)] have 6: "?r 611 \<lparr> mgr = full_manager 911 2 [] 4, workers = ?both, lock_keys = ?ls2 \<rparr>"
    by (simp add: spawned_def)
  from end_run [OF 6 _ second_ends] have 7: "?r 700 \<lparr> mgr = full_manager 911 1 [] 4, workers = {#(1, ?q, Delivering)#},
      lock_keys = ?ls2(lock_id 2 ?q := None) \<rparr>" by simp
  from round_run [OF 7 third_round] have 8: "?r 700 \<lparr> mgr = full_manager 1000 2 [((1, ?q), handed_lock 700 5)] 5,
      workers = {#(1, ?q, Spawned), (1, ?q, Delivering)#}, lock_keys = ?ls2(lock_id 2 ?q := None) \<rparr>"
    by (simp add: spawned_def add_mset_commute)
  have "expiry \<le> 700" if "(?ls2(lock_id 2 ?q := None)) (lock_id 1 ?q) = Some expiry" for expiry
    using that key by (simp add: LOCK_EXPIRY_def)
  from lock_run [OF 8 order_refl this] show ?thesis by auto
qed

theorem manager_counts_deliveries_witness:
  "\<exists>s. (mgr_move (\<lambda>_. 2))\<^sup>*\<^sup>* (mgr_start 0) s \<and> (1, DEFAULT_QUEUE_NAME, Spawned) \<in># workers s \<and>
     flying (mgr s) DEFAULT_QUEUE_NAME = 2 \<and> size (filter_mset (\<lambda>x. worker_queue x = DEFAULT_QUEUE_NAME) (workers s)) = 2"
proof -
  let ?m = "full_manager 310 2 [((1, DEFAULT_QUEUE_NAME), handed_lock 10 1), ((2, DEFAULT_QUEUE_NAME), handed_lock 10 1)] 1"
  let ?r = "{#(1, DEFAULT_QUEUE_NAME, Spawned), (2, DEFAULT_QUEUE_NAME, Spawned)#} :: worker multiset"
  let ?s = "\<lparr> mgr = ?m, workers = ?r, lock_keys = Map.empty \<rparr>"
  note run = mgr_run_moves [OF first_run]
  have "flying ?m DEFAULT_QUEUE_NAME = 2" by (simp add: flying_def in_flight_of_def full_manager_def)
  with manager_counts_deliveries [OF run, of DEFAULT_QUEUE_NAME] run show ?thesis
    by (intro exI [of _ ?s]) simp
qed

theorem locked_event_skipped_witness:
  "deliver_round (\<lambda>_. 3) 20 20 id two_events
     (full_manager 0 1 [((1, DEFAULT_QUEUE_NAME), handed_lock 10 1)] 1) =
     (full_manager 320 2 [((1, DEFAULT_QUEUE_NAME), handed_lock 10 2), ((2, DEFAULT_QUEUE_NAME), handed_lock 20 2)] 2,
      [\<lparr> qm_due = 1, qm_queue_id = 2, qm_queue_name = DEFAULT_QUEUE_NAME \<rparr>]) \<and>
   map_of (locked (fst (deliver_round (\<lambda>_. 3) 20 20 id two_events
     (full_manager 0 1 [((1, DEFAULT_QUEUE_NAME), handed_lock 10 1)] 1)))) (1, DEFAULT_QUEUE_NAME) = Some (handed_lock 10 2)"
proof -
  let ?m = "full_manager 0 1 [((1, DEFAULT_QUEUE_NAME), handed_lock 10 1)] 1"
  have round: "deliver_round (\<lambda>_. 3) 20 20 id two_events ?m =
     (full_manager 320 2 [((1, DEFAULT_QUEUE_NAME), handed_lock 10 2), ((2, DEFAULT_QUEUE_NAME), handed_lock 20 2)] 2,
      [\<lparr> qm_due = 1, qm_queue_id = 2, qm_queue_name = DEFAULT_QUEUE_NAME \<rparr>])"
    by (simp add: round_simps) (simp add: numeral_2_eq_2)
  have es: "sorted (map fst two_events)" "\<forall>(t, i, q)\<in>set two_events. length q = 8" "(1, 1, DEFAULT_QUEUE_NAME) \<in> set two_events"
    by (simp_all add: two_events_def DEFAULT_QUEUE_NAME_def)
  have lock: "map_of (locked ?m) (1, DEFAULT_QUEUE_NAME) = Some (handed_lock 10 1)" "20 < lock_expires (handed_lock 10 1)"
    "queue_open ?m DEFAULT_QUEUE_NAME"
    by (simp_all add: full_manager_def handed_lock_def INFINITE_LOCK_def queue_open_def has_capacity_def)
  from locked_event_skipped [OF round _ es _ lock(1,2,2,3)] round show ?thesis
    by (simp add: full_manager_def handed_lock_def)
qed

end
