(* ===== verification/Pop3Response.thy ===== *)
theory Pop3Response
  imports Pop3
begin

text \<open>
  The responses of the POP3 server (\<^verbatim>\<open>crates/pop3/src/protocol/response.rs\<close>) and the
  pairs of byte slices that hold a message (\<^verbatim>\<open>crates/utils/src/chained_bytes.rs\<close>). The client's side, which is not
  code of the server, is the reference for the message body: it ends at the first line that is
  a single dot and loses the first dot of the other lines.
\<close>

section \<open>Two slices as one\<close>

record chained_bytes =
  chain_first :: bytes
  chain_last :: bytes

datatype slice_range = Single bytes | Split bytes bytes | No_slice

definition chained_new :: "bytes \<Rightarrow> chained_bytes" where
  "chained_new first = \<lparr> chain_first = first, chain_last = [] \<rparr>"

definition with_last :: "bytes \<Rightarrow> chained_bytes \<Rightarrow> chained_bytes" where
  "with_last bs c = c\<lparr>chain_last := bs\<rparr>"

text \<open>The standard library's \<open>get\<close> of a range, and the subtraction of machine sizes, which wraps.\<close>

definition slice_get :: "bytes \<Rightarrow> nat \<Rightarrow> nat \<Rightarrow> bytes option" where
  "slice_get bs from to = (if from \<le> to \<and> to \<le> length bs then Some (take (to - from) (drop from bs)) else None)"

definition slice_from :: "bytes \<Rightarrow> nat \<Rightarrow> bytes option" where
  "slice_from bs from = (if from \<le> length bs then Some (drop from bs) else None)"

definition usize_sub :: "nat \<Rightarrow> nat \<Rightarrow> nat" where
  "usize_sub a b = (if b \<le> a then a - b else a + 2 ^ 64 - b)"

definition get_slice_range :: "chained_bytes \<Rightarrow> nat \<Rightarrow> nat \<Rightarrow> slice_range" where
  "get_slice_range c from to =
     (let n = length (chain_first c)
      in case slice_get (chain_first c) from to of
           Some bs \<Rightarrow> Single bs
         | None \<Rightarrow>
             (if n \<le> from then
                (case slice_get (chain_last c) (usize_sub from n) (usize_sub to n) of Some bs \<Rightarrow> Single bs | None \<Rightarrow> No_slice)
              else
                (case (slice_from (chain_first c) from, slice_get (chain_last c) 0 (usize_sub to n)) of
                   (Some a, Some b) \<Rightarrow> Split a b
                 | _ \<Rightarrow> No_slice)))"

definition chained_get :: "chained_bytes \<Rightarrow> nat \<Rightarrow> nat \<Rightarrow> bytes option" where
  "chained_get c from to =
     (let n = length (chain_first c)
      in case slice_get (chain_first c) from to of
           Some bs \<Rightarrow> Some bs
         | None \<Rightarrow>
             (if n \<le> from then slice_get (chain_last c) (usize_sub from n) (usize_sub to n)
              else
                (case (slice_from (chain_first c) from, slice_get (chain_last c) 0 (usize_sub to n)) of
                   (Some a, Some b) \<Rightarrow> Some (a @ b)
                 | _ \<Rightarrow> None)))"

definition get_full_range :: "chained_bytes \<Rightarrow> slice_range" where
  "get_full_range c = (if chain_last c = [] then Single (chain_first c) else Split (chain_first c) (chain_last c))"

definition chained_to_bytes :: "chained_bytes \<Rightarrow> bytes" where
  "chained_to_bytes c = chain_first c @ chain_last c"

definition chained_len :: "chained_bytes \<Rightarrow> nat" where
  "chained_len c = length (chain_first c) + length (chain_last c)"

fun slice_len :: "slice_range \<Rightarrow> nat" where
  "slice_len (Single bs) = length bs"
| "slice_len (Split a b) = length a + length b"
| "slice_len No_slice = 0"

fun try_into_bytes :: "slice_range \<Rightarrow> bytes option" where
  "try_into_bytes (Single bs) = Some bs"
| "try_into_bytes (Split a b) = Some (a @ b)"
| "try_into_bytes No_slice = None"

fun into_pairs :: "slice_range \<Rightarrow> bytes \<times> bytes" where
  "into_pairs (Single bs) = (bs, [])"
| "into_pairs (Split a b) = (a, b)"
| "into_pairs No_slice = ([], [])"

definition slice_iter :: "slice_range \<Rightarrow> bytes" where
  "slice_iter r = (case into_pairs r of (a, b) \<Rightarrow> a @ b)"

lemma slice_iter_simps [simp]:
  "slice_iter (Single bs) = bs" "slice_iter (Split a b) = a @ b" "slice_iter No_slice = []"
  by (simp_all add: slice_iter_def)

lemma slice_iter_full [simp]: "slice_iter (get_full_range c) = chained_to_bytes c"
  by (simp add: get_full_range_def chained_to_bytes_def)

lemma slice_len_iter: "slice_len r = length (slice_iter r)"
  by (cases r) simp_all

lemma chained_get_range: "chained_get c from to = try_into_bytes (get_slice_range c from to)"
  by (simp add: chained_get_def get_slice_range_def Let_def split: option.split)

text \<open>
  A range of the pair is that range of the concatenation, and absent exactly when
  it is out of bounds; the wrapping subtraction of a range with exchanged
  ends does no harm.
\<close>

theorem chained_get_slices:
  assumes "chained_len c < 2 ^ 64" "from < 2 ^ 64"
  shows "chained_get c from to = slice_get (chained_to_bytes c) from to \<and>
    try_into_bytes (get_slice_range c from to) = slice_get (chained_to_bytes c) from to"
proof -
  have "chained_get c from to = slice_get (chained_to_bytes c) from to"
    using assms
    by (auto simp: chained_get_def slice_get_def slice_from_def usize_sub_def chained_to_bytes_def chained_len_def
        Let_def split: option.splits if_splits)
  then show ?thesis by (simp add: chained_get_range)
qed

theorem chained_get_slices_witness:
  "chained_get \<lparr> chain_first = ''ab'', chain_last = ''cde'' \<rparr> 1 4 = Some ''bcd''"
  using chained_get_slices [of "\<lparr> chain_first = ''ab'', chain_last = ''cde'' \<rparr>" 1 4]
  by (simp add: chained_len_def slice_get_def chained_to_bytes_def)

section \<open>Responses\<close>

text \<open>The items of a list are printed already, so that lists of sizes and of unique identifiers have one type.\<close>

datatype response =
  Resp_Ok bytes
| Resp_Err bytes
| Resp_List "bytes list"
| Resp_Message slice_range u32
| Resp_Capability "mechanism list" bool

abbreviation CR :: char where "CR \<equiv> CHR 0x0D"
abbreviation LF :: char where "LF \<equiv> CHR 0x0A"
abbreviation DOT :: char where "DOT \<equiv> CHR ''.''"

fun list_lines :: "nat \<Rightarrow> bytes list \<Rightarrow> bytes" where
  "list_lines num [] = []"
| "list_lines num (octet # octets) = decimal (num + 1) @ '' '' @ octet @ crlf @ list_lines (num + 1) octets"

fun stuff_loop :: "u32 \<Rightarrow> u32 \<Rightarrow> char \<Rightarrow> bytes \<Rightarrow> bytes \<times> char" where
  "stuff_loop lines line_count last_byte [] = ([], last_byte)"
| "stuff_loop lines line_count last_byte (byte # bs) =
     (let buf = (if byte = LF \<and> last_byte \<noteq> CR then [CR] else []) @
                (if byte = DOT \<and> last_byte = LF then [DOT] else []) @ [byte];
          line_count = (if 0 < lines \<and> byte = LF then line_count + 1 else line_count)
      in if 0 < lines \<and> byte = LF \<and> line_count = lines then (buf, byte)
         else case stuff_loop lines line_count byte bs of (rest, final) \<Rightarrow> (buf @ rest, final))"

definition message_body :: "u32 \<Rightarrow> bytes \<Rightarrow> bytes" where
  "message_body lines bs =
     (case stuff_loop lines 0 (CHR 0x00) bs of
        (buf, last_byte) \<Rightarrow> buf @ (if last_byte \<noteq> LF then crlf else []) @ [DOT] @ crlf)"

definition capability_lines :: "bytes list" where
  "capability_lines =
     [''TOP'', ''RESP-CODES'', ''PIPELINING'', ''EXPIRE NEVER'', ''UIDL'', ''UTF8'', ''IMPLEMENTATION Stalwart Server'']"

fun response_serialize :: "response \<Rightarrow> bytes" where
  "response_serialize (Resp_Ok message) = ''+OK '' @ message @ crlf"
| "response_serialize (Resp_Err message) = ''-ERR '' @ message @ crlf"
| "response_serialize (Resp_List octets) =
     ''+OK '' @ decimal (length octets) @ '' messages'' @ crlf @ list_lines 0 octets @ ''.'' @ crlf"
| "response_serialize (Resp_Message bs lines) =
     ''+OK '' @ decimal (slice_len bs) @ '' octets'' @ crlf @ message_body lines (slice_iter bs)"
| "response_serialize (Resp_Capability mechanisms stls) =
     ''+OK Capability list follows'' @ crlf @
     (if mechanisms \<noteq> [] then
        (if Plain \<in> set mechanisms then ''USER'' @ crlf else []) @
        ''SASL'' @ concat (map (\<lambda>m. '' '' @ mechanism_name m) mechanisms) @ crlf
      else []) @
     (if stls then ''STLS'' @ crlf else []) @
     concat (map (\<lambda>capa. capa @ crlf) capability_lines) @ ''.'' @ crlf"

section \<open>The body of a message at the client\<close>

text \<open>
  What a client reads: \<open>bol\<close> says that a line begins, \<open>cr\<close> that the last character was a carriage return. The result
  is the body and the bytes after its end.
\<close>

fun client_body :: "bool \<Rightarrow> bool \<Rightarrow> bytes \<Rightarrow> (bytes \<times> bytes) option" where
  "client_body bol cr [] = None"
| "client_body bol cr (b # bs) =
     (if bol \<and> b = DOT then
        (if take 2 bs = crlf then Some ([], drop 2 bs) else client_body False False bs)
      else map_option (\<lambda>(body, rest). (b # body, rest)) (client_body (cr \<and> b = LF) (b = CR) bs))"

text \<open>The lines of a message with proper line ends, and its first lines.\<close>

fun crlf_lines :: "char \<Rightarrow> bytes \<Rightarrow> bytes" where
  "crlf_lines prev [] = []"
| "crlf_lines prev (b # bs) = (if b = LF \<and> prev \<noteq> CR then [CR, LF] else [b]) @ crlf_lines b bs"

fun first_lines :: "nat \<Rightarrow> bytes \<Rightarrow> bytes" where
  "first_lines 0 bs = []"
| "first_lines (Suc n) [] = []"
| "first_lines (Suc n) (b # bs) = b # (if b = LF then first_lines n bs else first_lines (Suc n) bs)"

definition wanted :: "u32 \<Rightarrow> bytes \<Rightarrow> bytes" where
  "wanted lines bs = (if lines = 0 then bs else first_lines (unat lines) bs)"

definition message_text :: "bytes \<Rightarrow> bytes" where
  "message_text bs = crlf_lines (CHR 0x00) bs @ (if bs \<noteq> [] \<and> last bs = LF then [] else crlf)"

lemma stuff_loop_unlimited:
  "fst (stuff_loop 0 n l bs) = fst (stuff_loop 0 0 l bs)" "snd (stuff_loop 0 n l bs) = (if bs = [] then l else last bs)"
  by (induction bs arbitrary: n l) (simp_all add: Let_def case_prod_beta)

lemma stuff_loop_all: "stuff_loop 0 0 l bs = (fst (stuff_loop 0 0 l bs), if bs = [] then l else last bs)"
  by (rule prod_eqI) (simp_all add: stuff_loop_unlimited(2))

lemma first_lines_Nil [simp]: "first_lines n [] = []"
  by (cases n) simp_all

text \<open>A limit of lines makes the loop work on the first lines only.\<close>

lemma stuff_loop_first:
  assumes "0 < lines" "n < lines"
  shows "stuff_loop lines n l bs = stuff_loop 0 0 l (first_lines (unat lines - unat n) bs)"
  using assms(2)
proof (induction bs arbitrary: n l)
  case Nil
  then show ?case by (cases "unat lines - unat n") simp_all
next
  case (Cons b bs)
  define k where "k = unat lines - unat n"
  have k: "0 < k" using Cons.prems by (simp add: k_def word_less_nat_alt)
  then obtain j where j: "k = Suc j" by (cases k) auto
  have suc: "unat (n + 1) = unat n + 1"
    using Cons.prems unsigned_less [of lines, where 'a = nat] by (simp add: word_less_nat_alt unat_word_ariths)
  have last: "n + 1 = lines \<longleftrightarrow> j = 0"
    using suc j k by (auto simp: k_def word_unat_eq_iff)
  have less: "n + 1 < lines" if "j \<noteq> 0"
    using suc j that by (simp add: k_def word_less_nat_alt)
  have j': "unat lines - unat (n + 1) = j" using suc j by (simp add: k_def)
  show ?case
    unfolding k_def [symmetric] j
    using Cons.IH [OF Cons.prems] Cons.IH [OF less] last assms(1) j j' k_def
    by (auto simp: Let_def split: prod.splits)
qed

lemma stuff_loop_wanted: "stuff_loop lines 0 l bs = stuff_loop 0 0 l (wanted lines bs)"
  using stuff_loop_first [of lines 0 l bs] by (auto simp: wanted_def word_neq_0_conv)

lemma client_stuffed:
  "client_body (l = LF) (l = CR)
     (fst (stuff_loop 0 0 l bs) @ (if (if bs = [] then l else last bs) \<noteq> LF then crlf else []) @ [DOT] @ crlf @ rest) =
   Some (crlf_lines l bs @ (if (if bs = [] then l else last bs) \<noteq> LF then crlf else []), rest)"
proof (induction bs arbitrary: l)
  case (Cons b bs)
  obtain out f where out: "stuff_loop 0 0 b bs = (out, f)" by force
  show ?case
    using Cons.IH [of b] out by (cases "bs = []") (auto simp: Let_def)
qed simp

lemma client_bol: "bs \<noteq> [] \<Longrightarrow> hd bs \<noteq> DOT \<Longrightarrow> client_body True False bs = client_body False False bs"
  by (cases bs) simp_all

lemma stuff_loop_hd:
  "bs \<noteq> [] \<Longrightarrow> fst (stuff_loop 0 0 (CHR 0x00) bs) \<noteq> [] \<and>
     (hd (fst (stuff_loop 0 0 (CHR 0x00) bs)) = DOT \<longleftrightarrow> hd bs = DOT)"
  by (cases bs) (auto simp: Let_def split: prod.splits)

lemma wanted_hd: "wanted lines bs \<noteq> [] \<Longrightarrow> bs \<noteq> [] \<and> hd (wanted lines bs) = hd bs"
  by (cases "unat lines"; cases bs) (auto simp: wanted_def split: if_splits)

lemma message_body_eq:
  "message_body lines bs =
     (let ws = wanted lines bs
      in fst (stuff_loop 0 0 (CHR 0x00) ws) @ (if (if ws = [] then CHR 0x00 else last ws) \<noteq> LF then crlf else []) @ [DOT] @ crlf)"
  by (simp add: message_body_def stuff_loop_wanted [of lines] case_prod_beta stuff_loop_unlimited(2) Let_def)

text \<open>
  C23: A client reads back every message that does not begin with a dot: the body of a
  response ends where the message ends, nothing of it is taken for another
  response, and what the client gets is the message, or its first lines if
  it asked for some, with the line ends made proper.
\<close>

theorem pop3_message_roundtrip:
  assumes "bs = [] \<or> hd bs \<noteq> DOT"
  shows "client_body True False (message_body lines bs @ rest) = Some (message_text (wanted lines bs), rest)"
proof -
  let ?ws = "wanted lines bs"
  have "client_body True False (message_body lines bs @ rest) = client_body False False (message_body lines bs @ rest)"
  proof (rule client_bol)
    show "message_body lines bs @ rest \<noteq> []" by (simp add: message_body_eq Let_def)
    show "hd (message_body lines bs @ rest) \<noteq> DOT"
      using assms stuff_loop_hd [of ?ws] wanted_hd [of lines bs]
      by (cases "?ws = []") (auto simp: message_body_eq Let_def)
  qed
  then show ?thesis
    using client_stuffed [of "CHR 0x00" ?ws rest]
    by (auto simp: message_body_eq Let_def message_text_def)
qed

theorem pop3_message_roundtrip_witness:
  "client_body True False (message_body 2 ''A: b\<newline>.\<newline>c'' @ ''+OK'') = Some (''A: b'' @ crlf @ ''.'' @ crlf, ''+OK'')"
proof -
  have "first_lines 2 ''A: b\<newline>.\<newline>c'' = ''A: b\<newline>.\<newline>''" by (simp add: numeral_2_eq_2)
  then show ?thesis
    using pop3_message_roundtrip [of "''A: b\<newline>.\<newline>c''" 2 "''+OK''"] by (simp add: message_text_def wanted_def)
qed

lemma stuff_loop_append:
  "fst (stuff_loop 0 0 l (xs @ ys)) = fst (stuff_loop 0 0 l xs) @ fst (stuff_loop 0 0 (if xs = [] then l else last xs) ys)"
  by (induction xs arbitrary: l) (simp_all add: Let_def case_prod_beta)

definition plain_line :: "bytes \<Rightarrow> bool" where
  "plain_line l \<longleftrightarrow> LF \<notin> set l \<and> (l = [] \<or> hd l \<noteq> DOT)"

definition text_of_lines :: "bytes list \<Rightarrow> bytes" where
  "text_of_lines ls = concat (map (\<lambda>l. l @ crlf) ls)"

lemma stuff_no_LF: "LF \<notin> set bs \<Longrightarrow> l \<noteq> LF \<or> bs = [] \<or> hd bs \<noteq> DOT \<Longrightarrow> fst (stuff_loop 0 0 l bs) = bs"
proof (induction bs arbitrary: l)
  case (Cons b bs)
  from Cons.prems(1) have b: "b \<noteq> LF" by (metis list.set_intros(1))
  with Cons.IH [of b] Cons.prems(1) have "fst (stuff_loop 0 0 b bs) = bs" by simp
  with Cons.prems(2) b show ?case by (cases "l = LF") (simp_all add: Let_def case_prod_beta)
qed simp

lemma stuff_text_of_lines: "list_all plain_line ls \<Longrightarrow> fst (stuff_loop 0 0 LF (text_of_lines ls)) = text_of_lines ls"
proof (induction ls)
  case (Cons l ls)
  have "fst (stuff_loop 0 0 LF ((l @ crlf) @ text_of_lines ls)) =
    fst (stuff_loop 0 0 LF (l @ crlf)) @ fst (stuff_loop 0 0 LF (text_of_lines ls))"
    by (subst stuff_loop_append) simp
  also have "fst (stuff_loop 0 0 LF (l @ crlf)) = l @ crlf"
    using Cons.prems by (simp add: stuff_loop_append stuff_no_LF plain_line_def Let_def)
  finally show ?case using Cons by (simp add: text_of_lines_def)
qed (simp add: text_of_lines_def)

text \<open>
  C27: A message that begins with a line of a single dot is not protected: the client
  takes it for empty and reads the lines that follow, as the sender
  wrote them, as the next responses of the server.
\<close>

theorem leading_dot_ends_message:
  assumes "list_all plain_line ls"
  shows "client_body True False (message_body 0 (''.'' @ crlf @ text_of_lines ls)) = Some ([], text_of_lines ls @ ''.'' @ crlf)"
proof -
  have end_LF: "last (LF # text_of_lines ls) = LF"
    by (cases ls rule: rev_cases) (simp_all add: text_of_lines_def)
  have "message_body 0 (''.'' @ crlf @ text_of_lines ls) = ''.'' @ crlf @ text_of_lines ls @ ''.'' @ crlf"
    using stuff_text_of_lines [OF assms] end_LF
    by (simp add: message_body_eq wanted_def Let_def case_prod_beta)
  then show ?thesis by (simp add: numeral_2_eq_2)
qed

theorem leading_dot_ends_message_witness:
  "client_body True False (message_body 0 (''.'' @ crlf @ ''+OK 2 octets'' @ crlf)) = Some ([], ''+OK 2 octets'' @ crlf @ ''.'' @ crlf)"
  using leading_dot_ends_message [of "[''+OK 2 octets'']"] by (simp add: text_of_lines_def plain_line_def)

text \<open>The number of lines counts from the start of the message, header included, and zero lines are all of them.\<close>

lemma top_counts_header:
  "message_body 1 (h @ [LF] @ bs) = message_body 0 (h @ [LF])" if "LF \<notin> set h"
proof -
  have "first_lines 1 (h @ [LF] @ bs) = h @ [LF]" using that by (induction h) auto
  then show ?thesis by (simp add: message_body_eq wanted_def)
qed

end
