(* ===== verification/Sasl.thy ===== *)
theory Sasl
  imports Prelude
begin

text \<open>
  The SASL challenges that all protocols decode (\<^verbatim>\<open>crates/directory/src/core/sasl.rs\<close>): PLAIN and
  OAUTHBEARER. The e-mail address inside a JSON web token is found by libraries for base 64 and
  JSON; \<open>jwt_email\<close> stands for that function.
\<close>

datatype credentials =
  Basic (cred_username: bytes) (cred_secret: bytes) (cred_mfa_token: "bytes option")
| Bearer (bearer_username: "bytes option") (bearer_token: bytes)

abbreviation NUL :: char where "NUL \<equiv> CHR 0x00"
abbreviation SOH :: char where "SOH \<equiv> CHR 0x01"
abbreviation COMMA :: char where "COMMA \<equiv> CHR '',''"

section \<open>PLAIN\<close>

fun plain_loop :: "bytes \<Rightarrow> nat \<Rightarrow> bytes \<Rightarrow> bytes \<Rightarrow> bytes \<times> bytes" where
  "plain_loop [] arg_num username secret = (username, secret)"
| "plain_loop (ch # chs) arg_num username secret =
     (if ch \<noteq> NUL then
        (if arg_num = 1 then plain_loop chs arg_num (username @ [ch]) secret
         else if arg_num = 2 then plain_loop chs arg_num username (secret @ [ch])
         else plain_loop chs arg_num username secret)
      else plain_loop chs (arg_num + 1) username secret)"

definition decode_sasl_challenge_plain :: "bytes \<Rightarrow> credentials option" where
  "decode_sasl_challenge_plain challenge =
     (case plain_loop challenge 0 [] [] of
        (username, secret) \<Rightarrow>
          if utf8_valid username \<and> utf8_valid secret \<and> username \<noteq> [] \<and> secret \<noteq> []
          then Some (Basic username secret None) else None)"

section \<open>OAUTHBEARER\<close>

text \<open>
  The loop has the challenge \<open>bs\<close>, the start of the current part, the user of the
  GS2 header and the position and bytes that the iterator has left.
\<close>

definition range_get :: "bytes \<Rightarrow> nat \<Rightarrow> nat \<Rightarrow> bytes option" where
  "range_get bs from to = (if from \<le> to \<and> to \<le> length bs then Some (take (to - from) (drop from bs)) else None)"

definition is_sep :: "char \<Rightarrow> bool" where
  "is_sep ch \<longleftrightarrow> ch = COMMA \<or> ch = SOH"

definition str_at :: "bytes \<Rightarrow> nat \<Rightarrow> nat \<Rightarrow> bytes option" where
  "str_at bs from to = (case range_get bs from to of Some s \<Rightarrow> if utf8_valid s then Some s else None | None \<Rightarrow> None)"

text \<open>The inner loop over the user name takes the separator too; \<open>None\<close> if there is none.\<close>

fun skip_to_sep :: "nat \<Rightarrow> bytes \<Rightarrow> nat option \<times> nat \<times> bytes" where
  "skip_to_sep pos [] = (None, pos, [])"
| "skip_to_sep pos (ch # chs) = (if is_sep ch then (Some pos, pos + 1, chs) else skip_to_sep (pos + 1) chs)"

lemma skip_to_sep_shorter: "length (snd (snd (skip_to_sep pos bs))) \<le> length bs"
  by (induction bs arbitrary: pos) (auto intro: le_SucI)

function bearer_loop ::
  "(bytes \<Rightarrow> bytes option) \<Rightarrow> bytes \<Rightarrow> nat \<Rightarrow> bytes option \<Rightarrow> nat \<Rightarrow> bytes \<Rightarrow> (bytes \<times> bytes option) option" where
  "bearer_loop jwt_email bs start_pos a pos [] = None"
| "bearer_loop jwt_email bs start_pos a pos (ch # chs) =
     (if ch = COMMA \<and> (case range_get bs (pos + 1) (pos + 3) of Some s \<Rightarrow> eq_ignore_ascii_case s ''a='' | None \<Rightarrow> False) then
        (case skip_to_sep (pos + 1) chs of
           (found, pos', rest) \<Rightarrow>
             let from_pos = pos + 3;
                 to_pos = (case found of Some p \<Rightarrow> p | None \<Rightarrow> from_pos);
                 a = (if from_pos < to_pos
                      then (case str_at bs from_pos to_pos of
                              Some v \<Rightarrow> if CHR ''@'' \<in> set v then Some v else None
                            | None \<Rightarrow> None)
                      else a)
             in bearer_loop jwt_email bs start_pos a pos' rest)
      else
        (if ch = SOH \<or> pos = length bs - 1 then
           (if (case range_get bs start_pos (start_pos + 12) of
                  Some s \<Rightarrow> eq_ignore_ascii_case s ''auth=Bearer '' | None \<Rightarrow> False)
            then map_option (\<lambda>token. (token, case a of Some v \<Rightarrow> Some v | None \<Rightarrow> jwt_email token))
                   (str_at bs (start_pos + 12) (if ch = SOH then pos else length bs))
            else bearer_loop jwt_email bs (pos + 1) a (pos + 1) chs)
         else bearer_loop jwt_email bs start_pos a (pos + 1) chs))"
  by pat_completeness auto
termination
  by (relation "measure (\<lambda>(_, _, _, _, _, chs). length chs)")
    (auto simp: le_imp_less_Suc skip_to_sep_shorter, metis le_imp_less_Suc skip_to_sep_shorter snd_conv)

definition extract_oauth_bearer :: "(bytes \<Rightarrow> bytes option) \<Rightarrow> bytes \<Rightarrow> (bytes \<times> bytes option) option" where
  "extract_oauth_bearer jwt_email bs = bearer_loop jwt_email bs 0 None 0 bs"

definition decode_sasl_challenge_oauth :: "(bytes \<Rightarrow> bytes option) \<Rightarrow> bytes \<Rightarrow> credentials option" where
  "decode_sasl_challenge_oauth jwt_email challenge =
     map_option (\<lambda>(token, username). Bearer username token) (extract_oauth_bearer jwt_email challenge)"

declare bearer_loop.simps(2) [simp del]

section \<open>Round trips\<close>

lemma plain_loop_word:
  "NUL \<notin> set w \<Longrightarrow> plain_loop (w @ rest) n u s =
     plain_loop rest n (if n = 1 then u @ w else u) (if n = 2 then s @ w else s)"
  by (induction w arbitrary: u s) auto

lemma skip_to_sep_word: "list_all (\<lambda>c. \<not> is_sep c) w \<Longrightarrow> is_sep c \<Longrightarrow>
   skip_to_sep pos (w @ c # rest) = (Some (pos + length w), pos + length w + 1, rest)"
  by (induction w arbitrary: pos) auto

lemma range_get_at: "bs = x @ y @ z \<Longrightarrow> n = length x \<Longrightarrow> m = length x + length y \<Longrightarrow> range_get bs n m = Some y"
  by (simp add: range_get_def)

text \<open>Characters without a meaning to the loop are passed over.\<close>

lemma bearer_loop_word:
  "list_all (\<lambda>c. \<not> is_sep c) w \<Longrightarrow> pos + length w < length bs \<Longrightarrow>
   bearer_loop j bs st a pos (w @ rest) = bearer_loop j bs st a (pos + length w) rest"
proof (induction w arbitrary: pos)
  case (Cons c w)
  then have "c \<noteq> COMMA" "c \<noteq> SOH" "pos \<noteq> length bs - 1" by (auto simp: is_sep_def)
  then have "bearer_loop j bs st a pos (c # w @ rest) = bearer_loop j bs st a (pos + 1) (w @ rest)"
    by (simp add: bearer_loop.simps)
  with Cons.IH [of "pos + 1"] Cons.prems show ?case by simp
qed simp

text \<open>A part that is not the token ends at its separator.\<close>

lemma not_bearer:
  assumes "bs = pre @ c # w" "to_ascii_lowercase c \<noteq> CHR ''a''"
  shows "\<not> (case range_get bs (length pre) (length pre + 12) of
    Some s \<Rightarrow> eq_ignore_ascii_case s ''auth=Bearer '' | None \<Rightarrow> False)"
  using assms by (auto simp: range_get_def eq_ignore_ascii_case_def to_ascii_lowercase_def split: option.splits if_splits)

lemma bearer_loop_part:
  assumes "bs = pre @ (c # w) @ SOH # rest" "list_all (\<lambda>c. \<not> is_sep c) (c # w)" "to_ascii_lowercase c \<noteq> CHR ''a''"
  shows "bearer_loop j bs (length pre) a (length pre) ((c # w) @ SOH # rest) =
    bearer_loop j bs (length pre + length w + 2) a (length pre + length w + 2) rest"
proof -
  have "bearer_loop j bs (length pre) a (length pre) ((c # w) @ SOH # rest) =
      bearer_loop j bs (length pre) a (length pre + length (c # w)) (SOH # rest)"
    using assms(1,2) by (intro bearer_loop_word) simp_all
  then show ?thesis
    using not_bearer [of bs pre c "w @ SOH # rest"] assms(1,3) by (simp add: bearer_loop.simps split: option.splits)
qed

definition other_part :: "bytes \<Rightarrow> bool" where
  "other_part p \<longleftrightarrow> p \<noteq> [] \<and> to_ascii_lowercase (hd p) \<noteq> CHR ''a'' \<and> list_all (\<lambda>c. \<not> is_sep c) p"

lemma bearer_loop_parts:
  "list_all other_part ps \<Longrightarrow> bs = pre @ concat (map (\<lambda>p. p @ [SOH]) ps) @ rest \<Longrightarrow>
   bearer_loop j bs (length pre) a (length pre) (concat (map (\<lambda>p. p @ [SOH]) ps) @ rest) =
     (let n = length (pre @ concat (map (\<lambda>p. p @ [SOH]) ps)) in bearer_loop j bs n a n rest)"
proof (induction ps arbitrary: pre)
  case (Cons p ps)
  then obtain c w where p: "p = c # w" by (cases p) (auto simp: other_part_def)
  with Cons.prems have "list_all (\<lambda>c. \<not> is_sep c) (c # w)" "to_ascii_lowercase c \<noteq> CHR ''a''"
    by (simp_all add: other_part_def)
  from bearer_loop_part [OF _ this, where pre = pre and rest = "concat (map (\<lambda>p. p @ [SOH]) ps) @ rest" and bs = bs]
    Cons.prems(2) p Cons.IH [of "pre @ p @ [SOH]"] Cons.prems(1)
  show ?case by (simp add: Let_def)
qed (simp add: Let_def)

text \<open>The message of a client with the user \<open>u\<close> in the header and other parts before the token, as RFC 7628 has it.\<close>

definition bearer_message :: "bytes \<Rightarrow> bytes list \<Rightarrow> bytes \<Rightarrow> bytes" where
  "bearer_message u ps token =
     ''n,a='' @ u @ '','' @ [SOH] @ concat (map (\<lambda>p. p @ [SOH]) ps) @ ''auth=Bearer '' @ token @ [SOH, SOH]"

text \<open>What a client can write as a user or a secret of either mechanism.\<close>

definition plain_text :: "bytes \<Rightarrow> bool" where
  "plain_text w \<longleftrightarrow> w \<noteq> [] \<and> NUL \<notin> set w \<and> utf8_valid w"

definition bearer_text :: "bytes \<Rightarrow> bool" where
  "bearer_text w \<longleftrightarrow> list_all (\<lambda>c. \<not> is_sep c) w \<and> utf8_valid w"

lemma bearer_loop_user:
  assumes "range_get bs (pos + 1) (pos + 3) = Some ''a=''" "skip_to_sep (pos + 1) chs = (Some p, p + 1, rest)"
    and "pos + 3 < p" "str_at bs (pos + 3) p = Some u"
  shows "bearer_loop j bs st a pos (COMMA # chs) = bearer_loop j bs st (if CHR ''@'' \<in> set u then Some u else None) (p + 1) rest"
  using assms by (simp add: bearer_loop.simps eq_ignore_ascii_case_def)

lemma bearer_loop_sep:
  "\<not> (case range_get bs st (st + 12) of Some s \<Rightarrow> eq_ignore_ascii_case s ''auth=Bearer '' | None \<Rightarrow> False) \<Longrightarrow>
   bearer_loop j bs st a pos (SOH # rest) = bearer_loop j bs (pos + 1) a (pos + 1) rest"
  by (simp add: bearer_loop.simps)

lemma bearer_header:
  assumes u: "list_all (\<lambda>c. \<not> is_sep c) u" "u \<noteq> []" "utf8_valid u"
    and bs: "bs = ''n,a='' @ u @ '','' @ [SOH] @ rest"
  shows "extract_oauth_bearer j bs =
    bearer_loop j bs (length u + 6) (if CHR ''@'' \<in> set u then Some u else None) (length u + 6) rest"
proof -
  let ?a = "if CHR ''@'' \<in> set u then Some u else None"
  let ?p = "4 + length u"
  have f1: "range_get bs (1 + 1) (1 + 3) = Some ''a=''"
    by (rule range_get_at [where x = "''n,''" and z = "u @ '','' @ [SOH] @ rest"]) (simp_all add: bs)
  have "range_get bs (1 + 3) ?p = Some u"
    by (rule range_get_at [where x = "''n,a=''" and z = "'','' @ [SOH] @ rest"]) (simp_all add: bs)
  then have f4: "str_at bs (1 + 3) ?p = Some u" using u(3) by (simp add: str_at_def)
  have f2: "skip_to_sep (1 + 1) ((''a='' @ u) @ COMMA # SOH # rest) = (Some ?p, ?p + 1, SOH # rest)"
    using skip_to_sep_word [of "''a='' @ u" COMMA "1 + 1" "SOH # rest"] u(1) by (simp add: is_sep_def)
  have f3: "1 + 3 < ?p" using u(2) by simp
  have "bearer_loop j bs 0 None 1 (COMMA # (''a='' @ u) @ COMMA # SOH # rest) = bearer_loop j bs 0 ?a (?p + 1) (SOH # rest)"
    by (rule bearer_loop_user [OF f1 f2 f3 f4])
  moreover have "extract_oauth_bearer j bs = bearer_loop j bs 0 None 1 (COMMA # (''a='' @ u) @ COMMA # SOH # rest)"
    using bearer_loop_word [of "''n''" 0 bs j 0 None "tl bs"] bs by (simp add: extract_oauth_bearer_def is_sep_def)
  moreover have "bearer_loop j bs 0 ?a (?p + 1) (SOH # rest) = bearer_loop j bs (?p + 1 + 1) ?a (?p + 1 + 1) rest"
    using not_bearer [of bs "[]" "CHR ''n''" "tl bs"] bs by (intro bearer_loop_sep) (simp add: to_ascii_lowercase_def)
  ultimately show ?thesis by (simp add: add.commute)
qed

lemma bearer_token:
  assumes "list_all (\<lambda>c. \<not> is_sep c) t" "utf8_valid t" "bs = pre @ ''auth=Bearer '' @ t @ [SOH, SOH]"
  shows "bearer_loop j bs (length pre) a (length pre) (''auth=Bearer '' @ t @ [SOH, SOH]) =
    Some (t, case a of Some v \<Rightarrow> Some v | None \<Rightarrow> j t)"
proof -
  have len: "length (''auth=Bearer '' @ t) = 12 + length t" by simp
  have word: "bearer_loop j bs (length pre) a (length pre) ((''auth=Bearer '' @ t) @ [SOH, SOH]) =
      bearer_loop j bs (length pre) a (length pre + (12 + length t)) [SOH, SOH]"
    unfolding len [symmetric] using assms by (intro bearer_loop_word) (simp_all add: is_sep_def)
  have auth: "range_get bs (length pre) (length pre + 12) = Some ''auth=Bearer ''"
    by (rule range_get_at [where x = pre and z = "t @ [SOH, SOH]"]) (simp_all add: assms(3))
  have "range_get bs (length pre + 12) (length pre + (12 + length t)) = Some t"
    by (rule range_get_at [where x = "pre @ ''auth=Bearer ''" and z = "[SOH, SOH]"]) (simp_all add: assms(3))
  with auth assms(2) have "bearer_loop j bs (length pre) a (length pre + (12 + length t)) [SOH, SOH] =
      Some (t, case a of Some v \<Rightarrow> Some v | None \<Rightarrow> j t)"
    by (simp add: bearer_loop.simps str_at_def eq_ignore_ascii_case_def)
  with word show ?thesis by (simp only: append_assoc)
qed

text \<open>
  C24: The password of a PLAIN challenge and its user, which may be any non-empty UTF-8 texts without a NUL, are decoded as
  the client sent them, with any authorization identity. In an OAUTHBEARER challenge of the form of RFC 7628, with a header that ends in a comma
  and parts before the token that do not begin with the letter a, the token is decoded as it was sent, and so is the non-empty user of the header
  if it has an at sign; both may be UTF-8 texts without commas and separators. A user without an at sign is dropped: the
  credentials then carry the address that the token itself names, or no user at all.
\<close>

theorem sasl_roundtrip:
  "(NUL \<notin> set z \<and> plain_text u \<and> plain_text p \<longrightarrow>
       decode_sasl_challenge_plain (z @ [NUL] @ u @ [NUL] @ p) = Some (Basic u p None)) \<and>
    (bearer_text u \<and> u \<noteq> [] \<and> bearer_text t \<and> list_all other_part ps \<longrightarrow>
       decode_sasl_challenge_oauth j (bearer_message u ps t) = Some (Bearer (if CHR ''@'' \<in> set u then Some u else j t) t))"
proof (intro conjI impI)
  assume "NUL \<notin> set z \<and> plain_text u \<and> plain_text p"
  then show "decode_sasl_challenge_plain (z @ [NUL] @ u @ [NUL] @ p) = Some (Basic u p None)"
    using plain_loop_word [of p "[]" "Suc (Suc 0)"] by (simp add: decode_sasl_challenge_plain_def plain_loop_word plain_text_def)
next
  assume asm: "bearer_text u \<and> u \<noteq> [] \<and> bearer_text t \<and> list_all other_part ps"
  let ?a = "if CHR ''@'' \<in> set u then Some u else None"
  let ?pre = "''n,a='' @ u @ '','' @ [SOH]" and ?ps = "concat (map (\<lambda>p. p @ [SOH]) ps)"
    and ?tail = "''auth=Bearer '' @ t @ [SOH, SOH]"
  have len: "length ?pre = length u + 6" by simp
  have "extract_oauth_bearer j (bearer_message u ps t) =
      bearer_loop j (bearer_message u ps t) (length ?pre) ?a (length ?pre) (?ps @ ?tail)"
    unfolding len by (rule bearer_header) (use asm in \<open>simp_all add: bearer_message_def bearer_text_def\<close>)
  also have "\<dots> = bearer_loop j (bearer_message u ps t) (length (?pre @ ?ps)) ?a (length (?pre @ ?ps)) ?tail"
    using bearer_loop_parts [of ps "bearer_message u ps t" ?pre ?tail j ?a] asm
    unfolding Let_def by (simp add: bearer_message_def)
  also have "\<dots> = Some (t, case ?a of Some v \<Rightarrow> Some v | None \<Rightarrow> j t)"
    by (rule bearer_token) (use asm in \<open>simp_all add: bearer_message_def bearer_text_def\<close>)
  finally show "decode_sasl_challenge_oauth j (bearer_message u ps t) = Some (Bearer (if CHR ''@'' \<in> set u then Some u else j t) t)"
    by (simp add: decode_sasl_challenge_oauth_def)
qed

theorem sasl_roundtrip_witness:
  "decode_sasl_challenge_plain ([NUL] @ ''alice'' @ [NUL] @ ''p,w'') = Some (Basic ''alice'' ''p,w'' None) \<and>
   decode_sasl_challenge_oauth (\<lambda>_. None) (bearer_message ''a@b'' [''host=x''] ''tok'') = Some (Bearer (Some ''a@b'') ''tok'') \<and>
   decode_sasl_challenge_oauth (\<lambda>_. None) (bearer_message ''alice'' [''host=x''] ''tok'') = Some (Bearer None ''tok'')"
proof -
  have "plain_text ''alice''" "plain_text ''p,w''" "bearer_text ''a@b''" "bearer_text ''alice''" "bearer_text ''tok''"
    "list_all other_part [''host=x'']" by code_simp+
  then show ?thesis
    using sasl_roundtrip [of "[]" "''alice''" "''p,w''" "''tok''" "[''host=x'']" "\<lambda>_. None"]
      sasl_roundtrip [of "[]" "''a@b''" "''p,w''" "''tok''" "[''host=x'']" "\<lambda>_. None"]
    by simp
qed

text \<open>
  A header that ends without a comma swallows the separator after it, so that
  the token which follows is not found.
\<close>

lemma header_without_comma:
  "extract_oauth_bearer (\<lambda>_. None) (''n,a=a@b'' @ [SOH] @ ''auth=Bearer t'' @ [SOH, SOH]) = None"
  by code_simp

end
