(* ===== verification/Pop3Session.thy ===== *)
theory Pop3Session
  imports Pop3Response Sasl AccessToken Limiter
begin

text \<open>
  The POP3 session (\<^verbatim>\<open>crates/pop3/src\<close>: \<^verbatim>\<open>lib.rs\<close>, \<^verbatim>\<open>session.rs\<close>, \<^verbatim>\<open>client.rs\<close>, \<^verbatim>\<open>mailbox.rs\<close> and \<^verbatim>\<open>op/\<close>). The
  session keeps a log of what it asked of the rest of the server and of what it wrote, and each
  answer of the rest of the server is a function of that log and of the arguments: the answers
  may differ from call to call. A login that was tried is logged with the kind of the error it was
  refused with, or with \<open>None\<close> if a token was given. A result \<open>None\<close> is a panic (\<open>unreachable!\<close>, \<open>unwrap\<close> of nothing or
  an index out of bounds in the parser).
\<close>

section \<open>Errors\<close>

datatype error_kind =
  Kind_Pop3 | Kind_AuthFailed | Kind_AuthError | Kind_TooManyAttempts | Kind_TooManyRequests
| Kind_ConcurrentRequest | Kind_Network | Kind_Security | Kind_Other

record trc_error =
  err_kind :: error_kind
  err_details :: "bytes option"

definition err_new :: "error_kind \<Rightarrow> trc_error" where
  "err_new k = \<lparr> err_kind = k, err_details = None \<rparr>"

definition err_text :: "error_kind \<Rightarrow> bytes \<Rightarrow> trc_error" where
  "err_text k t = \<lparr> err_kind = k, err_details = Some t \<rparr>"

definition must_disconnect :: "trc_error \<Rightarrow> bool" where
  "must_disconnect e \<longleftrightarrow>
     err_kind e \<in> {Kind_Network, Kind_TooManyAttempts, Kind_ConcurrentRequest, Kind_TooManyRequests, Kind_Security}"

definition should_write_err :: "trc_error \<Rightarrow> bool" where
  "should_write_err e \<longleftrightarrow> err_kind e \<notin> {Kind_Network, Kind_Security}"

section \<open>State\<close>

record mailbox_message =
  msg_id :: u32
  msg_uid :: u32
  msg_octets :: u32
  deleted :: bool

record mailbox =
  messages :: "mailbox_message list"
  mailbox_account_id :: u32
  uid_validity :: u32
  total :: u32
  mailbox_octets :: u32

datatype session_state =
  NotAuthenticated (auth_failures: u32) (username: "bytes option")
| Authenticated mailbox bool access_token

datatype effect =
  Wrote bytes
| WriteFailed bytes
| Tried credentials "error_kind option"
| AskedLimiter
| AskedRate
| AskedScanner
| ReadMailbox u32
| ReadMetadata u32 u32
| ReadBlob bytes
| DeletedEmails u32 "u32 set"
| DeletionFailed u32 "u32 set"
| Committed

record pop3_session =
  receiver :: state
  sess_state :: session_state
  is_tls :: bool
  history :: "effect list"

record cached_message =
  c_document_id :: u32
  c_mailboxes :: "(u32 \<times> u32) list"
  c_size :: u32

record message_cache =
  emails :: "cached_message list"
  inbox_uid_validity :: "u32 option"

record message_metadata =
  md_blob_hash :: bytes
  md_raw_headers :: bytes
  md_body_offset :: u32

text \<open>The answers of the rest of the server, and the settings.\<close>

record pop3_env =
  allow_plain_auth :: bool
  max_auth_failures :: u32
  rate_requests :: bool
  base64_decode :: "bytes \<Rightarrow> bytes option"
  jwt_email :: "bytes \<Rightarrow> bytes option"
  from_utf8_lossy :: "bytes \<Rightarrow> bytes"
  permission_name :: "permission \<Rightarrow> bytes"
  event_message :: "error_kind \<Rightarrow> bytes"
  write_works :: "effect list \<Rightarrow> bytes \<Rightarrow> bool"
  authenticate :: "effect list \<Rightarrow> credentials \<Rightarrow> trc_error + access_token"
  imap_limiter :: "effect list \<Rightarrow> access_token \<Rightarrow> limiter_result"
  is_rate_allowed :: "effect list \<Rightarrow> u32 \<Rightarrow> trc_error + bool"
  scanner_banned :: "effect list \<Rightarrow> nat \<Rightarrow> bool"
  get_cached_messages :: "effect list \<Rightarrow> u32 \<Rightarrow> trc_error + message_cache"
  get_metadata :: "effect list \<Rightarrow> u32 \<Rightarrow> u32 \<Rightarrow> trc_error + message_metadata option"
  get_blob :: "effect list \<Rightarrow> bytes \<Rightarrow> trc_error + bytes option"
  emails_delete :: "effect list \<Rightarrow> u32 \<Rightarrow> u32 option \<Rightarrow> u32 set \<Rightarrow> trc_error + (bool \<times> u32 set)"
  commit_batch :: "effect list \<Rightarrow> trc_error + unit"

type_synonym 'a outcome = "(trc_error + 'a) option"

definition log_effect :: "effect \<Rightarrow> pop3_session \<Rightarrow> pop3_session" where
  "log_effect e s = s\<lparr>history := history s @ [e]\<rparr>"

abbreviation Pop3Authenticate :: permission where "Pop3Authenticate \<equiv> 157"
abbreviation Pop3List :: permission where "Pop3List \<equiv> 158"
abbreviation Pop3Uidl :: permission where "Pop3Uidl \<equiv> 159"
abbreviation Pop3Stat :: permission where "Pop3Stat \<equiv> 160"
abbreviation Pop3Retr :: permission where "Pop3Retr \<equiv> 161"
abbreviation Pop3Dele :: permission where "Pop3Dele \<equiv> 162"

definition unauthorized :: "pop3_env \<Rightarrow> permission \<Rightarrow> trc_error" where
  "unauthorized env p = err_text Kind_Security (permission_name env p)"

definition no_such_message :: trc_error where
  "no_such_message = err_text Kind_Pop3 ''No such message.''"

definition fetch_failed :: trc_error where
  "fetch_failed = err_text Kind_Pop3 ''Failed to fetch message. Perhaps another session deleted it?''"

section \<open>Writing\<close>

definition write_bytes :: "pop3_env \<Rightarrow> bytes \<Rightarrow> pop3_session \<Rightarrow> unit outcome \<times> pop3_session" where
  "write_bytes env bs s =
     (if write_works env (history s) bs then (Some (Inr ()), log_effect (Wrote bs) s)
      else (Some (Inl (err_new Kind_Network)), log_effect (WriteFailed bs) s))"

definition write_ok :: "pop3_env \<Rightarrow> bytes \<Rightarrow> pop3_session \<Rightarrow> unit outcome \<times> pop3_session" where
  "write_ok env message = write_bytes env (response_serialize (Resp_Ok message))"

definition error_serialize :: "pop3_env \<Rightarrow> trc_error \<Rightarrow> bytes" where
  "error_serialize env e =
     ''-ERR '' @ (case err_details e of Some t \<Rightarrow> t | None \<Rightarrow> event_message env (err_kind e)) @ crlf"

definition write_err :: "pop3_env \<Rightarrow> trc_error \<Rightarrow> pop3_session \<Rightarrow> bool \<times> pop3_session" where
  "write_err env e s =
     (if should_write_err e then
        (case write_bytes env (error_serialize env e) s of
           (Some (Inr _), s') \<Rightarrow> (\<not> must_disconnect e, s')
         | (_, s') \<Rightarrow> (False, s'))
      else (\<not> must_disconnect e, s))"

section \<open>The mailbox\<close>

fun btree_insert :: "u32 \<Rightarrow> 'a \<Rightarrow> (u32 \<times> 'a) list \<Rightarrow> (u32 \<times> 'a) list" where
  "btree_insert k v [] = [(k, v)]"
| "btree_insert k v ((k', v') # m) =
     (if k < k' then (k, v) # (k', v') # m else if k = k' then (k, v) # m else (k', v') # btree_insert k v m)"

definition INBOX_ID :: u32 where "INBOX_ID = 0"

fun message_map :: "cached_message list \<Rightarrow> (u32 \<times> u32 \<times> u32) list \<Rightarrow> (u32 \<times> u32 \<times> u32) list" where
  "message_map [] m = m"
| "message_map (c # cs) m =
     message_map cs
       (case find (\<lambda>x. fst x = INBOX_ID) (c_mailboxes c) of
          Some (_, uid) \<Rightarrow> btree_insert uid (c_document_id c, c_size c) m
        | None \<Rightarrow> m)"

fun mailbox_loop :: "(u32 \<times> u32 \<times> u32) list \<Rightarrow> mailbox \<Rightarrow> mailbox" where
  "mailbox_loop [] mb = mb"
| "mailbox_loop ((uid, i, sz) # m) mb =
     mailbox_loop m
       (mb\<lparr>messages := messages mb @ [\<lparr> msg_id = i, msg_uid = uid, msg_octets = sz, deleted = False \<rparr>],
           total := total mb + 1, mailbox_octets := mailbox_octets mb + sz\<rparr>)"

definition mailbox_default :: mailbox where
  "mailbox_default = \<lparr> messages = [], mailbox_account_id = 0, uid_validity = 0, total = 0, mailbox_octets = 0 \<rparr>"

definition build_mailbox :: "u32 \<Rightarrow> message_cache \<Rightarrow> mailbox" where
  "build_mailbox acct cache =
     (if emails cache = [] then mailbox_default
      else mailbox_loop (message_map (emails cache) [])
             (mailbox_default\<lparr>mailbox_account_id := acct,
                uid_validity := (case inbox_uid_validity cache of Some v \<Rightarrow> v | None \<Rightarrow> 0)\<rparr>))"

definition fetch_mailbox :: "pop3_env \<Rightarrow> u32 \<Rightarrow> pop3_session \<Rightarrow> (trc_error + mailbox) \<times> pop3_session" where
  "fetch_mailbox env acct s =
     (map_sum id (build_mailbox acct) (get_cached_messages env (history s) acct), log_effect (ReadMailbox acct) s)"

definition message_at :: "mailbox \<Rightarrow> u32 \<Rightarrow> mailbox_message option" where
  "message_at mb msg = (let i = unat msg - 1 in if i < length (messages mb) then Some (messages mb ! i) else None)"

section \<open>Authentication\<close>

definition auth_failed :: "pop3_env \<Rightarrow> trc_error \<Rightarrow> pop3_session \<Rightarrow> trc_error \<times> pop3_session" where
  "auth_failed env err s =
     (if err_kind err = Kind_AuthFailed then
        (case sess_state s of
           NotAuthenticated failures user \<Rightarrow>
             if failures < max_auth_failures env
             then (err, s\<lparr>sess_state := NotAuthenticated (failures + 1) user\<rparr>)
             else (err_new Kind_TooManyAttempts, s)
         | _ \<Rightarrow> (err_new Kind_TooManyAttempts, s))
      else (err, s))"

definition handle_auth :: "pop3_env \<Rightarrow> credentials \<Rightarrow> pop3_session \<Rightarrow> unit outcome \<times> pop3_session" where
  "handle_auth env creds s =
     (case authenticate env (history s) creds of
        Inl err \<Rightarrow>
          (case auth_failed env err (log_effect (Tried creds (Some (err_kind err))) s) of (e, s) \<Rightarrow> (Some (Inl e), s))
      | Inr token \<Rightarrow>
          (let s = log_effect (Tried creds None) s
           in if \<not> has_permission token Pop3Authenticate then (Some (Inl (unauthorized env Pop3Authenticate)), s)
              else
                let lim = imap_limiter env (history s) token;
                    s = log_effect AskedLimiter s
                in if lim = Forbidden then (Some (Inl (err_new Kind_ConcurrentRequest)), s)
                   else
                     case fetch_mailbox env (account_id token) s of
                       (Inl e, s) \<Rightarrow> (Some (Inl e), s)
                     | (Inr mb, s) \<Rightarrow>
                         write_ok env ''Authentication successful''
                           (s\<lparr>sess_state := Authenticated mb (lim = Allowed) token\<rparr>)))"

definition handle_sasl :: "pop3_env \<Rightarrow> mechanism \<Rightarrow> bytes list \<Rightarrow> pop3_session \<Rightarrow> unit outcome \<times> pop3_session" where
  "handle_sasl env mech params s =
     (if mech \<in> {Plain, OAuthBearer, XOauth2} then
        (if params \<noteq> [] then
           (case Option.bind (base64_decode env (last params))
                   (if mech = Plain then decode_sasl_challenge_plain else decode_sasl_challenge_oauth (jwt_email env)) of
              None \<Rightarrow> (Some (Inl (err_text Kind_AuthError ''Invalid SASL challenge'')), s)
            | Some creds \<Rightarrow> handle_auth env creds s)
         else write_bytes env (''+'' @ crlf) (s\<lparr>receiver := Argument (Auth (mechanism_name mech) []) 1 True\<rparr>))
      else (Some (Inl (err_text Kind_AuthError ''Authentication mechanism not supported.'')), s))"

section \<open>Commands on the mailbox\<close>

text \<open>Access to the mailbox, with the permission that a command needs; outside the authenticated state it panics.\<close>

definition with_mailbox ::
  "pop3_env \<Rightarrow> permission option \<Rightarrow> (mailbox \<Rightarrow> pop3_session \<Rightarrow> unit outcome \<times> pop3_session) \<Rightarrow>
     pop3_session \<Rightarrow> unit outcome \<times> pop3_session" where
  "with_mailbox env p f s =
     (case sess_state s of
        Authenticated mb _ token \<Rightarrow>
          (case p of
             Some p \<Rightarrow> if has_permission token p then f mb s else (Some (Inl (unauthorized env p)), s)
           | None \<Rightarrow> f mb s)
      | NotAuthenticated _ _ \<Rightarrow> (None, s))"

definition set_mailbox :: "mailbox \<Rightarrow> pop3_session \<Rightarrow> pop3_session" where
  "set_mailbox mb s =
     (case sess_state s of
        Authenticated _ fl token \<Rightarrow> s\<lparr>sess_state := Authenticated mb fl token\<rparr>
      | NotAuthenticated _ _ \<Rightarrow> s)"

definition dele_one :: "u32 \<Rightarrow> mailbox_message list \<Rightarrow> mailbox_message list \<times> bytes" where
  "dele_one msg ms =
     (let i = unat msg - 1
      in if i < length ms then
           (if \<not> deleted (ms ! i)
            then (ms[i := (ms ! i)\<lparr>deleted := True\<rparr>], ''+OK message '' @ decimal (unat msg) @ '' deleted'' @ crlf)
            else (ms, ''-ERR message '' @ decimal (unat msg) @ '' already deleted'' @ crlf))
         else (ms, ''-ERR no such message'' @ crlf))"

fun dele_loop :: "u32 list \<Rightarrow> mailbox_message list \<Rightarrow> mailbox_message list \<times> bytes" where
  "dele_loop [] ms = (ms, [])"
| "dele_loop (msg # msgs) ms =
     (case dele_one msg ms of (ms', r) \<Rightarrow> case dele_loop msgs ms' of (ms'', r') \<Rightarrow> (ms'', r @ r'))"

definition handle_dele :: "pop3_env \<Rightarrow> u32 list \<Rightarrow> pop3_session \<Rightarrow> unit outcome \<times> pop3_session" where
  "handle_dele env msgs =
     with_mailbox env (Some Pop3Dele)
       (\<lambda>mb s. case dele_loop msgs (messages mb) of
          (ms, response) \<Rightarrow> write_bytes env response (set_mailbox (mb\<lparr>messages := ms\<rparr>) s))"

definition handle_rset :: "pop3_env \<Rightarrow> pop3_session \<Rightarrow> unit outcome \<times> pop3_session" where
  "handle_rset env =
     with_mailbox env None
       (\<lambda>mb s. write_ok env (decimal (length (filter deleted (messages mb))) @ '' messages undeleted'')
          (set_mailbox (mb\<lparr>messages := map (\<lambda>m. m\<lparr>deleted := False\<rparr>) (messages mb)\<rparr>) s))"

definition marked :: "mailbox \<Rightarrow> u32 set" where
  "marked mb = set (map msg_id (filter deleted (messages mb)))"

definition commit_deletion :: "pop3_env \<Rightarrow> bool \<Rightarrow> pop3_session \<Rightarrow> (trc_error + unit) \<times> pop3_session" where
  "commit_deletion env batch_empty s =
     (if batch_empty then (Inr (), s) else (commit_batch env (history s), log_effect Committed s))"

definition handle_quit :: "pop3_env \<Rightarrow> pop3_session \<Rightarrow> unit outcome \<times> pop3_session" where
  "handle_quit env s =
     (case sess_state s of
        Authenticated mb _ token \<Rightarrow>
          (if marked mb \<noteq> {} then
             (case emails_delete env (history s) (mailbox_account_id mb) (tenant_id token) (marked mb) of
                Inl e \<Rightarrow> (Some (Inl e), log_effect (DeletionFailed (mailbox_account_id mb) (marked mb)) s)
              | Inr (batch_empty, not_deleted) \<Rightarrow>
                  (case commit_deletion env batch_empty (log_effect (DeletedEmails (mailbox_account_id mb) (marked mb)) s) of
                     (Inl e, s) \<Rightarrow> (Some (Inl e), s)
                   | (Inr _, s) \<Rightarrow>
                       if not_deleted = {}
                       then write_ok env (''Stalwart POP3 bids you farewell ('' @ decimal (card (marked mb)) @ '' messages deleted).'') s
                       else write_bytes env (response_serialize (Resp_Err ''Some messages could not be deleted'')) s))
           else write_ok env ''Stalwart POP3 bids you farewell (no messages deleted).'' s)
      | NotAuthenticated _ _ \<Rightarrow> write_ok env ''Stalwart POP3 bids you farewell.'' s)"

definition handle_fetch :: "pop3_env \<Rightarrow> u32 \<Rightarrow> u32 option \<Rightarrow> pop3_session \<Rightarrow> unit outcome \<times> pop3_session" where
  "handle_fetch env msg lines =
     with_mailbox env (Some Pop3Retr)
       (\<lambda>mb s. case message_at mb msg of
          None \<Rightarrow> (Some (Inl no_such_message), s)
        | Some message \<Rightarrow>
            (case get_metadata env (history s) (mailbox_account_id mb) (msg_id message) of
               Inl e \<Rightarrow> (Some (Inl e), log_effect (ReadMetadata (mailbox_account_id mb) (msg_id message)) s)
             | Inr None \<Rightarrow> (Some (Inl fetch_failed), log_effect (ReadMetadata (mailbox_account_id mb) (msg_id message)) s)
             | Inr (Some md) \<Rightarrow>
                 (let s = log_effect (ReadMetadata (mailbox_account_id mb) (msg_id message)) s
                  in case get_blob env (history s) (md_blob_hash md) of
                       Inl e \<Rightarrow> (Some (Inl e), log_effect (ReadBlob (md_blob_hash md)) s)
                     | Inr None \<Rightarrow> (Some (Inl fetch_failed), log_effect (ReadBlob (md_blob_hash md)) s)
                     | Inr (Some blob) \<Rightarrow>
                         (let body = (case slice_from blob (unat (md_body_offset md)) of Some b \<Rightarrow> b | None \<Rightarrow> []);
                              bs = get_full_range (with_last body (chained_new (md_raw_headers md)))
                          in write_bytes env
                               (response_serialize (Resp_Message bs (case lines of Some n \<Rightarrow> n | None \<Rightarrow> 0)))
                               (log_effect (ReadBlob (md_blob_hash md)) s)))))"

definition handle_list :: "pop3_env \<Rightarrow> u32 option \<Rightarrow> pop3_session \<Rightarrow> unit outcome \<times> pop3_session" where
  "handle_list env msg =
     with_mailbox env (Some Pop3List)
       (\<lambda>mb s. case msg of
          Some n \<Rightarrow>
            (case message_at mb n of
               Some m \<Rightarrow> write_ok env (decimal (unat n) @ '' '' @ decimal (unat (msg_octets m))) s
             | None \<Rightarrow> (Some (Inl no_such_message), s))
        | None \<Rightarrow> write_bytes env (response_serialize (Resp_List (map (\<lambda>m. decimal (unat (msg_octets m))) (messages mb)))) s)"

definition unique_id :: "mailbox \<Rightarrow> mailbox_message \<Rightarrow> bytes" where
  "unique_id mb m = decimal (unat (uid_validity mb)) @ decimal (unat (msg_uid m))"

definition handle_uidl :: "pop3_env \<Rightarrow> u32 option \<Rightarrow> pop3_session \<Rightarrow> unit outcome \<times> pop3_session" where
  "handle_uidl env msg =
     with_mailbox env (Some Pop3Uidl)
       (\<lambda>mb s. case msg of
          Some n \<Rightarrow>
            (case message_at mb n of
               Some m \<Rightarrow> write_ok env (decimal (unat n) @ '' '' @ unique_id mb m) s
             | None \<Rightarrow> (Some (Inl no_such_message), s))
        | None \<Rightarrow> write_bytes env (response_serialize (Resp_List (map (unique_id mb) (messages mb)))) s)"

definition handle_stat :: "pop3_env \<Rightarrow> pop3_session \<Rightarrow> unit outcome \<times> pop3_session" where
  "handle_stat env =
     with_mailbox env (Some Pop3Stat)
       (\<lambda>mb s. write_ok env (decimal (unat (total mb)) @ '' '' @ decimal (unat (mailbox_octets mb))) s)"

definition handle_capa :: "pop3_env \<Rightarrow> pop3_session \<Rightarrow> unit outcome \<times> pop3_session" where
  "handle_capa env s =
     write_bytes env
       (response_serialize
          (Resp_Capability
             (if is_tls s \<or> allow_plain_auth env then [Plain, OAuthBearer, XOauth2] else [OAuthBearer, XOauth2])
             (\<not> is_tls s))) s"

definition handle_stls :: "pop3_env \<Rightarrow> pop3_session \<Rightarrow> unit outcome \<times> pop3_session" where
  "handle_stls env = write_ok env ''Begin TLS negotiation now''"

definition handle_utf8 :: "pop3_env \<Rightarrow> pop3_session \<Rightarrow> unit outcome \<times> pop3_session" where
  "handle_utf8 env = write_ok env ''UTF8 enabled''"

section \<open>Requests\<close>

definition validate_request :: "pop3_env \<Rightarrow> pop3_command \<Rightarrow> pop3_session \<Rightarrow> (trc_error + unit) \<times> pop3_session" where
  "validate_request env command s =
     (let plain_auth =
            (case sess_state s of
               NotAuthenticated _ user \<Rightarrow>
                 if is_tls s \<or> allow_plain_auth env then
                   (if (case command of Pass _ \<Rightarrow> user \<noteq> None | _ \<Rightarrow> True) then Inr ()
                    else Inl (err_text Kind_Pop3 ''Username was not provided.''))
                 else Inl (err_text Kind_Pop3 ''Cannot authenticate over plain-text.'')
             | Authenticated _ _ _ \<Rightarrow> Inl (err_text Kind_Pop3 ''Already authenticated.''))
      in case command of
           Capa \<Rightarrow> (Inr (), s) | Quit \<Rightarrow> (Inr (), s) | Noop \<Rightarrow> (Inr (), s)
         | User _ \<Rightarrow> (plain_auth, s) | Pass _ \<Rightarrow> (plain_auth, s) | Apop _ _ \<Rightarrow> (plain_auth, s)
         | Auth mech _ \<Rightarrow>
             if mech = Plain then (plain_auth, s)
             else (case sess_state s of
                     NotAuthenticated _ _ \<Rightarrow> (Inr (), s)
                   | Authenticated _ _ _ \<Rightarrow> (Inl (err_text Kind_Pop3 ''Already authenticated.''), s))
         | Stls \<Rightarrow> (if \<not> is_tls s then Inr () else Inl (err_text Kind_Pop3 ''Already in TLS mode.''), s)
         | _ \<Rightarrow>
             (case sess_state s of
                Authenticated mb _ _ \<Rightarrow>
                  if rate_requests env then
                    (case is_rate_allowed env (history s) (mailbox_account_id mb) of
                       Inl e \<Rightarrow> Inl e
                     | Inr True \<Rightarrow> Inr ()
                     | Inr False \<Rightarrow> Inl (err_new Kind_TooManyRequests),
                     log_effect AskedRate s)
                  else (Inr (), s)
              | NotAuthenticated _ _ \<Rightarrow> (Inl (err_text Kind_Pop3 ''Not authenticated.''), s)))"

datatype session_result = Continue | Close | UpgradeTls

definition and_then :: "session_result \<Rightarrow> unit outcome \<times> pop3_session \<Rightarrow> session_result outcome \<times> pop3_session" where
  "and_then r x = (map_option (map_sum id (\<lambda>_. r)) (fst x), snd x)"

fun run_command :: "pop3_env \<Rightarrow> pop3_command \<Rightarrow> pop3_session \<Rightarrow> session_result outcome \<times> pop3_session" where
  "run_command env (User name) s =
     (case sess_state s of
        NotAuthenticated failures _ \<Rightarrow>
          and_then Continue
            (write_ok env (name @ '' is a valid mailbox'') (s\<lparr>sess_state := NotAuthenticated failures (Some name)\<rparr>))
      | Authenticated _ _ _ \<Rightarrow> (None, s))"
| "run_command env (Pass str) s =
     (case sess_state s of
        NotAuthenticated failures (Some user) \<Rightarrow>
          and_then Continue (handle_auth env (Basic user str None) (s\<lparr>sess_state := NotAuthenticated failures None\<rparr>))
      | _ \<Rightarrow> (None, s))"
| "run_command env Quit s = and_then Close (handle_quit env s)"
| "run_command env Stat s = and_then Continue (handle_stat env s)"
| "run_command env (List msg) s = and_then Continue (handle_list env msg s)"
| "run_command env (Retr msg) s = and_then Continue (handle_fetch env msg None s)"
| "run_command env (Dele msg) s = and_then Continue (handle_dele env [msg] s)"
| "run_command env (DeleMany msgs) s = and_then Continue (handle_dele env msgs s)"
| "run_command env (Top msg n) s = and_then Continue (handle_fetch env msg (Some n) s)"
| "run_command env (Uidl msg) s = and_then Continue (handle_uidl env msg s)"
| "run_command env Noop s = and_then Continue (write_ok env ''NOOP'' s)"
| "run_command env Rset s = and_then Continue (handle_rset env s)"
| "run_command env Capa s = and_then Continue (handle_capa env s)"
| "run_command env Stls s = and_then UpgradeTls (handle_stls env s)"
| "run_command env Utf8 s = and_then Continue (handle_utf8 env s)"
| "run_command env (Auth mech params) s = and_then Continue (handle_sasl env mech params s)"
| "run_command env (Apop _ _) s = (Some (Inl (err_text Kind_Pop3 ''APOP not supported.'')), s)"

definition reason_text :: "pop3_env \<Rightarrow> reason \<Rightarrow> bytes" where
  "reason_text env r =
     (case r of
        Reason t \<Rightarrow> t
      | UnsupportedMechanism v \<Rightarrow> ''Unsupported mechanism '' @ [CHR 0x27] @ from_utf8_lossy env v @ [CHR 0x27, CHR ''.''])"

definition run_request :: "pop3_env \<Rightarrow> reason + pop3_command \<Rightarrow> pop3_session \<Rightarrow> session_result outcome \<times> pop3_session" where
  "run_request env request s =
     (case request of
        Inl r \<Rightarrow> (Some (Inl (err_text Kind_Pop3 (reason_text env r))), s)
      | Inr command \<Rightarrow>
          (case validate_request env command s of
             (Inl e, s) \<Rightarrow> (Some (Inl e), s)
           | (Inr _, s) \<Rightarrow> run_command env command s))"

fun run_requests :: "pop3_env \<Rightarrow> (reason + pop3_command) list \<Rightarrow> pop3_session \<Rightarrow> session_result option \<times> pop3_session" where
  "run_requests env [] s = (Some Continue, s)"
| "run_requests env (r # rs) s =
     (case run_request env r s of
        (None, s) \<Rightarrow> (None, s)
      | (Some (Inr Continue), s) \<Rightarrow> run_requests env rs s
      | (Some (Inr result), s) \<Rightarrow> (Some result, s)
      | (Some (Inl e), s) \<Rightarrow>
          (case write_err env e s of (True, s) \<Rightarrow> run_requests env rs s | (False, s) \<Rightarrow> (Some Close, s)))"

definition is_not_authenticated :: "pop3_session \<Rightarrow> bool" where
  "is_not_authenticated s = (case sess_state s of NotAuthenticated _ _ \<Rightarrow> True | Authenticated _ _ _ \<Rightarrow> False)"

definition ingest :: "pop3_env \<Rightarrow> bytes \<Rightarrow> pop3_session \<Rightarrow> session_result option \<times> pop3_session" where
  "ingest env bs s =
     (case ingest_loop (is_not_authenticated s) (scanner_banned env (history s)) 0 (receiver s) bs [] of
        None \<Rightarrow> (Some Close, log_effect AskedScanner s)
      | Some (requests, st) \<Rightarrow>
          if st = Parser_Panic then (None, s\<lparr>receiver := st\<rparr>) else run_requests env requests (s\<lparr>receiver := st\<rparr>))"

section \<open>The connection\<close>

datatype conn_event = Data bytes | Closed | ReadError | TimedOut | Shutdown

fun handle_conn :: "pop3_env \<Rightarrow> conn_event list \<Rightarrow> pop3_session \<Rightarrow> bool option \<times> pop3_session \<times> conn_event list" where
  "handle_conn env [] s = (Some False, s, [])"
| "handle_conn env (Data bs # evs) s =
     (if bs \<noteq> [] then
        (case ingest env bs s of
           (None, s) \<Rightarrow> (None, s, evs)
         | (Some Continue, s) \<Rightarrow> handle_conn env evs s
         | (Some UpgradeTls, s) \<Rightarrow> (Some True, s, evs)
         | (Some Close, s) \<Rightarrow> (Some False, s, evs))
      else (Some False, s, evs))"
| "handle_conn env (Closed # evs) s = (Some False, s, evs)"
| "handle_conn env (ReadError # evs) s = (Some False, s, evs)"
| "handle_conn env (TimedOut # evs) s =
     (Some False, snd (write_bytes env (''-ERR Connection timed out.'' @ crlf) s), evs)"
| "handle_conn env (Shutdown # evs) s =
     (Some False, snd (write_bytes env (''* BYE Server shutting down.'' @ crlf) s), evs)"

definition SERVER_GREETING :: bytes where
  "SERVER_GREETING = ''+OK Stalwart POP3 at your service.'' @ crlf"

definition session_new :: pop3_session where
  "session_new = \<lparr> receiver = Init, sess_state = NotAuthenticated 0 None, is_tls = False, history = [] \<rparr>"

definition into_tls :: "pop3_session \<Rightarrow> pop3_session" where
  "into_tls s = s\<lparr>is_tls := True\<rparr>"

text \<open>\<open>tls0\<close>: the connection is encrypted from the start; \<open>tls_ok\<close>: the listener has TLS and the handshake succeeds.\<close>

definition handle_session :: "pop3_env \<Rightarrow> bool \<Rightarrow> bool \<Rightarrow> conn_event list \<Rightarrow> bool option \<times> pop3_session" where
  "handle_session env tls0 tls_ok evs =
     (case write_bytes env SERVER_GREETING (session_new\<lparr>is_tls := tls0\<rparr>) of
        (Some (Inr _), s) \<Rightarrow>
          (case handle_conn env evs s of
             (Some True, s, evs) \<Rightarrow>
               if tls_ok then (case handle_conn env evs (into_tls s) of (r, s, _) \<Rightarrow> (r, s)) else (Some False, s)
           | (r, s, _) \<Rightarrow> (r, s))
      | (_, s) \<Rightarrow> (Some False, s))"

end
