(* ===== verification/Pop3Behaviour.thy ===== *)
theory Pop3Behaviour
  imports Pop3Session
begin

text \<open>
  What the POP3 session guarantees. An invariant of the session that every request keeps holds
  throughout a connection (the interface \<open>session_invariant\<close>); that the
  session never panics, that failed logins are bounded and that passwords
  do not travel in the clear are its instances.
\<close>

section \<open>What a request does\<close>

fun is_try :: "effect \<Rightarrow> bool" where
  "is_try (Tried _ _) \<longleftrightarrow> True"
| "is_try _ \<longleftrightarrow> False"

text \<open>A step that tries no credentials, stays in the same kind of state and leaves the parser within its bounds.\<close>

definition quiet :: "pop3_session \<Rightarrow> pop3_session \<Rightarrow> bool" where
  "quiet s s' \<longleftrightarrow>
     is_tls s' = is_tls s \<and> (\<exists>new. history s' = history s @ new \<and> list_all (\<lambda>e. \<not> is_try e) new) \<and>
     (state_wf (receiver s) \<longrightarrow> state_wf (receiver s')) \<and>
     (case sess_state s of
        NotAuthenticated f u \<Rightarrow> \<exists>u'. sess_state s' = NotAuthenticated f u'
      | Authenticated mb fl t \<Rightarrow> \<exists>mb'. sess_state s' = Authenticated mb' fl t)"

lemma quiet_refl [simp]: "quiet s s"
  by (auto simp: quiet_def split: session_state.split)

lemma quiet_log [simp]: "quiet s (log_effect e s) \<longleftrightarrow> \<not> is_try e"
  by (auto simp: quiet_def log_effect_def split: session_state.split)

lemma quiet_trans: "quiet s s' \<Longrightarrow> quiet s' s'' \<Longrightarrow> quiet s s''"
  by (fastforce simp: quiet_def split: session_state.splits)

lemma quiet_receiver [simp]: "quiet s (s\<lparr>receiver := r\<rparr>) \<longleftrightarrow> (state_wf (receiver s) \<longrightarrow> state_wf r)"
  by (auto simp: quiet_def split: session_state.split)

lemma quiet_set_mailbox [simp]: "quiet s (set_mailbox mb s)"
  by (auto simp: quiet_def set_mailbox_def split: session_state.split)

lemma quiet_username: "sess_state s = NotAuthenticated f u \<Longrightarrow> quiet s (s\<lparr>sess_state := NotAuthenticated f u'\<rparr>)"
  by (auto simp: quiet_def)

lemma mechanism_name_short [simp]: "length (mechanism_name m) \<le> 64"
  using mechanism_name_printable [of m] by simp

text \<open>An operation that is quiet and does not panic.\<close>

definition calm :: "pop3_session \<Rightarrow> 'a outcome \<times> pop3_session \<Rightarrow> bool" where
  "calm s x \<longleftrightarrow> fst x \<noteq> None \<and> quiet s (snd x)"

lemma calm_pair [simp]: "calm s (r, s') \<longleftrightarrow> r \<noteq> None \<and> quiet s s'"
  by (simp add: calm_def)

lemma calm_write [simp]: "quiet s s' \<Longrightarrow> calm s (write_bytes env bs s')"
  by (auto simp: write_bytes_def intro: quiet_trans)

lemma calm_write_ok [simp]: "quiet s s' \<Longrightarrow> calm s (write_ok env m s')"
  by (simp add: write_ok_def)

lemma calm_and_then [simp]: "calm s (and_then r x) \<longleftrightarrow> calm s x"
  by (simp add: calm_def and_then_def)

lemma calm_with_mailbox:
  assumes "\<not> is_not_authenticated s" "\<And>mb. calm s (f mb s)"
  shows "calm s (with_mailbox env p f s)"
  using assms by (auto simp: with_mailbox_def is_not_authenticated_def split: session_state.split option.split)

lemma quiet_log_trans: "quiet s s' \<Longrightarrow> \<not> is_try e \<Longrightarrow> quiet s (log_effect e s')"
  by (erule quiet_trans) simp

lemma calm_quit: "calm s (handle_quit env s)"
  by (auto simp: handle_quit_def commit_deletion_def intro!: quiet_log_trans calm_write calm_write_ok
      split: session_state.split sum.split)

lemma calm_mailbox_handlers:
  assumes "\<not> is_not_authenticated s"
  shows "calm s (handle_dele env msgs s)" "calm s (handle_rset env s)" "calm s (handle_fetch env msg lines s)"
    "calm s (handle_list env n s)" "calm s (handle_uidl env n s)" "calm s (handle_stat env s)"
  unfolding handle_dele_def handle_rset_def handle_fetch_def handle_list_def handle_uidl_def handle_stat_def
  by (rule calm_with_mailbox [OF assms],
      auto simp: Let_def intro!: quiet_log_trans calm_write split: prod.split option.split sum.split)+

lemma validate_quiet: "validate_request env c s = (r, s') \<Longrightarrow> s' = s \<or> s' = log_effect AskedRate s"
  by (cases c) (auto simp: validate_request_def Let_def split: session_state.splits if_splits)

fun tries :: "pop3_command \<Rightarrow> bool" where
  "tries (Pass _) \<longleftrightarrow> True"
| "tries (Auth _ _) \<longleftrightarrow> True"
| "tries _ \<longleftrightarrow> False"

lemma log_state [simp]:
  "sess_state (log_effect e s) = sess_state s" "is_tls (log_effect e s) = is_tls s"
  "is_not_authenticated (log_effect e s) = is_not_authenticated s"
  by (simp_all add: log_effect_def is_not_authenticated_def)

text \<open>A command other than a login, once validated, is calm.\<close>

lemma calm_run_command:
  assumes "validate_request env c s = (Inr (), s')" "\<not> tries c"
  shows "calm s' (run_command env c s')"
proof -
  have s': "s' = s \<or> s' = log_effect AskedRate s" by (rule validate_quiet [OF assms(1)])
  then have st: "sess_state s' = sess_state s" by auto
  show ?thesis
    using assms st
    by (cases c)
      (auto simp: validate_request_def Let_def calm_quit handle_capa_def handle_stls_def handle_utf8_def
        is_not_authenticated_def calm_mailbox_handlers quiet_username split: session_state.splits if_splits)
qed

section \<open>Logins\<close>

definition login_step :: "pop3_env \<Rightarrow> credentials \<Rightarrow> pop3_session \<Rightarrow> trc_error + 'a \<Rightarrow> pop3_session \<Rightarrow> bool" where
  "login_step env c s x s' \<longleftrightarrow>
     is_tls s' = is_tls s \<and> receiver s' = receiver s \<and>
     (\<exists>k new f u. sess_state s = NotAuthenticated f u \<and> history s' = history s @ Tried c k # new \<and> list_all (\<lambda>e. \<not> is_try e) new \<and>
        (if k \<noteq> Some Kind_AuthFailed then (\<exists>u'. sess_state s' = NotAuthenticated f u') \<or> (\<exists>mb fl t. sess_state s' = Authenticated mb fl t)
         else if f < max_auth_failures env then \<exists>u'. sess_state s' = NotAuthenticated (f + 1) u'
         else \<exists>e. x = Inl e \<and> must_disconnect e \<and> (\<exists>u'. sess_state s' = NotAuthenticated f u')))"

lemma login_handle_auth:
  assumes "sess_state s = NotAuthenticated f u"
  shows "\<exists>x. fst (handle_auth env c s) = Some x \<and> login_step env c s x (snd (handle_auth env c s))"
proof (cases "authenticate env (history s) c")
  case (Inl e)
  then show ?thesis
    using assms by (auto simp: handle_auth_def auth_failed_def login_step_def log_effect_def err_new_def must_disconnect_def)
next
  case (Inr token)
  let ?s1 = "log_effect (Tried c None) s"
  let ?s2 = "log_effect AskedLimiter ?s1"
  let ?s3 = "log_effect (ReadMailbox (account_id token)) ?s2"
  have same: "login_step env c s x (log_effect (Tried c None) s)" "login_step env c s x ?s2" "login_step env c s x ?s3" for x :: "trc_error + unit"
    using assms by (auto simp: login_step_def log_effect_def)
  show ?thesis
  proof (cases "has_permission token Pop3Authenticate \<and> imap_limiter env (history ?s1) token \<noteq> Forbidden")
    case True
    show ?thesis
    proof (cases "get_cached_messages env (history ?s2) (account_id token)")
      case (Inr cache)
      define s4 where "s4 = ?s3\<lparr>sess_state :=
        Authenticated (build_mailbox (account_id token) cache) (imap_limiter env (history ?s1) token = Allowed) token\<rparr>"
      have "handle_auth env c s = write_ok env ''Authentication successful'' s4"
        using True Inr \<open>authenticate env (history s) c = Inr token\<close>
        by (simp add: handle_auth_def Let_def fetch_mailbox_def s4_def)
      then show ?thesis
        using assms by (auto simp: write_ok_def write_bytes_def login_step_def log_effect_def s4_def)
    qed (use True Inr same in \<open>simp add: handle_auth_def Let_def fetch_mailbox_def\<close>)
  qed (use Inr same in \<open>auto simp: handle_auth_def Let_def\<close>)
qed

lemma login_step_prepare: "login_step env c (s\<lparr>sess_state := NotAuthenticated f u'\<rparr>) x s' \<Longrightarrow> 
   sess_state s = NotAuthenticated f u \<Longrightarrow> login_step env c s x s'"
  by (auto simp: login_step_def)

lemma login_step_and_then: "login_step env c s x s' \<Longrightarrow> login_step env c s (map_sum id (\<lambda>_. r) x) s'"
proof -
  have e: "map_sum id (\<lambda>_. r) x = Inl e \<longleftrightarrow> x = Inl e" for e by (cases x) simp_all
  show "login_step env c s x s' \<Longrightarrow> login_step env c s (map_sum id (\<lambda>_. r) x) s'" by (simp only: login_step_def e)
qed

text \<open>The credentials a login may try: passwords only where they are protected or allowed.\<close>

definition protected :: "pop3_env \<Rightarrow> pop3_session \<Rightarrow> credentials \<Rightarrow> bool" where
  "protected env s c \<longleftrightarrow> is_tls s \<or> allow_plain_auth env \<or> (\<exists>u t. c = Bearer u t)"

lemma run_login:
  assumes "validate_request env c s = (Inr (), s')" "tries c"
  shows "s' = s \<and> (calm s (run_command env c s) \<or>
    (\<exists>cr x. protected env s cr \<and> fst (run_command env c s) = Some x \<and> login_step env cr s x (snd (run_command env c s))))"
proof -
  have s': "s' = s" using assms by (cases c) (auto simp: validate_request_def Let_def split: session_state.splits if_splits)
  show ?thesis
  proof (cases c)
    case (Pass p)
    with assms(1) obtain f u where st: "sess_state s = NotAuthenticated f (Some u)" and pl: "is_tls s \<or> allow_plain_auth env"
      by (auto simp: validate_request_def Let_def split: session_state.splits if_splits)
    let ?s = "s\<lparr>sess_state := NotAuthenticated f None\<rparr>"
    obtain x where x: "fst (handle_auth env (Basic u p None) ?s) = Some x"
      "login_step env (Basic u p None) ?s x (snd (handle_auth env (Basic u p None) ?s))"
      using login_handle_auth [of ?s f None] by auto
    with login_step_prepare [OF x(2) st] st s' pl Pass show ?thesis
      by (auto simp: and_then_def protected_def intro!: exI [of _ "Basic u p None"] login_step_and_then)
  next
    case (Auth m ps)
    with assms(1) obtain f u where st: "sess_state s = NotAuthenticated f u"
      and pl: "m = Plain \<Longrightarrow> is_tls s \<or> allow_plain_auth env"
      by (auto simp: validate_request_def Let_def split: session_state.splits if_splits)
    show ?thesis
    proof (cases "calm s (handle_sasl env m ps s)")
      case False
      then obtain cr where cr: "handle_sasl env m ps s = handle_auth env cr s"
        and dec: "m = Plain \<or> (\<exists>b. decode_sasl_challenge_oauth (jwt_email env) b = Some cr)"
        by (auto simp: handle_sasl_def split: if_splits option.splits Option.bind_splits)
      then have "protected env s cr"
        using pl by (auto simp: protected_def decode_sasl_challenge_oauth_def)
      with login_handle_auth [OF st, of env cr] cr s' Auth show ?thesis
        by (auto simp: and_then_def intro!: exI [of _ cr] login_step_and_then)
    qed (use s' Auth in simp)
  qed (use assms in auto)
qed

text \<open>So every request is calm or a login.\<close>

lemma run_request_cases:
  obtains (calm) "calm s (run_request env r s)"
  | (login) c x where "protected env s c" "fst (run_request env r s) = Some x" "login_step env c s x (snd (run_request env r s))"
proof (cases r)
  case (Inl reason)
  then show ?thesis using calm by (simp add: run_request_def)
next
  case (Inr c)
  obtain v s' where v: "validate_request env c s = (v, s')" by force
  from validate_quiet [OF v] have q: "quiet s s'" by auto
  show ?thesis
  proof (cases v)
    case (Inl e)
    with v q Inr show ?thesis using calm by (simp add: run_request_def)
  next
    case v': (Inr _)
    then have v: "validate_request env c s = (Inr (), s')" using v by simp
    then have run: "run_request env r s = run_command env c s'" using Inr by (simp add: run_request_def)
    show ?thesis
    proof (cases "tries c")
      case False
      from calm_run_command [OF v this] q show ?thesis
        using calm run by (auto simp: calm_def intro: quiet_trans)
    next
      case True
      from run_login [OF v this] run show ?thesis using calm login by auto
    qed
  qed
qed

lemma parse_wf: "state_wf s \<Longrightarrow> pop3_parse s bs = (r, s', rest) \<Longrightarrow> state_wf s'"
proof (induction bs arbitrary: s)
  case (Cons c bs)
  obtain s1 x where "pop3_step s c = (s1, x)" by force
  with Cons step_wf [OF Cons.prems(1) this] show ?case by (auto split: option.splits)
qed simp

lemma ingest_loop_wf: "ingest_loop na ban n s bs rs = Some (rs', s') \<Longrightarrow> state_wf s \<Longrightarrow> state_wf s'"
proof (induction na ban n s bs rs rule: ingest_loop.induct)
  case (1 na ban n s bs rs)
  obtain x s1 rest where p: "pop3_parse s bs = (x, s1, rest)" by (cases "pop3_parse s bs")
  have s1: "state_wf s1" by (rule parse_wf [OF 1(4) p])
  show ?case
    using 1(1) [OF p [symmetric]] 1(2) [OF p [symmetric]] 1(3) s1
    by (auto simp: ingest_loop.simps [of na ban n s] p split: sum.splits error.splits if_splits)
qed

section \<open>Invariants of a connection\<close>

text \<open>
  \<open>kept\<close> holds between requests and \<open>final\<close> when the connection is closed or has panicked. Beside the requests,
  which the first law is about, a connection writes, asks about scanners and feeds the receiver.
\<close>

locale session_invariant =
  fixes env :: pop3_env and kept final :: "pop3_session \<Rightarrow> bool"
  assumes request: "kept s \<Longrightarrow> case run_request env r s of
      (None, s') \<Rightarrow> False
    | (Some (Inr _), s') \<Rightarrow> kept s'
    | (Some (Inl e), s') \<Rightarrow> if must_disconnect e then final s' else kept s'"
    and kept_final: "kept s \<Longrightarrow> final s"
    and logged: "\<not> is_try e \<Longrightarrow> kept s \<Longrightarrow> kept (log_effect e s)" "\<not> is_try e \<Longrightarrow> final s \<Longrightarrow> final (log_effect e s)"
    and fed: "kept s \<Longrightarrow> (state_wf (receiver s) \<Longrightarrow> state_wf st) \<Longrightarrow> kept (s\<lparr>receiver := st\<rparr>)"
    and crashed: "kept s \<Longrightarrow> final (s\<lparr>receiver := Parser_Panic\<rparr>)"
begin

lemma write_final: "final s \<Longrightarrow> final (snd (write_bytes env bs s))"
  by (simp add: write_bytes_def logged)

lemma write_kept: "kept s \<Longrightarrow> kept (snd (write_bytes env bs s))"
  by (simp add: write_bytes_def logged)

lemma write_err_kept:
  "write_err env e s = (go, s') \<Longrightarrow> (if must_disconnect e then final s else kept s) \<Longrightarrow> if go then kept s' else final s'"
  by (cases "should_write_err e"; cases "write_works env (history s) (error_serialize env e)")
    (auto simp: write_err_def write_bytes_def logged kept_final split: if_splits)

lemma requests:
  "kept s \<Longrightarrow> run_requests env rs s = (r, s') \<Longrightarrow> r \<noteq> None \<and> final s' \<and> (r \<noteq> Some Close \<longrightarrow> kept s')"
proof (induction rs arbitrary: s)
  case Nil
  then show ?case using kept_final by auto
next
  case (Cons q rs)
  obtain x s1 where x: "run_request env q s = (x, s1)" by force
  with request [OF Cons.prems(1), of q] have x0: "x \<noteq> None" by (cases x) auto
  then obtain y where y: "x = Some y" by auto
  show ?case
  proof (cases y)
    case (Inr res)
    with x y request [OF Cons.prems(1), of q] have "kept s1" by simp
    with Cons x y Inr kept_final show ?thesis by (cases res) auto
  next
    case (Inl e)
    obtain go s2 where w: "write_err env e s1 = (go, s2)" by force
    from x y Inl request [OF Cons.prems(1), of q] have "if must_disconnect e then final s1 else kept s1" by simp
    from write_err_kept [OF w this] Cons x y Inl w show ?thesis by (cases go) auto
  qed
qed

text \<open>Only a state of the parser outside its bounds lets a buffer panic.\<close>

lemma ingest:
  assumes "kept s" "ingest env bs s = (r, s')"
  shows "final s' \<and> (r \<noteq> None \<longrightarrow> r \<noteq> Some Close \<longrightarrow> kept s') \<and> (state_wf (receiver s) \<longrightarrow> r \<noteq> None)"
proof (cases "ingest_loop (is_not_authenticated s) (scanner_banned env (history s)) 0 (receiver s) bs []")
  case None
  then show ?thesis using assms logged kept_final by (auto simp: ingest_def)
next
  case (Some x)
  obtain requests' st where x: "x = (requests', st)" by force
  with ingest_loop_wf Some have wf: "state_wf (receiver s) \<Longrightarrow> state_wf st" by blast
  show ?thesis
  proof (cases "st = Parser_Panic")
    case True
    with Some x wf assms crashed show ?thesis by (auto simp: ingest_def)
  next
    case False
    with Some x assms(2) have "run_requests env requests' (s\<lparr>receiver := st\<rparr>) = (r, s')" by (simp add: ingest_def)
    with requests [OF fed [OF assms(1) wf]] show ?thesis by blast
  qed
qed

lemma conn:
  "kept s \<Longrightarrow> handle_conn env evs s = (r, s', evs') \<Longrightarrow> final s' \<and> (r = Some True \<longrightarrow> kept s')"
proof (induction evs arbitrary: s)
  case (Cons ev evs)
  show ?case
  proof (cases ev)
    case (Data bs)
    obtain x s1 where x: "ingest env bs s = (x, s1)" by force
    note x1 = ingest [OF Cons.prems(1) x]
    show ?thesis
    proof (cases "bs = []")
      case False
      show ?thesis
      proof (cases x)
        case (Some y)
        then show ?thesis using Cons x x1 Data False by (cases y) auto
      qed (use Cons.prems x x1 Data False in auto)
    qed (use Cons.prems Data kept_final in auto)
  qed (use Cons.prems kept_final write_final in auto)
qed (auto simp: kept_final)

end

text \<open>An invariant that survives the start of TLS holds for the whole session.\<close>

locale tls_invariant = session_invariant +
  assumes upgraded: "kept s \<Longrightarrow> kept (into_tls s)"
    and fresh: "kept (session_new\<lparr>is_tls := tls\<rparr>)"
begin

lemma session: "final (snd (handle_session env tls0 tls_ok evs))"
proof -
  obtain w s where w: "write_bytes env SERVER_GREETING (session_new\<lparr>is_tls := tls0\<rparr>) = (w, s)" by force
  have s: "kept s" using write_kept [OF fresh, of SERVER_GREETING tls0] w by simp
  obtain r s1 evs1 where c1: "handle_conn env evs s = (r, s1, evs1)" by (cases "handle_conn env evs s")
  note s1 = conn [OF s c1]
  obtain r2 s2 evs2 where c2: "handle_conn env evs1 (into_tls s1) = (r2, s2, evs2)"
    by (cases "handle_conn env evs1 (into_tls s1)")
  show ?thesis
  proof (cases "r = Some True \<and> tls_ok")
    case True
    with conn [OF upgraded c2] s1 kept_final [OF s] w c1 c2 show ?thesis
      by (auto simp: handle_session_def split: option.split sum.split bool.split)
  next
    case False
    then have "snd (handle_session env tls0 tls_ok evs) \<in> {s, s1}"
      using w c1 by (auto simp: handle_session_def split: option.split sum.split bool.split)
    then show ?thesis using s1 kept_final [OF s] by auto
  qed
qed

end

text \<open>An invariant that keeps the parser within its bounds excludes panics.\<close>

locale panic_free = tls_invariant +
  assumes bounds: "kept s \<Longrightarrow> state_wf (receiver s)"
begin

lemma conn_returns: "kept s \<Longrightarrow> fst (handle_conn env evs s) \<noteq> None"
proof (induction evs arbitrary: s)
  case (Cons ev evs)
  show ?case
  proof (cases ev)
    case (Data bs)
    obtain x s1 where x: "ingest env bs s = (x, s1)" by force
    from ingest [OF Cons.prems x] bounds [OF Cons.prems] obtain y where "x = Some y" "y \<noteq> Close \<Longrightarrow> kept s1" by auto
    then show ?thesis using Cons.IH x Data by (cases "bs = []"; cases y) auto
  qed auto
qed simp

lemma session_returns: "fst (handle_session env tls0 tls_ok evs) \<noteq> None"
proof -
  obtain w s where w: "write_bytes env SERVER_GREETING (session_new\<lparr>is_tls := tls0\<rparr>) = (w, s)" by force
  have s: "kept s" using write_kept [OF fresh, of SERVER_GREETING tls0] w by simp
  obtain r s1 evs1 where c1: "handle_conn env evs s = (r, s1, evs1)" by (cases "handle_conn env evs s")
  obtain r2 s2 evs2 where c2: "handle_conn env evs1 (into_tls s1) = (r2, s2, evs2)"
    by (cases "handle_conn env evs1 (into_tls s1)")
  have "r \<noteq> None" using conn_returns [OF s, of evs] c1 by simp
  moreover have "r = Some True \<Longrightarrow> r2 \<noteq> None"
    using conn_returns [OF upgraded, of s1 evs1] conn [OF s c1] c2 by simp
  ultimately show ?thesis
    using w c1 c2 by (auto simp: handle_session_def split: option.split sum.split bool.split)
qed

end

subsection \<open>No panic\<close>

interpretation no_panic: panic_free env "\<lambda>s. state_wf (receiver s)" "\<lambda>_. True" for env
proof unfold_locales
  fix s :: pop3_session and r
  assume "state_wf (receiver s)"
  then show "case run_request env r s of (None, s') \<Rightarrow> False | (Some (Inr _), s') \<Rightarrow> state_wf (receiver s')
    | (Some (Inl e), s') \<Rightarrow> if must_disconnect e then True else state_wf (receiver s')"
    by (cases rule: run_request_cases [of s env r])
      (auto simp: calm_def quiet_def login_step_def split: prod.splits option.splits sum.splits)
qed (auto simp: log_effect_def into_tls_def session_new_def)

text \<open>
  C19: No POP3 session panics, whatever the client sends and the rest of the server answers: no
  \<open>unreachable!\<close> is reached, no \<open>unwrap\<close> fails, in the handlers and in the parser, and the
  parser does not write outside its buffer.
\<close>

theorem pop3_never_panics: "fst (handle_session env tls0 tls_ok evs) \<noteq> None"
  by (rule no_panic.session_returns)

subsection \<open>Failed logins\<close>

text \<open>A login that was refused because the credentials are wrong.\<close>

fun is_failure :: "effect \<Rightarrow> bool" where
  "is_failure (Tried _ k) \<longleftrightarrow> k = Some Kind_AuthFailed"
| "is_failure _ \<longleftrightarrow> False"

definition failures :: "pop3_session \<Rightarrow> nat" where
  "failures s = length (filter is_failure (history s))"

definition counted :: "pop3_env \<Rightarrow> pop3_session \<Rightarrow> bool" where
  "counted env s \<longleftrightarrow>
     failures s \<le> unat (max_auth_failures env) \<and>
     (case sess_state s of
        NotAuthenticated f _ \<Rightarrow> failures s = unat f \<and> f \<le> max_auth_failures env
      | Authenticated _ _ _ \<Rightarrow> True)"

definition bounded :: "pop3_env \<Rightarrow> pop3_session \<Rightarrow> bool" where
  "bounded env s \<longleftrightarrow> failures s \<le> unat (max_auth_failures env) + 1"

lemma failures_receiver [simp]: "failures (s\<lparr>receiver := st\<rparr>) = failures s"
  by (simp add: failures_def)

lemma counted_bounded: "counted env s \<Longrightarrow> bounded env s"
  by (simp add: counted_def bounded_def)

lemma failures_quiet: "quiet s s' \<Longrightarrow> failures s' = failures s"
proof -
  have "\<not> is_try e \<Longrightarrow> \<not> is_failure e" for e by (cases e) simp_all
  then have "list_all (\<lambda>e. \<not> is_try e) new \<Longrightarrow> filter is_failure new = []" for new
    by (induction new) auto
  then show "quiet s s' \<Longrightarrow> failures s' = failures s" by (auto simp: quiet_def failures_def)
qed

lemma counted_quiet: "quiet s s' \<Longrightarrow> counted env s \<Longrightarrow> counted env s'"
  using failures_quiet [of s s'] by (auto simp: quiet_def counted_def split: session_state.splits)

lemma failures_login:
  assumes "login_step env c s x s'" "counted env s"
  shows "case x of Inr _ \<Rightarrow> counted env s' | Inl e \<Rightarrow> if must_disconnect e then bounded env s' else counted env s'"
proof -
  from assms(1) obtain k new f u where st: "sess_state s = NotAuthenticated f u"
    and h: "history s' = history s @ Tried c k # new" "list_all (\<lambda>e. \<not> is_try e) new"
    and post: "if k \<noteq> Some Kind_AuthFailed then (\<exists>u'. sess_state s' = NotAuthenticated f u') \<or> (\<exists>mb fl t. sess_state s' = Authenticated mb fl t)
      else if f < max_auth_failures env then \<exists>u'. sess_state s' = NotAuthenticated (f + 1) u'
      else \<exists>e. x = Inl e \<and> must_disconnect e \<and> (\<exists>u'. sess_state s' = NotAuthenticated f u')"
    by (auto simp: login_step_def)
  have "\<not> is_try e \<Longrightarrow> \<not> is_failure e" for e by (cases e) simp_all
  then have "filter is_failure new = []" using h(2) by (induction new) auto
  then have n: "failures s' = failures s + (if k \<noteq> Some Kind_AuthFailed then 0 else 1)" using h(1) by (simp add: failures_def)
  have c: "failures s = unat f" "f \<le> max_auth_failures env" "failures s \<le> unat (max_auth_failures env)"
    using assms(2) st by (auto simp: counted_def)
  show ?thesis
  proof (cases "k \<noteq> Some Kind_AuthFailed \<or> f < max_auth_failures env")
    case True
    have suc: "unat (f + 1) = unat f + 1" if "f < max_auth_failures env"
      using that unsigned_less [of "max_auth_failures env", where 'a = nat]
      by (simp add: word_less_nat_alt unat_word_ariths)
    from True have "counted env s'"
      using post n c suc by (auto simp: counted_def word_less_nat_alt word_le_nat_alt split: if_splits)
    then show ?thesis by (auto simp: counted_bounded split: sum.split)
  next
    case False
    with post n c show ?thesis by (auto simp: bounded_def)
  qed
qed

interpretation login_bound: tls_invariant env "counted env" "bounded env" for env
proof unfold_locales
  fix s r
  assume c: "counted env s"
  show "case run_request env r s of (None, s') \<Rightarrow> False | (Some (Inr _), s') \<Rightarrow> counted env s'
    | (Some (Inl e), s') \<Rightarrow> if must_disconnect e then bounded env s' else counted env s'"
  proof (cases rule: run_request_cases [of s env r])
    case calm
    with counted_quiet [OF _ c] show ?thesis
      by (auto simp: calm_def counted_bounded split: prod.splits option.splits sum.splits)
  next
    case (login cr x)
    with failures_login [OF login(3) c] show ?thesis
      by (cases "run_request env r s") (auto split: sum.splits)
  qed
next
  fix e s assume "\<not> is_try e" "counted env s" then show "counted env (log_effect e s)"
    using counted_quiet [of s "log_effect e s" env] by simp
next
  fix e s assume "\<not> is_try e" "bounded env s" then show "bounded env (log_effect e s)"
    using failures_quiet [of s "log_effect e s"] by (simp add: bounded_def)
next
  fix s st assume "counted env s" then show "counted env (s\<lparr>receiver := st\<rparr>)"
    by (simp add: counted_def split: session_state.splits)
next
  fix s assume "counted env s" then show "bounded env (s\<lparr>receiver := Parser_Panic\<rparr>)"
    by (simp add: counted_def bounded_def)
qed (auto simp: counted_def bounded_def into_tls_def failures_def session_new_def split: session_state.splits)

text \<open>
  C20: In one session, encrypted midway or not, at most one more login is refused for wrong
  credentials than the settings allow: the refusal after the last allowed one closes the
  connection. Refusals of other kinds are not counted.
\<close>

theorem pop3_login_failures_bounded:
  "length (filter is_failure (history (snd (handle_session env tls0 tls_ok evs)))) \<le> unat (max_auth_failures env) + 1"
  using login_bound.session by (simp add: bounded_def failures_def)

text \<open>
  The other refusals are without limit: as long as the directory answers with an error that is
  neither a refusal of the credentials nor one that ends the session (an expired token, a second
  factor that is missing), a client can try credentials for ever.
\<close>

lemma uncounted_login:
  assumes "sess_state s = NotAuthenticated f u" "\<forall>h bs. write_works env h bs"
    and "base64_decode env p = Some m" "decode_sasl_challenge_oauth (jwt_email env) m = Some c"
    and "\<forall>h. authenticate env h c = Inl e" "err_kind e \<noteq> Kind_AuthFailed" "\<not> must_disconnect e"
  shows "run_request env (Inr (Auth OAuthBearer [p])) s = (Some (Inl e), log_effect (Tried c (Some (err_kind e))) s)"
    "write_err env e s = (True, log_effect (Wrote (error_serialize env e)) s)"
  using assms
  by (simp_all add: run_request_def validate_request_def Let_def handle_sasl_def handle_auth_def auth_failed_def and_then_def
      write_err_def write_bytes_def should_write_err_def must_disconnect_def)

theorem other_refusals_unbounded:
  assumes "sess_state s = NotAuthenticated f u" "\<forall>h bs. write_works env h bs"
    and "base64_decode env p = Some m" "decode_sasl_challenge_oauth (jwt_email env) m = Some c"
    and "\<forall>h. authenticate env h c = Inl e" "err_kind e \<noteq> Kind_AuthFailed" "\<not> must_disconnect e"
  shows "\<exists>s'. run_requests env (replicate n (Inr (Auth OAuthBearer [p]))) s = (Some Continue, s') \<and>
    sess_state s' = NotAuthenticated f u \<and> length (filter is_try (history s')) = length (filter is_try (history s)) + n"
  using assms(1)
proof (induction n arbitrary: s)
  case (Suc n)
  let ?s = "log_effect (Wrote (error_serialize env e)) (log_effect (Tried c (Some (err_kind e))) s)"
  have st: "sess_state ?s = NotAuthenticated f u" using Suc.prems by simp
  have "run_requests env (replicate (Suc n) (Inr (Auth OAuthBearer [p]))) s =
      run_requests env (replicate n (Inr (Auth OAuthBearer [p]))) ?s"
    using uncounted_login [OF Suc.prems assms(2-7)] uncounted_login(2) [OF _ assms(2-7), of "log_effect (Tried c (Some (err_kind e))) s"]
      Suc.prems by simp
  with Suc.IH [OF st] show ?case by (auto simp: log_effect_def)
qed simp

subsection \<open>Passwords in the clear\<close>

fun harmless :: "effect \<Rightarrow> bool" where
  "harmless (Tried c _) \<longleftrightarrow> (\<exists>u t. c = Bearer u t)"
| "harmless _ \<longleftrightarrow> True"

definition only_tokens :: "nat \<Rightarrow> pop3_session \<Rightarrow> bool" where
  "only_tokens n s \<longleftrightarrow> \<not> is_tls s \<and> list_all harmless (drop n (history s)) \<and> n \<le> length (history s)"

lemma not_try_harmless: "\<not> is_try e \<Longrightarrow> harmless e"
  by (cases e) simp_all

lemma only_tokens_quiet: "quiet s s' \<Longrightarrow> only_tokens n s \<Longrightarrow> only_tokens n s'"
  by (auto simp: quiet_def only_tokens_def list_all_iff not_try_harmless)

lemma only_tokens_login:
  "login_step env c s x s' \<Longrightarrow> protected env s c \<Longrightarrow> \<not> allow_plain_auth env \<Longrightarrow> only_tokens n s \<Longrightarrow> only_tokens n s'"
  by (auto simp: login_step_def only_tokens_def protected_def list_all_iff not_try_harmless)

lemma only_tokens_invariant:
  assumes "\<not> allow_plain_auth env"
  shows "session_invariant env (only_tokens n) (only_tokens n)"
proof unfold_locales
  fix s r
  assume t: "only_tokens n s"
  show "case run_request env r s of (None, s') \<Rightarrow> False | (Some (Inr _), s') \<Rightarrow> only_tokens n s'
    | (Some (Inl e), s') \<Rightarrow> if must_disconnect e then only_tokens n s' else only_tokens n s'"
  proof (cases rule: run_request_cases [of s env r])
    case calm
    with only_tokens_quiet [OF _ t] show ?thesis
      by (auto simp: calm_def split: prod.splits option.splits sum.splits)
  next
    case (login cr x)
    with only_tokens_login [OF login(3) login(1) assms t] show ?thesis
      by (cases "run_request env r s") (auto split: sum.splits)
  qed
next
  fix s st assume "only_tokens n s" then show "only_tokens n (s\<lparr>receiver := st\<rparr>)"
    by (simp add: only_tokens_def)
next
  fix s assume "only_tokens n s" then show "only_tokens n (s\<lparr>receiver := Parser_Panic\<rparr>)"
    by (simp add: only_tokens_def)
qed (use only_tokens_quiet quiet_log in blast)+

text \<open>
  C21: Where passwords are not allowed in the clear, none is tried on a connection that is
  not encrypted, whatever the client sends: only bearer tokens reach the directory.
\<close>

theorem pop3_no_clear_passwords:
  assumes "\<not> allow_plain_auth env" "\<not> is_tls s" "handle_conn env evs s = (r, s', evs')"
    and "Tried c ok \<in> set (drop (length (history s)) (history s'))"
  shows "\<exists>u t. c = Bearer u t"
proof -
  have "only_tokens (length (history s)) s" using assms(2) by (simp add: only_tokens_def)
  from session_invariant.conn [OF only_tokens_invariant [OF assms(1)] this assms(3)]
  show ?thesis using assms(4) by (auto simp: only_tokens_def list_all_iff)
qed

section \<open>An example\<close>

definition sample_pop3_env :: pop3_env where
  "sample_pop3_env =
     \<lparr> allow_plain_auth = False, max_auth_failures = 3, rate_requests = True,
       base64_decode = (\<lambda>_. Some (bearer_message ''a@b'' [] ''t'')), jwt_email = (\<lambda>_. None), from_utf8_lossy = id,
       permission_name = (\<lambda>_. []), event_message = (\<lambda>_. []), write_works = (\<lambda>_ _. True),
       authenticate = (\<lambda>_ _. Inl (err_new Kind_AuthFailed)), imap_limiter = (\<lambda>_ _. Disabled),
       is_rate_allowed = (\<lambda>_ _. Inr True), scanner_banned = (\<lambda>_ _. False),
       get_cached_messages = (\<lambda>_ _. Inr \<lparr> emails = [], inbox_uid_validity = None \<rparr>),
       get_metadata = (\<lambda>_ _ _. Inr None), get_blob = (\<lambda>_ _. Inr None),
       emails_delete = (\<lambda>_ _ _ _. Inr (False, {})), commit_batch = (\<lambda>_. Inr ()) \<rparr>"

lemma sample_decode: "decode_sasl_challenge_oauth (\<lambda>_. None) (bearer_message ''a@b'' [] ''t'') = Some (Bearer (Some ''a@b'') ''t'')"
  by code_simp

lemma sample_auth:
  "pop3_parse Init (''AUTH OAUTHBEARER x'' @ crlf) = (Inr (Auth OAuthBearer [''x'']), Init, [])"
proof -
  have "utf8_valid ''x''" by code_simp
  then have "printable (Auth OAuthBearer [''x''])" by (simp add: printable_arg_def arg_char_def MAX_ARG_LEN_def)
  from parse_print [OF this, of "[]"] show ?thesis by (simp add: mechanism_name_def)
qed

lemma sample_auth_requests:
  "ingest_loop na ban 0 Init (''AUTH OAUTHBEARER x'' @ crlf) [] = Some ([Inr (Auth OAuthBearer [''x''])], Init)"
  by (subst ingest_loop.simps, simp only: sample_auth prod.case sum.case,
      subst ingest_loop.simps, simp add: group_request_def)

lemma sample_login:
  "\<exists>s'. handle_conn sample_pop3_env [Data (''AUTH OAUTHBEARER x'' @ crlf)] session_new = (Some False, s', []) \<and>
     history s' = [Tried (Bearer (Some ''a@b'') ''t'') (Some Kind_AuthFailed), Wrote (''-ERR '' @ crlf)]"
proof -
  have "ingest sample_pop3_env (''AUTH OAUTHBEARER x'' @ crlf) session_new =
      run_requests sample_pop3_env [Inr (Auth OAuthBearer [''x''])] session_new"
    unfolding ingest_def by (simp add: session_new_def sample_auth_requests del: append.simps append_Cons)
  then show ?thesis
    using sample_decode
    by (simp add: run_request_def validate_request_def session_new_def and_then_def handle_sasl_def handle_auth_def auth_failed_def
        sample_pop3_env_def err_new_def log_effect_def write_err_def should_write_err_def must_disconnect_def write_bytes_def
        error_serialize_def word_less_nat_alt Let_def)
qed

theorem pop3_no_clear_passwords_witness:
  "\<exists>s' c ok. handle_conn sample_pop3_env [Data (''AUTH OAUTHBEARER x'' @ crlf)] session_new = (Some False, s', []) \<and>
     Tried c ok \<in> set (history s') \<and> (\<exists>u t. c = Bearer u t)"
proof -
  obtain s' where s': "handle_conn sample_pop3_env [Data (''AUTH OAUTHBEARER x'' @ crlf)] session_new = (Some False, s', [])"
    "history s' = [Tried (Bearer (Some ''a@b'') ''t'') (Some Kind_AuthFailed), Wrote (''-ERR '' @ crlf)]"
    using sample_login by blast
  have "\<exists>u t. Bearer (Some ''a@b'') ''t'' = Bearer u t"
    by (rule pop3_no_clear_passwords [OF _ _ s'(1), where ok = "Some Kind_AuthFailed"]) (simp_all add: s'(2) sample_pop3_env_def session_new_def)
  with s' show ?thesis by auto
qed

end
