(* ===== verification/Pop3Maildrop.thy ===== *)
theory Pop3Maildrop
  imports Pop3Behaviour
begin

text \<open>
  The maildrop of a POP3 session against its abstract specification: a set of marked messages that \<open>DELE\<close> extends,
  \<open>RSET\<close> empties and \<open>QUIT\<close> deletes. The grouping of deletions, and what a session keeps when it starts TLS.
\<close>

section \<open>The specification\<close>

definition marks :: "mailbox_message list \<Rightarrow> nat set" where
  "marks ms = {i. i < length ms \<and> deleted (ms ! i)}"

fun mark_step :: "nat \<Rightarrow> reason + pop3_command \<Rightarrow> nat set \<Rightarrow> nat set" where
  "mark_step n (Inr (Dele msg)) M = (if unat msg - 1 < n then insert (unat msg - 1) M else M)"
| "mark_step n (Inr Rset) M = {}"
| "mark_step n _ M = M"

definition marks_after :: "nat \<Rightarrow> (reason + pop3_command) list \<Rightarrow> nat set \<Rightarrow> nat set" where
  "marks_after n rs M = fold (mark_step n) rs M"

text \<open>The sets of marks at each \<open>QUIT\<close> of a list of requests, where there are marks.\<close>

fun quits :: "nat \<Rightarrow> (reason + pop3_command) list \<Rightarrow> nat set \<Rightarrow> nat set list" where
  "quits n [] M = []"
| "quits n (r # rs) M = (if r = Inr Quit \<and> M \<noteq> {} then [M] else []) @ quits n rs (mark_step n r M)"

definition ids_of :: "mailbox \<Rightarrow> nat set \<Rightarrow> u32 set" where
  "ids_of mb M = (\<lambda>i. msg_id (messages mb ! i)) ` M"

definition same_messages :: "mailbox \<Rightarrow> mailbox \<Rightarrow> bool" where
  "same_messages mb mb' \<longleftrightarrow>
     mb' = mb\<lparr>messages := messages mb'\<rparr> \<and>
     map (\<lambda>m. m\<lparr>deleted := False\<rparr>) (messages mb') = map (\<lambda>m. m\<lparr>deleted := False\<rparr>) (messages mb)"

lemma marks_after_simps [simp]:
  "marks_after n [] M = M" "marks_after n (r # rs) M = marks_after n rs (mark_step n r M)"
  "marks_after n (rs @ qs) M = marks_after n qs (marks_after n rs M)"
  by (simp_all add: marks_after_def)

lemma quits_append: "quits n (qs @ rs) M = quits n qs M @ quits n rs (marks_after n qs M)"
  by (induction qs arbitrary: M) simp_all

lemma quits_ungroup: "quits n (ungroup r) M = (if r = Inr Quit \<and> M \<noteq> {} then [M] else [])"
proof -
  have "quits n (map (\<lambda>msg. Inr (Dele msg)) msgs) M = []" for msgs
    by (induction msgs arbitrary: M) simp_all
  then show ?thesis by (cases r rule: ungroup.cases) simp_all
qed

lemma same_messages_refl [simp]: "same_messages mb mb"
  by (simp add: same_messages_def)

lemma same_messages_trans: "same_messages a b \<Longrightarrow> same_messages b c \<Longrightarrow> same_messages a c"
  unfolding same_messages_def by (metis mailbox.update_convs(1) mailbox.surjective)

lemma same_messages_nth:
  assumes "same_messages a b"
  shows "length (messages b) = length (messages a)" "mailbox_account_id b = mailbox_account_id a"
    "i < length (messages a) \<Longrightarrow> msg_id (messages b ! i) = msg_id (messages a ! i)"
proof -
  have eq: "map (\<lambda>m. m\<lparr>deleted := False\<rparr>) (messages b) = map (\<lambda>m. m\<lparr>deleted := False\<rparr>) (messages a)"
    using assms by (simp add: same_messages_def)
  from arg_cong [OF eq, of length] show len: "length (messages b) = length (messages a)" by simp
  show "mailbox_account_id b = mailbox_account_id a"
    using assms by (metis same_messages_def mailbox.simps(2) mailbox.ext_inject mailbox.surjective mailbox.update_convs(1))
  show "msg_id (messages b ! i) = msg_id (messages a ! i)" if "i < length (messages a)"
    using arg_cong [OF eq, of "\<lambda>xs. msg_id (xs ! i)"] that len by simp
qed

lemma marked_ids: "marked mb = ids_of mb (marks (messages mb))"
  by (auto simp: marked_def ids_of_def marks_def in_set_conv_nth filter_in_nths image_iff)

lemma ids_of_same: "same_messages a b \<Longrightarrow> M \<subseteq> {..<length (messages a)} \<Longrightarrow> ids_of b M = ids_of a M"
  unfolding ids_of_def using same_messages_nth(3) by (intro image_cong) auto

section \<open>Deletions\<close>

lemma dele_one_marks:
  assumes "dele_one msg ms = (ms', r)"
  shows "marks ms' = mark_step (length ms) (Inr (Dele msg)) (marks ms)" "length ms' = length ms"
    "map (\<lambda>m. m\<lparr>deleted := False\<rparr>) ms' = map (\<lambda>m. m\<lparr>deleted := False\<rparr>) ms"
  using assms
  by (auto simp: dele_one_def Let_def marks_def nth_list_update map_update split: if_splits intro!: list_update_same_conv [THEN iffD2])

lemma dele_loop_marks:
  assumes "dele_loop msgs ms = (ms', r)"
  shows "marks ms' = marks_after (length ms) (map (\<lambda>m. Inr (Dele m)) msgs) (marks ms) \<and> length ms' = length ms \<and>
    map (\<lambda>m. m\<lparr>deleted := False\<rparr>) ms' = map (\<lambda>m. m\<lparr>deleted := False\<rparr>) ms"
  using assms
proof (induction msgs arbitrary: ms ms' r)
  case (Cons msg msgs)
  obtain ms1 r1 where one: "dele_one msg ms = (ms1, r1)" by force
  obtain ms2 r2 where rest: "dele_loop msgs ms1 = (ms2, r2)" by force
  from Cons.IH [OF rest] dele_one_marks [OF one] Cons.prems one rest show ?case by simp
qed simp

lemma marks_undeleted: "marks (map (\<lambda>m. m\<lparr>deleted := False\<rparr>) ms) = {}"
  by (auto simp: marks_def)

section \<open>A request in the authenticated state\<close>

fun is_deletion :: "effect \<Rightarrow> bool" where
  "is_deletion (DeletedEmails _ _) \<longleftrightarrow> True"
| "is_deletion (DeletionFailed _ _) \<longleftrightarrow> True"
| "is_deletion _ \<longleftrightarrow> False"

text \<open>The deletions a session asked for, whether they failed or not.\<close>

fun attempts :: "effect list \<Rightarrow> (u32 \<times> u32 set) list" where
  "attempts [] = []"
| "attempts (DeletedEmails a ids # es) = (a, ids) # attempts es"
| "attempts (DeletionFailed a ids # es) = (a, ids) # attempts es"
| "attempts (_ # es) = attempts es"

lemma attempts_append [simp]: "attempts (xs @ ys) = attempts xs @ attempts ys"
  by (induction xs rule: attempts.induct) simp_all

lemma attempts_none: "list_all (\<lambda>e. \<not> is_deletion e) es \<Longrightarrow> attempts es = []"
  by (induction es rule: attempts.induct) simp_all

text \<open>The limiter of requests may admit a request or not, but it answers; then a request that is not admitted ends the session.\<close>

definition limiter_answers :: "pop3_env \<Rightarrow> bool" where
  "limiter_answers env \<longleftrightarrow> (rate_requests env \<longrightarrow> (\<forall>h a. \<exists>b. is_rate_allowed env h a = Inr b))"

definition maildrop_step ::
  "pop3_env \<Rightarrow> reason + pop3_command \<Rightarrow> mailbox \<Rightarrow> bool \<Rightarrow> access_token \<Rightarrow> pop3_session \<Rightarrow>
     'a outcome \<times> pop3_session \<Rightarrow> bool" where
  "maildrop_step env r mb fl t s x \<longleftrightarrow>
     (\<exists>mb' new. sess_state (snd x) = Authenticated mb' fl t \<and> same_messages mb mb' \<and> history (snd x) = history s @ new \<and>
        attempts new = (if r = Inr Quit \<and> marks (messages mb) \<noteq> {} then [(mailbox_account_id mb, marked mb)] else []) \<and>
        (marks (messages mb') = marks_after (length (messages mb)) (ungroup r) (marks (messages mb)) \<or>
         (\<exists>e. fst x = Some (Inl e) \<and> must_disconnect e) \<and> marks (messages mb') = marks (messages mb)))"

lemma maildrop_same:
  assumes "sess_state s' = Authenticated mb fl t" "history s' = history s @ new" "list_all (\<lambda>e. \<not> is_deletion e) new"
    and "marks_after (length (messages mb)) (ungroup r) (marks (messages mb)) = marks (messages mb)"
    and "r \<noteq> Inr Quit \<or> marks (messages mb) = {}"
  shows "maildrop_step env r mb fl t s (x, s')"
  unfolding maildrop_step_def using assms by (intro exI [of _ mb] exI [of _ new]) (auto simp: attempts_none)

text \<open>Operations that leave the state as it is and delete nothing.\<close>

definition still :: "pop3_session \<Rightarrow> pop3_session \<Rightarrow> bool" where
  "still s s' \<longleftrightarrow> sess_state s' = sess_state s \<and> (\<exists>new. history s' = history s @ new \<and> list_all (\<lambda>e. \<not> is_deletion e) new)"

lemma still_refl [simp]: "still s s"
  by (simp add: still_def)

lemma still_trans: "still s s' \<Longrightarrow> still s' s'' \<Longrightarrow> still s s''"
  by (auto simp: still_def)

lemma still_log: "still s s' \<Longrightarrow> \<not> is_deletion e \<Longrightarrow> still s (log_effect e s')"
  by (auto simp: still_def log_effect_def)

lemma still_write [simp]: "still s s' \<Longrightarrow> still s (snd (write_bytes env bs s'))" "still s s' \<Longrightarrow> still s (snd (write_ok env m s'))"
  by (simp_all add: write_ok_def write_bytes_def still_log)

lemma still_write_err: "still s (snd (write_err env e s))"
  using still_write(1) [of s s env "error_serialize env e"]
  by (auto simp: write_err_def simp del: still_write split: prod.splits option.splits sum.splits)

lemma still_with_mailbox: "(\<And>mb. still s (snd (f mb s))) \<Longrightarrow> still s (snd (with_mailbox env p f s))"
  by (auto simp: with_mailbox_def split: session_state.split option.split)

lemma still_handlers:
  "still s (snd (handle_fetch env msg lines s))" "still s (snd (handle_list env n s))" "still s (snd (handle_uidl env n s))"
  "still s (snd (handle_stat env s))" "still s (snd (handle_capa env s))" "still s (snd (handle_stls env s))"
  "still s (snd (handle_utf8 env s))"
  unfolding handle_fetch_def handle_list_def handle_uidl_def handle_stat_def handle_capa_def handle_stls_def handle_utf8_def
  by ((rule still_with_mailbox)?; auto simp: Let_def still_log split: option.split sum.split)+

lemma maildrop_still:
  "still s s' \<Longrightarrow> sess_state s = Authenticated mb fl t \<Longrightarrow>
   marks_after (length (messages mb)) (ungroup r) (marks (messages mb)) = marks (messages mb) \<Longrightarrow>
   r \<noteq> Inr Quit \<or> marks (messages mb) = {} \<Longrightarrow> maildrop_step env r mb fl t s (x, s')"
  by (auto simp: still_def intro: maildrop_same)

lemma maildrop_calm:
  "sess_state s = Authenticated mb fl t \<Longrightarrow> still s (snd x) \<Longrightarrow>
   marks_after (length (messages mb)) (ungroup r) (marks (messages mb)) = marks (messages mb) \<Longrightarrow>
   r \<noteq> Inr Quit \<or> marks (messages mb) = {} \<Longrightarrow> maildrop_step env r mb fl t s x"
  by (cases x) (simp add: maildrop_still)

lemma maildrop_disconnect:
  "sess_state s = Authenticated mb fl t \<Longrightarrow> still s s' \<Longrightarrow> must_disconnect e \<Longrightarrow> r \<noteq> Inr Quit \<Longrightarrow>
   maildrop_step env r mb fl t s (Some (Inl e), s')"
  unfolding maildrop_step_def still_def by (auto simp: attempts_none)

lemma maildrop_later:
  assumes "still s s1" "maildrop_step env r mb fl t s1 x"
  shows "maildrop_step env r mb fl t s x"
proof -
  from assms(1) obtain new0 where h: "history s1 = history s @ new0" "attempts new0 = []"
    by (auto simp: still_def attempts_none)
  from assms(2) obtain mb' new where "sess_state (snd x) = Authenticated mb' fl t" "same_messages mb mb'" "history (snd x) = history s1 @ new"
    "attempts new = (if r = Inr Quit \<and> marks (messages mb) \<noteq> {} then [(mailbox_account_id mb, marked mb)] else [])"
    "marks (messages mb') = marks_after (length (messages mb)) (ungroup r) (marks (messages mb)) \<or>
      (\<exists>e. fst x = Some (Inl e) \<and> must_disconnect e) \<and> marks (messages mb') = marks (messages mb)"
    unfolding maildrop_step_def by blast
  with h show ?thesis
    unfolding maildrop_step_def by (intro exI [of _ mb'] exI [of _ "new0 @ new"]) simp
qed

lemma maildrop_map: "maildrop_step env r mb fl t s x \<Longrightarrow> maildrop_step env r mb fl t s (and_then q x)"
proof -
  have "fst (and_then q x) = Some (Inl e) \<longleftrightarrow> fst x = Some (Inl e)" for e :: trc_error
    by (cases "fst x") (auto simp: and_then_def map_sum_def split: sum.split)
  moreover have "snd (and_then q x) = snd x" by (simp add: and_then_def)
  ultimately show "maildrop_step env r mb fl t s x \<Longrightarrow> maildrop_step env r mb fl t s (and_then q x)"
    by (simp only: maildrop_step_def)
qed

lemma set_mailbox_state: "sess_state s = Authenticated mb fl t \<Longrightarrow> sess_state (set_mailbox mb' s) = Authenticated mb' fl t"
  "history (set_mailbox mb' s) = history s"
  by (simp_all add: set_mailbox_def split: session_state.split)

lemma maildrop_write:
  assumes "sess_state s' = Authenticated mb' fl t" "history s' = history s" "same_messages mb mb'"
    and "marks (messages mb') = marks_after (length (messages mb)) (ungroup r) (marks (messages mb))" "r \<noteq> Inr Quit"
  shows "maildrop_step env r mb fl t s (write_bytes env bs s')"
  unfolding maildrop_step_def using assms
  by (intro exI [of _ mb'] exI [of _ "[if write_works env (history s') bs then Wrote bs else WriteFailed bs]"])
    (auto simp: write_bytes_def log_effect_def)

lemma unauthorized_disconnects: "must_disconnect (unauthorized env p)"
  by (simp add: unauthorized_def err_text_def must_disconnect_def)

lemma maildrop_dele:
  assumes "sess_state s = Authenticated mb fl t" "ungroup r = map (\<lambda>m. Inr (Dele m)) msgs" "r \<noteq> Inr Quit"
  shows "maildrop_step env r mb fl t s (handle_dele env msgs s)"
proof (cases "has_permission t Pop3Dele")
  case True
  obtain ms resp where d: "dele_loop msgs (messages mb) = (ms, resp)" by force
  with assms(1) True have "handle_dele env msgs s = write_bytes env resp (set_mailbox (mb\<lparr>messages := ms\<rparr>) s)"
    by (simp add: handle_dele_def with_mailbox_def)
  moreover have "maildrop_step env r mb fl t s (write_bytes env resp (set_mailbox (mb\<lparr>messages := ms\<rparr>) s))"
    using dele_loop_marks [OF d] assms
    by (intro maildrop_write [where mb' = "mb\<lparr>messages := ms\<rparr>"]) (simp_all add: set_mailbox_state same_messages_def)
  ultimately show ?thesis by simp
next
  case False
  then show ?thesis
    using assms by (simp add: handle_dele_def with_mailbox_def maildrop_disconnect unauthorized_disconnects)
qed

lemma maildrop_rset:
  assumes "sess_state s = Authenticated mb fl t"
  shows "maildrop_step env (Inr Rset) mb fl t s (handle_rset env s)"
proof -
  let ?mb = "mb\<lparr>messages := map (\<lambda>m. m\<lparr>deleted := False\<rparr>) (messages mb)\<rparr>"
  have "maildrop_step env (Inr Rset) mb fl t s (write_bytes env bs (set_mailbox ?mb s))" for bs
    using assms by (intro maildrop_write [where mb' = ?mb]) (simp_all add: set_mailbox_state same_messages_def marks_undeleted comp_def)
  with assms show ?thesis by (simp add: handle_rset_def with_mailbox_def write_ok_def)
qed

lemma quit_still:
  assumes "sess_state s = Authenticated mb fl t"
  shows "if marked mb = {} then still s (snd (handle_quit env s))
    else \<exists>e. still (log_effect e s) (snd (handle_quit env s)) \<and>
      e = (if isl (emails_delete env (history s) (mailbox_account_id mb) (tenant_id t) (marked mb))
           then DeletionFailed (mailbox_account_id mb) (marked mb) else DeletedEmails (mailbox_account_id mb) (marked mb))"
proof (cases "emails_delete env (history s) (mailbox_account_id mb) (tenant_id t) (marked mb)")
  case (Inl e)
  with assms show ?thesis by (simp add: handle_quit_def)
next
  case (Inr x)
  obtain b nd where "x = (b, nd)" by force
  with Inr assms show ?thesis
    by (cases b) (simp_all add: handle_quit_def commit_deletion_def still_log split: sum.split)
qed

lemma maildrop_quit:
  assumes st: "sess_state s = Authenticated mb fl t"
  shows "maildrop_step env (Inr Quit) mb fl t s (handle_quit env s)"
proof (cases "marked mb = {}")
  case True
  with quit_still [OF st, of env] have "still s (snd (handle_quit env s))" by simp
  moreover have "marks (messages mb) = {}" using True by (simp add: marked_ids ids_of_def)
  ultimately show ?thesis by (intro maildrop_calm [OF st]) simp_all
next
  case False
  then obtain e where e: "still (log_effect e s) (snd (handle_quit env s))"
    "e \<in> {DeletionFailed (mailbox_account_id mb) (marked mb), DeletedEmails (mailbox_account_id mb) (marked mb)}"
    using quit_still [OF st, of env] by auto
  have "marks (messages mb) \<noteq> {}" using False by (auto simp: marked_ids ids_of_def)
  with st e show ?thesis
    unfolding maildrop_step_def still_def by (intro exI [of _ mb]) (auto simp: log_effect_def attempts_none)
qed

lemma validate_limited:
  assumes st: "sess_state s = Authenticated mb fl t" and lim: "limiter_answers env" and v: "validate_request env c s = (x, s1)"
  shows "still s s1" "sess_state s1 = sess_state s"
    "x = Inl e \<Longrightarrow> must_disconnect e \<and> c \<noteq> Quit \<or> ungroup (Inr c) = [Inr c] \<and> (\<forall>n M. mark_step n (Inr c) M = M) \<and> c \<noteq> Quit"
proof -
  have s1: "s1 = s \<or> s1 = log_effect AskedRate s" by (rule validate_quiet [OF v])
  then show "still s s1" "sess_state s1 = sess_state s" by (auto simp: still_log)
  have answer: "\<exists>b. is_rate_allowed env (history s) (mailbox_account_id mb) = Inr b" if "rate_requests env"
    using lim that by (simp add: limiter_answers_def)
  show "must_disconnect e \<and> c \<noteq> Quit \<or> ungroup (Inr c) = [Inr c] \<and> (\<forall>n M. mark_step n (Inr c) M = M) \<and> c \<noteq> Quit" if "x = Inl e"
    using v that st answer
    by (cases c) (auto simp: validate_request_def Let_def err_new_def must_disconnect_def split: if_splits bool.splits)
qed

lemma run_command_maildrop:
  assumes st: "sess_state s = Authenticated mb fl t" and v: "validate_request env c s0 = (Inr (), s)" "sess_state s0 = sess_state s"
  shows "maildrop_step env (Inr c) mb fl t s (run_command env c s)"
proof (cases c)
  case (Dele msg)
  with st show ?thesis by (simp add: maildrop_map maildrop_dele)
next
  case (DeleMany msgs)
  with st show ?thesis by (simp add: maildrop_map maildrop_dele)
next
  case Rset
  with st show ?thesis by (simp add: maildrop_map maildrop_rset)
next
  case Quit
  with st show ?thesis by (simp add: maildrop_map maildrop_quit)
next
  case (User name)
  with assms show ?thesis by (simp add: validate_request_def Let_def)
next
  case (Pass str)
  with assms show ?thesis by (simp add: validate_request_def Let_def)
next
  case (Auth mech params)
  with assms show ?thesis by (simp add: validate_request_def Let_def split: if_splits)
qed (use st in \<open>auto intro!: maildrop_map maildrop_calm [OF st] still_handlers\<close>)

lemma run_request_maildrop:
  assumes st: "sess_state s = Authenticated mb fl t" and lim: "limiter_answers env"
  shows "maildrop_step env r mb fl t s (run_request env r s)"
proof (cases r)
  case (Inl reason)
  then show ?thesis by (simp add: run_request_def maildrop_still [OF still_refl st])
next
  case (Inr c)
  obtain x s1 where v: "validate_request env c s = (x, s1)" by force
  note s1 = validate_limited [OF st lim v]
  show ?thesis
  proof (cases x)
    case (Inl e)
    then have run: "run_request env r s = (Some (Inl e), s1)" using Inr v by (simp add: run_request_def)
    from s1(3) [OF Inl] show ?thesis
      unfolding run using Inr s1(1) st by (auto intro: maildrop_disconnect maildrop_still)
  next
    case x: (Inr _)
    then have v: "validate_request env c s = (Inr (), s1)" using v by simp
    have "sess_state s1 = Authenticated mb fl t" using s1(2) st by simp
    from maildrop_later [OF s1(1) run_command_maildrop [OF this v]] s1(2) Inr v show ?thesis
      by (simp add: run_request_def)
  qed
qed

section \<open>A buffer in the authenticated state\<close>

lemma marks_bound: "marks ms \<subseteq> {..<length ms}"
  by (auto simp: marks_def)

lemma marks_after_bound: "M \<subseteq> {..<n} \<Longrightarrow> marks_after n rs M \<subseteq> {..<n}"
proof (induction rs arbitrary: M)
  case (Cons r rs)
  have "mark_step n r M \<subseteq> {..<n}" using Cons.prems by (cases "(n, r, M)" rule: mark_step.cases) auto
  with Cons.IH show ?case by simp
qed simp

lemma quits_bound: "M \<subseteq> {..<n} \<Longrightarrow> N \<in> set (quits n rs M) \<Longrightarrow> N \<subseteq> {..<n}"
proof (induction rs arbitrary: M)
  case (Cons r rs)
  have "mark_step n r M \<subseteq> {..<n}" using marks_after_bound [OF Cons.prems(1), of "[r]"] by simp
  with Cons show ?case by (auto split: if_splits)
qed simp

text \<open>The deletions asked for are those of the specification.\<close>

definition asked :: "mailbox \<Rightarrow> (reason + pop3_command) list \<Rightarrow> (u32 \<times> u32 set) list" where
  "asked mb rs = map (\<lambda>M. (mailbox_account_id mb, ids_of mb M)) (quits (length (messages mb)) rs (marks (messages mb)))"

definition buffer_step :: "mailbox \<Rightarrow> bool \<Rightarrow> access_token \<Rightarrow> pop3_session \<Rightarrow> (reason + pop3_command) list \<Rightarrow>
    session_result option \<Rightarrow> pop3_session \<Rightarrow> bool" where
  "buffer_step mb fl t s rs r s' \<longleftrightarrow>
     (\<exists>k mb' new. k \<le> length rs \<and> (r = Some Continue \<longrightarrow> k = length rs) \<and>
        sess_state s' = Authenticated mb' fl t \<and> same_messages mb mb' \<and>
        marks (messages mb') = marks_after (length (messages mb)) (take k rs) (marks (messages mb)) \<and>
        history s' = history s @ new \<and> attempts new = asked mb (take k rs))"

text \<open>What is asked after the first requests, counted from the whole list.\<close>

lemma asked_append:
  assumes same: "same_messages mb mb1" and m: "marks (messages mb1) = marks_after (length (messages mb)) qs (marks (messages mb))"
  shows "asked mb (qs @ rs) = asked mb qs @ asked mb1 rs"
proof -
  have len: "length (messages mb1) = length (messages mb)" by (rule same_messages_nth(1) [OF same])
  have "ids_of mb M = ids_of mb1 M" if "M \<in> set (quits (length (messages mb)) rs (marks (messages mb1)))" for M
    using ids_of_same [OF same] quits_bound [OF _ that] marks_bound [of "messages mb1"] len by simp
  then show ?thesis
    using len m same_messages_nth(2) [OF same] by (simp add: asked_def quits_append)
qed

lemma asked_ungroup: "asked mb (ungroup r) = (if r = Inr Quit \<and> marks (messages mb) \<noteq> {} then [(mailbox_account_id mb, marked mb)] else [])"
  by (simp add: asked_def quits_ungroup marked_ids)

lemma buffer_step_last:
  assumes "sess_state s' = Authenticated mb' fl t" "same_messages mb mb'" "history s' = history s @ new"
    and "marks (messages mb') = marks_after (length (messages mb)) qs (marks (messages mb))"
    and "attempts new = asked mb qs" "r \<noteq> Some Continue"
  shows "buffer_step mb fl t s (qs @ rs) r s'"
  unfolding buffer_step_def using assms
  by (intro exI [of _ "length qs"] exI [of _ mb'] exI [of _ new]) auto

lemma buffer_step_more:
  assumes "same_messages mb mb1" "marks (messages mb1) = marks_after (length (messages mb)) qs (marks (messages mb))"
    and "history s1 = history s @ new1" "attempts new1 = asked mb qs" "buffer_step mb1 fl t s1 rs r s'"
  shows "buffer_step mb fl t s (qs @ rs) r s'"
proof -
  from assms(5) obtain k mb' new where k: "k \<le> length rs" "r = Some Continue \<longrightarrow> k = length rs"
    and st: "sess_state s' = Authenticated mb' fl t" "same_messages mb1 mb'"
    and m: "marks (messages mb') = marks_after (length (messages mb1)) (take k rs) (marks (messages mb1))"
    and h: "history s' = history s1 @ new" "attempts new = asked mb1 (take k rs)"
    by (auto simp: buffer_step_def)
  with assms(1-4) same_messages_nth(1) [OF assms(1)] same_messages_trans [OF assms(1) st(2)] show ?thesis
    unfolding buffer_step_def
    by (intro exI [of _ "length qs + k"] exI [of _ mb'] exI [of _ "new1 @ new"]) (auto simp: asked_append)
qed

lemma buffer_step_none:
  assumes "sess_state s' = Authenticated mb' fl t" "same_messages mb mb'" "history s' = history s @ new"
    and "marks (messages mb') = marks (messages mb)" "attempts new = []" "r \<noteq> Some Continue"
  shows "buffer_step mb fl t s rs r s'"
  unfolding buffer_step_def using assms
  by (intro exI [of _ 0] exI [of _ mb'] exI [of _ new]) (auto simp: asked_def)

lemma run_requests_buffer:
  assumes "limiter_answers env"
  shows "sess_state s = Authenticated mb fl t \<Longrightarrow> run_requests env rs s = (r, s') \<Longrightarrow> buffer_step mb fl t s (ungroup_all rs) r s'"
proof (induction rs arbitrary: s mb)
  case Nil
  then show ?case by (auto simp: buffer_step_def ungroup_all_def asked_def)
next
  case (Cons q rs)
  obtain x s1 where x: "run_request env q s = (x, s1)" by force
  let ?n = "length (messages mb)" and ?qs = "ungroup q"
  have all: "ungroup_all (q # rs) = ?qs @ ungroup_all rs" by (simp add: ungroup_all_def)
  from run_request_maildrop [OF Cons.prems(1) assms, of q] x obtain mb1 new1 where
    st: "sess_state s1 = Authenticated mb1 fl t" "same_messages mb mb1" "history s1 = history s @ new1"
    and del: "attempts new1 = asked mb ?qs"
    and m: "marks (messages mb1) = marks_after ?n ?qs (marks (messages mb)) \<or>
      (\<exists>e. x = Some (Inl e) \<and> must_disconnect e) \<and> marks (messages mb1) = marks (messages mb)"
    by (auto simp: maildrop_step_def asked_ungroup)
  note d1 = del
  have werr: "\<exists>new2. sess_state s2 = Authenticated mb1 fl t \<and> history s2 = history s @ new1 @ new2 \<and> list_all (\<lambda>e. \<not> is_deletion e) new2"
    if "write_err env e s1 = (go, s2)" for e go s2
    using still_write_err [of s1 env e] that st by (auto simp: still_def)
  show ?case
  proof (cases "marks (messages mb1) = marks_after ?n ?qs (marks (messages mb))")
    case True
    show ?thesis
    proof (cases "\<exists>e. x = Some (Inl e)")
      case False
      have stop: "r \<noteq> Some Continue \<Longrightarrow> s' = s1 \<Longrightarrow> buffer_step mb fl t s (?qs @ ungroup_all rs) r s'"
        using buffer_step_last [OF st(1,2,3) True d1] by simp
      consider "x = None" | res where "x = Some (Inr res)" using False by (metis not_None_eq sum.exhaust)
      then show ?thesis
      proof cases
        case 2
        show ?thesis
        proof (cases res)
          case Continue
          with 2 x Cons.prems(2) have "run_requests env rs s1 = (r, s')" by simp
          from buffer_step_more [OF st(2) True st(3) d1 Cons.IH [OF st(1) this]] show ?thesis by (simp add: all)
        qed (use 2 x Cons.prems(2) stop in \<open>auto simp: all\<close>)
      qed (use x Cons.prems(2) stop in \<open>auto simp: all\<close>)
    next
      case err: True
      then obtain e where e: "x = Some (Inl e)" by auto
      obtain go s2 where w: "write_err env e s1 = (go, s2)" by force
      from werr [OF w] obtain new2 where s2: "sess_state s2 = Authenticated mb1 fl t" "history s2 = history s @ (new1 @ new2)"
        and n2: "list_all (\<lambda>e. \<not> is_deletion e) new2" by auto
      have d2: "attempts (new1 @ new2) = asked mb ?qs"
        using d1 attempts_none [OF n2] by simp
      show ?thesis
      proof (cases go)
        case True
        with e x w Cons.prems(2) have "run_requests env rs s2 = (r, s')" by simp
        from buffer_step_more [OF st(2) \<open>marks (messages mb1) = _\<close> s2(2) d2 Cons.IH [OF s2(1) this]] show ?thesis by (simp add: all)
      next
        case False
        with e x w Cons.prems(2) have "r = Some Close" "s' = s2" by auto
        with buffer_step_last [OF s2(1) st(2) s2(2) True d2] show ?thesis by (simp add: all)
      qed
    qed
  next
    case False
    with m obtain e where e: "x = Some (Inl e)" "must_disconnect e" "marks (messages mb1) = marks (messages mb)" by auto
    obtain go s2 where w: "write_err env e s1 = (go, s2)" by force
    with e(2) have "\<not> go" by (auto simp: write_err_def split: prod.splits option.splits sum.splits if_splits)
    with e x w Cons.prems(2) have r: "r = Some Close" "s' = s2" by auto
    from werr [OF w] obtain new2 where s2: "sess_state s2 = Authenticated mb1 fl t" "history s2 = history s @ (new1 @ new2)"
      and n2: "list_all (\<lambda>e. \<not> is_deletion e) new2" by auto
    have "q \<noteq> Inr Quit"
    proof
      assume "q = Inr Quit"
      then have "marks_after ?n ?qs (marks (messages mb)) = marks (messages mb)" by simp
      with False e(3) show False by simp
    qed
    then have "attempts (new1 @ new2) = []" using del attempts_none [OF n2] by (simp add: asked_ungroup)
    from buffer_step_none [OF s2(1) st(2) s2(2) e(3) this, of r] r show ?thesis by (simp add: all)
  qed
qed

lemma ingest_buffer:
  assumes "limiter_answers env" "sess_state s = Authenticated mb fl t" "ingest env bs s = (r, s')"
  shows "buffer_step mb fl t s (map result_of (fst (run_all pop3_step (receiver s) bs))) r s'"
proof -
  have na: "\<not> is_not_authenticated s" using assms(2) by (simp add: is_not_authenticated_def)
  then obtain rs where loop: "ingest_loop (is_not_authenticated s) (scanner_banned env (history s)) 0 (receiver s) bs [] =
      Some (rs, snd (run_all pop3_step (receiver s) bs))"
    and all: "ungroup_all rs = map result_of (fst (run_all pop3_step (receiver s) bs))"
    using ingest_loop_results [of "is_not_authenticated s" "scanner_banned env (history s)" 0 "receiver s" bs "[]"]
    by (auto simp: ungroup_all_def)
  define s0 where "s0 = s\<lparr>receiver := snd (run_all pop3_step (receiver s) bs)\<rparr>"
  have s0: "sess_state s0 = Authenticated mb fl t" "history s0 = history s" using assms(2) by (simp_all add: s0_def)
  have "buffer_step mb fl t s0 (ungroup_all rs) r s'"
  proof (cases "snd (run_all pop3_step (receiver s) bs) = Parser_Panic")
    case True
    with assms(3) loop have "r = None" "s' = s0" by (simp_all add: ingest_def s0_def)
    with s0 show ?thesis by (intro buffer_step_none [where new = "[]"]) simp_all
  next
    case False
    with assms(3) loop have "run_requests env rs s0 = (r, s')" by (simp add: ingest_def s0_def)
    from run_requests_buffer [OF assms(1) s0(1) this] show ?thesis .
  qed
  then show ?thesis by (simp add: all buffer_step_def s0(2))
qed

text \<open>A \<open>QUIT\<close> of an authenticated client asks for the deletion of the marked messages.\<close>

lemma ingest_quit:
  "receiver s = Init \<Longrightarrow> ingest env (''QUIT'' @ crlf) s = run_requests env [Inr Quit] s"
proof -
  have p: "pop3_parse Init (''QUIT'' @ crlf) = (Inr Quit, Init, [])"
    using parse_print [of Quit "[]"] by simp
  have "ingest_loop na ban 0 Init (''QUIT'' @ crlf) [] = Some ([Inr Quit], Init)" for na ban
    by (subst ingest_loop.simps, simp only: p prod.case sum.case, subst ingest_loop.simps, simp add: group_request_def)
  moreover have "run_requests env [Inr Quit] (s\<lparr>receiver := Init\<rparr>) = run_requests env [Inr Quit] s" if "receiver s = Init"
    by (rule arg_cong [where f = "run_requests env [Inr Quit]"]) (simp add: that)
  ultimately show "receiver s = Init \<Longrightarrow> ingest env (''QUIT'' @ crlf) s = run_requests env [Inr Quit] s"
    unfolding ingest_def by (simp del: append.simps append_Cons run_requests.simps)
qed

lemma quit_deletes:
  assumes "sess_state s = Authenticated mb fl t" "receiver s = Init"
  shows "attempts (history (snd (ingest env (''QUIT'' @ crlf) s))) =
      attempts (history s) @ (if marked mb = {} then [] else [(mailbox_account_id mb, marked mb)])"
    "marked mb \<noteq> {} \<Longrightarrow> \<not> isl (emails_delete env (history s) (mailbox_account_id mb) (tenant_id t) (marked mb)) \<Longrightarrow>
      DeletedEmails (mailbox_account_id mb) (marked mb) \<in> set (history (snd (ingest env (''QUIT'' @ crlf) s)))"
proof -
  obtain x s1 where x: "run_request env (Inr Quit) s = (x, s1)" by force
  then have s1: "s1 = snd (handle_quit env s)" by (simp add: run_request_def validate_request_def Let_def and_then_def)
  obtain s2 where s2: "ingest env (''QUIT'' @ crlf) s = s2" by simp
  have "still s1 (snd (run_requests env [Inr Quit] s))"
  proof (cases "\<exists>e. x = Some (Inl e)")
    case True
    then obtain e where "x = Some (Inl e)" by blast
    moreover obtain go s3 where "write_err env e s1 = (go, s3)" by force
    ultimately show ?thesis using x still_write_err [of s1 env e] by (cases go) auto
  next
    case False
    then show ?thesis using x by (cases x) (auto split: sum.split session_result.split)
  qed
  then have "still s1 (snd s2)" using s2 ingest_quit [OF assms(2)] by simp
  then obtain new2 where h2: "history (snd s2) = history s1 @ new2" "attempts new2 = []" by (auto simp: still_def attempts_none)
  let ?e = "if isl (emails_delete env (history s) (mailbox_account_id mb) (tenant_id t) (marked mb))
           then DeletionFailed (mailbox_account_id mb) (marked mb) else DeletedEmails (mailbox_account_id mb) (marked mb)"
  have h1: "\<exists>new1. history s1 = history s @ (if marked mb = {} then [] else [?e]) @ new1 \<and> attempts new1 = []"
    using quit_still [OF assms(1), of env]
    by (cases "marked mb = {}") (auto simp: s1 still_def log_effect_def attempts_none)
  then show "attempts (history (snd (ingest env (''QUIT'' @ crlf) s))) =
      attempts (history s) @ (if marked mb = {} then [] else [(mailbox_account_id mb, marked mb)])"
    using h2 s2 by (cases "marked mb = {}"; cases "isl (emails_delete env (history s) (mailbox_account_id mb) (tenant_id t) (marked mb))") auto
  show "DeletedEmails (mailbox_account_id mb) (marked mb) \<in> set (history (snd (ingest env (''QUIT'' @ crlf) s)))"
    if "marked mb \<noteq> {}" "\<not> isl (emails_delete env (history s) (mailbox_account_id mb) (tenant_id t) (marked mb))"
    using h1 h2 s2 that by auto
qed

text \<open>
  C18: Messages are deleted by \<open>QUIT\<close> and by nothing else, and \<open>QUIT\<close> deletes all that are marked. In an authenticated session
  the marks after a buffer are those of the specification for the requests carried out, in
  the order in which the client sent them, and the deletions asked for are one for each \<open>QUIT\<close> among them with marks,
  of exactly the messages that \<open>DELE\<close> had marked and no \<open>RSET\<close> had taken back by then, from the account of
  the session. All requests are carried out unless the connection is closed. After a buffer that leaves the
  connection open at the end of a line, \<open>QUIT\<close> asks for the deletion of all the marked messages, which succeeds
  if the store answers without an error. Requests may be limited; the limiter is taken to answer.
\<close>

theorem pop3_quit_deletes_marked:
  assumes lim: "limiter_answers env" and st: "sess_state s = Authenticated mb fl t" and run: "ingest env bs s = (r, s')"
  shows "let rs = map result_of (fst (run_all pop3_step (receiver s) bs)); n = length (messages mb); a = mailbox_account_id mb in
    (\<exists>k mb' new. k \<le> length rs \<and> (r = Some Continue \<longrightarrow> k = length rs) \<and>
       sess_state s' = Authenticated mb' fl t \<and> same_messages mb mb' \<and>
       marks (messages mb') = marks_after n (take k rs) (marks (messages mb)) \<and> history s' = history s @ new \<and>
       attempts new = map (\<lambda>M. (a, ids_of mb M)) (quits n (take k rs) (marks (messages mb)))) \<and>
    (r = Some Continue \<and> receiver s' = Init \<longrightarrow>
       (let ids = ids_of mb (marks_after n rs (marks (messages mb))); h = history (snd (ingest env (''QUIT'' @ crlf) s')) in
          attempts h = attempts (history s') @ (if ids = {} then [] else [(a, ids)]) \<and>
          (ids \<noteq> {} \<and> \<not> isl (emails_delete env (history s') a (tenant_id t) ids) \<longrightarrow> DeletedEmails a ids \<in> set h)))"
proof -
  let ?rs = "map result_of (fst (run_all pop3_step (receiver s) bs))"
  from ingest_buffer [OF lim st run] obtain k mb' new where
    b: "k \<le> length ?rs" "r = Some Continue \<longrightarrow> k = length ?rs" "sess_state s' = Authenticated mb' fl t" "same_messages mb mb'"
      "marks (messages mb') = marks_after (length (messages mb)) (take k ?rs) (marks (messages mb))"
      "history s' = history s @ new" "attempts new = asked mb (take k ?rs)"
    unfolding buffer_step_def by blast
  have "marked mb' = ids_of mb (marks (messages mb'))"
    using ids_of_same [OF b(4)] marks_bound [of "messages mb'"] same_messages_nth(1) [OF b(4)] by (simp add: marked_ids)
  with b(2,5) have ids: "r = Some Continue \<Longrightarrow> ids_of mb (marks_after (length (messages mb)) ?rs (marks (messages mb))) = marked mb'"
    by simp
  have acct: "mailbox_account_id mb = mailbox_account_id mb'" using same_messages_nth(2) [OF b(4)] by simp
  show ?thesis
    unfolding Let_def
  proof (intro conjI impI)
    show "\<exists>k mb' new. k \<le> length ?rs \<and> (r = Some Continue \<longrightarrow> k = length ?rs) \<and>
       sess_state s' = Authenticated mb' fl t \<and> same_messages mb mb' \<and>
       marks (messages mb') = marks_after (length (messages mb)) (take k ?rs) (marks (messages mb)) \<and> history s' = history s @ new \<and>
       attempts new = map (\<lambda>M. (mailbox_account_id mb, ids_of mb M)) (quits (length (messages mb)) (take k ?rs) (marks (messages mb)))"
      using b unfolding asked_def by blast
  qed (use quit_deletes [OF b(3), of env] in \<open>auto simp only: ids acct\<close>)
qed

section \<open>Grouped deletions\<close>

fun text_written :: "effect \<Rightarrow> bytes" where
  "text_written (Wrote bs) = bs"
| "text_written _ = []"

definition written :: "pop3_session \<Rightarrow> bytes" where
  "written s = concat (map text_written (history s))"

text \<open>The limiter of requests, if there is one, admits them all.\<close>

definition limiter_admits :: "pop3_env \<Rightarrow> bool" where
  "limiter_admits env \<longleftrightarrow> (rate_requests env \<longrightarrow> (\<forall>h a. is_rate_allowed env h a = Inr True))"

definition asked_rate :: "pop3_env \<Rightarrow> pop3_session \<Rightarrow> pop3_session" where
  "asked_rate env s = (if rate_requests env then log_effect AskedRate s else s)"

lemma asked_rate_same [simp]:
  "sess_state (asked_rate env s) = sess_state s" "receiver (asked_rate env s) = receiver s" "written (asked_rate env s) = written s"
  by (simp_all add: asked_rate_def log_effect_def written_def)

lemma validate_dele:
  assumes "limiter_admits env" "sess_state s = Authenticated mb fl t" "c = Dele m \<or> c = DeleMany msgs"
  shows "validate_request env c s = (Inr (), asked_rate env s)"
  using assms by (auto simp: validate_request_def limiter_admits_def asked_rate_def)

lemma run_dele:
  assumes "\<forall>h bs. write_works env h bs" "limiter_admits env" "sess_state s = Authenticated mb fl t" "has_permission t Pop3Dele"
    and "r = Inr (Dele m) \<and> msgs = [m] \<or> r = Inr (DeleMany msgs)"
  shows "run_request env r s =
    (Some (Inr Continue),
     log_effect (Wrote (snd (dele_loop msgs (messages mb))))
       (set_mailbox (mb\<lparr>messages := fst (dele_loop msgs (messages mb))\<rparr>) (asked_rate env s)))"
  using assms validate_dele [OF assms(2,3)]
  by (auto simp: run_request_def handle_dele_def with_mailbox_def write_bytes_def and_then_def split: prod.split)

definition rate_checks :: "pop3_session \<Rightarrow> nat" where
  "rate_checks s = length (filter (\<lambda>e. e = AskedRate) (history s))"

lemma rate_checks_dele [simp]:
  "rate_checks (log_effect (Wrote bs) (set_mailbox mb (asked_rate env s))) = rate_checks s + (if rate_requests env then 1 else 0)"
  by (simp add: rate_checks_def asked_rate_def log_effect_def set_mailbox_state)

lemma run_deles:
  assumes "\<forall>h bs. write_works env h bs" "limiter_admits env" "has_permission t Pop3Dele"
  shows "sess_state s = Authenticated mb fl t \<Longrightarrow>
    \<exists>s'. run_requests env (map (\<lambda>m. Inr (Dele m)) msgs) s = (Some Continue, s') \<and>
      sess_state s' = Authenticated (mb\<lparr>messages := fst (dele_loop msgs (messages mb))\<rparr>) fl t \<and> receiver s' = receiver s \<and>
      written s' = written s @ snd (dele_loop msgs (messages mb)) \<and>
      rate_checks s' = rate_checks s + (if rate_requests env then length msgs else 0)"
proof (induction msgs arbitrary: s mb)
  case (Cons m msgs)
  obtain ms1 r1 where d1: "dele_one m (messages mb) = (ms1, r1)" by force
  obtain ms2 r2 where d2: "dele_loop msgs ms1 = (ms2, r2)" by force
  define s1 where "s1 = log_effect (Wrote r1) (set_mailbox (mb\<lparr>messages := ms1\<rparr>) (asked_rate env s))"
  have run: "run_request env (Inr (Dele m)) s = (Some (Inr Continue), s1)"
    using run_dele [OF assms(1,2) Cons.prems assms(3), of "Inr (Dele m)" m "[m]"] d1 by (simp add: s1_def)
  have st: "sess_state s1 = Authenticated (mb\<lparr>messages := ms1\<rparr>) fl t"
    using set_mailbox_state(1) [of "asked_rate env s"] Cons.prems by (simp add: s1_def)
  have "written s1 = written s @ r1" "receiver s1 = receiver s"
    "rate_checks s1 = rate_checks s + (if rate_requests env then 1 else 0)"
    by (simp_all add: s1_def) (simp_all add: written_def log_effect_def set_mailbox_def asked_rate_def split: session_state.split)
  with Cons.IH [OF st] run d1 d2 show ?case by auto
qed auto

text \<open>
  C25: As long as the connection takes the answers and the limiter, if there is one, admits the
  requests, grouping deletions changes nothing for an authenticated client: one request for several messages
  and the single requests one after the other give the same result, leave the same marks and write
  the same text, with one answer per message. To the limiter they differ: it is asked once for a
  group, and once for every single request that is carried out.
\<close>

theorem grouping_transparent:
  assumes "\<forall>h bs. write_works env h bs" "limiter_admits env" "sess_state s = Authenticated mb fl t" "msgs \<noteq> []"
    and "run_requests env [Inr (DeleMany msgs)] s = (r1, s1)" "run_requests env (map (\<lambda>m. Inr (Dele m)) msgs) s = (r2, s2)"
  shows "r1 = r2 \<and> sess_state s1 = sess_state s2 \<and> receiver s1 = receiver s2 \<and> written s1 = written s2 \<and>
    (rate_requests env \<and> has_permission t Pop3Dele \<longrightarrow>
       rate_checks s1 = rate_checks s + 1 \<and> rate_checks s2 = rate_checks s + length msgs)"
proof (cases "has_permission t Pop3Dele")
  case True
  let ?d = "dele_loop msgs (messages mb)"
  let ?s = "log_effect (Wrote (snd ?d)) (set_mailbox (mb\<lparr>messages := fst ?d\<rparr>) (asked_rate env s))"
  have s1: "r1 = Some Continue" "s1 = ?s"
    using run_dele [OF assms(1-3) True, of "Inr (DeleMany msgs)" undefined msgs] assms(5) by simp_all
  have "sess_state ?s = Authenticated (mb\<lparr>messages := fst ?d\<rparr>) fl t" "receiver ?s = receiver s" "written ?s = written s @ snd ?d"
    using assms(3) by (simp_all add: written_def log_effect_def set_mailbox_def asked_rate_def)
  moreover have "rate_requests env \<Longrightarrow> rate_checks ?s = rate_checks s + 1" by simp
  ultimately show ?thesis using s1 run_deles [OF assms(1,2) True assms(3), of msgs] assms(6) by auto
next
  case False
  have "run_request env r s = (Some (Inl (unauthorized env Pop3Dele)), asked_rate env s)"
    if "r = Inr (Dele m) \<or> r = Inr (DeleMany ms)" for r m ms
    using that False assms(3) validate_dele [OF assms(2,3)]
    by (auto simp: run_request_def handle_dele_def with_mailbox_def and_then_def)
  with assms(4-6) False show ?thesis
    by (cases msgs) (auto simp: write_err_def unauthorized_def err_text_def should_write_err_def must_disconnect_def)
qed

lemma parse_deles:
  "pop3_parse Init (''DELE 1'' @ crlf @ ''DELE 2'' @ crlf) = (Inr (Dele 1), Init, ''DELE 2'' @ crlf)"
  "pop3_parse Init (''DELE 2'' @ crlf) = (Inr (Dele 2), Init, [])"
proof -
  have line: "pop3_print (Dele 1) = ''DELE 1'' @ crlf" "pop3_print (Dele 2) = ''DELE 2'' @ crlf"
    by code_simp+
  show "pop3_parse Init (''DELE 1'' @ crlf @ ''DELE 2'' @ crlf) = (Inr (Dele 1), Init, ''DELE 2'' @ crlf)"
    using parse_print [of "Dele 1" "''DELE 2'' @ crlf"] unfolding line by simp
  show "pop3_parse Init (''DELE 2'' @ crlf) = (Inr (Dele 2), Init, [])"
    using parse_print [of "Dele 2" "[]"] unfolding line by simp
qed

lemma ingest_deles:
  "ingest_loop na ban 0 Init (''DELE 1'' @ crlf @ ''DELE 2'' @ crlf) [] = Some ([Inr (DeleMany [1, 2])], Init)"
  by (subst ingest_loop.simps, simp only: parse_deles prod.case sum.case,
      subst ingest_loop.simps, simp only: parse_deles prod.case sum.case,
      subst ingest_loop.simps, simp add: group_request_def)

text \<open>
  Before the login it does change something: two deletions in one buffer get
  a single answer, so that a client which sends its commands ahead takes the answer of the next command
  for that of the second deletion.
\<close>

theorem grouped_dele_one_error:
  assumes "\<forall>h bs. write_works env h bs" "sess_state s = NotAuthenticated f u" "receiver s = Init"
  shows "\<exists>s'. ingest env (''DELE 1'' @ crlf @ ''DELE 2'' @ crlf) s = (Some Continue, s') \<and>
    history s' = history s @ [Wrote (''-ERR Not authenticated.'' @ crlf)]"
proof -
  have "s\<lparr>receiver := Init\<rparr> = s" using assms(3) by simp
  then show ?thesis
    unfolding ingest_def assms(3) ingest_deles
    using assms(1,2)
    by (simp add: run_request_def validate_request_def Let_def write_err_def err_text_def should_write_err_def must_disconnect_def
        write_bytes_def error_serialize_def log_effect_def)
qed

section \<open>The start of TLS\<close>

lemma step_pending: "b \<noteq> LF \<Longrightarrow> snd (pop3_step st b) = None"
  by (cases st) (auto simp: store_letter_def Let_def split: sum.split option.split)

lemma feed_pending: "LF \<notin> set bs \<Longrightarrow> snd (feed pop3_step st bs) = None"
proof (induction bs arbitrary: st)
  case (Cons b bs)
  then have "snd (pop3_step st b) = None" by (intro step_pending) auto
  with Cons show ?case by (cases "pop3_step st b") simp
qed simp

lemma ingest_loop_pending:
  assumes "feed pop3_step Init bs = (st, None)"
  shows "ingest_loop na ban n st tb rs = ingest_loop na ban n Init (bs @ tb) rs"
  using pop3.parse_chunks(2) [OF assms] by (simp add: ingest_loop.simps [of _ _ _ _ tb] ingest_loop.simps [of _ _ _ _ "bs @ tb"])

text \<open>
  C26: What a client, or someone in its place, sends in the clear after \<open>STLS\<close> is not forgotten when
  the connection becomes encrypted: bytes that do not end a line are read as the
  beginning of the first command sent under TLS.
\<close>

theorem stls_keeps_plaintext:
  assumes "\<forall>h bs. write_works env h bs" "\<not> is_tls s" "receiver s = Init" "LF \<notin> set bs"
  shows "\<exists>s'. ingest env (''STLS'' @ crlf @ bs) s = (Some UpgradeTls, s') \<and>
    (let tls = into_tls s'; x = ingest env tb tls; y = ingest env (bs @ tb) (tls\<lparr>receiver := Init\<rparr>)
     in fst x = fst y \<and> history (snd x) = history (snd y) \<and> sess_state (snd x) = sess_state (snd y))"
proof -
  obtain st where st: "feed pop3_step Init bs = (st, None)"
    using feed_pending [OF assms(4), of Init] by (metis prod.collapse)
  have np: "st \<noteq> Parser_Panic" using parse_wf [OF _ pop3.parse_chunks(1) [OF st]] by auto
  have p1: "pop3_parse Init (''STLS'' @ crlf @ bs) = (Inr Stls, Init, bs)"
    using parse_prefix [OF command_letters(14), of "crlf @ bs"]
    by (simp add: parse_no_args [where request = Stls] command_parse_def)
  have loop: "ingest_loop na ban 0 Init (''STLS'' @ crlf @ bs) [] = Some ([Inr Stls], st)" for na ban
    by (subst ingest_loop.simps, simp only: p1 prod.case sum.case,
        subst ingest_loop.simps, simp add: pop3.parse_chunks(1) [OF st] group_request_def)
  define s' where "s' = log_effect (Wrote (''+OK Begin TLS negotiation now'' @ crlf)) (s\<lparr>receiver := st\<rparr>)"
  have "ingest env (''STLS'' @ crlf @ bs) s = (Some UpgradeTls, s')"
    unfolding ingest_def assms(3) loop using assms(1,2) np
    by (simp add: run_request_def validate_request_def Let_def handle_stls_def write_ok_def write_bytes_def and_then_def s'_def)
  moreover have "receiver (into_tls s') = st" by (simp add: s'_def into_tls_def log_effect_def)
  then have "let tls = into_tls s'; x = ingest env tb tls; y = ingest env (bs @ tb) (tls\<lparr>receiver := Init\<rparr>)
     in fst x = fst y \<and> history (snd x) = history (snd y) \<and> sess_state (snd x) = sess_state (snd y)"
    using ingest_loop_pending [OF st]
    by (simp add: ingest_def is_not_authenticated_def log_effect_def Let_def split: option.split)
  ultimately show ?thesis by blast
qed

section \<open>Examples\<close>

definition sample_token :: access_token where
  "sample_token =
     \<lparr> scope_idx = 0,
       inner = \<lparr> token_account_id = 7, token_tenant_id = None, member_of = [], access_list = [],
                 scopes = [scope_new (replicate PERMISSIONS_BITSET_SIZE (- 1)) 0], revision_account = 0, revision = 0, credential_version = 0 \<rparr> \<rparr>"

definition sample_message :: "u32 \<Rightarrow> mailbox_message" where
  "sample_message i = \<lparr> msg_id = i, msg_uid = i, msg_octets = 10, deleted = False \<rparr>"

definition sample_mailbox :: mailbox where
  "sample_mailbox =
     \<lparr> messages = [sample_message 3, sample_message 4], mailbox_account_id = 7, uid_validity = 1, total = 2, mailbox_octets = 20 \<rparr>"

definition sample_session :: pop3_session where
  "sample_session = session_new\<lparr>sess_state := Authenticated sample_mailbox False sample_token\<rparr>"

lemma sample_facts:
  "\<forall>h bs. write_works sample_pop3_env h bs" "limiter_admits sample_pop3_env"
  "sess_state sample_session = Authenticated sample_mailbox False sample_token" "receiver sample_session = Init"
  "limiter_answers sample_pop3_env" "rate_requests sample_pop3_env"
  by (auto simp: sample_pop3_env_def sample_session_def session_new_def limiter_admits_def limiter_answers_def)

lemma sample_permission: "has_permission sample_token Pop3Dele"
  by code_simp

lemma sample_dele:
  "\<exists>s'. ingest sample_pop3_env (''DELE 2'' @ crlf) sample_session = (Some Continue, s') \<and> receiver s' = Init"
proof -
  have "ingest_loop na ban 0 Init (''DELE 2'' @ crlf) [] = Some ([Inr (Dele 2)], Init)" for na ban
    by (subst ingest_loop.simps, simp only: parse_deles prod.case sum.case,
        subst ingest_loop.simps, simp add: group_request_def)
  then have "ingest sample_pop3_env (''DELE 2'' @ crlf) sample_session =
      run_requests sample_pop3_env (map (\<lambda>m. Inr (Dele m)) [2]) sample_session"
    unfolding ingest_def sample_facts(4) by (simp add: sample_session_def session_new_def)
  with run_deles [OF sample_facts(1,2) sample_permission sample_facts(3), of "[2]"] show ?thesis
    by (auto simp: sample_facts(4))
qed

text \<open>A client marks the second message, whose identifier is 4, and quits: the message is deleted.\<close>

theorem pop3_quit_deletes_marked_witness:
  "DeletedEmails 7 {4} \<in> set (history (snd (ingest sample_pop3_env (''QUIT'' @ crlf)
     (snd (ingest sample_pop3_env (''DELE 2'' @ crlf) sample_session)))))"
proof -
  have rs: "run_all pop3_step Init (''DELE 2'' @ crlf) = ([Inr (Dele 2)], Init)"
    using pop3.run_all_parse [of Init "''DELE 2'' @ crlf"] by (simp add: parse_deles(2) del: append.simps append_Cons)
  obtain s' where s': "ingest sample_pop3_env (''DELE 2'' @ crlf) sample_session = (Some Continue, s')" "receiver s' = Init"
    using sample_dele by blast
  have "ids_of sample_mailbox (marks_after (length (messages sample_mailbox)) [Inr (Dele 2)] (marks (messages sample_mailbox))) = {4}"
    by (auto simp: marks_def sample_mailbox_def sample_message_def ids_of_def less_Suc_eq nth_Cons split: nat.splits)
  moreover have "\<not> isl (emails_delete sample_pop3_env (history s') a t ids)" for a t ids by (simp add: sample_pop3_env_def)
  moreover have "mailbox_account_id sample_mailbox = 7" by (simp add: sample_mailbox_def)
  ultimately show ?thesis
    using pop3_quit_deletes_marked [OF sample_facts(5,3) s'(1)] s' unfolding sample_facts(4) rs Let_def by auto
qed

theorem grouping_transparent_witness:
  "written (snd (run_requests sample_pop3_env [Inr (DeleMany [1, 1])] sample_session)) =
   written (snd (run_requests sample_pop3_env [Inr (Dele 1), Inr (Dele 1)] sample_session)) \<and>
   rate_checks (snd (run_requests sample_pop3_env [Inr (DeleMany [1, 1])] sample_session)) = 1 \<and>
   rate_checks (snd (run_requests sample_pop3_env [Inr (Dele 1), Inr (Dele 1)] sample_session)) = 2"
proof -
  obtain r1 s1 where a: "run_requests sample_pop3_env [Inr (DeleMany [1, 1])] sample_session = (r1, s1)" by force
  obtain r2 s2 where b: "run_requests sample_pop3_env (map (\<lambda>m. Inr (Dele m)) [1, 1]) sample_session = (r2, s2)" by force
  have "rate_checks sample_session = 0" by (simp add: rate_checks_def sample_session_def session_new_def)
  with grouping_transparent [OF sample_facts(1-3) _ a b] sample_facts(6) sample_permission
  have "written s1 = written s2 \<and> rate_checks s1 = 1 \<and> rate_checks s2 = 2" by simp
  then show ?thesis unfolding a using b by (simp only: list.map snd_conv)
qed

theorem grouped_dele_one_error_witness:
  "\<exists>s'. ingest sample_pop3_env (''DELE 1'' @ crlf @ ''DELE 2'' @ crlf) session_new = (Some Continue, s') \<and>
    history s' = [Wrote (''-ERR Not authenticated.'' @ crlf)]"
  using grouped_dele_one_error [OF sample_facts(1), of session_new 0 None] by (simp add: session_new_def)

theorem stls_keeps_plaintext_witness:
  "\<exists>s'. ingest sample_pop3_env (''STLS'' @ crlf @ ''USER x'') session_new = (Some UpgradeTls, s') \<and>
    history (snd (ingest sample_pop3_env (''y'' @ crlf) (into_tls s'))) =
    history (snd (ingest sample_pop3_env (''USER xy'' @ crlf) ((into_tls s')\<lparr>receiver := Init\<rparr>)))"
  using stls_keeps_plaintext [OF sample_facts(1), of session_new "''USER x''" "''y'' @ crlf"]
  by (auto simp: session_new_def Let_def)

section \<open>Oddities\<close>

text \<open>Message zero is message one; unique identifiers of different messages can agree; the counters forget nothing and wrap.\<close>

lemma zero_is_first: "mark_step n (Inr (Dele 0)) M = mark_step n (Inr (Dele 1)) M" "message_at mb 0 = message_at mb 1"
  by (simp_all add: message_at_def)

lemma unique_ids_collide:
  "unique_id (mb\<lparr>uid_validity := 1\<rparr>) (m\<lparr>msg_uid := 23\<rparr>) = unique_id (mb\<lparr>uid_validity := 12\<rparr>) (m\<lparr>msg_uid := 3\<rparr>)"
  by (simp add: unique_id_def decimal.simps)

lemma empty_mailbox_has_no_account: "emails cache = [] \<Longrightarrow> mailbox_account_id (build_mailbox a cache) = 0"
  by (simp add: build_mailbox_def mailbox_default_def)

end
