(* ===== verification/Spec2Isabelle.thy ===== *)
theory Spec2Isabelle
  imports Leb128 Base32 Keyword Pop3 ImapReceiver Limiter Sharing ExprText SmtpDelivery SmtpManager Pop3Maildrop
begin

text \<open>
  A verification library for the core of a mail and groupware server written in
  Rust (\<^verbatim>\<open>src/crates\<close>). Paths below are relative to that directory.

  \<^bold>\<open>The program.\<close> The server accepts requests by IMAP, POP3, ManageSieve, JMAP,
  WebDAV and SMTP. A request is cut out of the byte stream by a protocol parser, is
  carried out under an access token that says what the account may do and whose
  data it reaches, reads and writes documents whose numbers, identifiers and
  keywords have compact codes, and may put a message into the outbound queue,
  from where a manager hands it to concurrent deliveries. Settings are
  expressions, compiled when the settings are loaded and evaluated by all
  protocols. The library follows these layers.

  \<^bold>\<open>Conventions\<close> (\<open>Prelude\<close>). A \<open>u8\<close>, \<open>u32\<close>, \<open>u64\<close> is a word of that width, \<open>usize\<close>
  is \<open>u64\<close> where it can wrap and \<open>nat\<close> where it is a length; bytes of protocols
  are characters, strings are lists of them. \<open>Result\<close> is a sum with the error on
  the left, a panic is \<open>None\<close>. Asynchronous calls that only wait are ordinary
  calls; where interleaving matters the steps are an inductive relation. A parser that panics ends
  in a state of its own, of which it is proved that it is not reached. The
  prelude holds the interfaces: \<open>prefix_code\<close> (self-delimiting codes),
  \<open>code_table\<close> (numbers of enumerations), \<open>incremental_parser\<close> and
  \<open>complete_parser\<close> (parsers fed with buffers, whose results do not depend
  on how the stream is split). Each is interpreted where a component provides it.

  \<^bold>\<open>Codes.\<close>
  \<^item> \<open>Leb128\<close> (\<^verbatim>\<open>utils/src/codec/leb128.rs\<close>), \<open>Base32\<close> (\<^verbatim>\<open>utils/src/codec/base32_custom.rs\<close>): writers and readers
    byte by byte with their bit buffers; round trips, skipping, lengths.
  \<^item> \<open>Bitmap\<close> (\<^verbatim>\<open>utils/src/map/bitmap.rs\<close>), \<open>Bitset\<close> (\<^verbatim>\<open>trc/src/ipc/bitset.rs\<close>): sets in machine words; the interfaces
    \<open>bitmap_item\<close> and \<open>fixed_set\<close> read them as sets.
  \<^item> \<open>Collections\<close> (\<^verbatim>\<open>types/src/collection.rs\<close>, \<^verbatim>\<open>type_state.rs\<close>), \<open>Keyword\<close> (\<^verbatim>\<open>types/src/keyword.rs\<close>,
    \<^verbatim>\<open>special_use.rs\<close>), \<open>JmapId\<close> (\<^verbatim>\<open>types/src/id.rs\<close>), \<open>Acl\<close> (\<^verbatim>\<open>types/src/acl.rs\<close>): enumerations with their numeric and textual
    codes, identifiers; the codes are injective and read back.

  \<^bold>\<open>Protocol parsers.\<close>
  \<^item> \<open>Pop3\<close> (\<^verbatim>\<open>pop3/src/protocol\<close> and the loop of \<^verbatim>\<open>client.rs\<close>): a step per byte; bounds
    of the state, printing and parsing, the requests of a buffer in order.
  \<^item> \<open>ImapReceiver\<close> (\<^verbatim>\<open>imap-proto/src/receiver.rs\<close>): the receiver with literals and quoted strings, its
    command tables for IMAP and ManageSieve; bounds, reset after each result,
    round trip of a printed request, skipping of oversized literals, and literals whose size does not fit in 32 bits,
    which are not skipped.

  \<^bold>\<open>The POP3 session.\<close>
  \<^item> \<open>Pop3Response\<close> (\<^verbatim>\<open>pop3/src/protocol/response.rs\<close>, \<^verbatim>\<open>utils/src/chained_bytes.rs\<close>): the responses and
    the bytes of a message as two joined slices; a client reads a message back.
  \<^item> \<open>Sasl\<close> (\<^verbatim>\<open>directory/src/core/sasl.rs\<close>): the credentials inside a challenge.
  \<^item> \<open>Pop3Session\<close> (\<^verbatim>\<open>pop3/src/client.rs\<close>, \<^verbatim>\<open>session.rs\<close>, \<^verbatim>\<open>mailbox.rs\<close>, \<^verbatim>\<open>op\<close>): the state of a session, each command,
    the reading loop and the switch to TLS. What the rest of the server answers (directory, rate
    limiters, message store, network) is a function of the effects that the session has had
    so far, so that no answer is fixed in advance.
  \<^item> \<open>Pop3Behaviour\<close>: the interfaces \<open>session_invariant\<close> and \<open>tls_invariant\<close> carry a property of the
    handlers through requests, buffers and connections; interpreted for the absence of panics in
    handlers and parser (\<open>panic_free\<close>), for the bound on logins with wrong credentials and for passwords in the clear. Logins that are
    refused for other reasons are not bounded (\<open>other_refusals_unbounded\<close>).
  \<^item> \<open>Pop3Maildrop\<close>: the marks of \<open>DELE\<close> and \<open>RSET\<close> as sets, what \<open>QUIT\<close> deletes, with or without a limit on
    requests, grouped deletions and what they cost of that limit, the bytes that survive the switch to TLS.

  \<^bold>\<open>Who may do what.\<close>
  \<^item> \<open>Permissions\<close> (\<^verbatim>\<open>common/src/auth/permissions.rs\<close>, \<^verbatim>\<open>mod.rs\<close>): the effective permissions over nested,
    possibly cyclic roles are a union over reachable roles, and lists that replace the roles count alone; tenants limit them
    in the enterprise edition, the permissions of an ordinary user otherwise.
  \<^item> \<open>IpMask\<close> (\<^verbatim>\<open>registry/src/types/ipmask.rs\<close>), \<open>AccessToken\<close> (\<^verbatim>\<open>common/src/auth/access_token.rs\<close>): building and checking tokens; the scopes of credentials
    only narrow, access is what was shared.
  \<^item> \<open>DavResources\<close> (\<^verbatim>\<open>common/src/storage/dav.rs\<close>), \<open>Sharing\<close> (\<^verbatim>\<open>common/src/sharing\<close>, \<^verbatim>\<open>dav/src/common/acl.rs\<close>): the cached tree of documents and what
    of it is shared with a user.
  \<^item> \<open>CacheInvalidate\<close> (\<^verbatim>\<open>common/src/cache/invalidate.rs\<close>): which cached objects a change makes stale; after the removal
    every cached token is the one that would be built now.
  \<^item> \<open>Limiter\<close> (\<^verbatim>\<open>common/src/network/limiter.rs\<close>): the counter of concurrent requests, serially and interleaved.

  \<^bold>\<open>Expressions\<close> (\<^verbatim>\<open>common/src/expr\<close>).
  \<^item> \<open>ExprValue\<close> (values and operators, \<^verbatim>\<open>mod.rs\<close>, \<^verbatim>\<open>eval.rs\<close>), \<open>ExprParser\<close> (\<^verbatim>\<open>parser.rs\<close>), \<open>ExprEval\<close> (\<^verbatim>\<open>eval.rs\<close>, \<^verbatim>\<open>if_block.rs\<close>),
    \<open>ExprNames\<close> (the tables of names), \<open>ExprTokenizer\<close> (\<^verbatim>\<open>tokenizer.rs\<close> and the compilation of settings) are the code.
  \<^item> \<open>ExprCompile\<close> has the abstract syntax and proves that the parser emits the code it
    means, with jump distances; \<open>ExprText\<close> goes from the text of a setting to its
    value through the interface \<open>compiled_language\<close>.

  \<^bold>\<open>The outbound queue\<close> (\<^verbatim>\<open>smtp/src/queue\<close>, \<^verbatim>\<open>smtp/src/outbound/delivery.rs\<close>).
  \<^item> \<open>SmtpQueue\<close>: messages, recipients, schedules, expiration, retries; the interface \<open>least_time\<close>
    covers all searches for the next time.
  \<^item> \<open>SmtpDsn\<close> (\<^verbatim>\<open>dsn.rs\<close>): which outcomes are reported, and the text of the reports as one block of fields for each
    recipient that is due.
  \<^item> \<open>SmtpSpool\<close> (\<^verbatim>\<open>spool.rs\<close>, \<^verbatim>\<open>quota.rs\<close>, the decisions of \<^verbatim>\<open>delivery.rs\<close>): the
    stored messages, events, counters and blob links, changed by batches that
    are applied as a whole or not at all.
  \<^item> \<open>SmtpSystem\<close>: the spool under interleaved deliveries that hold stale copies, changes
    by administrators, failing reads and writes and dying deliveries. A message with a pending recipient keeps an event unless
    a failed read removed it; the latter does happen (\<open>failed_read_forgets\<close>).
  \<^item> \<open>SmtpDelivery\<close>: quotas are conserved and saved recipients scheduled, except for what the
    save of a message in several queues loses (\<open>multi_queue_save_loses\<close>); a delivery changes its own recipients only.
  \<^item> \<open>SmtpManager\<close> (\<^verbatim>\<open>manager.rs\<close>, \<open>try_lock\<close> of \<^verbatim>\<open>store/src/dispatch/lookup.rs\<close>): locks, thread counts and
    refresh times of the manager, and the tasks it starts, each of which first takes a lock of ten minutes in the in-memory store. The counters
    are right in every state; two tasks can deliver the same message once such a lock has ended.

  \<^bold>\<open>Parameters.\<close> Code outside the repository is an argument of the definitions.
  Perfect-hash lookups (\<open>hashify\<close>) are a function with the table it was generated from as
  hypothesis; so are the operations on floating point numbers, regular
  expressions, Unicode lower case and IDNA, hashes, the resolution of variables and of
  recipients, and the lookups of roles, tenants and accounts in the registry. The notification
  flags of the SMTP protocol library are arbitrary bits that are distinct
  (\<open>separate_flags\<close>). That a retry schedule is not empty (\<open>retries_set\<close>) is
  checked by the validation of the registry, which is not modelled. The result of the conversation with a
  next hop is an argument, of which \<open>honest\<close> says that it names only
  recipients it was given. The address inside a JSON web token is a function of the token. Each property with such a hypothesis has an
  instance with concrete functions.

  \<^bold>\<open>Bounds.\<close> Every function is total and there is no fuel; the loop that prints a JMAP identifier
  is a partial function of which it is proved that it ends. Jump distances are \<open>u32\<close>, so the
  theorems on expressions ask for code of less than $2^{32}$ items and calls of less
  than $2^{31}$ arguments; the number of failed attempts of a recipient is a
  \<open>u32\<close>, and the theorem on retries asks for less than $2^{32}$ of them. The search over
  roles ends since each step visits a new role of a finite set.

  \<^bold>\<open>Simplifications.\<close> A phase of a delivery reads the clock once; reading that a
  message is gone, or failing to read it, and dropping its event is one step; queue identifiers are
  fresh when they are drawn; a lock is read and written in one step, in the form for a store of the server and not for Redis. Trace events and log messages are left out.

  \<^bold>\<open>Not modelled.\<close> The session handlers of IMAP, ManageSieve,
  JMAP, WebDAV and HTTP, which are dominated by input, output and database
  access; the inbound SMTP session and the conversation with remote servers;
  the storage backends and directory services (bindings of external
  services); spam filter and language processing (floating point numbers and tables);
  the generated settings schema and trace tables; start-up and migration. Of
  the modelled parts, the functions of expressions on text, the argument parsers of the single
  IMAP commands and the serialization traits are left out. The next parts
  would be the inbound SMTP session, the keys of the store and the argument parsers of IMAP.
\<close>

end
